(* ===== verification/Prelude.thy ===== *)
theory Prelude
  imports Complex_Main "HOL-Library.Monad_Syntax"
begin

text \<open>
  The vocabulary every component shares: results that may be an error, the SQL operations the
  code issues (SELECT, conditional UPDATE with its row count, DELETE) on a table given as the
  list of its rows in primary-key order, and the lemmas on them that carry the component
  proofs.

  Instants and durations are exact: a \<open>time\<close> is a rational number of seconds. The code's
  floats and datetimes are rounded (to a microsecond for a datetime); rounding is not modelled.
\<close>

type_synonym time = rat

named_theorems result_simps "case analysis of results"
named_theorems row_simps "lookups after table updates"

section \<open>Results\<close>

text \<open>A Python statement sequence in which the first exception ends the sequence.\<close>

definition bindR :: "'e + 'a \<Rightarrow> ('a \<Rightarrow> 'e + 'b) \<Rightarrow> 'e + 'b" where
  "bindR r f = (case r of Inl e \<Rightarrow> Inl e | Inr x \<Rightarrow> f x)"

lemma bindR_simps [simp]: "bindR (Inl e) f = Inl e" "bindR (Inr x) f = f x"
  by (simp_all add: bindR_def)

lemma bindR_eq_Inr [result_simps]: "bindR r f = Inr y \<longleftrightarrow> (\<exists>x. r = Inr x \<and> f x = Inr y)"
  by (cases r) auto

lemma bindR_eq_Inl [result_simps]:
  "bindR r f = Inl e \<longleftrightarrow> r = Inl e \<or> (\<exists>x. r = Inr x \<and> f x = Inl e)"
  by (cases r) auto

lemma split_eq [result_simps]: "(case p of (a, b) \<Rightarrow> f a b) = y \<longleftrightarrow> (\<exists>a b. p = (a, b) \<and> f a b = y)"
  by (cases p) simp

lemma bindR_assoc: "bindR (bindR r f) g = bindR r (\<lambda>x. bindR (f x) g)"
  by (cases r) auto

lemma bindR_cong [fundef_cong]:
  "r = r' \<Longrightarrow> (\<And>x. r' = Inr x \<Longrightarrow> f x = g x) \<Longrightarrow> bindR r f = bindR r' g"
  by (cases r) auto

section \<open>Tables\<close>

text \<open>
  \<open>update_where p f t\<close> is \<open>UPDATE t SET f WHERE p\<close>, and \<open>rowcount p t\<close> the number of
  rows it matches.
\<close>

definition update_where :: "('r \<Rightarrow> bool) \<Rightarrow> ('r \<Rightarrow> 'r) \<Rightarrow> 'r list \<Rightarrow> 'r list" where
  "update_where p f t = map (\<lambda>r. if p r then f r else r) t"

definition delete_where :: "('r \<Rightarrow> bool) \<Rightarrow> 'r list \<Rightarrow> 'r list" where
  "delete_where p t = filter (\<lambda>r. \<not> p r) t"

definition rowcount :: "('r \<Rightarrow> bool) \<Rightarrow> 'r list \<Rightarrow> nat" where
  "rowcount p t = length (filter p t)"

text \<open>\<open>SELECT ... WHERE key = k\<close> expected to give one row or none.\<close>

definition by_key :: "('r \<Rightarrow> 'k) \<Rightarrow> 'k \<Rightarrow> 'r list \<Rightarrow> 'r option" where
  "by_key key k t = find (\<lambda>r. key r = k) t"

lemma by_key_Some: "by_key key k t = Some r \<Longrightarrow> r \<in> set t \<and> key r = k"
  by (auto simp: by_key_def find_Some_iff)

lemma by_key_None: "by_key key k t = None \<longleftrightarrow> k \<notin> key ` set t"
  by (auto simp: by_key_def find_None_iff)

lemma by_key_unique:
  assumes "distinct (map key t)"
  shows "by_key key k t = Some r \<longleftrightarrow> r \<in> set t \<and> key r = k"
  using assms
proof (induction t)
  case Nil
  then show ?case by (simp add: by_key_def)
next
  case (Cons x t)
  then show ?case by (auto simp: by_key_def rev_image_eqI)
qed

lemma by_key_append [row_simps]:
  "by_key key k (t @ u) = (case by_key key k t of Some r \<Rightarrow> Some r | None \<Rightarrow> by_key key k u)"
  by (induction t) (auto simp: by_key_def)

lemma by_key_single [row_simps]: "by_key key k [r] = (if key r = k then Some r else None)"
  by (simp add: by_key_def)

lemma by_key_update [row_simps]:
  assumes "\<And>r. key (f r) = key r"
  shows "by_key key k (update_where p f t) =
    map_option (\<lambda>r. if p r then f r else r) (by_key key k t)"
  using assms by (induction t) (auto simp: by_key_def update_where_def)

lemma keys_update [row_simps]:
  assumes "\<And>r. key (f r) = key r"
  shows "map key (update_where p f t) = map key t"
  using assms by (auto simp: update_where_def)

lemma set_update_where: "set (update_where p f t) = (\<lambda>r. if p r then f r else r) ` set t"
  by (auto simp: update_where_def)

lemma length_update_where [simp]: "length (update_where p f t) = length t"
  by (simp add: update_where_def)

lemma update_where_Nil [simp]: "update_where p f [] = []"
  by (simp add: update_where_def)

lemma update_where_Cons [simp]:
  "update_where p f (r # t) = (if p r then f r else r) # update_where p f t"
  by (simp add: update_where_def)

lemma update_where_none: "(\<And>r. r \<in> set t \<Longrightarrow> \<not> p r) \<Longrightarrow> update_where p f t = t"
  by (induction t) auto

lemma rowcount_0: "rowcount p t = 0 \<longleftrightarrow> (\<forall>r \<in> set t. \<not> p r)"
  by (auto simp: rowcount_def filter_empty_conv)

lemma rowcount_pos: "0 < rowcount p t \<longleftrightarrow> (\<exists>r \<in> set t. p r)"
  by (auto simp: rowcount_def filter_empty_conv)

lemma rowcount_key:
  assumes "distinct (map key t)" and "\<And>r. p r \<Longrightarrow> key r = k"
  shows "rowcount p t = (case by_key key k t of None \<Rightarrow> 0 | Some r \<Rightarrow> if p r then 1 else 0)"
  using assms
proof (induction t)
  case Nil
  then show ?case by (simp add: rowcount_def by_key_def)
next
  case (Cons x t)
  show ?case
  proof (cases "key x = k")
    case True
    have "\<not> p r" if r: "r \<in> set t" for r
    proof
      assume "p r"
      then have "key r = key x" using Cons.prems(2) True by simp
      then show False using Cons.prems(1) r by (auto simp: image_iff)
    qed
    then have "\<forall>r \<in> set t. \<not> p r" by blast
    then show ?thesis using True by (simp add: rowcount_def by_key_def)
  next
    case False
    then have "\<not> p x" using Cons.prems(2) by blast
    moreover have "rowcount p t = (case by_key key k t of None \<Rightarrow> 0 | Some r \<Rightarrow> if p r then 1 else 0)"
      using Cons by auto
    ultimately show ?thesis using False by (simp add: rowcount_def by_key_def)
  qed
qed

lemma delete_where_subset: "set (delete_where p t) \<subseteq> set t"
  by (auto simp: delete_where_def)

lemma mem_delete_where [simp]: "r \<in> set (delete_where p t) \<longleftrightarrow> r \<in> set t \<and> \<not> p r"
  by (auto simp: delete_where_def)

lemma distinct_delete_where: "distinct (map key t) \<Longrightarrow> distinct (map key (delete_where p t))"
  by (induction t) (auto simp: delete_where_def)

lemma distinct_map_keyD:
  "distinct (map key t) \<Longrightarrow> r \<in> set t \<Longrightarrow> s \<in> set t \<Longrightarrow> key r = key s \<Longrightarrow> r = s"
  by (induction t) (auto simp: rev_image_eqI)

section \<open>Association lists and options\<close>

text \<open>Python's \<open>d.get(k, default)\<close> on a dict given as an association list.\<close>

definition get_or :: "('k \<times> 'v) list \<Rightarrow> 'k \<Rightarrow> 'v \<Rightarrow> 'v" where
  "get_or d k v = (case map_of d k of None \<Rightarrow> v | Some x \<Rightarrow> x)"

text \<open>The first of several optional values, Python's \<open>a or b\<close> on strings (empty is false).\<close>

definition str_or :: "string option \<Rightarrow> string \<Rightarrow> string" where
  "str_or a b = (case a of None \<Rightarrow> b | Some s \<Rightarrow> if s = [] then b else s)"

lemma find_after: "find P (xs @ ys) = (case find P xs of Some r \<Rightarrow> Some r | None \<Rightarrow> find P ys)"
  by (induction xs) auto

lemma find_upt_least:
  "find P [0..<n] = Some i \<longleftrightarrow> i < n \<and> P i \<and> (\<forall>j<i. \<not> P j)"
proof (induction n)
  case 0
  then show ?case by simp
next
  case (Suc n)
  show ?case
  proof (cases "find P [0..<n]")
    case None
    then have "\<forall>j<n. \<not> P j" by (auto simp: find_None_iff)
    then show ?thesis using None by (auto simp: find_after less_Suc_eq)
  next
    case (Some k)
    then have k: "k < n" "P k" "\<forall>j<k. \<not> P j" using Suc.IH Some find_Some_iff[of P "[0..<n]" k]
      by (auto simp: find_Some_iff)
    then show ?thesis using Some by (auto simp: find_after) (metis less_SucI linorder_neqE_nat)+
  qed
qed

section \<open>Transition systems\<close>

inductive reach :: "('s \<Rightarrow> bool) \<Rightarrow> ('s \<Rightarrow> 's \<Rightarrow> bool) \<Rightarrow> 's \<Rightarrow> bool"
  for init :: "'s \<Rightarrow> bool" and step :: "'s \<Rightarrow> 's \<Rightarrow> bool" where
  start: "init s \<Longrightarrow> reach init step s"
| more: "reach init step s \<Longrightarrow> step s t \<Longrightarrow> reach init step t"

text \<open>
  The contract by which a component's steps keep its invariant \<open>I\<close>: then every reachable
  state has it, and a property that one step keeps holds from then on.
\<close>

locale safe_system =
  fixes init :: "'s \<Rightarrow> bool" and step :: "'s \<Rightarrow> 's \<Rightarrow> bool" and I :: "'s \<Rightarrow> bool"
  assumes init_I: "init s \<Longrightarrow> I s"
    and step_I: "I s \<Longrightarrow> step s t \<Longrightarrow> I t"
begin

lemma reach_I: "reach init step s \<Longrightarrow> I s"
  by (induction rule: reach.induct) (auto intro: init_I step_I)

lemma later_I: "step\<^sup>*\<^sup>* s t \<Longrightarrow> I s \<Longrightarrow> I t"
  by (induction rule: rtranclp_induct) (auto intro: step_I)

lemma stable:
  assumes keep: "\<And>s t. I s \<Longrightarrow> step s t \<Longrightarrow> P s \<Longrightarrow> P t"
    and "step\<^sup>*\<^sup>* s t" and "I s" and "P s"
  shows "P t"
  using assms(2-4) by (induction rule: rtranclp_induct) (auto intro: keep later_I)

lemma reach_later: "step\<^sup>*\<^sup>* s t \<Longrightarrow> reach init step s \<Longrightarrow> reach init step t"
  by (induction rule: rtranclp_induct) (auto intro: reach.more)

end

end
