(* ===== verification/Enums.thy ===== *)
theory Enums
  imports Prelude
begin

text \<open>
  The shared enumerations (\<^verbatim>\<open>core/enums.py\<close>) as datatypes, with the string each
  member carries (\<^verbatim>\<open>StrEnum\<close>), and the set of terminal job statuses.
\<close>

datatype job_status =
  RECEIVED | QUEUED | VALIDATING | DATA_PREPARING | EVALUATING_VERSIONS | REUSE_DECISION
| DECISION_PENDING | ADAPTING | VALIDATING_CANDIDATE | REGISTERING | PROMOTING
| COMPLETED | FAILED | ROLLED_BACK | TIMED_OUT | CANCELLED
| ANALYZING | MODEL_COMPARISON | DECISION_MADE

text \<open>Members in declaration order, as \<^verbatim>\<open>list(JobStatus)\<close> gives them.\<close>

definition all_statuses :: "job_status list" where
  "all_statuses = [RECEIVED, QUEUED, VALIDATING, DATA_PREPARING, EVALUATING_VERSIONS,
     REUSE_DECISION, DECISION_PENDING, ADAPTING, VALIDATING_CANDIDATE, REGISTERING, PROMOTING,
     COMPLETED, FAILED, ROLLED_BACK, TIMED_OUT, CANCELLED, ANALYZING, MODEL_COMPARISON,
     DECISION_MADE]"

instantiation job_status :: enum
begin
definition enum_job_status :: "job_status list" where
  "enum_job_status = all_statuses"
definition enum_all_job_status :: "(job_status \<Rightarrow> bool) \<Rightarrow> bool" where
  "enum_all_job_status P = list_all P all_statuses"
definition enum_ex_job_status :: "(job_status \<Rightarrow> bool) \<Rightarrow> bool" where
  "enum_ex_job_status P = list_ex P all_statuses"
instance
proof
  show u: "UNIV = set (enum_class.enum :: job_status list)"
  proof (rule UNIV_eq_I)
    fix s :: job_status
    show "s \<in> set enum_class.enum" by (cases s) (simp_all add: enum_job_status_def all_statuses_def)
  qed
  show "distinct (enum_class.enum :: job_status list)"
    by (simp add: enum_job_status_def all_statuses_def)
  show "enum_class.enum_all P = Ball UNIV P" for P :: "job_status \<Rightarrow> bool"
    using u by (simp add: enum_all_job_status_def enum_job_status_def list_all_iff)
  show "enum_class.enum_ex P = Bex UNIV P" for P :: "job_status \<Rightarrow> bool"
    using u by (simp add: enum_ex_job_status_def enum_job_status_def list_ex_iff)
qed
end

fun status_value :: "job_status \<Rightarrow> string" where
  "status_value RECEIVED = ''RECEIVED''"
| "status_value QUEUED = ''QUEUED''"
| "status_value VALIDATING = ''VALIDATING''"
| "status_value DATA_PREPARING = ''DATA_PREPARING''"
| "status_value EVALUATING_VERSIONS = ''EVALUATING_VERSIONS''"
| "status_value REUSE_DECISION = ''REUSE_DECISION''"
| "status_value DECISION_PENDING = ''DECISION_PENDING''"
| "status_value ADAPTING = ''ADAPTING''"
| "status_value VALIDATING_CANDIDATE = ''VALIDATING_CANDIDATE''"
| "status_value REGISTERING = ''REGISTERING''"
| "status_value PROMOTING = ''PROMOTING''"
| "status_value COMPLETED = ''COMPLETED''"
| "status_value FAILED = ''FAILED''"
| "status_value ROLLED_BACK = ''ROLLED_BACK''"
| "status_value TIMED_OUT = ''TIMED_OUT''"
| "status_value CANCELLED = ''CANCELLED''"
| "status_value ANALYZING = ''ANALYZING''"
| "status_value MODEL_COMPARISON = ''MODEL_COMPARISON''"
| "status_value DECISION_MADE = ''DECISION_MADE''"

text \<open>\<^verbatim>\<open>JobStatus(value)\<close>: the member with that value; a ValueError is \<open>None\<close>.\<close>

definition status_of :: "string \<Rightarrow> job_status option" where
  "status_of v = find (\<lambda>s. status_value s = v) all_statuses"

definition terminal_statuses :: "job_status list" where
  "terminal_statuses = [COMPLETED, FAILED, ROLLED_BACK, TIMED_OUT, CANCELLED]"

definition is_terminal :: "job_status \<Rightarrow> bool" where
  "is_terminal s \<longleftrightarrow> s \<in> set terminal_statuses"

lemma is_terminal_simps [simp]:
  "\<not> is_terminal RECEIVED" "\<not> is_terminal QUEUED" "\<not> is_terminal VALIDATING"
  "\<not> is_terminal DATA_PREPARING" "\<not> is_terminal EVALUATING_VERSIONS"
  "\<not> is_terminal REUSE_DECISION" "\<not> is_terminal DECISION_PENDING" "\<not> is_terminal ADAPTING"
  "\<not> is_terminal VALIDATING_CANDIDATE" "\<not> is_terminal REGISTERING" "\<not> is_terminal PROMOTING"
  "is_terminal COMPLETED" "is_terminal FAILED" "is_terminal ROLLED_BACK" "is_terminal TIMED_OUT"
  "is_terminal CANCELLED" "\<not> is_terminal ANALYZING" "\<not> is_terminal MODEL_COMPARISON"
  "\<not> is_terminal DECISION_MADE"
  by (simp_all add: is_terminal_def terminal_statuses_def)

lemma status_of_value [simp]: "status_of (status_value s) = Some s"
  by (cases s) (simp_all add: status_of_def all_statuses_def)

datatype strategy =
  FINE_TUNING | FULL_RETRAINING | ROLLBACK | NO_ACTION | INSUFFICIENT_INFORMATION
| NO_COMPATIBLE_STRATEGY

datatype reuse_verdict = REUSE_EXISTING_VERSION | ADAPT_MODEL | RETRAIN_MODEL

datatype version_status = CANDIDATE | VALIDATED | LIVE | ARCHIVED

datatype promotion_kind = PROMOTE_CANDIDATE | REUSE | ROLLBACK_KIND

datatype cdc_operation = CDC_INSERT | CDC_UPDATE | CDC_DELETE

datatype audit_action =
  DRIFT_RECEIVED | DATA_VERSION_CREATED | CURRENT_DATA_CREATED | MODEL_VERSION_EVALUATED
| MODEL_REUSE_SELECTED | ADAPTATION_DECISION_CREATED | FINE_TUNE_STARTED | RETRAIN_STARTED
| ADAPTER_GENERATED | SANDBOX_EXECUTED | VALIDATION_STARTED | VALIDATION_PASSED
| VALIDATION_FAILED | MODEL_REGISTERED | MODEL_PROMOTED | MODEL_ROLLED_BACK
| NOTIFICATION_REDRIVEN | JOB_CANCEL_REQUESTED | GATE_DECIDED | ROLLOUT_STARTED
| ROLLOUT_ADVANCED | ROLLOUT_FINISHED

end
