(* ===== verification/Errors.thy ===== *)
theory Errors
  imports Enums
begin

text \<open>
  The structured exceptions (\<^verbatim>\<open>core/errors.py\<close>). Every exception class is a
  constructor of \<open>err_class\<close>; \<open>parent\<close> is the class hierarchy, \<open>code_of\<close> the stable code of
  the class and \<open>reason_of\<close> the fallback reason of the LLM errors. An exception is a record of
  its class, its code, its message and its context (a dict as an association list).
  \<open>rebuild_error\<close> restores an exception sent across a process boundary.

  Raising sites of the other theories give the class and the context entries the program reads
  back; free-text messages are left empty there.
\<close>

datatype (plugins only: code size) err_class =
  AdaptationError | ConfigurationError | RegistryUnavailableError | DatabaseUnavailableError
  | ModelNotFoundError | ConflictError | DataVersionConflictError | InvalidReferenceError
  | DatasetNotFoundError | ArtifactError | DataSourceNotAllowedError
  | DataSourceUnavailableError | DataSourceChangedError | DataFormatError
  | DataTooLargeError | UnsupportedAdaptationError | UnsupportedModelTypeError
  | ValidationFailedError | LlmUnavailableError | LlmCircuitOpenError
  | LlmBudgetExceededError | UnsafeCodeError | SandboxExecutionError
  | ArtifactIntegrityError | ModelBusyError | InvalidTransitionError | PromotionError
  | DeploymentError | DeploymentUnavailableError | CdcUnavailableError | CdcProcessingError
  | DataLeakageError | JobTimeoutError | JobAbandonedError | JobNotFoundError
  | JobCancelledError | JobLeaseLostError | JobDrainedError | JobQuarantinedError
  | JobQueueUnavailableError | JobNotCancellableError | AuthenticationError
  | PermissionDeniedError | RateLimitedError | OutboundBlockedError
  | NotificationDeliveryError | DeliveryNotFoundError | SignatureVerificationError
  | JobWorkerError | JobWorkerLostError | WorkerUnhealthyError | SchemaNotReadyError
  | RolloutNotFoundError | RolloutStateError | RolloutMetricsUnavailableError
  | EventMapperNotFoundError | EventMappingError

definition err_classes :: "err_class list" where
  "err_classes = [
     AdaptationError, ConfigurationError, RegistryUnavailableError, DatabaseUnavailableError
     , ModelNotFoundError, ConflictError, DataVersionConflictError, InvalidReferenceError
     , DatasetNotFoundError, ArtifactError, DataSourceNotAllowedError
     , DataSourceUnavailableError, DataSourceChangedError, DataFormatError
     , DataTooLargeError, UnsupportedAdaptationError, UnsupportedModelTypeError
     , ValidationFailedError, LlmUnavailableError, LlmCircuitOpenError
     , LlmBudgetExceededError, UnsafeCodeError, SandboxExecutionError
     , ArtifactIntegrityError, ModelBusyError, InvalidTransitionError, PromotionError
     , DeploymentError, DeploymentUnavailableError, CdcUnavailableError, CdcProcessingError
     , DataLeakageError, JobTimeoutError, JobAbandonedError, JobNotFoundError
     , JobCancelledError, JobLeaseLostError, JobDrainedError, JobQuarantinedError
     , JobQueueUnavailableError, JobNotCancellableError, AuthenticationError
     , PermissionDeniedError, RateLimitedError, OutboundBlockedError
     , NotificationDeliveryError, DeliveryNotFoundError, SignatureVerificationError
     , JobWorkerError, JobWorkerLostError, WorkerUnhealthyError, SchemaNotReadyError
     , RolloutNotFoundError, RolloutStateError, RolloutMetricsUnavailableError
     , EventMapperNotFoundError, EventMappingError]"

primrec parent :: "err_class \<Rightarrow> err_class option" where
  "parent AdaptationError = None"
| "parent ConfigurationError = Some AdaptationError"
| "parent RegistryUnavailableError = Some AdaptationError"
| "parent DatabaseUnavailableError = Some AdaptationError"
| "parent ModelNotFoundError = Some AdaptationError"
| "parent ConflictError = Some AdaptationError"
| "parent DataVersionConflictError = Some ConflictError"
| "parent InvalidReferenceError = Some AdaptationError"
| "parent DatasetNotFoundError = Some AdaptationError"
| "parent ArtifactError = Some AdaptationError"
| "parent DataSourceNotAllowedError = Some AdaptationError"
| "parent DataSourceUnavailableError = Some AdaptationError"
| "parent DataSourceChangedError = Some ConflictError"
| "parent DataFormatError = Some ArtifactError"
| "parent DataTooLargeError = Some AdaptationError"
| "parent UnsupportedAdaptationError = Some AdaptationError"
| "parent UnsupportedModelTypeError = Some UnsupportedAdaptationError"
| "parent ValidationFailedError = Some AdaptationError"
| "parent LlmUnavailableError = Some AdaptationError"
| "parent LlmCircuitOpenError = Some LlmUnavailableError"
| "parent LlmBudgetExceededError = Some LlmUnavailableError"
| "parent UnsafeCodeError = Some AdaptationError"
| "parent SandboxExecutionError = Some AdaptationError"
| "parent ArtifactIntegrityError = Some ArtifactError"
| "parent ModelBusyError = Some ConflictError"
| "parent InvalidTransitionError = Some AdaptationError"
| "parent PromotionError = Some AdaptationError"
| "parent DeploymentError = Some AdaptationError"
| "parent DeploymentUnavailableError = Some AdaptationError"
| "parent CdcUnavailableError = Some AdaptationError"
| "parent CdcProcessingError = Some AdaptationError"
| "parent DataLeakageError = Some AdaptationError"
| "parent JobTimeoutError = Some AdaptationError"
| "parent JobAbandonedError = Some AdaptationError"
| "parent JobNotFoundError = Some AdaptationError"
| "parent JobCancelledError = Some AdaptationError"
| "parent JobLeaseLostError = Some AdaptationError"
| "parent JobDrainedError = Some AdaptationError"
| "parent JobQuarantinedError = Some AdaptationError"
| "parent JobQueueUnavailableError = Some AdaptationError"
| "parent JobNotCancellableError = Some ConflictError"
| "parent AuthenticationError = Some AdaptationError"
| "parent PermissionDeniedError = Some AdaptationError"
| "parent RateLimitedError = Some AdaptationError"
| "parent OutboundBlockedError = Some AdaptationError"
| "parent NotificationDeliveryError = Some AdaptationError"
| "parent DeliveryNotFoundError = Some AdaptationError"
| "parent SignatureVerificationError = Some AdaptationError"
| "parent JobWorkerError = Some AdaptationError"
| "parent JobWorkerLostError = Some JobWorkerError"
| "parent WorkerUnhealthyError = Some AdaptationError"
| "parent SchemaNotReadyError = Some AdaptationError"
| "parent RolloutNotFoundError = Some AdaptationError"
| "parent RolloutStateError = Some ConflictError"
| "parent RolloutMetricsUnavailableError = Some AdaptationError"
| "parent EventMapperNotFoundError = Some AdaptationError"
| "parent EventMappingError = Some AdaptationError"

primrec code_of :: "err_class \<Rightarrow> string" where
  "code_of AdaptationError = ''ADAPTATION_ERROR''"
| "code_of ConfigurationError = ''CONFIGURATION_ERROR''"
| "code_of RegistryUnavailableError = ''MLFLOW_UNAVAILABLE''"
| "code_of DatabaseUnavailableError = ''DATABASE_UNAVAILABLE''"
| "code_of ModelNotFoundError = ''MODEL_NOT_FOUND''"
| "code_of ConflictError = ''CONFLICT''"
| "code_of DataVersionConflictError = ''DATA_VERSION_CONFLICT''"
| "code_of InvalidReferenceError = ''INVALID_REFERENCE''"
| "code_of DatasetNotFoundError = ''DATASET_NOT_FOUND''"
| "code_of ArtifactError = ''ARTIFACT_ERROR''"
| "code_of DataSourceNotAllowedError = ''DATA_SOURCE_NOT_ALLOWED''"
| "code_of DataSourceUnavailableError = ''DATA_SOURCE_UNAVAILABLE''"
| "code_of DataSourceChangedError = ''DATA_SOURCE_CHANGED''"
| "code_of DataFormatError = ''DATA_FORMAT_INVALID''"
| "code_of DataTooLargeError = ''DATA_TOO_LARGE''"
| "code_of UnsupportedAdaptationError = ''ADAPTATION_UNSUPPORTED''"
| "code_of UnsupportedModelTypeError = ''UNSUPPORTED_MODEL_TYPE''"
| "code_of ValidationFailedError = ''VALIDATION_FAILED''"
| "code_of LlmUnavailableError = ''LLM_UNAVAILABLE''"
| "code_of LlmCircuitOpenError = ''LLM_CIRCUIT_OPEN''"
| "code_of LlmBudgetExceededError = ''LLM_BUDGET_EXCEEDED''"
| "code_of UnsafeCodeError = ''UNSAFE_CODE_REJECTED''"
| "code_of SandboxExecutionError = ''SANDBOX_EXECUTION_FAILED''"
| "code_of ArtifactIntegrityError = ''ARTIFACT_INTEGRITY_FAILED''"
| "code_of ModelBusyError = ''MODEL_BUSY''"
| "code_of InvalidTransitionError = ''INVALID_STATE_TRANSITION''"
| "code_of PromotionError = ''PROMOTION_FAILED''"
| "code_of DeploymentError = ''DEPLOYMENT_FAILED''"
| "code_of DeploymentUnavailableError = ''DEPLOYMENT_UNAVAILABLE''"
| "code_of CdcUnavailableError = ''CDC_UNAVAILABLE''"
| "code_of CdcProcessingError = ''CDC_PROCESSING_FAILED''"
| "code_of DataLeakageError = ''DATA_LEAKAGE''"
| "code_of JobTimeoutError = ''JOB_TIMEOUT''"
| "code_of JobAbandonedError = ''JOB_ABANDONED''"
| "code_of JobNotFoundError = ''JOB_NOT_FOUND''"
| "code_of JobCancelledError = ''JOB_CANCELLED''"
| "code_of JobLeaseLostError = ''JOB_LEASE_LOST''"
| "code_of JobDrainedError = ''JOB_DRAINED''"
| "code_of JobQuarantinedError = ''JOB_QUARANTINED''"
| "code_of JobQueueUnavailableError = ''JOB_QUEUE_UNAVAILABLE''"
| "code_of JobNotCancellableError = ''JOB_NOT_CANCELLABLE''"
| "code_of AuthenticationError = ''UNAUTHENTICATED''"
| "code_of PermissionDeniedError = ''FORBIDDEN''"
| "code_of RateLimitedError = ''RATE_LIMITED''"
| "code_of OutboundBlockedError = ''OUTBOUND_BLOCKED''"
| "code_of NotificationDeliveryError = ''NOTIFICATION_DELIVERY_FAILED''"
| "code_of DeliveryNotFoundError = ''DELIVERY_NOT_FOUND''"
| "code_of SignatureVerificationError = ''INVALID_SIGNATURE''"
| "code_of JobWorkerError = ''INTERNAL_ERROR''"
| "code_of JobWorkerLostError = ''JOB_WORKER_LOST''"
| "code_of WorkerUnhealthyError = ''WORKER_UNHEALTHY''"
| "code_of SchemaNotReadyError = ''SCHEMA_NOT_READY''"
| "code_of RolloutNotFoundError = ''ROLLOUT_NOT_FOUND''"
| "code_of RolloutStateError = ''ROLLOUT_STATE_CONFLICT''"
| "code_of RolloutMetricsUnavailableError = ''ROLLOUT_METRICS_UNAVAILABLE''"
| "code_of EventMapperNotFoundError = ''EVENT_MAPPER_NOT_FOUND''"
| "code_of EventMappingError = ''EVENT_MAPPING_FAILED''"

text \<open>
  \<^verbatim>\<open>reason\<close> of the LLM errors, inherited by a subclass that does not set its own; the other
  classes have no such attribute.
\<close>

definition reason_of :: "err_class \<Rightarrow> string option" where
  "reason_of c =
     (if c = LlmUnavailableError then Some ''unavailable''
      else if c = LlmCircuitOpenError then Some ''circuit_open''
      else if c = LlmBudgetExceededError then Some ''budget_exceeded''
      else None)"

text \<open>The hierarchy is at most three classes deep, so two steps up reach every ancestor.\<close>

definition ancestors :: "err_class \<Rightarrow> err_class list" where
  "ancestors c = c # (case parent c of None \<Rightarrow> [] | Some p \<Rightarrow> p #
     (case parent p of None \<Rightarrow> [] | Some q \<Rightarrow> [q]))"

definition is_a :: "err_class \<Rightarrow> err_class \<Rightarrow> bool" where
  "is_a c d \<longleftrightarrow> d \<in> set (ancestors c)"

text \<open>\<^verbatim>\<open>cls.__subclasses__()\<close>: the direct subclasses in definition order.\<close>

definition subclasses :: "err_class \<Rightarrow> err_class list" where
  "subclasses c = filter (\<lambda>d. parent d = Some c) err_classes"

lemma err_classes_all: "c \<in> set err_classes"
  by (cases c) (simp_all add: err_classes_def)

lemma is_a_refl [simp]: "is_a c c"
  by (simp add: is_a_def ancestors_def)

lemma is_a_AdaptationError [simp]: "is_a c AdaptationError"
  by (cases c) (simp_all add: is_a_def ancestors_def)

section \<open>Exceptions\<close>

datatype ctx_val = CStr string | CInt int | CBool bool | CStatus job_status | CNone

type_synonym err_ctx = "(string \<times> ctx_val) list"

record exn =
  e_class :: err_class
  e_code :: string
  e_msg :: string
  e_ctx :: err_ctx

text \<open>
  \<^verbatim>\<open>cls(message, **context)\<close>; \<open>None\<close> is the TypeError of a call that does not fit the
  constructor: a context entry that clashes with a parameter, or no \<open>retryable\<close> for the
  notification error, whose constructor puts \<open>retryable\<close> first in the context it keeps.
\<close>

definition construct :: "err_class \<Rightarrow> string \<Rightarrow> err_ctx \<Rightarrow> exn option" where
  "construct c msg ctx =
     (if ''self'' \<in> fst ` set ctx \<or> ''message'' \<in> fst ` set ctx then None
      else if c = NotificationDeliveryError then
        (case map_of ctx ''retryable'' of
           None \<Rightarrow> None
         | Some v \<Rightarrow> Some \<lparr>e_class = c, e_code = code_of c, e_msg = msg,
             e_ctx = (''retryable'', v) # filter (\<lambda>kv. fst kv \<noteq> ''retryable'') ctx\<rparr>)
      else Some \<lparr>e_class = c, e_code = code_of c, e_msg = msg, e_ctx = ctx\<rparr>)"

record err_dict =
  d_code :: string
  d_message :: string
  d_context :: err_ctx

definition to_dict :: "exn \<Rightarrow> err_dict" where
  "to_dict e = \<lparr>d_code = e_code e, d_message = e_msg e, d_context = e_ctx e\<rparr>"

text \<open>How the other theories raise: class and context, no message.\<close>

definition err :: "err_class \<Rightarrow> err_ctx \<Rightarrow> exn" where
  "err c ctx = \<lparr>e_class = c, e_code = code_of c, e_msg = [], e_ctx = ctx\<rparr>"

lemma err_sel [simp]:
  "e_class (err c ctx) = c" "e_code (err c ctx) = code_of c" "e_ctx (err c ctx) = ctx"
  by (simp_all add: err_def)

text \<open>
  \<^verbatim>\<open>rebuild_error\<close>: a depth-first search of the class tree from the root, the stack popped
  from its end, for the class that carries the code. A class found but not constructible from
  the context stops the search; then, as for a code no class carries, the base class takes
  the given code. The final constructor call can itself be refused: \<open>None\<close>.
\<close>

text \<open>The classes that have subclasses, and a weight that makes the search terminate.\<close>

definition inner_classes :: "err_class list" where
  "inner_classes = [ConflictError, ArtifactError, UnsupportedAdaptationError,
     LlmUnavailableError, JobWorkerError]"

definition weight :: "err_class \<Rightarrow> nat" where
  "weight c = (if c = AdaptationError then 1000 else if c \<in> set inner_classes then 10 else 1)"

lemma parent_inner: "parent d = Some c \<Longrightarrow> c = AdaptationError \<or> c \<in> set inner_classes"
  by (cases d) (simp_all add: inner_classes_def)

lemma subclasses_leaf:
  "c \<noteq> AdaptationError \<Longrightarrow> c \<notin> set inner_classes \<Longrightarrow> subclasses c = []"
  using parent_inner by (auto simp: subclasses_def filter_empty_conv)

lemma subclasses_inner:
  "subclasses ConflictError = [DataVersionConflictError, DataSourceChangedError, ModelBusyError,
     JobNotCancellableError, RolloutStateError]"
  "subclasses ArtifactError = [DataFormatError, ArtifactIntegrityError]"
  "subclasses UnsupportedAdaptationError = [UnsupportedModelTypeError]"
  "subclasses LlmUnavailableError = [LlmCircuitOpenError, LlmBudgetExceededError]"
  "subclasses JobWorkerError = [JobWorkerLostError]"
  by (simp_all add: subclasses_def err_classes_def)

lemma weight_subclasses: "sum_list (map weight (subclasses c)) < weight c"
proof (cases "c = AdaptationError \<or> c \<in> set inner_classes")
  case True
  moreover have "sum_list (map weight (subclasses AdaptationError)) < weight AdaptationError"
    by (simp add: subclasses_def err_classes_def weight_def inner_classes_def)
  ultimately show ?thesis
    by (auto simp: inner_classes_def subclasses_inner weight_def)
next
  case False
  then show ?thesis by (simp add: subclasses_leaf weight_def)
qed

function search_class :: "err_class list \<Rightarrow> string \<Rightarrow> err_class option" where
  "search_class stack code =
     (if stack = [] then None
      else if code_of (last stack) = code then Some (last stack)
      else search_class (butlast stack @ subclasses (last stack)) code)"
  by pat_completeness auto

termination
proof (relation "measure (\<lambda>(stack, code). sum_list (map weight stack))", simp)
  fix stack :: "err_class list" and code :: string
  assume "stack \<noteq> []"
  then obtain xs x where s: "stack = xs @ [x]" by (metis append_butlast_last_id)
  show "((butlast stack @ subclasses (last stack), code), stack, code)
    \<in> measure (\<lambda>(stack, code). sum_list (map weight stack))"
    using weight_subclasses[of x] by (simp add: s)
qed

declare search_class.simps [simp del]

definition rebuild_error :: "string \<Rightarrow> string \<Rightarrow> err_ctx \<Rightarrow> exn option" where
  "rebuild_error code msg ctx =
     (case Option.bind (search_class [AdaptationError] code) (\<lambda>c. construct c msg ctx) of
        Some e \<Rightarrow> Some e
      | None \<Rightarrow> map_option (\<lambda>e. e\<lparr>e_code := code\<rparr>) (construct AdaptationError msg ctx))"

section \<open>Lemmas\<close>

lemma codes_distinct: "distinct (map code_of err_classes)"
  by code_simp

lemma code_of_inj: "code_of c = code_of d \<Longrightarrow> c = d"
  using codes_distinct err_classes_all by (auto simp: distinct_map inj_on_def)

text \<open>Every class at or below a class of the stack is found by its code.\<close>

lemma is_a_down:
  assumes "is_a d s"
  shows "s = d \<or> (\<exists>s' \<in> set (subclasses s). is_a d s')"
proof -
  have sub: "parent x = Some y \<Longrightarrow> x \<in> set (subclasses y)" for x y
    by (simp add: subclasses_def err_classes_all)
  from assms consider "s = d" | "parent d = Some s"
    | p where "parent d = Some p" "parent p = Some s"
    by (cases "parent d"; cases "parent (the (parent d))")
      (auto simp: is_a_def ancestors_def)
  then show ?thesis
  proof cases
    case 2
    then show ?thesis using sub is_a_refl by blast
  next
    case (3 p)
    then have "is_a d p" by (simp add: is_a_def ancestors_def)
    then show ?thesis using 3 sub by blast
  qed simp
qed

lemma search_class_complete:
  "\<exists>s \<in> set stack. is_a d s \<Longrightarrow> search_class stack (code_of d) = Some d"
proof (induction stack "code_of d" rule: search_class.induct)
  case (1 stack)
  then have ne: "stack \<noteq> []" by auto
  show ?case
  proof (cases "code_of (last stack) = code_of d")
    case True
    then show ?thesis using ne by (subst search_class.simps) (auto dest: code_of_inj)
  next
    case False
    have "\<exists>s \<in> set (butlast stack @ subclasses (last stack)). is_a d s"
    proof -
      obtain s where s: "s \<in> set stack" "is_a d s" using "1.prems" by blast
      have "set stack = insert (last stack) (set (butlast stack))"
        using ne append_butlast_last_id[of stack] by (metis list.simps(15) rotate1.simps(2) set_rotate1)
      then consider "s = last stack" | "s \<in> set (butlast stack)" using s(1) by blast
      then show ?thesis
      proof cases
        case 1
        then have "\<exists>s' \<in> set (subclasses (last stack)). is_a d s'"
          using is_a_down[OF s(2)] False by auto
        then show ?thesis by auto
      qed (use s in auto)
    qed
    then show ?thesis
      using "1.hyps" ne False by (subst search_class.simps) auto
  qed
qed

lemma construct_code: "construct c msg ctx = Some e \<Longrightarrow> e_code e = code_of c \<and> e_class e = c"
  by (auto simp: construct_def split: if_splits option.splits)

lemma construct_again:
  "construct c msg ctx = Some e \<Longrightarrow> construct c (e_msg e) (e_ctx e) = Some e"
  by (auto simp: construct_def split: if_splits option.splits)

text \<open>
  An exception of any class sent across a process boundary as its code, message and context
  is rebuilt as the same exception, class and context included.
\<close>

theorem rebuild_error_roundtrip:
  assumes "construct c msg ctx = Some e"
  shows "rebuild_error (e_code e) (e_msg e) (e_ctx e) = Some e"
proof -
  have c: "e_code e = code_of c" using construct_code[OF assms] by simp
  have "search_class [AdaptationError] (code_of c) = Some c"
    by (rule search_class_complete) simp
  then show ?thesis by (simp add: rebuild_error_def c construct_again[OF assms])
qed

theorem rebuild_error_roundtrip_witness:
  "rebuild_error (code_of LlmBudgetExceededError) ''m'' [(''used'', CInt 7)] =
     Some \<lparr>e_class = LlmBudgetExceededError, e_code = code_of LlmBudgetExceededError, e_msg = ''m'',
       e_ctx = [(''used'', CInt 7)]\<rparr>"
proof -
  have "construct LlmBudgetExceededError ''m'' [(''used'', CInt 7)] =
     Some \<lparr>e_class = LlmBudgetExceededError, e_code = code_of LlmBudgetExceededError, e_msg = ''m'',
       e_ctx = [(''used'', CInt 7)]\<rparr>"
    by (simp add: construct_def)
  from rebuild_error_roundtrip[OF this] show ?thesis by simp
qed

end
