(* ===== verification/Job_State.thy ===== *)
theory Job_State
  imports Errors
begin

text \<open>
  The adaptation job state machine (\<^verbatim>\<open>core/state_machine.py\<close>): which status may follow
  which. \<open>allowed\<close> is the table \<^verbatim>\<open>_ALLOWED\<close> with its default for the statuses older
  releases wrote, \<open>allowed_next\<close> the full successor set and \<open>check_transition\<close> the check
  every persisted transition goes through.
\<close>

fun allowed :: "job_status \<Rightarrow> job_status list" where
  "allowed RECEIVED = [QUEUED, VALIDATING, FAILED]"
| "allowed QUEUED = [VALIDATING, FAILED]"
| "allowed VALIDATING = [DATA_PREPARING, FAILED]"
| "allowed DATA_PREPARING = [EVALUATING_VERSIONS, DECISION_PENDING, COMPLETED, FAILED]"
| "allowed EVALUATING_VERSIONS = [REUSE_DECISION, FAILED]"
| "allowed REUSE_DECISION = [PROMOTING, DECISION_PENDING, FAILED]"
| "allowed DECISION_PENDING = [ADAPTING, COMPLETED, FAILED]"
| "allowed ADAPTING = [VALIDATING_CANDIDATE, FAILED]"
| "allowed VALIDATING_CANDIDATE = [REGISTERING, COMPLETED, FAILED]"
| "allowed REGISTERING = [PROMOTING, FAILED]"
| "allowed PROMOTING = [COMPLETED, ROLLED_BACK, FAILED]"
| "allowed _ = [FAILED]"

definition retry_target :: job_status where
  "retry_target = QUEUED"

definition allowed_next :: "job_status \<Rightarrow> job_status list" where
  "allowed_next s =
     (if is_terminal s then []
      else allowed s @ [TIMED_OUT, CANCELLED]
        @ (if s \<in> {RECEIVED, QUEUED} then [] else [retry_target]))"

definition check_transition :: "job_status \<Rightarrow> job_status \<Rightarrow> exn + unit" where
  "check_transition cur tgt =
     (if tgt \<notin> set (allowed_next cur)
      then Inl (err InvalidTransitionError
             [(''from_status'', CStatus cur), (''to_status'', CStatus tgt)])
      else Inr ())"

lemma check_transition_Inr [result_simps]:
  "check_transition s t = Inr u \<longleftrightarrow> t \<in> set (allowed_next s)"
  by (simp add: check_transition_def)

lemma allowed_next_terminal [simp]: "is_terminal s \<Longrightarrow> allowed_next s = []"
  by (simp add: allowed_next_def)

end
