(* ===== verification/Drift_Event.thy ===== *)
theory Drift_Event
  imports Job_State
begin

text \<open>
  The inbound drift notification (\<^verbatim>\<open>core/schemas.py\<close>, class \<^verbatim>\<open>DriftEvent\<close>): its
  validation of the data time range and the idempotency key a job is stored under. The JSON
  dump of the event is an association list from field names to values, and \<open>digest\<close>, a
  parameter, stands for the first 32 hex digits of the SHA-256 of its canonical JSON.
\<close>

datatype json = JNull | JBool bool | JNum rat | JStr string | JList "json list"
  | JObj "(string \<times> json) list"

record drift_event =
  ev_model_id :: string
  ev_event_id :: "string option"
  ev_severity :: "string option"
  ev_model_version :: "string option"
  ev_data_start :: "time option"
  ev_data_end :: "time option"
  ev_body :: "(string \<times> json) list"

text \<open>\<^verbatim>\<open>_time_range_ordered\<close>: a ValueError (\<open>False\<close>) for an inverted range.\<close>

definition time_range_ordered :: "drift_event \<Rightarrow> bool" where
  "time_range_ordered e =
     (case (ev_data_start e, ev_data_end e) of (Some a, Some b) \<Rightarrow> \<not> b < a | _ \<Rightarrow> True)"

definition team1_fields :: "string list" where
  "team1_fields = [''model_version'', ''timestamp'', ''drift_type'', ''severity'',
     ''drift_metrics'', ''affected_features'', ''source_dataset_version'', ''data_start_time'',
     ''data_end_time'']"

text \<open>\<^verbatim>\<open>body.get(name) in (None, [], {})\<close> for a field that is present.\<close>

definition unset_value :: "json \<Rightarrow> bool" where
  "unset_value v \<longleftrightarrow> v = JNull \<or> v = JList [] \<or> v = JObj []"

definition idempotency_key :: "((string \<times> json) list \<Rightarrow> string) \<Rightarrow> drift_event \<Rightarrow> string" where
  "idempotency_key digest e =
     (if ev_event_id e \<noteq> None \<and> ev_event_id e \<noteq> Some []
      then ev_model_id e @ '':'' @ the (ev_event_id e)
      else ev_model_id e @ '':'' @
        digest (filter (\<lambda>(k, v). \<not> (k \<in> set team1_fields \<and> unset_value v)) (ev_body e)))"

lemma append_colon_inject:
  assumes "CHR '':'' \<notin> set a" and "CHR '':'' \<notin> set b"
  shows "a @ '':'' @ x = b @ '':'' @ y \<longleftrightarrow> a = b \<and> x = y"
  using assms
proof (induction a arbitrary: b)
  case Nil
  then show ?case by (cases b) auto
next
  case (Cons c a)
  then show ?case by (cases b) auto
qed

end
