(* ===== verification/Job_Store.thy ===== *)
theory Job_Store
  imports Drift_Event
begin

text \<open>
  The tables the orchestrator works on (\<^verbatim>\<open>db/models.py\<close>), the transaction boundary
  (\<^verbatim>\<open>db/base.py\<close>), the model lock (\<^verbatim>\<open>orchestrator/locks.py\<close>), the notification outbox
  (\<^verbatim>\<open>notifications/events.py\<close>) and the audit trail (\<^verbatim>\<open>core/audit.py\<close>).

  A table is the list of its rows in primary-key order. A transaction is a function from the
  database to an error (rolled back) or a new database: transactions are atomic, and
  concurrency is the order in which they run. Surrogate ids and uuids of the outbox are the
  position of the row. Not kept: correlation and trace ids, \<^verbatim>\<open>updated_at\<close>, message texts.
\<close>

section \<open>Configuration read by the orchestrator\<close>

record settings =
  job_lease_ttl_s :: time
  job_max_retries :: int
  job_retry_backoff_s :: time
  job_poison_threshold :: int
  job_timeout_s :: time
  job_deadline_s :: "time option"
  job_republish_after_s :: time
  job_claim_candidates :: nat
  job_worker_classes :: "string list"
  job_default_class :: string
  job_class_by_framework :: "(string \<times> string) list"
  job_default_priority :: int
  job_priority_by_severity :: "(string \<times> int) list"
  job_default_tenant :: string
  job_tenant_by_principal :: "(string \<times> string) list"
  job_tenant_concurrency :: int
  job_tenant_limits :: "(string \<times> int) list"
  job_drain_timeout_s :: time
  job_poll_interval_s :: time
  model_lock_ttl_s :: time
  notification_sinks :: "string list"
  notification_sink_events :: "(string \<times> string list) list"

section \<open>Rows\<close>

datatype outcome = O_NO_ACTION | O_REUSED | O_REGISTERED | O_REJECTED | O_ROLLED_BACK
  | O_DELIVERING | O_ROLLOUT_IN_PROGRESS

record job_result =
  r_outcome :: outcome
  r_strategy :: "strategy option"

record job_row =
  job_id :: string
  j_key :: string
  j_model :: string
  j_status :: job_status
  j_strategy :: "strategy option"
  j_event :: drift_event
  j_result :: "job_result option"
  j_error :: "err_dict option"
  j_created_at :: time
  j_tenant :: string
  j_class :: string
  j_priority :: int
  j_attempt :: int
  j_available_at :: "time option"
  j_deadline_at :: "time option"
  j_lease_owner :: "string option"
  j_lease_token :: "string option"
  j_lease_expires :: "time option"
  j_cancel_at :: "time option"
  j_cancel_by :: "string option"
  j_lost :: int
  j_quarantined :: bool
  j_published_at :: "time option"

record slot_row =
  sl_tenant :: string
  sl_slot :: nat
  sl_job :: string
  sl_expires :: time

record job_event =
  je_job :: string
  je_from :: "job_status option"
  je_to :: job_status

record lock_row =
  lk_model :: string
  lk_job :: string
  lk_acquired :: time
  lk_expires :: time

record audit_row =
  au_action :: audit_action
  au_actor :: string
  au_job :: "string option"
  au_model :: "string option"
  au_version :: "string option"
  au_status :: string

record notif_event =
  ne_type :: string
  ne_subject :: string
  ne_model :: "string option"

datatype delivery_status = PENDING | DELIVERED | DEAD

record delivery =
  dl_id :: nat
  dl_event :: nat
  dl_sink :: string
  dl_status :: delivery_status
  dl_attempts :: int
  dl_redrives :: nat
  dl_next_attempt :: time
  dl_lease_until :: "time option"
  dl_leased_by :: "string option"
  dl_delivered_at :: "time option"
  dl_dead_at :: "time option"

record model_meta =
  mm_model :: string
  mm_name :: string
  mm_framework :: "string option"
  mm_target :: "string option"

text \<open>The tables shared by all components, and those of the job queue on top of them.\<close>

record db =
  metas :: "model_meta list"
  locks :: "lock_row list"
  notif_events :: "notif_event list"
  deliveries :: "delivery list"
  audits :: "audit_row list"

record jdb = db +
  jobs :: "job_row list"
  slots :: "slot_row list"
  job_events :: "job_event list"

text \<open>
  \<^verbatim>\<open>session_scope\<close>: commit what the body did, or roll it back and let its error out.
\<close>

definition session_scope :: "('d \<Rightarrow> exn + 'd \<times> 'a) \<Rightarrow> 'd \<Rightarrow> 'd \<times> (exn + 'a)" where
  "session_scope body d =
     (case body d of Inl e \<Rightarrow> (d, Inl e) | Inr (d', x) \<Rightarrow> (d', Inr x))"

lemma session_scope_rollback: "snd (session_scope body d) = Inl e \<Longrightarrow> fst (session_scope body d) = d"
  by (auto simp: session_scope_def split: sum.splits)

section \<open>Model locks\<close>

definition lock_of :: "string \<Rightarrow> 'a db_scheme \<Rightarrow> lock_row option" where
  "lock_of m d = by_key lk_model m (locks d)"

definition take_over_expired_lock ::
  "time \<Rightarrow> string \<Rightarrow> string \<Rightarrow> time \<Rightarrow> 'a db_scheme \<Rightarrow> bool \<times> 'a db_scheme" where
  "take_over_expired_lock now m j ttl d =
     (let p = (\<lambda>l. lk_model l = m \<and> lk_expires l < now)
      in (rowcount p (locks d) = 1,
          d\<lparr>locks := update_where p
              (\<lambda>l. l\<lparr>lk_job := j, lk_acquired := now, lk_expires := now + ttl\<rparr>) (locks d)\<rparr>))"

text \<open>The staged insert and its flush; \<open>None\<close> is the IntegrityError of a taken primary key.\<close>

definition add_lock ::
  "time \<Rightarrow> string \<Rightarrow> string \<Rightarrow> time \<Rightarrow> 'a db_scheme \<Rightarrow> 'a db_scheme option" where
  "add_lock now m j ttl d =
     (if m \<in> lk_model ` set (locks d) then None
      else Some (d\<lparr>locks := locks d @
        [\<lparr>lk_model = m, lk_job = j, lk_acquired = now, lk_expires = now + ttl\<rparr>]\<rparr>))"

definition release_lock :: "string \<Rightarrow> string \<Rightarrow> 'a db_scheme \<Rightarrow> 'a db_scheme" where
  "release_lock m j d =
     d\<lparr>locks := delete_where (\<lambda>l. lk_model l = m \<and> lk_job l = j) (locks d)\<rparr>"

section \<open>Outbox and audit\<close>

text \<open>\<^verbatim>\<open>str.lower\<close> on the ASCII names of statuses and rollout states.\<close>

definition lower_char :: "char \<Rightarrow> char" where
  "lower_char c = (if 65 \<le> (of_char c :: nat) \<and> (of_char c :: nat) \<le> 90
     then char_of ((of_char c :: nat) + 32) else c)"

definition lower :: "string \<Rightarrow> string" where
  "lower s = map lower_char s"

definition job_event_type :: "job_status \<Rightarrow> string" where
  "job_event_type s = ''job.'' @ lower (status_value s)"

definition sinks_for :: "settings \<Rightarrow> string \<Rightarrow> string list" where
  "sinks_for st ty = filter (\<lambda>sink. case map_of (notification_sink_events st) sink of
     None \<Rightarrow> True | Some tys \<Rightarrow> ty \<in> set tys) (notification_sinks st)"

definition new_delivery :: "time \<Rightarrow> nat \<Rightarrow> nat \<Rightarrow> string \<Rightarrow> delivery" where
  "new_delivery now i ev sink = \<lparr>dl_id = i, dl_event = ev, dl_sink = sink, dl_status = PENDING,
     dl_attempts = 0, dl_redrives = 0, dl_next_attempt = now, dl_lease_until = None,
     dl_leased_by = None, dl_delivered_at = None, dl_dead_at = None\<rparr>"

fun add_deliveries :: "time \<Rightarrow> nat \<Rightarrow> string list \<Rightarrow> delivery list \<Rightarrow> delivery list" where
  "add_deliveries now ev [] ds = ds"
| "add_deliveries now ev (s # ss) ds =
     add_deliveries now ev ss (ds @ [new_delivery now (length ds) ev s])"

definition record_event ::
  "time \<Rightarrow> settings \<Rightarrow> string \<Rightarrow> string \<Rightarrow> string option \<Rightarrow> 'a db_scheme \<Rightarrow> 'a db_scheme" where
  "record_event now st ty subject model d =
     d\<lparr>notif_events := notif_events d @ [\<lparr>ne_type = ty, ne_subject = subject, ne_model = model\<rparr>],
       deliveries := add_deliveries now (length (notif_events d)) (sinks_for st ty) (deliveries d)\<rparr>"

definition record_job_transition ::
  "time \<Rightarrow> settings \<Rightarrow> string \<Rightarrow> string \<Rightarrow> job_status \<Rightarrow> 'a db_scheme \<Rightarrow> 'a db_scheme" where
  "record_job_transition now st jid model to d =
     record_event now st (job_event_type to) jid (Some model) d"

definition record_audit ::
  "audit_action \<Rightarrow> string \<Rightarrow> string option \<Rightarrow> string option \<Rightarrow> string option \<Rightarrow> string
    \<Rightarrow> 'a db_scheme \<Rightarrow> 'a db_scheme" where
  "record_audit action actor job model version status d =
     d\<lparr>audits := audits d @ [\<lparr>au_action = action, au_actor = actor, au_job = job,
        au_model = model, au_version = version, au_status = status\<rparr>]\<rparr>"

section \<open>Lemmas\<close>

lemma record_event_tables [simp]:
  "locks (record_event now st ty s m d) = locks d"
  "metas (record_event now st ty s m d) = metas d"
  "audits (record_event now st ty s m d) = audits d"
  "jobs (record_event now st ty s m (e :: 'a jdb_scheme)) = jobs e"
  "slots (record_event now st ty s m e) = slots e"
  "job_events (record_event now st ty s m e) = job_events e"
  by (simp_all add: record_event_def)

lemma record_job_transition_tables [simp]:
  "locks (record_job_transition now st j m t d) = locks d"
  "metas (record_job_transition now st j m t d) = metas d"
  "audits (record_job_transition now st j m t d) = audits d"
  "jobs (record_job_transition now st j m t (e :: 'a jdb_scheme)) = jobs e"
  "slots (record_job_transition now st j m t e) = slots e"
  "job_events (record_job_transition now st j m t e) = job_events e"
  by (simp_all add: record_job_transition_def)

lemma record_audit_tables [simp]:
  "locks (record_audit a ac j m v s d) = locks d"
  "metas (record_audit a ac j m v s d) = metas d"
  "notif_events (record_audit a ac j m v s d) = notif_events d"
  "deliveries (record_audit a ac j m v s d) = deliveries d"
  "jobs (record_audit a ac j m v s (e :: 'a jdb_scheme)) = jobs e"
  "slots (record_audit a ac j m v s e) = slots e"
  "job_events (record_audit a ac j m v s e) = job_events e"
  by (simp_all add: record_audit_def)

lemma release_lock_tables [simp]:
  "metas (release_lock m j d) = metas d"
  "jobs (release_lock m j (e :: 'a jdb_scheme)) = jobs e"
  "slots (release_lock m j e) = slots e"
  "job_events (release_lock m j e) = job_events e"
  by (simp_all add: release_lock_def)

lemma take_over_tables [simp]:
  "metas (snd (take_over_expired_lock now m j ttl d)) = metas d"
  "jobs (snd (take_over_expired_lock now m j ttl (e :: 'a jdb_scheme))) = jobs e"
  "slots (snd (take_over_expired_lock now m j ttl e)) = slots e"
  "job_events (snd (take_over_expired_lock now m j ttl e)) = job_events e"
  by (simp_all add: take_over_expired_lock_def Let_def)

text \<open>One row per model: the primary key of the lock table.\<close>

definition locks_ok :: "'a db_scheme \<Rightarrow> bool" where
  "locks_ok d \<longleftrightarrow> distinct (map lk_model (locks d))"

lemma lock_of_take_over:
  assumes "locks_ok d"
  shows "lock_of m (snd (take_over_expired_lock now n j ttl d)) =
     (case lock_of m d of None \<Rightarrow> None
      | Some l \<Rightarrow> Some (if m = n \<and> lk_expires l < now
          then l\<lparr>lk_job := j, lk_acquired := now, lk_expires := now + ttl\<rparr> else l))"
  by (auto simp: lock_of_def take_over_expired_lock_def Let_def by_key_update
      split: option.splits dest: by_key_Some)

lemma take_over_iff:
  assumes "locks_ok d"
  shows "fst (take_over_expired_lock now m j ttl d) \<longleftrightarrow>
    (\<exists>l. lock_of m d = Some l \<and> lk_expires l < now)"
  using rowcount_key[of lk_model "locks d" "\<lambda>l. lk_model l = m \<and> lk_expires l < now" m] assms
  by (auto simp: lock_of_def take_over_expired_lock_def Let_def locks_ok_def
      split: option.splits dest: by_key_Some)

lemma lock_of_add:
  "add_lock now n j ttl d = Some d' \<Longrightarrow> lock_of m d' =
     (if m = n then Some \<lparr>lk_model = n, lk_job = j, lk_acquired = now, lk_expires = now + ttl\<rparr>
      else lock_of m d)"
proof -
  assume a: "add_lock now n j ttl d = Some d'"
  then have n: "by_key lk_model n (locks d) = None"
    by (auto simp: add_lock_def by_key_None split: if_splits)
  show ?thesis using a n
    by (cases "by_key lk_model m (locks d)")
       (auto simp: add_lock_def lock_of_def by_key_append by_key_single split: if_splits)
qed

lemma add_lock_None: "add_lock now m j ttl d = None \<longleftrightarrow> lock_of m d \<noteq> None"
  by (auto simp: add_lock_def lock_of_def by_key_None)

lemma lock_of_release:
  assumes "locks_ok d"
  shows "lock_of m (release_lock n j d) =
     (case lock_of m d of None \<Rightarrow> None
      | Some l \<Rightarrow> if m = n \<and> lk_job l = j then None else Some l)"
proof -
  have d1: "distinct (map lk_model (locks d))" using assms by (simp add: locks_ok_def)
  have d2: "distinct (map lk_model (locks (release_lock n j d)))"
    using d1 by (simp add: release_lock_def distinct_delete_where)
  show ?thesis
  proof (cases "lock_of m d")
    case None
    then have "m \<notin> lk_model ` set (locks (release_lock n j d))"
      by (auto simp: lock_of_def by_key_None release_lock_def)
    then have "lock_of m (release_lock n j d) = None" by (simp add: lock_of_def by_key_None)
    then show ?thesis using None by simp
  next
    case (Some l)
    then have l: "l \<in> set (locks d)" "lk_model l = m"
      using by_key_Some[of lk_model m "locks d" l] by (simp_all add: lock_of_def)
    show ?thesis
    proof (cases "m = n \<and> lk_job l = j")
      case True
      have "m \<notin> lk_model ` set (locks (release_lock n j d))"
      proof
        assume "m \<in> lk_model ` set (locks (release_lock n j d))"
        then obtain k where k: "k \<in> set (locks d)" "lk_model k = m" "\<not> (m = n \<and> lk_job k = j)"
          by (auto simp: release_lock_def)
        have "l = k" using distinct_map_keyD[OF d1 l(1) k(1)] l(2) k(2) by simp
        then show False using k(3) True by simp
      qed
      then have "lock_of m (release_lock n j d) = None" by (simp add: lock_of_def by_key_None)
      then show ?thesis using Some True by simp
    next
      case False
      then have "l \<in> set (locks (release_lock n j d))" using l by (auto simp: release_lock_def)
      then have "lock_of m (release_lock n j d) = Some l"
        unfolding lock_of_def using by_key_unique[OF d2, of m l] l(2) by blast
      then show ?thesis using Some False by simp
    qed
  qed
qed

lemma locks_ok_take_over [simp]:
  "locks_ok d \<Longrightarrow> locks_ok (snd (take_over_expired_lock now m j ttl d))"
proof -
  have "map lk_model (locks (snd (take_over_expired_lock now m j ttl d))) = map lk_model (locks d)"
    using keys_update[of lk_model "\<lambda>l. l\<lparr>lk_job := j, lk_acquired := now, lk_expires := now + ttl\<rparr>"]
    by (simp add: take_over_expired_lock_def Let_def)
  then show "locks_ok d \<Longrightarrow> locks_ok (snd (take_over_expired_lock now m j ttl d))"
    unfolding locks_ok_def by simp
qed

lemma locks_ok_release [simp]: "locks_ok d \<Longrightarrow> locks_ok (release_lock m j d)"
  by (simp add: locks_ok_def release_lock_def distinct_delete_where)

lemma locks_ok_add [intro]: "locks_ok d \<Longrightarrow> add_lock now m j ttl d = Some d' \<Longrightarrow> locks_ok d'"
  by (auto simp: locks_ok_def add_lock_def split: if_splits)

end
