(* ===== verification/Jobs.thy ===== *)
theory Jobs
  imports Job_Store "HOL-Library.List_Lexorder" "HOL-Library.Char_ord" "HOL-Library.Product_Lexorder"
begin

text \<open>
  Recording adaptation jobs (\<^verbatim>\<open>orchestrator/jobs.py\<close>): status transitions and their
  fence, submitting a drift event, cancelling, publishing to the broker and listing. Every
  operation is one transaction at an instant \<open>now\<close> (the code reads the clock more than once;
  one instant stands for all of them). Job ids and lease tokens are the caller's arguments, for
  the code's random uuids. Log lines, metrics, spans and message texts are not kept.
\<close>

section \<open>Rows\<close>

definition find_job :: "string \<Rightarrow> 'a jdb_scheme \<Rightarrow> job_row option" where
  "find_job jid d = by_key job_id jid (jobs d)"

definition put_job :: "job_row \<Rightarrow> 'a jdb_scheme \<Rightarrow> 'a jdb_scheme" where
  "put_job j d = d\<lparr>jobs := update_where (\<lambda>r. job_id r = job_id j) (\<lambda>r. j) (jobs d)\<rparr>"

definition registry_stages :: "job_status list" where
  "registry_stages = [REGISTERING, PROMOTING]"

definition in_registry_stage :: "job_status \<Rightarrow> bool" where
  "in_registry_stage s \<longleftrightarrow> s \<in> set registry_stages"

lemma in_registry_stage_iff [simp]: "in_registry_stage s \<longleftrightarrow> s = REGISTERING \<or> s = PROMOTING"
  by (simp add: in_registry_stage_def registry_stages_def)

record job_response =
  p_job :: string
  p_model :: string
  p_status :: job_status
  p_strategy :: "strategy option"
  p_result :: "job_result option"
  p_error :: "err_dict option"
  p_duplicate :: bool
  p_created_at :: time
  p_tenant :: string
  p_class :: string
  p_attempt :: int
  p_cancel_requested :: bool
  p_quarantined :: bool

definition to_response :: "job_row \<Rightarrow> bool \<Rightarrow> job_response" where
  "to_response j dup = \<lparr>p_job = job_id j, p_model = j_model j, p_status = j_status j,
     p_strategy = j_strategy j, p_result = j_result j, p_error = j_error j, p_duplicate = dup,
     p_created_at = j_created_at j, p_tenant = j_tenant j, p_class = j_class j,
     p_attempt = j_attempt j, p_cancel_requested = (j_cancel_at j \<noteq> None),
     p_quarantined = j_quarantined j\<rparr>"

definition load_job :: "string \<Rightarrow> 'a jdb_scheme \<Rightarrow> exn + job_row" where
  "load_job jid d = (case find_job jid d of
     None \<Rightarrow> Inl (err JobNotFoundError [(''job_id'', CStr jid)]) | Some j \<Rightarrow> Inr j)"

section \<open>Transitions\<close>

definition or_else :: "'v option \<Rightarrow> 'v option \<Rightarrow> 'v option" where
  "or_else a b = (case a of None \<Rightarrow> b | Some x \<Rightarrow> Some x)"

definition moved :: "job_row \<Rightarrow> job_status \<Rightarrow> err_dict option \<Rightarrow> job_result option
    \<Rightarrow> strategy option \<Rightarrow> job_row" where
  "moved j to er res strat = j\<lparr>j_status := to, j_error := or_else er (j_error j),
     j_result := or_else res (j_result j), j_strategy := or_else strat (j_strategy j)\<rparr>"

definition apply_transition ::
  "time \<Rightarrow> settings \<Rightarrow> job_row \<Rightarrow> job_status \<Rightarrow> err_dict option \<Rightarrow> job_result option
    \<Rightarrow> strategy option \<Rightarrow> 'a jdb_scheme \<Rightarrow> exn + 'a jdb_scheme \<times> job_row" where
  "apply_transition now st j to er res strat d =
     bindR (check_transition (j_status j) to) (\<lambda>_.
       let d1 = d\<lparr>job_events := job_events d @
                 [\<lparr>je_job = job_id j, je_from = Some (j_status j), je_to = to\<rparr>]\<rparr>;
           d2 = record_job_transition now st (job_id j) (j_model j) to d1;
           j' = moved j to er res strat
       in Inr (put_job j' d2, j'))"

definition check_fence :: "job_row \<Rightarrow> string option \<Rightarrow> job_status \<Rightarrow> exn + unit" where
  "check_fence j fence to =
     (if fence = None then Inr ()
      else if j_lease_token j \<noteq> fence
      then Inl (err JobLeaseLostError [(''job_id'', CStr (job_id j))])
      else if j_cancel_at j \<noteq> None \<and> \<not> is_terminal to \<and> to \<noteq> QUEUED
              \<and> \<not> in_registry_stage (j_status j)
      then Inl (err JobCancelledError
             [(''job_id'', CStr (job_id j)), (''stage'', CStatus (j_status j))])
      else Inr ())"

definition transition_job ::
  "time \<Rightarrow> settings \<Rightarrow> string \<Rightarrow> job_status \<Rightarrow> err_dict option \<Rightarrow> job_result option
    \<Rightarrow> strategy option \<Rightarrow> string option \<Rightarrow> 'a jdb_scheme \<Rightarrow> exn + 'a jdb_scheme \<times> job_response" where
  "transition_job now st jid to er res strat fence d =
     bindR (load_job jid d) (\<lambda>j.
     bindR (check_fence j fence to) (\<lambda>_.
     bindR (apply_transition now st j to er res strat d) (\<lambda>(d', j').
     Inr (d', to_response j' False))))"

section \<open>Submitting\<close>

definition drop_slots :: "(slot_row \<Rightarrow> bool) \<Rightarrow> 'a jdb_scheme \<Rightarrow> 'a jdb_scheme" where
  "drop_slots p d = d\<lparr>slots := delete_where p (slots d)\<rparr>"

definition add_ctx :: "err_dict \<Rightarrow> err_ctx \<Rightarrow> err_dict" where
  "add_ctx er kvs = er\<lparr>d_context := d_context er @ kvs\<rparr>"

definition clear_lease :: "job_row \<Rightarrow> job_row" where
  "clear_lease j = j\<lparr>j_lease_token := None, j_lease_expires := None\<rparr>"

definition fail_abandoned_job ::
  "time \<Rightarrow> settings \<Rightarrow> string \<Rightarrow> string \<Rightarrow> 'a jdb_scheme \<Rightarrow> exn + 'a jdb_scheme" where
  "fail_abandoned_job now st old taken_by d =
     (case find_job old d of None \<Rightarrow> Inr d
      | Some j \<Rightarrow>
        if is_terminal (j_status j) then Inr d
        else
          let er = to_dict (err JobAbandonedError
                [(''last_stage'', CStatus (j_status j)), (''taken_over_by'', CStr taken_by)]);
              er' = if in_registry_stage (j_status j)
                then add_ctx er [(''needs_reconciliation'', CBool True)] else er
          in bindR (apply_transition now st j FAILED (Some er') None None d) (\<lambda>(d', j').
             Inr (drop_slots (\<lambda>s. sl_job s = old) (put_job (clear_lease j') d'))))"

definition holder_is_active :: "time \<Rightarrow> string option \<Rightarrow> 'a jdb_scheme \<Rightarrow> bool" where
  "holder_is_active now holder d =
     (case holder of None \<Rightarrow> False
      | Some h \<Rightarrow> h \<noteq> [] \<and>
        (case find_job h d of None \<Rightarrow> False
         | Some j \<Rightarrow>
           if is_terminal (j_status j) then False
           else if j_status j = QUEUED then True
           else j_lease_token j \<noteq> None
             \<and> (case j_lease_expires j of None \<Rightarrow> False | Some t \<Rightarrow> now < t)))"

definition model_framework :: "string \<Rightarrow> 'a db_scheme \<Rightarrow> string" where
  "model_framework m d = (case by_key mm_model m (metas d) of None \<Rightarrow> []
     | Some mm \<Rightarrow> (case mm_framework mm of None \<Rightarrow> [] | Some f \<Rightarrow> f))"

text \<open>The new row, with \<^verbatim>\<open>_placement\<close>: tenant, worker class, priority, deadline.\<close>

definition placed_job ::
  "time \<Rightarrow> settings \<Rightarrow> string \<Rightarrow> string \<Rightarrow> string \<Rightarrow> drift_event \<Rightarrow> 'a db_scheme \<Rightarrow> job_row" where
  "placed_job now st jid key actor ev d = \<lparr>
     job_id = jid, j_key = key, j_model = ev_model_id ev, j_status = RECEIVED,
     j_strategy = None, j_event = ev, j_result = None, j_error = None, j_created_at = now,
     j_tenant = get_or (job_tenant_by_principal st) actor (job_default_tenant st),
     j_class = get_or (job_class_by_framework st) (model_framework (ev_model_id ev) d)
       (job_default_class st),
     j_priority = get_or (job_priority_by_severity st)
       (case ev_severity ev of None \<Rightarrow> [] | Some s \<Rightarrow> s) (job_default_priority st),
     j_attempt = 0, j_available_at = Some now,
     j_deadline_at = map_option (\<lambda>s. now + s) (job_deadline_s st),
     j_lease_owner = None, j_lease_token = None, j_lease_expires = None, j_cancel_at = None,
     j_cancel_by = None, j_lost = 0, j_quarantined = False, j_published_at = None\<rparr>"

definition busy :: "string \<Rightarrow> string option \<Rightarrow> exn" where
  "busy m holder = err ModelBusyError [(''model_id'', CStr m),
     (''running_job_id'', case holder of None \<Rightarrow> CNone | Some h \<Rightarrow> CStr h)]"

definition find_key :: "string \<Rightarrow> 'a jdb_scheme \<Rightarrow> job_row option" where
  "find_key k d = by_key j_key k (jobs d)"

definition holder_of :: "string \<Rightarrow> 'a db_scheme \<Rightarrow> string option" where
  "holder_of m d = map_option lk_job (lock_of m d)"

text \<open>After an IntegrityError and the rollback: a duplicate, or the model is busy.\<close>

definition submit_conflict ::
  "string \<Rightarrow> string \<Rightarrow> 'a jdb_scheme \<Rightarrow> exn + 'a jdb_scheme \<times> job_response" where
  "submit_conflict key m d =
     (case find_key key d of Some j \<Rightarrow> Inr (d, to_response j True)
      | None \<Rightarrow> Inl (busy m (holder_of m d)))"

text \<open>The first events of the new job, its audit record, and the move to QUEUED.\<close>

definition submit_finish ::
  "time \<Rightarrow> settings \<Rightarrow> string \<Rightarrow> job_row \<Rightarrow> 'a jdb_scheme \<Rightarrow> exn + 'a jdb_scheme \<times> job_response" where
  "submit_finish now st actor j d =
     (let d1 = d\<lparr>job_events := job_events d @
                 [\<lparr>je_job = job_id j, je_from = None, je_to = RECEIVED\<rparr>]\<rparr>;
          d2 = record_job_transition now st (job_id j) (j_model j) RECEIVED d1;
          d3 = record_audit DRIFT_RECEIVED actor (Some (job_id j)) (Some (j_model j)) None [] d2
      in bindR (apply_transition now st j QUEUED None None None d3) (\<lambda>(d4, j').
         Inr (d4, to_response j' False)))"

text \<open>
  The writing part, which runs after the lookup of the key found nothing: insert the job, take
  over an expired lock (failing the job that held it) or insert one. \<open>None\<close> from
  \<open>add_lock\<close> and a taken key or id are the IntegrityError.
\<close>

definition submit_insert ::
  "time \<Rightarrow> settings \<Rightarrow> string \<Rightarrow> string \<Rightarrow> string \<Rightarrow> drift_event \<Rightarrow> 'a jdb_scheme
    \<Rightarrow> exn + 'a jdb_scheme \<times> job_response" where
  "submit_insert now st key jid actor ev d =
     (let m = ev_model_id ev; j = placed_job now st jid key actor ev d in
      if find_key key d \<noteq> None \<or> find_job jid d \<noteq> None then submit_conflict key m d
      else
        let d1 = d\<lparr>jobs := jobs d @ [j]\<rparr>; prev = holder_of m d1 in
        if holder_is_active now prev d1 then Inl (busy m prev)
        else
          let (taken, d2) = take_over_expired_lock now m jid (model_lock_ttl_s st) d1 in
          if taken then
            bindR (case prev of
                None \<Rightarrow> Inr d2
              | Some old \<Rightarrow> if old \<noteq> [] \<and> old \<noteq> jid then fail_abandoned_job now st old jid d2 else Inr d2)
              (submit_finish now st actor j)
          else
            (case add_lock now m jid (model_lock_ttl_s st) d2 of
               None \<Rightarrow> submit_conflict key m d
             | Some d3 \<Rightarrow> submit_finish now st actor j d3))"

definition submit ::
  "time \<Rightarrow> settings \<Rightarrow> string \<Rightarrow> string \<Rightarrow> string \<Rightarrow> drift_event \<Rightarrow> 'a jdb_scheme
    \<Rightarrow> exn + 'a jdb_scheme \<times> job_response" where
  "submit now st key jid actor ev d =
     (case find_key key d of Some j \<Rightarrow> Inr (d, to_response j True)
      | None \<Rightarrow> submit_insert now st key jid actor ev d)"

section \<open>Publishing, cancelling, listing\<close>

record queued_msg =
  q_job :: string
  q_class :: string
  q_tenant :: string
  q_priority :: int
  q_attempt :: int

definition queued_job :: "job_row \<Rightarrow> queued_msg" where
  "queued_job j = \<lparr>q_job = job_id j, q_class = j_class j, q_tenant = j_tenant j,
     q_priority = j_priority j, q_attempt = j_attempt j\<rparr>"

definition mark_published ::
  "time \<Rightarrow> string \<Rightarrow> 'a jdb_scheme \<Rightarrow> exn + 'a jdb_scheme \<times> bool" where
  "mark_published now jid d =
     bindR (load_job jid d) (\<lambda>j. Inr (put_job (j\<lparr>j_published_at := Some now\<rparr>) d, True))"

text \<open>The broker is a parameter: whether it accepted the message (False: unavailable).\<close>

definition publish ::
  "time \<Rightarrow> (queued_msg \<Rightarrow> bool) \<Rightarrow> string \<Rightarrow> 'a jdb_scheme \<Rightarrow> 'a jdb_scheme \<times> (exn + bool)" where
  "publish now broker jid d =
     (case load_job jid d of Inl e \<Rightarrow> (d, Inl e)
      | Inr j \<Rightarrow>
        if j_status j \<noteq> QUEUED then (d, Inr False)
        else if \<not> broker (queued_job j) then (d, Inr False)
        else session_scope (mark_published now jid) d)"

definition request_cancel ::
  "time \<Rightarrow> settings \<Rightarrow> string \<Rightarrow> string \<Rightarrow> 'a jdb_scheme
    \<Rightarrow> exn + 'a jdb_scheme \<times> job_response \<times> bool" where
  "request_cancel now st jid actor d =
     bindR (load_job jid d) (\<lambda>j.
       let status = j_status j in
       if is_terminal status \<or> in_registry_stage status
       then Inl (err JobNotCancellableError
              [(''job_id'', CStr jid), (''status'', CStatus status)])
       else
         let j1 = (if j_cancel_at j = None
               then j\<lparr>j_cancel_at := Some now, j_cancel_by := Some actor\<rparr> else j);
             d1 = put_job j1 d;
             immediate = (status = QUEUED \<and> j_lease_token j = None)
         in bindR
              (if immediate
               then bindR (apply_transition now st j1 CANCELLED
                      (Some (to_dict (err JobCancelledError
                        [(''job_id'', CStr jid), (''requested_by'', CStr actor)]))) None None d1)
                    (\<lambda>(d2, j2). Inr
                       (drop_slots (\<lambda>s. sl_job s = jid) (release_lock (j_model j) jid d2), j2))
               else Inr (d1, j1))
              (\<lambda>(d3, j3). Inr
                (record_audit JOB_CANCEL_REQUESTED actor (Some jid) (Some (j_model j)) None [] d3,
                 to_response j3 False, immediate)))"

definition list_jobs ::
  "nat \<Rightarrow> nat \<Rightarrow> job_status option \<Rightarrow> string option \<Rightarrow> string option \<Rightarrow> bool option
    \<Rightarrow> 'a jdb_scheme \<Rightarrow> job_response list \<times> nat" where
  "list_jobs limit offset status model tenant quarantined d =
     (let p = (\<lambda>j. (status = None \<or> status = Some (j_status j))
                 \<and> (model = None \<or> model = Some (j_model j))
                 \<and> (tenant = None \<or> tenant = Some (j_tenant j))
                 \<and> (quarantined = None \<or> quarantined = Some (j_quarantined j)));
          rows = filter p (jobs d)
      in (map (\<lambda>j. to_response j False)
            (take limit (drop offset (sort_key (\<lambda>j. (- j_created_at j, job_id j)) rows))),
          length rows))"

definition timeout_error :: "job_status \<Rightarrow> exn \<Rightarrow> err_dict" where
  "timeout_error last_stage e =
     (let er = add_ctx (to_dict e) [(''last_stage'', CStatus last_stage)]
      in if in_registry_stage last_stage
         then add_ctx er [(''needs_reconciliation'', CBool True)] else er)"

end
