(* ===== verification/Worker.thy ===== *)
theory Worker
  imports Jobs
begin

text \<open>
  The job workers (\<^verbatim>\<open>orchestrator/worker.py\<close>): claiming a queued job under a lease,
  the supervisor that renews it, recording what an attempt ended with, requeueing, and the
  reaper. Each \<^verbatim>\<open>session_scope\<close> block of the code is one transaction here; an operation
  made of several transactions takes them in order. What the pipeline of an attempt does is a
  parameter: the stage reports and supervisor ticks that happen, and how it ends.
\<close>

section \<open>Claiming\<close>

record claim =
  c_job :: string
  c_token :: string
  c_attempt :: int
  c_tenant :: string
  c_slot :: "nat option"
  c_model :: string
  c_event :: drift_event
  c_deadline :: "time option"

definition tenant_limit :: "settings \<Rightarrow> string \<Rightarrow> int" where
  "tenant_limit st tenant = get_or (job_tenant_limits st) tenant (job_tenant_concurrency st)"

text \<open>
  A concurrency slot: the outer option is \<open>None\<close> for \<^verbatim>\<open>_NoSlot\<close>, the inner one for
  an unlimited tenant, which needs no slot. The IntegrityError branch of the code needs a
  concurrent insert of the same slot; run in sequence, a free slot is not taken.
\<close>

definition take_slot ::
  "time \<Rightarrow> settings \<Rightarrow> string \<Rightarrow> string \<Rightarrow> time \<Rightarrow> 'a jdb_scheme
    \<Rightarrow> ('a jdb_scheme \<times> nat option) option" where
  "take_slot now st tenant jid expires d =
     (let limit = tenant_limit st tenant in
      if limit \<le> 0 then Some (d, None)
      else
        let d1 = drop_slots (\<lambda>s. sl_tenant s = tenant \<and> sl_expires s < now) d;
            used = map sl_slot (filter (\<lambda>s. sl_tenant s = tenant) (slots d1))
        in (case find (\<lambda>n. n \<notin> set used) [0..<nat limit] of
              None \<Rightarrow> None
            | Some n \<Rightarrow> Some (d1\<lparr>slots := slots d1 @
                [\<lparr>sl_tenant = tenant, sl_slot = n, sl_job = jid, sl_expires = expires\<rparr>]\<rparr>, Some n)))"

definition claimable :: "job_row \<Rightarrow> bool" where
  "claimable j \<longleftrightarrow> j_status j = QUEUED \<and> j_lease_token j = None \<and> \<not> j_quarantined j"

definition leased :: "string \<Rightarrow> string \<Rightarrow> time \<Rightarrow> job_row \<Rightarrow> job_row" where
  "leased token owner expires j = j\<lparr>j_lease_token := Some token, j_lease_owner := Some owner,
     j_lease_expires := Some expires, j_attempt := j_attempt j + 1\<rparr>"

definition renew_model_lock :: "string \<Rightarrow> string \<Rightarrow> time \<Rightarrow> 'a db_scheme \<Rightarrow> 'a db_scheme" where
  "renew_model_lock m jid until d = d\<lparr>locks := update_where
     (\<lambda>l. lk_model l = m \<and> lk_job l = jid) (\<lambda>l. l\<lparr>lk_expires := until\<rparr>) (locks d)\<rparr>"

definition claim_of :: "job_row \<Rightarrow> string \<Rightarrow> nat option \<Rightarrow> claim" where
  "claim_of j token slot = \<lparr>c_job = job_id j, c_token = token, c_attempt = j_attempt j,
     c_tenant = j_tenant j, c_slot = slot, c_model = j_model j, c_event = j_event j,
     c_deadline = j_deadline_at j\<rparr>"

text \<open>The conditional UPDATE, then the slot, the two transitions and the model lock.\<close>

definition try_claim ::
  "time \<Rightarrow> settings \<Rightarrow> string \<Rightarrow> string \<Rightarrow> string \<Rightarrow> 'a jdb_scheme
    \<Rightarrow> exn + 'a jdb_scheme \<times> claim option" where
  "try_claim now st jid owner token d =
     (let p = (\<lambda>j. job_id j = jid \<and> claimable j);
          expires = now + job_lease_ttl_s st
      in if rowcount p (jobs d) \<noteq> 1 then Inr (d, None)
         else
           let d1 = d\<lparr>jobs := update_where p (leased token owner expires) (jobs d)\<rparr> in
           bindR (load_job jid d1) (\<lambda>j.
             case take_slot now st (j_tenant j) jid expires d1 of
               None \<Rightarrow> Inr (d, None)
             | Some (d2, slot) \<Rightarrow>
                 bindR (apply_transition now st j VALIDATING None None None d2) (\<lambda>(d3, j3).
                 bindR (apply_transition now st j3 DATA_PREPARING None None None d3) (\<lambda>(d4, j4).
                 Inr (renew_model_lock (j_model j4) jid (now + model_lock_ttl_s st) d4,
                      Some (claim_of j4 token slot))))))"

definition candidates :: "time \<Rightarrow> settings \<Rightarrow> string list \<Rightarrow> 'a jdb_scheme \<Rightarrow> string list" where
  "candidates now st classes d =
     (let ok = (\<lambda>j. claimable j \<and> j_class j \<in> set (if classes = [] then job_worker_classes st else classes)
                 \<and> (case j_available_at j of None \<Rightarrow> True | Some t \<Rightarrow> t \<le> now))
      in take (job_claim_candidates st)
           (map job_id (sort_key (\<lambda>j. (- j_priority j, j_created_at j, job_id j))
             (filter ok (jobs d)))))"

fun claim_first ::
  "time \<Rightarrow> settings \<Rightarrow> string \<Rightarrow> string \<Rightarrow> string list \<Rightarrow> 'a jdb_scheme
    \<Rightarrow> exn + 'a jdb_scheme \<times> claim option" where
  "claim_first now st owner token [] d = Inr (d, None)"
| "claim_first now st owner token (jid # jids) d =
     bindR (try_claim now st jid owner token d) (\<lambda>(d', won).
       case won of Some c \<Rightarrow> Inr (d', Some c)
       | None \<Rightarrow> claim_first now st owner token jids d')"

definition claim_job ::
  "time \<Rightarrow> settings \<Rightarrow> string \<Rightarrow> string \<Rightarrow> string list \<Rightarrow> string option \<Rightarrow> 'a jdb_scheme
    \<Rightarrow> exn + 'a jdb_scheme \<times> claim option" where
  "claim_job now st owner token classes jid d =
     (case jid of Some j \<Rightarrow> try_claim now st j owner token d
      | None \<Rightarrow> claim_first now st owner token (candidates now st classes d) d)"

section \<open>The supervisor\<close>

text \<open>
  One tick of an attempt's supervisor: the new database, until when the lease is known to be
  renewed, and the exception that stops the attempt, if any. \<open>db_up\<close> is whether the database
  answered (the SQLAlchemyError branch), \<open>drained\<close> the worker's \<^verbatim>\<open>drain_expired()\<close>.
\<close>

definition supervisor_tick ::
  "time \<Rightarrow> settings \<Rightarrow> claim \<Rightarrow> bool \<Rightarrow> bool \<Rightarrow> time \<Rightarrow> 'a jdb_scheme
    \<Rightarrow> 'a jdb_scheme \<times> time \<times> exn option" where
  "supervisor_tick now st c db_up drained renewed_until d =
     (let until = now + job_lease_ttl_s st;
          lost = Some (err JobLeaseLostError [(''job_id'', CStr (c_job c))]);
          mine = (\<lambda>j. job_id j = c_job c \<and> j_lease_token j = Some (c_token c))
      in if \<not> db_up then (d, renewed_until, if renewed_until \<le> now then lost else None)
         else if rowcount mine (jobs d) \<noteq> 1 then (d, renewed_until, lost)
         else
           let d1 = d\<lparr>jobs := update_where mine (\<lambda>j. j\<lparr>j_lease_expires := Some until\<rparr>) (jobs d)\<rparr>;
               d2 = renew_model_lock (c_model c) (c_job c) (now + model_lock_ttl_s st) d1;
               d3 = (case c_slot c of None \<Rightarrow> d2
                     | Some n \<Rightarrow> d2\<lparr>slots := update_where
                         (\<lambda>s. sl_tenant s = c_tenant c \<and> sl_slot s = n \<and> sl_job s = c_job c)
                         (\<lambda>s. s\<lparr>sl_expires := until\<rparr>) (slots d2)\<rparr>);
               stop = (case find_job (c_job c) d1 of None \<Rightarrow> None
                 | Some j \<Rightarrow>
                   if j_cancel_at j \<noteq> None \<and> \<not> in_registry_stage (j_status j)
                   then Some (err JobCancelledError
                     [(''job_id'', CStr (c_job c)), (''stage'', CStatus (j_status j))])
                   else if drained
                   then Some (err JobDrainedError [(''job_id'', CStr (c_job c))])
                   else None)
           in (d3, until, stop))"

section \<open>Ending an attempt\<close>

definition end_attempt :: "job_row \<Rightarrow> claim \<Rightarrow> bool \<Rightarrow> 'a jdb_scheme \<Rightarrow> 'a jdb_scheme \<times> job_row" where
  "end_attempt j c release d =
     (let j' = clear_lease j;
          d1 = put_job j' d;
          d2 = (case c_slot c of None \<Rightarrow> d1
                | Some n \<Rightarrow> drop_slots (\<lambda>s. sl_tenant s = c_tenant c \<and> sl_slot s = n
                                \<and> sl_job s = c_job c) d1);
          d3 = (if release then release_lock (j_model j) (job_id j) d2 else d2)
      in (d3, j'))"

definition requeue ::
  "time \<Rightarrow> settings \<Rightarrow> job_row \<Rightarrow> time \<Rightarrow> bool \<Rightarrow> bool \<Rightarrow> 'a jdb_scheme
    \<Rightarrow> exn + 'a jdb_scheme \<times> job_row" where
  "requeue now st j delay charge lost d =
     bindR (apply_transition now st j QUEUED None None None d) (\<lambda>(d1, j1).
       let j2 = j1\<lparr>j_available_at := Some (now + delay), j_published_at := None,
                 j_attempt := (if charge then j_attempt j1 else max 0 (j_attempt j1 - 1)),
                 j_lost := (if lost then j_lost j1 + 1 else j_lost j1)\<rparr>
       in Inr (put_job j2 d1, j2))"

definition lose ::
  "time \<Rightarrow> settings \<Rightarrow> job_row \<Rightarrow> 'a jdb_scheme \<Rightarrow> exn + 'a jdb_scheme \<times> job_row \<times> bool" where
  "lose now st j d =
     (if in_registry_stage (j_status j) then
        bindR (apply_transition now st j FAILED (Some (to_dict (err JobAbandonedError
            [(''last_stage'', CStatus (j_status j)), (''needs_reconciliation'', CBool True)])))
            None None d) (\<lambda>(d1, j1). Inr (d1, j1, True))
      else if job_poison_threshold st \<le> j_lost j + 1 then
        let j0 = j\<lparr>j_lost := j_lost j + 1, j_quarantined := True\<rparr> in
        bindR (apply_transition now st j0 FAILED (Some (to_dict (err JobQuarantinedError
            [(''last_stage'', CStatus (j_status j)), (''lost_attempts'', CInt (j_lost j + 1)),
             (''threshold'', CInt (job_poison_threshold st))])))
            None None d) (\<lambda>(d1, j1). Inr (d1, j1, True))
      else
        bindR (requeue now st j (job_retry_backoff_s st * 2 powi (j_lost j)) True True d)
          (\<lambda>(d1, j1). Inr (d1, j1, False)))"

text \<open>
  \<^verbatim>\<open>_record\<close> and \<^verbatim>\<open>_requeue_or_end\<close> log a lost lease and a refused transition and
  go on; any other error escapes. \<open>None\<close> is an outcome that was not recorded.
\<close>

definition not_recorded :: "'d \<Rightarrow> 'd \<times> (exn + 'a) \<Rightarrow> 'd \<times> (exn + 'a option)" where
  "not_recorded d0 r = (case snd r of
     Inr x \<Rightarrow> (fst r, Inr (Some x))
   | Inl e \<Rightarrow> if is_a (e_class e) JobLeaseLostError \<or> is_a (e_class e) InvalidTransitionError
             then (fst r, Inr None) else (fst r, Inl e))"

definition record_outcome ::
  "time \<Rightarrow> settings \<Rightarrow> claim \<Rightarrow> job_status \<Rightarrow> err_dict option \<Rightarrow> job_result option
    \<Rightarrow> strategy option \<Rightarrow> bool \<Rightarrow> 'a jdb_scheme \<Rightarrow> 'a jdb_scheme \<times> (exn + job_response option)" where
  "record_outcome now st c to er res strat release d =
     not_recorded d (session_scope (\<lambda>d.
       bindR (load_job (c_job c) d) (\<lambda>j.
       bindR (check_fence j (Some (c_token c)) to) (\<lambda>_.
       bindR (apply_transition now st j to er res strat d) (\<lambda>(d1, j1).
         let (d2, j2) = end_attempt j1 c release d1 in Inr (d2, to_response j2 False))))) d)"

definition requeue_or_end ::
  "time \<Rightarrow> settings \<Rightarrow> claim \<Rightarrow> exn \<Rightarrow> 'a jdb_scheme \<Rightarrow> 'a jdb_scheme \<times> (exn + job_response option)" where
  "requeue_or_end now st c e d =
     not_recorded d (session_scope (\<lambda>d.
       bindR (load_job (c_job c) d) (\<lambda>j.
       bindR (check_fence j (Some (c_token c)) QUEUED) (\<lambda>_.
       bindR
         (if is_a (e_class e) JobDrainedError then
            bindR (requeue now st j 0 False False d) (\<lambda>(d1, j1). Inr (d1, j1, False))
          else if is_a (e_class e) JobWorkerLostError then lose now st j d
          else
            let tries = j_attempt j - j_lost j in
            if tries \<le> job_max_retries st then
              bindR (requeue now st j (job_retry_backoff_s st * 2 powi (tries - 1)) True False d)
                (\<lambda>(d1, j1). Inr (d1, j1, False))
            else
              bindR (apply_transition now st j FAILED (Some (to_dict e)) None None d)
                (\<lambda>(d1, j1). Inr (d1, j1, True)))
         (\<lambda>(d1, j1, ended).
            let (d2, j2) = end_attempt j1 c ended d1 in Inr (d2, to_response j2 False))))) d)"

text \<open>How an attempt ended: a result, an error of the framework, or any other exception.\<close>

datatype attempt_end = Finished job_result | Raised exn | Raised_other

definition internal_error :: err_dict where
  "internal_error = \<lparr>d_code = ''INTERNAL_ERROR'', d_message = [], d_context = []\<rparr>"

definition record_failure ::
  "time \<Rightarrow> settings \<Rightarrow> claim \<Rightarrow> exn option \<Rightarrow> bool \<Rightarrow> 'a jdb_scheme
    \<Rightarrow> 'a jdb_scheme \<times> (exn + job_response option)" where
  "record_failure now st c eo release d =
     (case eo of
        None \<Rightarrow> record_outcome now st c FAILED (Some internal_error) None None release d
      | Some e \<Rightarrow>
        if is_a (e_class e) JobLeaseLostError then (d, Inr None)
        else if is_a (e_class e) JobTimeoutError then
          (case load_job (c_job c) d of Inl e' \<Rightarrow> (d, Inl e')
           | Inr j \<Rightarrow> record_outcome now st c TIMED_OUT (Some (timeout_error (j_status j) e))
                       None None release d)
        else if is_a (e_class e) JobCancelledError then
          record_outcome now st c CANCELLED (Some (to_dict e)) None None release d
        else if is_a (e_class e) JobDrainedError \<or> is_a (e_class e) JobWorkerLostError
             \<or> is_a (e_class e) RegistryUnavailableError \<or> is_a (e_class e) DatabaseUnavailableError
          then requeue_or_end now st c e d
        else record_outcome now st c FAILED (Some (to_dict e)) None None release d)"

definition stopped_by :: "exn \<Rightarrow> bool" where
  "stopped_by e \<longleftrightarrow> is_a (e_class e) JobTimeoutError \<or> is_a (e_class e) JobCancelledError
     \<or> is_a (e_class e) JobDrainedError \<or> is_a (e_class e) JobLeaseLostError"

definition outcome_status :: "job_result \<Rightarrow> job_status" where
  "outcome_status res = (if r_outcome res = O_ROLLED_BACK then ROLLED_BACK else COMPLETED)"

definition attempt_timeout :: "time \<Rightarrow> settings \<Rightarrow> claim \<Rightarrow> time" where
  "attempt_timeout now st c =
     (let t = (case c_deadline c of None \<Rightarrow> job_timeout_s st
               | Some dl \<Rightarrow> min (job_timeout_s st) (dl - now))
      in max t 0)"

text \<open>
  Recording what an attempt ended with. A stopped attempt of an in-process (thread) executor
  keeps the model lock until its thread ends: \<open>release_abandoned\<close> is that later release.
\<close>

definition finish_attempt ::
  "time \<Rightarrow> settings \<Rightarrow> bool \<Rightarrow> claim \<Rightarrow> attempt_end \<Rightarrow> 'a jdb_scheme
    \<Rightarrow> 'a jdb_scheme \<times> (exn + job_response option)" where
  "finish_attempt now st in_process c out d =
     (case out of
        Finished res \<Rightarrow>
          record_outcome now st c (outcome_status res) None (Some res) (r_strategy res) True d
      | Raised e \<Rightarrow> record_failure now st c (Some e) (\<not> (in_process \<and> stopped_by e)) d
      | Raised_other \<Rightarrow> record_failure now st c None True d)"

definition release_abandoned :: "claim \<Rightarrow> 'a db_scheme \<Rightarrow> 'a db_scheme" where
  "release_abandoned c d = release_lock (c_model c) (c_job c) d"

text \<open>
  What happens during an attempt, in order: a stage report of the pipeline, which its fence may
  refuse (the exception ends the attempt), or a supervisor tick, which may stop it.
\<close>

datatype attempt_act = Stage time job_status | Tick time bool bool

fun run_acts ::
  "settings \<Rightarrow> claim \<Rightarrow> attempt_act list \<Rightarrow> attempt_end \<Rightarrow> time \<Rightarrow> 'a jdb_scheme
    \<Rightarrow> 'a jdb_scheme \<times> attempt_end" where
  "run_acts st c [] out renewed d = (d, out)"
| "run_acts st c (Stage now s # acts) out renewed d =
     (case session_scope (transition_job now st (c_job c) s None None None (Some (c_token c))) d of
        (d', Inl e) \<Rightarrow> (d', Raised e)
      | (d', Inr _) \<Rightarrow> run_acts st c acts out renewed d')"
| "run_acts st c (Tick now up drained # acts) out renewed d =
     (case supervisor_tick now st c up drained renewed d of
        (d', _, Some e) \<Rightarrow> (d', Raised e)
      | (d', renewed', None) \<Rightarrow> run_acts st c acts out renewed' d')"

definition run_claim ::
  "time \<Rightarrow> time \<Rightarrow> settings \<Rightarrow> bool \<Rightarrow> claim \<Rightarrow> attempt_act list \<Rightarrow> attempt_end \<Rightarrow> 'a jdb_scheme
    \<Rightarrow> 'a jdb_scheme \<times> (exn + job_response option)" where
  "run_claim now end_at st in_process c acts out d =
     (if attempt_timeout now st c \<le> 0
      then finish_attempt now st in_process c
             (Raised (err JobTimeoutError [(''job_id'', CStr (c_job c))])) d
      else
        let (d', out') = run_acts st c acts out (now + job_lease_ttl_s st) d
        in finish_attempt end_at st in_process c out' d')"

section \<open>Broker deliveries and the reaper\<close>

definition unpublish :: "string \<Rightarrow> 'a jdb_scheme \<Rightarrow> 'a jdb_scheme" where
  "unpublish jid d = d\<lparr>jobs := update_where
     (\<lambda>j. job_id j = jid \<and> j_status j = QUEUED \<and> j_lease_token j = None)
     (\<lambda>j. j\<lparr>j_published_at := None\<rparr>) (jobs d)\<rparr>"

definition run_job ::
  "time \<Rightarrow> time \<Rightarrow> settings \<Rightarrow> bool \<Rightarrow> string \<Rightarrow> string \<Rightarrow> (claim \<Rightarrow> attempt_act list \<times> attempt_end)
    \<Rightarrow> string \<Rightarrow> 'a jdb_scheme \<Rightarrow> 'a jdb_scheme \<times> (exn + bool)" where
  "run_job now end_at st in_process owner token pipeline jid d =
     (case try_claim now st jid owner token d of
        Inl e \<Rightarrow> (d, Inl e)
      | Inr (d1, None) \<Rightarrow> (unpublish jid d1, Inr False)
      | Inr (d1, Some c) \<Rightarrow>
          let (acts, out) = pipeline c;
              (d2, r) = run_claim now end_at st in_process c acts out d1
          in (d2, bindR r (\<lambda>_. Inr True)))"

definition expired_leases :: "time \<Rightarrow> 'a jdb_scheme \<Rightarrow> (string \<times> string) list" where
  "expired_leases now d = List.map_filter (\<lambda>j.
     case (j_lease_token j, j_lease_expires j) of
       (Some t, Some x) \<Rightarrow>
         if x < now \<and> \<not> is_terminal (j_status j) \<and> j_status j \<noteq> QUEUED
         then Some (job_id j, t) else None
     | _ \<Rightarrow> None) (jobs d)"

definition reap_lease ::
  "time \<Rightarrow> settings \<Rightarrow> string \<times> string \<Rightarrow> 'a jdb_scheme \<Rightarrow> exn + 'a jdb_scheme \<times> bool" where
  "reap_lease now st jt d =
     (let mine = (\<lambda>j. job_id j = fst jt \<and> j_lease_token j = Some (snd jt))
      in if rowcount mine (jobs d) \<noteq> 1 then Inr (d, False)
         else
           let d1 = d\<lparr>jobs := update_where mine clear_lease (jobs d)\<rparr> in
           bindR (load_job (fst jt) d1) (\<lambda>j.
           bindR (lose now st j d1) (\<lambda>(d2, j2, ended).
             let d3 = drop_slots (\<lambda>s. sl_job s = fst jt) d2
             in Inr (if ended then release_lock (j_model j2) (fst jt) d3 else d3, True))))"

definition overdue_jobs :: "time \<Rightarrow> 'a jdb_scheme \<Rightarrow> string list" where
  "overdue_jobs now d = map job_id (filter (\<lambda>j. j_status j = QUEUED \<and> j_lease_token j = None
     \<and> (case j_deadline_at j of None \<Rightarrow> False | Some t \<Rightarrow> t < now)) (jobs d))"

definition reap_overdue ::
  "time \<Rightarrow> settings \<Rightarrow> string \<Rightarrow> 'a jdb_scheme \<Rightarrow> exn + 'a jdb_scheme \<times> bool" where
  "reap_overdue now st jid d =
     bindR (load_job jid d) (\<lambda>j.
       if j_status j \<noteq> QUEUED \<or> j_lease_token j \<noteq> None then Inr (d, False)
       else bindR (apply_transition now st j TIMED_OUT
              (Some (timeout_error QUEUED (err JobTimeoutError [(''job_id'', CStr jid)])))
              None None d) (\<lambda>(d1, j1). Inr (release_lock (j_model j1) jid d1, True)))"

definition publish_due :: "time \<Rightarrow> settings \<Rightarrow> 'a jdb_scheme \<Rightarrow> string list" where
  "publish_due now st d = map job_id (sort_key (\<lambda>j. (- j_priority j, j_created_at j))
     (filter (\<lambda>j. claimable j
        \<and> (case j_available_at j of None \<Rightarrow> True | Some t \<Rightarrow> t \<le> now)
        \<and> (case j_published_at j of None \<Rightarrow> True
           | Some t \<Rightarrow> t < now - job_republish_after_s st)) (jobs d)))"

text \<open>
  Transactions in a row: what an earlier one committed stays when a later one raises.
\<close>

definition thenT :: "'d \<times> (exn + 'a) \<Rightarrow> ('d \<Rightarrow> 'a \<Rightarrow> 'd \<times> (exn + 'b)) \<Rightarrow> 'd \<times> (exn + 'b)" where
  "thenT r f = (case r of (d, Inl e) \<Rightarrow> (d, Inl e) | (d, Inr x) \<Rightarrow> f d x)"

text \<open>One transaction per listed row, and how many of them did something.\<close>

fun reap_each :: "('i \<Rightarrow> 'd \<Rightarrow> exn + 'd \<times> bool) \<Rightarrow> 'i list \<Rightarrow> 'd \<Rightarrow> 'd \<times> (exn + nat)" where
  "reap_each f [] d = (d, Inr 0)"
| "reap_each f (x # xs) d =
     thenT (session_scope (f x) d) (\<lambda>d1 did.
     thenT (reap_each f xs d1) (\<lambda>d2 n. (d2, Inr ((if did then 1 else 0) + n))))"

fun reap_publish ::
  "time \<Rightarrow> (queued_msg \<Rightarrow> bool) \<Rightarrow> string list \<Rightarrow> 'a jdb_scheme \<Rightarrow> 'a jdb_scheme \<times> (exn + nat)" where
  "reap_publish now broker [] d = (d, Inr 0)"
| "reap_publish now broker (jid # jids) d =
     thenT (publish now broker jid d) (\<lambda>d1 sent.
       if \<not> sent then (d1, Inr 0)
       else thenT (reap_publish now broker jids d1) (\<lambda>d2 n. (d2, Inr (n + 1))))"

record reap_counts =
  n_lease_expired :: nat
  n_deadline :: nat
  n_published :: nat
  n_slots_freed :: nat

text \<open>A reaper pass; \<open>broker = None\<close> is the inline backend, which publishes nothing.\<close>

definition reap ::
  "time \<Rightarrow> settings \<Rightarrow> (queued_msg \<Rightarrow> bool) option \<Rightarrow> 'a jdb_scheme
    \<Rightarrow> 'a jdb_scheme \<times> (exn + reap_counts)" where
  "reap now st broker d =
     thenT (reap_each (reap_lease now st) (expired_leases now d) d) (\<lambda>d1 n1.
     thenT (reap_each (reap_overdue now st) (overdue_jobs now d1) d1) (\<lambda>d2 n2.
     thenT (case broker of None \<Rightarrow> (d2, Inr 0)
            | Some b \<Rightarrow> reap_publish now b (publish_due now st d2) d2) (\<lambda>d3 n3.
     (drop_slots (\<lambda>s. sl_expires s < now) d3,
      Inr \<lparr>n_lease_expired = n1, n_deadline = n2, n_published = n3,
        n_slots_freed = rowcount (\<lambda>s. sl_expires s < now) (slots d3)\<rparr>))))"

end
