(* ===== verification/Job_Moves.thy ===== *)
theory Job_Moves
  imports Worker
begin

text \<open>
  What one transaction does to one job: it replaces the job's row and appends to its history
  the walk its status took through the state machine. \<open>moves\<close> is that summary, and the
  rules below build it from the statements of an operation. The invariant proofs use only the
  summaries.
\<close>

section \<open>Walks and histories\<close>

fun walk :: "job_status \<Rightarrow> job_status list \<Rightarrow> bool" where
  "walk s [] \<longleftrightarrow> True"
| "walk s (t # ts) \<longleftrightarrow> t \<in> set (allowed_next s) \<and> walk t ts"

fun move_events :: "string \<Rightarrow> job_status \<Rightarrow> job_status list \<Rightarrow> job_event list" where
  "move_events jid s [] = []"
| "move_events jid s (t # ts) =
     \<lparr>je_job = jid, je_from = Some s, je_to = t\<rparr> # move_events jid t ts"

lemma walk_append [simp]: "walk s (ts @ us) \<longleftrightarrow> walk s ts \<and> walk (last (s # ts)) us"
  by (induction ts arbitrary: s) auto

lemma move_events_append [simp]:
  "move_events jid s (ts @ us) = move_events jid s ts @ move_events jid (last (s # ts)) us"
  by (induction ts arbitrary: s) auto

lemma move_events_job [simp]: "e \<in> set (move_events jid s ts) \<Longrightarrow> je_job e = jid"
  by (induction ts arbitrary: s) auto

text \<open>A terminal status ends every walk.\<close>

lemma walk_terminal: "walk s ts \<Longrightarrow> is_terminal s \<Longrightarrow> ts = []"
  by (cases ts) auto

definition events_of :: "string \<Rightarrow> 'a jdb_scheme \<Rightarrow> job_event list" where
  "events_of jid d = filter (\<lambda>e. je_job e = jid) (job_events d)"

text \<open>The statuses a job went through, oldest first.\<close>

definition history :: "string \<Rightarrow> 'a jdb_scheme \<Rightarrow> job_status list" where
  "history jid d = map je_to (events_of jid d)"

text \<open>A history as the state machine allows it, ending in the job's status.\<close>

definition good_history :: "job_row \<Rightarrow> 'a jdb_scheme \<Rightarrow> bool" where
  "good_history j d \<longleftrightarrow> (\<exists>ts. walk RECEIVED ts \<and> j_status j = last (RECEIVED # ts)
     \<and> events_of (job_id j) d = \<lparr>je_job = job_id j, je_from = None, je_to = RECEIVED\<rparr>
         # move_events (job_id j) RECEIVED ts)"

lemma map_to_move_events [simp]: "map je_to (move_events jid s ts) = ts"
  by (induction ts arbitrary: s) auto

lemma good_history_walk:
  "good_history j d \<Longrightarrow> \<exists>ts. history (job_id j) d = RECEIVED # ts \<and> walk RECEIVED ts
     \<and> j_status j = last (RECEIVED # ts)"
proof -
  assume "good_history j d"
  then obtain ts where "walk RECEIVED ts" "j_status j = last (RECEIVED # ts)"
    "events_of (job_id j) d = \<lparr>je_job = job_id j, je_from = None, je_to = RECEIVED\<rparr>
       # move_events (job_id j) RECEIVED ts"
    unfolding good_history_def by blast
  then show ?thesis unfolding history_def by (intro exI[of _ ts]) simp
qed

section \<open>Moves\<close>

definition same_job :: "job_row \<Rightarrow> job_row \<Rightarrow> bool" where
  "same_job j j' \<longleftrightarrow> job_id j' = job_id j \<and> j_key j' = j_key j \<and> j_model j' = j_model j
     \<and> j_tenant j' = j_tenant j \<and> j_event j' = j_event j \<and> j_created_at j' = j_created_at j"

definition moves :: "'a jdb_scheme \<Rightarrow> 'a jdb_scheme \<Rightarrow> job_row \<Rightarrow> job_status list \<Rightarrow> job_row \<Rightarrow> bool" where
  "moves d d' j ts j' \<longleftrightarrow> find_job (job_id j) d = Some j \<and> same_job j j'
     \<and> walk (j_status j) ts \<and> j_status j' = last (j_status j # ts)
     \<and> jobs d' = update_where (\<lambda>r. job_id r = job_id j) (\<lambda>r. j') (jobs d)
     \<and> job_events d' = job_events d @ move_events (job_id j) (j_status j) ts"

definition ids_ok :: "'a jdb_scheme \<Rightarrow> bool" where
  "ids_ok d \<longleftrightarrow> distinct (map job_id (jobs d)) \<and> distinct (map j_key (jobs d))
     \<and> [] \<notin> job_id ` set (jobs d)"

lemma find_job_Some: "find_job jid d = Some j \<Longrightarrow> j \<in> set (jobs d) \<and> job_id j = jid"
  unfolding find_job_def by (rule by_key_Some)

lemma find_job_iff: "ids_ok d \<Longrightarrow> find_job jid d = Some j \<longleftrightarrow> j \<in> set (jobs d) \<and> job_id j = jid"
  unfolding find_job_def ids_ok_def by (elim conjE) (rule by_key_unique)

lemma load_job_Inr [result_simps]: "load_job jid d = Inr j \<longleftrightarrow> find_job jid d = Some j"
  by (auto simp: load_job_def split: option.splits)

lemma same_job_refl [simp]: "same_job j j"
  by (simp add: same_job_def)

lemma same_job_trans: "same_job i j \<Longrightarrow> same_job j k \<Longrightarrow> same_job i k"
  by (simp add: same_job_def)

lemma update_same: "ids_ok d \<Longrightarrow> find_job (job_id j) d = Some j \<Longrightarrow>
    update_where (\<lambda>r. job_id r = job_id j) (\<lambda>r. j) (jobs d) = jobs d"
  unfolding update_where_def
  by (rule map_idI) (auto simp: find_job_iff ids_ok_def dest: distinct_map_keyD)

lemma update_twice:
  "job_id j' = jid \<Longrightarrow> update_where (\<lambda>r. job_id r = jid) (\<lambda>r. j'')
     (update_where (\<lambda>r. job_id r = jid) (\<lambda>r. j') t) = update_where (\<lambda>r. job_id r = jid) (\<lambda>r. j'') t"
  by (simp add: update_where_def)

lemma moves_refl: "ids_ok d \<Longrightarrow> find_job jid d = Some j \<Longrightarrow> moves d d j [] j"
  using find_job_Some[of jid d j] update_same[of d j] by (auto simp: moves_def)

lemma moves_frame:
  "moves d d' j ts j' \<Longrightarrow> jobs d'' = jobs d' \<Longrightarrow> job_events d'' = job_events d' \<Longrightarrow> moves d d'' j ts j'"
  by (simp add: moves_def)

lemma put_job_tables [simp]:
  "locks (put_job j d) = locks d" "slots (put_job j d) = slots d"
  "job_events (put_job j d) = job_events d" "metas (put_job j d) = metas d"
  "audits (put_job j d) = audits d" "notif_events (put_job j d) = notif_events d"
  "deliveries (put_job j d) = deliveries d"
  by (simp_all add: put_job_def)

lemma drop_slots_tables [simp]:
  "locks (drop_slots p d) = locks d" "jobs (drop_slots p d) = jobs d"
  "job_events (drop_slots p d) = job_events d" "metas (drop_slots p d) = metas d"
  "slots (drop_slots p d) = delete_where p (slots d)"
  by (simp_all add: drop_slots_def)

lemma moves_put:
  assumes "moves d d' j ts j'" and "same_job j' j''" and "j_status j'' = j_status j'"
  shows "moves d (put_job j'' d') j ts j''"
  using assms unfolding moves_def same_job_def by (simp add: put_job_def update_twice)

lemma apply_transition_Inr:
  assumes "apply_transition now st j to er res strat d = Inr (d', j')"
  shows "j' = moved j to er res strat" and "to \<in> set (allowed_next (j_status j))"
    and "locks d' = locks d" and "slots d' = slots d" and "metas d' = metas d"
    and "jobs d' = jobs (put_job j' d)"
    and "job_events d' = job_events d @ [\<lparr>je_job = job_id j, je_from = Some (j_status j), je_to = to\<rparr>]"
  using assms unfolding apply_transition_def
  by (auto simp: result_simps Let_def put_job_def)

lemma apply_transition_ok:
  assumes "to \<in> set (allowed_next (j_status j))"
  obtains d' where "apply_transition now st j to er res strat d = Inr (d', moved j to er res strat)"
proof -
  have "check_transition (j_status j) to = Inr ()" using assms by (simp add: check_transition_def)
  then show ?thesis using that by (simp add: apply_transition_def Let_def)
qed

lemma moved_simps [simp]:
  "same_job i (moved j to er res strat) \<longleftrightarrow> same_job i j"
  "job_id (moved j to er res strat) = job_id j" "j_key (moved j to er res strat) = j_key j"
  "j_model (moved j to er res strat) = j_model j"
  "j_tenant (moved j to er res strat) = j_tenant j" "j_event (moved j to er res strat) = j_event j"
  "j_created_at (moved j to er res strat) = j_created_at j"
  "j_deadline_at (moved j to er res strat) = j_deadline_at j"
  "j_status (moved j to er res strat) = to"
  "j_lease_token (moved j to er res strat) = j_lease_token j"
  "j_lease_expires (moved j to er res strat) = j_lease_expires j"
  "j_attempt (moved j to er res strat) = j_attempt j" "j_lost (moved j to er res strat) = j_lost j"
  "j_quarantined (moved j to er res strat) = j_quarantined j"
  "j_cancel_at (moved j to er res strat) = j_cancel_at j"
  by (simp_all add: moved_def same_job_def)

lemma moves_apply:
  assumes m: "moves d d' j ts j'"
    and a: "apply_transition now st j' to er res strat d' = Inr (d'', j'')"
  shows "moves d d'' j (ts @ [to]) j''"
proof -
  note f = apply_transition_Inr[OF a]
  have id: "job_id j' = job_id j" using m by (simp add: moves_def same_job_def)
  show ?thesis
    using m f id unfolding moves_def by (simp add: put_job_def update_twice)
qed

lemma release_lock_jobs [simp]:
  "slots (release_lock m j d) = slots d" "audits (release_lock m j d) = audits d"
  by (simp_all add: release_lock_def)

lemma renew_model_lock_tables [simp]:
  "jobs (renew_model_lock m j u d) = jobs d" "slots (renew_model_lock m j u d) = slots d"
  "job_events (renew_model_lock m j u d) = job_events d"
  "metas (renew_model_lock m j u d) = metas d"
  by (simp_all add: renew_model_lock_def)

lemma moves_find:
  assumes "moves d d' j ts j'"
  shows "find_job jid d' = (if jid = job_id j then Some j' else find_job jid d)"
proof -
  have s: "by_key job_id jid (update_where (\<lambda>r. job_id r = job_id j) (\<lambda>r. j') t) =
     (if jid = job_id j then (if by_key job_id jid t = None then None else Some j')
      else by_key job_id jid t)" if "job_id j' = job_id j" for t
    using that by (induction t) (auto simp: by_key_def)
  show ?thesis using assms s[of "jobs d"]
    by (auto simp: moves_def find_job_def same_job_def)
qed

end
