(* ===== verification/Job_Invariant.thy ===== *)
theory Job_Invariant
  imports Job_Moves
begin

text \<open>
  The invariant of the job tables, and the one rule by which an operation that moves one job
  keeps it. It ties each row to its history, its lease, its attempt counters, its model's lock
  and the tenant slots.
\<close>

text \<open>The bounds the settings class imposes on the values the queue uses.\<close>

definition settings_ok :: "settings \<Rightarrow> bool" where
  "settings_ok st \<longleftrightarrow> 0 \<le> job_max_retries st \<and> 0 \<le> job_retry_backoff_s st \<and> 0 < job_timeout_s st
     \<and> 0 < job_lease_ttl_s st \<and> 1 \<le> job_poison_threshold st \<and> 0 < model_lock_ttl_s st"

text \<open>Statuses in which a worker runs the job.\<close>

definition running :: "job_status \<Rightarrow> bool" where
  "running s \<longleftrightarrow> \<not> is_terminal s \<and> s \<noteq> RECEIVED \<and> s \<noteq> QUEUED"

definition row_ok :: "settings \<Rightarrow> job_row \<Rightarrow> bool" where
  "row_ok st j \<longleftrightarrow> j_status j \<noteq> RECEIVED
     \<and> (j_lease_token j \<noteq> None) = running (j_status j)
     \<and> (j_lease_expires j \<noteq> None) = running (j_status j)
     \<and> 0 \<le> j_lost j
     \<and> (\<not> is_terminal (j_status j) \<longrightarrow> j_lost j < job_poison_threshold st)
     \<and> (j_status j = QUEUED \<longrightarrow> 0 \<le> j_attempt j - j_lost j
          \<and> j_attempt j - j_lost j \<le> job_max_retries st)
     \<and> (running (j_status j) \<longrightarrow> 1 \<le> j_attempt j - j_lost j
          \<and> j_attempt j - j_lost j \<le> job_max_retries st + 1)
     \<and> (j_quarantined j \<longrightarrow> j_status j = FAILED)"

definition slots_ok :: "settings \<Rightarrow> 'a jdb_scheme \<Rightarrow> bool" where
  "slots_ok st d \<longleftrightarrow> distinct (map (\<lambda>s. (sl_tenant s, sl_slot s)) (slots d))
     \<and> (\<forall>s \<in> set (slots d). int (sl_slot s) < tenant_limit st (sl_tenant s))"

definition tokens_ok :: "'a jdb_scheme \<Rightarrow> bool" where
  "tokens_ok d \<longleftrightarrow> (\<forall>j \<in> set (jobs d). \<forall>k \<in> set (jobs d).
     j_lease_token j \<noteq> None \<longrightarrow> j_lease_token j = j_lease_token k \<longrightarrow> job_id j = job_id k)"

definition held :: "'a jdb_scheme \<Rightarrow> bool" where
  "held d \<longleftrightarrow> (\<forall>j \<in> set (jobs d). \<not> is_terminal (j_status j) \<longrightarrow>
     holder_of (j_model j) d = Some (job_id j))"

definition events_known :: "'a jdb_scheme \<Rightarrow> bool" where
  "events_known d \<longleftrightarrow> je_job ` set (job_events d) \<subseteq> job_id ` set (jobs d)"

definition job_inv :: "settings \<Rightarrow> 'a jdb_scheme \<Rightarrow> bool" where
  "job_inv st d \<longleftrightarrow> ids_ok d \<and> locks_ok d \<and> events_known d
     \<and> (\<forall>j \<in> set (jobs d). row_ok st j \<and> good_history j d)
     \<and> held d \<and> slots_ok st d \<and> tokens_ok d"

section \<open>How a move keeps it\<close>

lemma moves_mem:
  assumes "ids_ok d" and "moves d d' j ts j'"
  shows "k \<in> set (jobs d') \<longleftrightarrow> k = j' \<or> (k \<in> set (jobs d) \<and> job_id k \<noteq> job_id j)"
proof -
  have "j \<in> set (jobs d)" using assms(2) find_job_Some by (fastforce simp: moves_def)
  then show ?thesis using assms(2) by (auto simp: moves_def set_update_where)
qed

lemma moves_keys:
  assumes i: "ids_ok d" and m: "moves d d' j ts j'"
  shows "map job_id (jobs d') = map job_id (jobs d)" and "map j_key (jobs d') = map j_key (jobs d)"
proof -
  have u: "map f (jobs d') = map f (jobs d)" if "f j' = f j" for f :: "job_row \<Rightarrow> string"
  proof -
    have "find_job (job_id j) d = Some j" using m by (simp add: moves_def)
    then have j: "j \<in> set (jobs d)" using find_job_Some by blast
    have "f (if job_id r = job_id j then j' else r) = f r" if r: "r \<in> set (jobs d)" for r
      using distinct_map_keyD[of job_id "jobs d" r j] i r j \<open>f j' = f j\<close> by (auto simp: ids_ok_def)
    then show ?thesis using m by (auto simp: moves_def update_where_def)
  qed
  have "job_id j' = job_id j" "j_key j' = j_key j" using m by (auto simp: moves_def same_job_def)
  then show "map job_id (jobs d') = map job_id (jobs d)" "map j_key (jobs d') = map j_key (jobs d)"
    using u[of job_id] u[of j_key] by simp_all
qed

lemma moves_key_sets:
  assumes "ids_ok d" and "moves d d' j ts j'"
  shows "job_id ` set (jobs d') = job_id ` set (jobs d)" and "j_key ` set (jobs d') = j_key ` set (jobs d)"
  using moves_keys[OF assms] by (metis set_map)+

lemma moves_ids: "ids_ok d \<Longrightarrow> moves d d' j ts j' \<Longrightarrow> ids_ok d'"
  using moves_keys[of d d' j ts j'] moves_key_sets[of d d' j ts j'] by (simp add: ids_ok_def)

lemma events_of_moves:
  assumes "moves d d' j ts j'"
  shows "events_of k d' = (if k = job_id j then events_of k d @ move_events k (j_status j) ts
     else events_of k d)"
proof -
  have "filter (\<lambda>e. je_job e = k) (move_events i s ts) = (if i = k then move_events i s ts else [])"
    for i s
    by (induction ts arbitrary: s) auto
  then show ?thesis using assms by (auto simp: moves_def events_of_def)
qed

lemma good_history_moves:
  assumes m: "moves d d' j ts j'" and g: "good_history j d"
  shows "good_history j' d'"
proof -
  from g obtain us where us: "walk RECEIVED us" "j_status j = last (RECEIVED # us)"
    "events_of (job_id j) d = \<lparr>je_job = job_id j, je_from = None, je_to = RECEIVED\<rparr>
       # move_events (job_id j) RECEIVED us"
    unfolding good_history_def by blast
  have j': "job_id j' = job_id j" "walk (j_status j) ts" "j_status j' = last (j_status j # ts)"
    using m by (auto simp: moves_def same_job_def)
  have "walk RECEIVED (us @ ts)" using us j' by simp
  moreover have "j_status j' = last (RECEIVED # us @ ts)" using us(2) j'(3) by (cases ts) auto
  moreover have "events_of (job_id j') d' = \<lparr>je_job = job_id j', je_from = None, je_to = RECEIVED\<rparr>
       # move_events (job_id j') RECEIVED (us @ ts)"
    using us j' by (simp add: events_of_moves[OF m])
  ultimately show ?thesis unfolding good_history_def by blast
qed

lemma inv_moves:
  assumes inv: "job_inv st d" and m: "moves d d' j ts j'" and row: "row_ok st j'"
    and lk: "locks_ok d'"
    and hold: "\<And>m. holder_of m d' = holder_of m d
        \<or> (holder_of m d = Some (job_id j) \<and> is_terminal (j_status j'))"
    and sl: "slots_ok st d'"
    and tok: "j_lease_token j' = None \<or> j_lease_token j' = j_lease_token j
        \<or> (\<forall>k \<in> set (jobs d). j_lease_token k \<noteq> j_lease_token j')"
  shows "job_inv st d'"
proof -
  have ids: "ids_ok d" using inv by (simp add: job_inv_def)
  note mem = moves_mem[OF ids m]
  have j: "find_job (job_id j) d = Some j" using m by (simp add: moves_def)
  then have jd: "j \<in> set (jobs d)" using find_job_Some by blast
  have sj: "job_id j' = job_id j" "j_model j' = j_model j" using m by (auto simp: moves_def same_job_def)
  have good: "good_history k d'" if "k \<in> set (jobs d')" for k
  proof (cases "k = j'")
    case True
    have "good_history j d" using inv jd by (simp add: job_inv_def)
    then show ?thesis using True good_history_moves[OF m] by simp
  next
    case False
    then have k: "k \<in> set (jobs d)" "job_id k \<noteq> job_id j" using that mem by auto
    then have "good_history k d" using inv by (simp add: job_inv_def)
    then show ?thesis using k(2) by (simp add: good_history_def events_of_moves[OF m])
  qed
  have rows: "row_ok st k" if "k \<in> set (jobs d')" for k
    using that mem row inv by (auto simp: job_inv_def)
  have known: "events_known d'"
  proof -
    have ev: "je_job ` set (job_events d') \<subseteq> insert (job_id j) (je_job ` set (job_events d))"
      using m move_events_job by (fastforce simp: moves_def)
    have "job_id k \<in> job_id ` set (jobs d')" if "k \<in> set (jobs d)" for k
      using that mem[of k] mem[of j'] sj(1) by (cases "job_id k = job_id j") (auto intro: rev_image_eqI)
    then have js: "job_id ` set (jobs d) \<subseteq> job_id ` set (jobs d')" by blast
    have "insert (job_id j) (je_job ` set (job_events d)) \<subseteq> job_id ` set (jobs d)"
      using inv jd by (simp add: job_inv_def events_known_def)
    then show ?thesis unfolding events_known_def by (rule subset_trans[OF ev subset_trans[OF _ js]])
  qed
  have held: "held d'"
    unfolding held_def
  proof (intro ballI impI)
    fix k assume k: "k \<in> set (jobs d')" "\<not> is_terminal (j_status k)"
    have hd: "i \<in> set (jobs d) \<Longrightarrow> \<not> is_terminal (j_status i) \<Longrightarrow> holder_of (j_model i) d = Some (job_id i)"
      for i using inv by (simp add: job_inv_def held_def)
    show "holder_of (j_model k) d' = Some (job_id k)"
    proof (cases "k = j'")
      case True
      have "\<not> is_terminal (j_status j)"
      proof
        assume "is_terminal (j_status j)"
        moreover have "walk (j_status j) ts" "j_status j' = last (j_status j # ts)"
          using m by (simp_all add: moves_def)
        ultimately show False using walk_terminal[of "j_status j" ts] k(2) True by simp
      qed
      then have "holder_of (j_model j) d = Some (job_id j)" using hd jd by blast
      then show ?thesis using hold[of "j_model j"] k(2) sj unfolding True by simp
    next
      case False
      then have kd: "k \<in> set (jobs d)" "job_id k \<noteq> job_id j" using k mem by simp_all
      then show ?thesis using hd[OF kd(1) k(2)] hold[of "j_model k"] by simp
    qed
  qed
  have toks: "tokens_ok d'"
  proof -
    have t: "\<And>a b. a \<in> set (jobs d) \<Longrightarrow> b \<in> set (jobs d) \<Longrightarrow> j_lease_token a \<noteq> None \<Longrightarrow>
      j_lease_token a = j_lease_token b \<Longrightarrow> job_id a = job_id b"
      using inv unfolding job_inv_def tokens_ok_def by blast
    have other: "j_lease_token b \<noteq> j_lease_token j'"
      if "b \<in> set (jobs d)" "job_id b \<noteq> job_id j" "j_lease_token b \<noteq> None" for b
    proof
      assume e: "j_lease_token b = j_lease_token j'"
      then have "j_lease_token b = j_lease_token j" using tok that by auto
      then show False using t[OF that(1) jd that(3)] that(2) by simp
    qed
    show ?thesis unfolding tokens_ok_def
    proof (intro ballI impI)
      fix a b assume ab: "a \<in> set (jobs d')" "b \<in> set (jobs d')" "j_lease_token a \<noteq> None"
        "j_lease_token a = j_lease_token b"
      consider "a = j'" "b = j'" | "a = j'" "b \<noteq> j'" | "a \<noteq> j'" "b = j'" | "a \<noteq> j'" "b \<noteq> j'"
        by blast
      then show "job_id a = job_id b"
      proof cases
        case 2
        then show ?thesis using mem ab other[of b] by simp
      next
        case 3
        then show ?thesis using mem ab other[of a] by simp
      next
        case 4
        then show ?thesis using mem ab t[of a b] by simp
      qed simp
    qed
  qed
  show ?thesis
    using moves_ids[OF ids m] lk good rows known held sl toks by (simp add: job_inv_def)
qed

end
