(* ===== verification/Job_Ops.thy ===== *)
theory Job_Ops
  imports Job_Invariant
begin

text \<open>
  Each operation of the job queue as the move it makes, and that it keeps the invariant.
\<close>

section \<open>Effects\<close>

definition locks_kept :: "'a jdb_scheme \<Rightarrow> 'a jdb_scheme \<Rightarrow> job_row \<Rightarrow> bool" where
  "locks_kept d d' j \<longleftrightarrow> locks_ok d' \<and> (\<forall>m. holder_of m d' = holder_of m d
     \<or> (holder_of m d = Some (job_id j) \<and> is_terminal (j_status j)))"

text \<open>A move that grants no lease, adds no slot and takes no lock.\<close>

definition effect :: "'a jdb_scheme \<Rightarrow> 'a jdb_scheme \<Rightarrow> job_row \<Rightarrow> job_status list \<Rightarrow> job_row \<Rightarrow> bool" where
  "effect d d' j ts j' \<longleftrightarrow> moves d d' j ts j' \<and> locks_kept d d' j'
     \<and> (\<exists>p. slots d' = delete_where p (slots d))
     \<and> (j_lease_token j' = None \<or> j_lease_token j' = j_lease_token j)"

lemma holder_cong: "locks d' = locks d \<Longrightarrow> holder_of m d' = holder_of m d"
  by (simp add: holder_of_def lock_of_def)

lemma locks_ok_cong: "locks d' = locks d \<Longrightarrow> locks_ok d' \<longleftrightarrow> locks_ok d"
  by (simp add: locks_ok_def)

lemma holder_release:
  assumes "locks_ok d"
  shows "holder_of m (release_lock n j d) =
     (if m = n \<and> holder_of m d = Some j then None else holder_of m d)"
  unfolding holder_of_def lock_of_release[OF assms] by (cases "lock_of m d") auto

lemma locks_kept_same: "locks_ok d \<Longrightarrow> locks d' = locks d \<Longrightarrow> locks_kept d d' j"
  using holder_cong[of d' d] by (simp add: locks_kept_def locks_ok_def)

lemma locks_kept_release:
  assumes "locks_ok d" and "locks d' = locks (release_lock n (job_id j) d)" and "is_terminal (j_status j)"
  shows "locks_kept d d' j"
proof -
  have "holder_of m d' = holder_of m (release_lock n (job_id j) d)" for m
    using assms(2) by (rule holder_cong)
  then show ?thesis using assms locks_ok_cong[OF assms(2)] by (auto simp: locks_kept_def holder_release)
qed

lemma keys_renew: "map lk_model (locks (renew_model_lock n j u d)) = map lk_model (locks d)"
  using keys_update[of lk_model "\<lambda>l. l\<lparr>lk_expires := u\<rparr>"] by (simp add: renew_model_lock_def)

lemma holder_renew [simp]: "holder_of m (renew_model_lock n j u d) = holder_of m d"
proof -
  have "by_key lk_model m (locks (renew_model_lock n j u d)) =
    map_option (\<lambda>l. if lk_model l = n \<and> lk_job l = j then l\<lparr>lk_expires := u\<rparr> else l)
      (by_key lk_model m (locks d))"
    using by_key_update[of lk_model "\<lambda>l. l\<lparr>lk_expires := u\<rparr>"] by (simp add: renew_model_lock_def)
  then show ?thesis by (cases "by_key lk_model m (locks d)") (simp_all add: holder_of_def lock_of_def)
qed

lemma locks_ok_renew [simp]: "locks_ok (renew_model_lock n j u d) \<longleftrightarrow> locks_ok d"
  by (simp add: locks_ok_def keys_renew)

lemma slots_ok_drop: "slots_ok st d \<Longrightarrow> slots d' = delete_where p (slots d) \<Longrightarrow> slots_ok st d'"
  by (auto simp: slots_ok_def distinct_delete_where)

lemma delete_none [simp]: "delete_where (\<lambda>_. False) t = t"
  by (simp add: delete_where_def)

lemma delete_where_id: "\<exists>p. t = delete_where p t"
  by (rule exI[of _ "\<lambda>_. False"]) simp

lemma inv_effect:
  assumes "job_inv st d" and "effect d d' j ts j'" and "row_ok st j'"
  shows "job_inv st d'"
proof (rule inv_moves)
  show "job_inv st d" "row_ok st j'" using assms by simp_all
  show m: "moves d d' j ts j'" using assms(2) by (simp add: effect_def)
  have k: "locks_kept d d' j'" using assms(2) by (simp add: effect_def)
  have id: "job_id j' = job_id j" using m by (simp add: moves_def same_job_def)
  show "locks_ok d'" using k by (simp add: locks_kept_def)
  show "holder_of m d' = holder_of m d \<or> (holder_of m d = Some (job_id j) \<and> is_terminal (j_status j'))"
    for m using k id by (simp add: locks_kept_def)
  show "slots_ok st d'" using assms(1,2) slots_ok_drop by (auto simp: job_inv_def effect_def)
  show "j_lease_token j' = None \<or> j_lease_token j' = j_lease_token j
        \<or> (\<forall>k \<in> set (jobs d). j_lease_token k \<noteq> j_lease_token j')"
    using assms(2) by (auto simp: effect_def)
qed

text \<open>An invariant row under a move whose counters and lease obey the new status.\<close>

lemma inv_row: "job_inv st d \<Longrightarrow> find_job jid d = Some j \<Longrightarrow> row_ok st j"
  using find_job_Some by (fastforce simp: job_inv_def)

lemma inv_locks: "job_inv st d \<Longrightarrow> locks_ok d" and inv_ids: "job_inv st d \<Longrightarrow> ids_ok d"
  by (simp_all add: job_inv_def)

section \<open>Transitions under a fence\<close>

lemma check_fence_token:
  "check_fence j (Some t) to = Inr u \<Longrightarrow> j_lease_token j = Some t"
  by (auto simp: check_fence_def split: if_splits)

lemma transition_job_effect:
  assumes i: "ids_ok d" "locks_ok d" and t: "transition_job now st jid to er res strat fence d = Inr (d', r)"
  shows "\<exists>j. find_job jid d = Some j \<and> check_fence j fence to = Inr ()
     \<and> effect d d' j [to] (moved j to er res strat)"
proof -
  from t obtain j j' where j: "find_job jid d = Some j" "check_fence j fence to = Inr ()"
    and a: "apply_transition now st j to er res strat d = Inr (d', j')"
    by (auto simp: transition_job_def result_simps)
  note f = apply_transition_Inr[OF a]
  have "moves d d' j [to] (moved j to er res strat)"
    using moves_apply[OF moves_refl[OF i(1) j(1)] a] f(1) by simp
  moreover have "locks_kept d d' (moved j to er res strat)" using i f(3) by (simp add: locks_kept_same)
  ultimately show ?thesis using j f(4) by (auto simp: effect_def delete_where_id)
qed

text \<open>The statuses a pipeline reports (\<^verbatim>\<open>report_stage\<close>): neither an outcome nor QUEUED.\<close>

definition is_stage :: "job_status \<Rightarrow> bool" where
  "is_stage s \<longleftrightarrow> \<not> is_terminal s \<and> s \<noteq> QUEUED \<and> s \<noteq> RECEIVED"

lemma stage_inv:
  assumes inv: "job_inv st d" and s: "is_stage s"
    and t: "transition_job now st jid s None None None (Some tok) d = Inr (d', r)"
  shows "job_inv st d'"
proof -
  obtain j where j: "find_job jid d = Some j" "check_fence j (Some tok) s = Inr ()"
    "effect d d' j [s] (moved j s None None None)"
    using transition_job_effect[OF inv_ids[OF inv] inv_locks[OF inv] t] by blast
  have row: "row_ok st j" by (rule inv_row[OF inv j(1)])
  have "j_lease_token j = Some tok" using check_fence_token[OF j(2)] .
  then have "running (j_status j)" using row by (simp add: row_ok_def)
  moreover have "running s" using s by (simp add: is_stage_def running_def)
  ultimately have "row_ok st (moved j s None None None)"
    using row by (auto simp: row_ok_def running_def)
  then show ?thesis using inv_effect[OF inv j(3)] by blast
qed

section \<open>Ending an attempt\<close>

lemma end_attempt_effect:
  assumes i: "locks_ok d0" and m: "moves d0 d j ts j1" and lk: "locks d = locks d0" and sl: "slots d = slots d0"
    and rel: "release \<Longrightarrow> is_terminal (j_status j1)" and e: "end_attempt j1 c release d = (d', j')"
  shows "j' = clear_lease j1" and "effect d0 d' j ts j'"
proof -
  show j': "j' = clear_lease j1" using e by (auto simp: end_attempt_def Let_def)
  have p: "moves d0 (put_job j' d) j ts j'"
    by (rule moves_put[OF m]) (simp_all add: j' clear_lease_def same_job_def)
  have d': "jobs d' = jobs (put_job j' d)" "job_events d' = job_events d"
    using e by (auto simp: end_attempt_def Let_def split: option.splits if_splits)
  have mv: "moves d0 d' j ts j'" by (rule moves_frame[OF p]) (simp_all add: d')
  have l: "locks d' = (if release then locks (release_lock (j_model j1) (job_id j') d0) else locks d0)"
    using e lk by (auto simp: end_attempt_def Let_def release_lock_def j' clear_lease_def
        split: option.splits if_splits)
  have "locks_kept d0 d' j'"
  proof (cases release)
    case True
    then show ?thesis using l rel i by (auto intro!: locks_kept_release simp: j' clear_lease_def)
  next
    case False
    then show ?thesis using l i by (simp add: locks_kept_same)
  qed
  moreover have "\<exists>p. slots d' = delete_where p (slots d0)"
    using e sl delete_where_id by (auto simp: end_attempt_def Let_def split: option.splits if_splits)
  ultimately show "effect d0 d' j ts j'" using mv by (simp add: effect_def j' clear_lease_def)
qed

lemma not_recorded_cases:
  assumes "not_recorded d0 (session_scope body d) = (d', r)"
  obtains "d' = d" "\<forall>x. r \<noteq> Inr (Some x)" | x where "body d = Inr (d', x)" "r = Inr (Some x)"
  using assms by (auto simp: not_recorded_def session_scope_def split: sum.splits if_splits)

lemma record_outcome_effect:
  assumes i: "ids_ok d" "locks_ok d" and to: "is_terminal to"
    and r: "record_outcome now st c to er res strat release d = (d', r)"
  shows "(d' = d \<and> (\<forall>x. r \<noteq> Inr (Some x))) \<or> (\<exists>j. find_job (c_job c) d = Some j \<and> j_lease_token j = Some (c_token c)
     \<and> effect d d' j [to] (clear_lease (moved j to er res strat)))"
  using r unfolding record_outcome_def
proof (cases rule: not_recorded_cases)
  case 1
  then show ?thesis by simp
next
  case (2 x)
  then obtain j d1 j1 j2 where j: "find_job (c_job c) d = Some j"
    "check_fence j (Some (c_token c)) to = Inr ()"
    and a: "apply_transition now st j to er res strat d = Inr (d1, j1)"
    and e: "end_attempt j1 c release d1 = (d', j2)"
    by (auto simp: result_simps Let_def)
  note f = apply_transition_Inr[OF a]
  have m: "moves d d1 j [to] j1" using moves_apply[OF moves_refl[OF i(1) j(1)] a] by simp
  have "is_terminal (j_status j1)" using f(1) to by simp
  then have "j2 = clear_lease j1" "effect d d' j [to] j2"
    using end_attempt_effect[OF i(2) m f(3,4) _ e] by simp_all
  then show ?thesis using j check_fence_token f(1) by blast
qed

lemma row_ok_ended:
  assumes "row_ok st j" and "is_terminal to" and "running (j_status j)"
  shows "row_ok st (clear_lease (moved j to er res strat))"
  using assms by (auto simp: row_ok_def running_def clear_lease_def)

lemma record_outcome_inv:
  assumes inv: "job_inv st d" and to: "is_terminal to"
    and r: "record_outcome now st c to er res strat release d = (d', r)"
  shows "job_inv st d'"
  using record_outcome_effect[OF inv_ids[OF inv] inv_locks[OF inv] to r]
proof (elim disjE exE conjE)
  fix j assume j: "find_job (c_job c) d = Some j" "j_lease_token j = Some (c_token c)"
    and e: "effect d d' j [to] (clear_lease (moved j to er res strat))"
  have row: "row_ok st j" by (rule inv_row[OF inv j(1)])
  then have "running (j_status j)" using j by (simp add: row_ok_def)
  then show ?thesis by (rule inv_effect[OF inv e row_ok_ended[OF row to]])
qed (use inv in simp)

section \<open>Requeueing and losing an attempt\<close>

text \<open>The counters of a job that is running, whatever its lease.\<close>

definition counters_ok :: "settings \<Rightarrow> job_row \<Rightarrow> bool" where
  "counters_ok st j \<longleftrightarrow> running (j_status j) \<and> 0 \<le> j_lost j \<and> j_lost j < job_poison_threshold st
     \<and> 1 \<le> j_attempt j - j_lost j \<and> j_attempt j - j_lost j \<le> job_max_retries st + 1
     \<and> \<not> j_quarantined j"

lemma counters_of_row: "row_ok st j \<Longrightarrow> running (j_status j) \<Longrightarrow> counters_ok st j"
  by (auto simp: row_ok_def counters_ok_def running_def)

lemma counters_clear [simp]: "counters_ok st (clear_lease j) = counters_ok st j"
  by (simp add: counters_ok_def clear_lease_def)

lemma clear_lease_simps [simp]:
  "j_status (clear_lease j) = j_status j" "job_id (clear_lease j) = job_id j"
  "j_model (clear_lease j) = j_model j" "j_lease_token (clear_lease j) = None"
  "j_lost (clear_lease j) = j_lost j" "j_attempt (clear_lease j) = j_attempt j"
  "j_cancel_at (clear_lease j) = j_cancel_at j"
  "same_job i (clear_lease j) \<longleftrightarrow> same_job i j"
  by (simp_all add: clear_lease_def same_job_def)

lemma requeue_move:
  assumes m: "moves d0 d j ts j1" and r: "requeue now st j1 delay charge lost d = Inr (d', j')"
  shows "moves d0 d' j (ts @ [QUEUED]) j'" and "locks d' = locks d" and "slots d' = slots d"
    and "j_status j' = QUEUED" and "j_available_at j' = Some (now + delay)"
    and "j_attempt j' = (if charge then j_attempt j1 else max 0 (j_attempt j1 - 1))"
    and "j_lost j' = (if lost then j_lost j1 + 1 else j_lost j1)"
    and "j_quarantined j' = j_quarantined j1" and "j_lease_token j' = j_lease_token j1"
    and "j_lease_expires j' = j_lease_expires j1"
proof -
  from r obtain d2 j2 where a: "apply_transition now st j1 QUEUED None None None d = Inr (d2, j2)"
    and j': "j' = j2\<lparr>j_available_at := Some (now + delay), j_published_at := None,
       j_attempt := (if charge then j_attempt j2 else max 0 (j_attempt j2 - 1)),
       j_lost := (if lost then j_lost j2 + 1 else j_lost j2)\<rparr>"
    and d': "d' = put_job j' d2"
    by (auto simp: requeue_def result_simps Let_def)
  note f = apply_transition_Inr[OF a]
  show "moves d0 d' j (ts @ [QUEUED]) j'" unfolding d'
    by (rule moves_put[OF moves_apply[OF m a]]) (simp_all add: j' same_job_def)
  show "locks d' = locks d" "slots d' = slots d" using f by (simp_all add: d')
  show "j_status j' = QUEUED" "j_available_at j' = Some (now + delay)"
    "j_attempt j' = (if charge then j_attempt j1 else max 0 (j_attempt j1 - 1))"
    "j_lost j' = (if lost then j_lost j1 + 1 else j_lost j1)"
    "j_quarantined j' = j_quarantined j1" "j_lease_token j' = j_lease_token j1"
    "j_lease_expires j' = j_lease_expires j1"
    using f(1) by (simp_all add: j')
qed

text \<open>What a lost attempt becomes, by the stage it was lost in and the losses so far.\<close>

definition lose_to :: "settings \<Rightarrow> job_row \<Rightarrow> job_status" where
  "lose_to st j = (if in_registry_stage (j_status j) \<or> job_poison_threshold st \<le> j_lost j + 1
     then FAILED else QUEUED)"

lemma lose_move:
  assumes m: "moves d0 d j ts j1" and r: "lose now st j1 d = Inr (d', j', ended)"
  shows "moves d0 d' j (ts @ [lose_to st j1]) j' \<and> locks d' = locks d \<and> slots d' = slots d
    \<and> j_status j' = lose_to st j1 \<and> ended = (lose_to st j1 = FAILED)
    \<and> j_lease_token j' = j_lease_token j1 \<and> j_lease_expires j' = j_lease_expires j1
    \<and> (in_registry_stage (j_status j1) \<longrightarrow> j_lost j' = j_lost j1 \<and> j_quarantined j' = j_quarantined j1)
    \<and> (\<not> in_registry_stage (j_status j1) \<longrightarrow> j_lost j' = j_lost j1 + 1
         \<and> j_quarantined j' = (lose_to st j1 = FAILED \<or> j_quarantined j1))
    \<and> j_attempt j' = j_attempt j1"
proof -
  consider "in_registry_stage (j_status j1)"
    | "\<not> in_registry_stage (j_status j1)" "job_poison_threshold st \<le> j_lost j1 + 1"
    | "\<not> in_registry_stage (j_status j1)" "\<not> job_poison_threshold st \<le> j_lost j1 + 1" by blast
  then show ?thesis
  proof cases
    case 1
    then obtain er where a: "apply_transition now st j1 FAILED er None None d = Inr (d', j')"
      and e: "ended" using r by (auto simp: lose_def result_simps)
    show ?thesis using moves_apply[OF m a] apply_transition_Inr[OF a] 1 e by (simp add: lose_to_def)
  next
    case 2
    let ?j0 = "j1\<lparr>j_lost := j_lost j1 + 1, j_quarantined := True\<rparr>"
    obtain er where a: "apply_transition now st ?j0 FAILED er None None d = Inr (d', j')" and e: "ended"
      using r 2 by (auto simp: lose_def result_simps Let_def)
    have "moves d0 (put_job ?j0 d) j ts ?j0"
      by (rule moves_put[OF m]) (simp_all add: same_job_def)
    moreover have "jobs d' = jobs (put_job j' (put_job ?j0 d))"
      using apply_transition_Inr[OF a] by (simp add: put_job_def update_twice)
    ultimately have "moves d0 d' j (ts @ [FAILED]) j'"
      using m apply_transition_Inr[OF a] unfolding moves_def same_job_def
      by (simp add: put_job_def update_twice)
    then show ?thesis using apply_transition_Inr[OF a] 2 e by (simp add: lose_to_def)
  next
    case 3
    then obtain dl where a: "requeue now st j1 dl True True d = Inr (d', j')" and e: "\<not> ended"
      using r by (auto simp: lose_def result_simps)
    show ?thesis using requeue_move[OF m a] 3 e by (simp add: lose_to_def)
  qed
qed

lemma lose_row:
  assumes st: "settings_ok st" and c: "counters_ok st j1" and m: "moves d0 d j ts j1"
    and r: "lose now st j1 d = Inr (d', j', ended)"
  shows "row_ok st (clear_lease j')"
  using lose_move[OF m r] c st
  by (auto simp: counters_ok_def row_ok_def lose_to_def running_def clear_lease_def settings_ok_def)

text \<open>A conditional UPDATE that hit one row, as a move of that row.\<close>

lemma cond_update_move:
  assumes i: "ids_ok d" and c: "rowcount p (jobs d) = 1" and k: "\<And>r. p r \<Longrightarrow> job_id r = jid"
    and s: "\<And>r. same_job r (f r)" "\<And>r. j_status (f r) = j_status r"
    and d': "jobs d' = update_where p f (jobs d)" "job_events d' = job_events d"
  obtains j where "find_job jid d = Some j" "p j" "moves d d' j [] (f j)"
proof -
  have d1: "distinct (map job_id (jobs d))" using i by (simp add: ids_ok_def)
  have n: "rowcount p (jobs d) = (case find_job jid d of None \<Rightarrow> 0 | Some r \<Rightarrow> if p r then 1 else 0)"
    unfolding find_job_def
    by (rule rowcount_key[where key = job_id and p = p and k = jid, OF d1]) (rule k)
  have "find_job jid d \<noteq> None" using n c by (metis option.case(1) zero_neq_one)
  then obtain j where j: "find_job jid d = Some j" by blast
  have "p j"
  proof (rule ccontr)
    assume "\<not> p j"
    then show False using n c by (simp add: j)
  qed
  note j = j this
  have jd: "j \<in> set (jobs d)" "job_id j = jid" using find_job_Some[OF j(1)] by simp_all
  have u: "r = j" if "r \<in> set (jobs d)" "job_id r = job_id j" for r
    by (rule distinct_map_keyD[OF d1 that(1) jd(1) that(2)])
  have "p r \<longleftrightarrow> job_id r = job_id j" if r: "r \<in> set (jobs d)" for r
    using u[OF r] j(2) jd(2) k[of r] by blast
  then have "jobs d' = update_where (\<lambda>r. job_id r = job_id j) (\<lambda>r. f j) (jobs d)"
    unfolding d' update_where_def using u by (intro map_cong refl) (metis (full_types))
  then have "moves d d' j [] (f j)" using j jd s d' by (simp add: moves_def)
  then show ?thesis using that j by blast
qed

lemma requeue_or_end_effect:
  assumes inv: "job_inv st d" and st: "settings_ok st"
    and r: "requeue_or_end now st c e d = (d', x)"
  shows "(d' = d \<and> (\<forall>y. x \<noteq> Inr (Some y))) \<or> (\<exists>j j'. find_job (c_job c) d = Some j \<and> j_lease_token j = Some (c_token c)
     \<and> effect d d' j [j_status j'] j' \<and> row_ok st j' \<and> j_status j' \<in> {QUEUED, FAILED})"
  using r unfolding requeue_or_end_def
proof (cases rule: not_recorded_cases)
  case 1
  then show ?thesis by simp
next
  case (2 y)
  let ?body = "\<lambda>j. if is_a (e_class e) JobDrainedError then
            bindR (requeue now st j 0 False False d) (\<lambda>(d1, j1). Inr (d1, j1, False))
          else if is_a (e_class e) JobWorkerLostError then lose now st j d
          else
            let tries = j_attempt j - j_lost j in
            if tries \<le> job_max_retries st then
              bindR (requeue now st j (job_retry_backoff_s st * 2 powi (tries - 1)) True False d)
                (\<lambda>(d1, j1). Inr (d1, j1, False))
            else
              bindR (apply_transition now st j FAILED (Some (to_dict e)) None None d)
                (\<lambda>(d1, j1). Inr (d1, j1, True))"
  from 2 obtain j d1 j1 ended j2 where j: "find_job (c_job c) d = Some j"
    and f: "check_fence j (Some (c_token c)) QUEUED = Inr ()"
    and b: "?body j = Inr (d1, j1, ended)" and e: "end_attempt j1 c ended d1 = (d', j2)"
    by (auto simp: result_simps)
  note row = inv_row[OF inv j]
  have tok: "j_lease_token j = Some (c_token c)" by (rule check_fence_token[OF f])
  have run: "running (j_status j)" using row tok by (simp add: row_ok_def)
  note cnt = counters_of_row[OF row run]
  note m0 = moves_refl[OF inv_ids[OF inv] j]
  have "moves d d1 j [j_status j1] j1 \<and> locks d1 = locks d \<and> slots d1 = slots d
      \<and> row_ok st (clear_lease j1) \<and> ended = is_terminal (j_status j1) \<and> j_status j1 \<in> {QUEUED, FAILED}"
  proof (cases "is_a (e_class e) JobDrainedError")
    case True
    then have q: "requeue now st j 0 False False d = Inr (d1, j1)" "\<not> ended"
      using b by (auto simp: result_simps)
    show ?thesis using requeue_move[OF m0 q(1)] q(2) cnt
      by (auto simp: counters_ok_def row_ok_def running_def clear_lease_def)
  next
    case nd: False
    show ?thesis
    proof (cases "is_a (e_class e) JobWorkerLostError")
      case True
      then have l: "lose now st j d = Inr (d1, j1, ended)" using b nd by simp
      show ?thesis using lose_move[OF m0 l] lose_row[OF st cnt m0 l] by (auto simp: lose_to_def)
    next
      case nl: False
      show ?thesis
      proof (cases "j_attempt j - j_lost j \<le> job_max_retries st")
        case True
        then obtain dl where q: "requeue now st j dl True False d = Inr (d1, j1)" "\<not> ended"
          using b nd nl by (auto simp: result_simps Let_def)
        show ?thesis using requeue_move[OF m0 q(1)] q(2) cnt True
          by (auto simp: counters_ok_def row_ok_def running_def clear_lease_def)
      next
        case False
        then obtain er where a: "apply_transition now st j FAILED er None None d = Inr (d1, j1)" and en: ended
          using b nd nl by (auto simp: result_simps Let_def)
        show ?thesis using moves_apply[OF m0 a] apply_transition_Inr[OF a] en cnt
          by (auto simp: counters_ok_def row_ok_def running_def clear_lease_def)
      qed
    qed
  qed
  then have j1: "moves d d1 j [j_status j1] j1" "locks d1 = locks d" "slots d1 = slots d"
    "row_ok st (clear_lease j1)" "ended \<Longrightarrow> is_terminal (j_status j1)" "j_status j1 \<in> {QUEUED, FAILED}"
    by simp_all
  have "j2 = clear_lease j1" "effect d d' j [j_status j1] j2"
    using end_attempt_effect[OF inv_locks[OF inv] j1(1,2,3,5) e] by simp_all
  then show ?thesis using j tok j1 by (intro disjI2 exI[of _ j] exI[of _ j2]) simp
qed

lemma requeue_or_end_inv:
  assumes "job_inv st d" and "settings_ok st" and "requeue_or_end now st c e d = (d', x)"
  shows "job_inv st d'"
  using requeue_or_end_effect[OF assms] assms(1) inv_effect by blast

lemma record_failure_inv:
  assumes "job_inv st d" and "settings_ok st" and "record_failure now st c eo release d = (d', x)"
  shows "job_inv st d'"
proof -
  note ro = record_outcome_inv[OF assms(1), rotated]
  show ?thesis
    using assms
    by (auto simp: record_failure_def intro: ro requeue_or_end_inv
        split: option.splits if_splits sum.splits)
qed

lemma outcome_status_terminal [simp]: "is_terminal (outcome_status res)"
  by (simp add: outcome_status_def)

lemma finish_attempt_inv:
  assumes "job_inv st d" and "settings_ok st" and "finish_attempt now st ip c out d = (d', x)"
  shows "job_inv st d'"
  using assms record_outcome_inv[OF assms(1) outcome_status_terminal] record_failure_inv[OF assms(1,2)]
  by (cases out) (auto simp: finish_attempt_def)

end
