(* ===== verification/Job_Ops2.thy ===== *)
theory Job_Ops2
  imports Job_Ops
begin

text \<open>
  The operations outside an attempt keep the invariant: the reaper, cancelling, publishing, the
  supervisor's renewals, claiming and submitting.
\<close>

section \<open>The reaper\<close>

lemma job_inv_slots: "job_inv st d \<Longrightarrow> slots_ok st d"
  by (simp add: job_inv_def)

lemma reap_lease_effect:
  assumes inv: "job_inv st d" and st: "settings_ok st"
    and r: "reap_lease now st (jid, tok) d = Inr (d', did)"
  shows "(\<not> did \<and> d' = d) \<or> (did \<and> (\<exists>j j'. find_job jid d = Some j \<and> j_lease_token j = Some tok
     \<and> effect d d' j [lose_to st j] (clear_lease j') \<and> row_ok st (clear_lease j')))"
proof (cases "rowcount (\<lambda>j. job_id j = jid \<and> j_lease_token j = Some tok) (jobs d) = 1")
  case False
  then show ?thesis using r by (simp add: reap_lease_def)
next
  case True
  let ?p = "\<lambda>j. job_id j = jid \<and> j_lease_token j = Some tok"
  define d1 where "d1 = d\<lparr>jobs := update_where ?p clear_lease (jobs d)\<rparr>"
  obtain j where j: "find_job jid d = Some j" "?p j" and m: "moves d d1 j [] (clear_lease j)"
    by (rule cond_update_move[OF inv_ids[OF inv] True, of jid clear_lease d1]) (simp_all add: d1_def)
  have "find_job jid d1 = Some (clear_lease j)" using moves_find[OF m] j by simp
  then obtain d2 j2 ended where l: "lose now st (clear_lease j) d1 = Inr (d2, j2, ended)"
    and d': "d' = (let d3 = drop_slots (\<lambda>s. sl_job s = jid) d2
        in if ended then release_lock (j_model j2) jid d3 else d3)" and did: did
    using r True by (auto simp: reap_lease_def result_simps Let_def d1_def[symmetric])
  note row = inv_row[OF inv j(1)]
  have run: "running (j_status j)" using row j by (simp add: row_ok_def)
  have cnt: "counters_ok st (clear_lease j)" using counters_of_row[OF row run] by simp
  note lm = lose_move[OF m l]
  have lt: "lose_to st (clear_lease j) = lose_to st j" by (simp add: lose_to_def)
  have m2: "moves d d2 j [lose_to st j] j2" using lm lt by simp
  have tok0: "j_lease_token j2 = None" using lm by simp
  have m2c: "moves d (put_job (clear_lease j2) d2) j [lose_to st j] (clear_lease j2)"
    by (rule moves_put[OF m2]) simp_all
  have jid: "job_id j2 = jid" using m2 j by (simp add: moves_def same_job_def)
  have row2: "row_ok st (clear_lease j2)" by (rule lose_row[OF st cnt m l])
  have exp: "j2 = clear_lease j2" using lm tok0 by (simp add: clear_lease_def)
  have "moves d d' j [lose_to st j] (clear_lease j2)"
    using moves_frame[OF m2, of d'] exp d' by (simp add: Let_def)
  moreover have "locks_kept d d' (clear_lease j2)"
  proof (cases ended)
    case True
    then have t: "is_terminal (j_status j2)" using lm by simp
    have "locks d' = locks (release_lock (j_model j2) (job_id (clear_lease j2)) d)"
      using d' True lm jid by (simp add: Let_def release_lock_def d1_def)
    then show ?thesis by (rule locks_kept_release[OF inv_locks[OF inv]]) (simp add: t)
  next
    case False
    then show ?thesis using d' lm inv_locks[OF inv] by (simp add: Let_def locks_kept_same d1_def)
  qed
  moreover have "slots d' = delete_where (\<lambda>s. sl_job s = jid) (slots d)"
    using d' lm by (simp add: Let_def d1_def)
  ultimately have "effect d d' j [lose_to st j] (clear_lease j2)"
    unfolding effect_def by auto
  then show ?thesis using j row2 did by blast
qed

lemma reap_lease_inv:
  "job_inv st d \<Longrightarrow> settings_ok st \<Longrightarrow> reap_lease now st jt d = Inr (d', did) \<Longrightarrow> job_inv st d'"
  using reap_lease_effect[of st d now "fst jt" "snd jt" d' did] inv_effect by (metis prod.collapse)

lemma row_ok_queued_end:
  assumes "row_ok st j" and "j_status j = QUEUED" and "is_terminal to"
  shows "row_ok st (moved j to er res strat)"
  using assms by (auto simp: row_ok_def running_def)

lemma reap_overdue_effect:
  assumes inv: "job_inv st d" and r: "reap_overdue now st jid d = Inr (d', did)"
  shows "(\<not> did \<and> d' = d) \<or> (did \<and> (\<exists>j j'. find_job jid d = Some j \<and> j_status j = QUEUED
     \<and> effect d d' j [TIMED_OUT] j' \<and> row_ok st j'))"
proof -
  obtain j where j: "find_job jid d = Some j" using r by (auto simp: reap_overdue_def result_simps)
  show ?thesis
  proof (cases "j_status j \<noteq> QUEUED \<or> j_lease_token j \<noteq> None")
    case True
    then show ?thesis using r j by (auto simp: reap_overdue_def load_job_def)
  next
    case False
    then obtain d1 j1 er where a: "apply_transition now st j TIMED_OUT er None None d = Inr (d1, j1)"
      and d': "d' = release_lock (j_model j1) jid d1" and did: did
      using r j by (auto simp: reap_overdue_def load_job_def result_simps)
    note f = apply_transition_Inr[OF a]
    have m: "moves d d' j [TIMED_OUT] j1"
      using moves_apply[OF moves_refl[OF inv_ids[OF inv] j] a] d' by (auto intro: moves_frame)
    have id: "job_id j1 = jid" using f(1) find_job_Some[OF j] by simp
    have "locks_kept d d' j1"
      by (rule locks_kept_release[OF inv_locks[OF inv], of _ "j_model j1"])
        (use f d' id in \<open>simp_all add: release_lock_def\<close>)
    moreover have "slots d' = slots d" using f d' by simp
    moreover have "j_lease_token j1 = j_lease_token j" using f(1) by simp
    ultimately have "effect d d' j [TIMED_OUT] j1"
      using m delete_where_id[of "slots d"] by (simp add: effect_def)
    moreover have "row_ok st j1" unfolding f(1)
      by (rule row_ok_queued_end[OF inv_row[OF inv j]]) (use False in simp_all)
    ultimately show ?thesis using j False did by blast
  qed
qed

lemma reap_overdue_inv:
  "job_inv st d \<Longrightarrow> reap_overdue now st jid d = Inr (d', did) \<Longrightarrow> job_inv st d'"
  using reap_overdue_effect inv_effect by blast

section \<open>Row changes without a transition\<close>

text \<open>A conditional UPDATE of one job that changes neither status, lease nor counters.\<close>

definition same_state :: "job_row \<Rightarrow> job_row \<Rightarrow> bool" where
  "same_state j j' \<longleftrightarrow> same_job j j' \<and> j_status j' = j_status j \<and> j_lease_token j' = j_lease_token j
     \<and> (j_lease_expires j' = None) = (j_lease_expires j = None) \<and> j_lost j' = j_lost j
     \<and> j_attempt j' = j_attempt j \<and> j_quarantined j' = j_quarantined j"

lemma row_ok_same_state: "same_state j j' \<Longrightarrow> row_ok st j \<Longrightarrow> row_ok st j'"
  unfolding same_state_def row_ok_def by metis

lemma put_same_state_inv:
  assumes inv: "job_inv st d" and j: "find_job jid d = Some j" and s: "same_state j j'"
  shows "job_inv st (put_job j' d)"
proof (rule inv_effect[OF inv])
  have "moves d (put_job j' d) j [] j'"
    using moves_put[OF moves_refl[OF inv_ids[OF inv] j]] s by (simp add: same_state_def)
  then show "effect d (put_job j' d) j [] j'"
    using s inv_locks[OF inv] by (simp add: effect_def same_state_def locks_kept_same delete_where_id)
  show "row_ok st j'" by (rule row_ok_same_state[OF s inv_row[OF inv j]])
qed

lemma cond_update_none:
  assumes i: "ids_ok d" and c: "rowcount p (jobs d) \<noteq> 1" and k: "\<And>r. p r \<Longrightarrow> job_id r = jid"
  shows "update_where p f (jobs d) = jobs d"
proof -
  have d1: "distinct (map job_id (jobs d))" using i by (simp add: ids_ok_def)
  have n: "rowcount p (jobs d) = (case by_key job_id jid (jobs d) of None \<Rightarrow> 0 | Some r \<Rightarrow> if p r then 1 else 0)"
    by (rule rowcount_key[where key = job_id and p = p and k = jid, OF d1]) (rule k)
  then have "rowcount p (jobs d) = 0" using c by (auto split: option.splits if_splits)
  then show ?thesis unfolding rowcount_0 by (intro update_where_none) blast
qed

lemma job_inv_slots_only:
  assumes inv: "job_inv st d" and e: "jobs d' = jobs d" "job_events d' = job_events d" "locks d' = locks d"
    and sl: "slots_ok st d'"
  shows "job_inv st d'"
proof -
  have "ids_ok d' = ids_ok d" "events_known d' = events_known d" "tokens_ok d' = tokens_ok d"
    by (simp_all add: ids_ok_def events_known_def tokens_ok_def e)
  moreover have "held d' = held d" using holder_cong[OF e(3)] by (simp add: held_def e)
  moreover have "good_history j d' = good_history j d" for j
    by (simp add: good_history_def events_of_def e)
  ultimately show ?thesis using inv sl locks_ok_cong[OF e(3)] by (simp add: job_inv_def e(1))
qed

lemma job_inv_cong:
  assumes "jobs d' = jobs d" "job_events d' = job_events d" "locks d' = locks d" "slots d' = slots d"
  shows "job_inv st d' = job_inv st d"
proof -
  have s: "slots_ok st d' = slots_ok st d" by (simp add: slots_ok_def assms(4))
  show ?thesis
  proof
    assume "job_inv st d'"
    then show "job_inv st d"
      using job_inv_slots[of st d'] s by (intro job_inv_slots_only[of st d' d]) (simp_all add: assms)
  next
    assume "job_inv st d"
    then show "job_inv st d'"
      using job_inv_slots[of st d] s by (intro job_inv_slots_only[of st d d']) (simp_all add: assms)
  qed
qed

lemma unpublish_inv:
  assumes inv: "job_inv st d"
  shows "job_inv st (unpublish jid d)"
proof (cases "rowcount (\<lambda>j. job_id j = jid \<and> j_status j = QUEUED \<and> j_lease_token j = None) (jobs d) = 1")
  case True
  let ?f = "\<lambda>j. j\<lparr>j_published_at := None\<rparr>"
  obtain j where j: "find_job jid d = Some j" and m: "moves d (unpublish jid d) j [] (?f j)"
    by (rule cond_update_move[OF inv_ids[OF inv] True, of jid ?f "unpublish jid d"])
      (simp_all add: unpublish_def same_job_def)
  have "same_state j (?f j)" by (simp add: same_state_def same_job_def)
  then have "job_inv st (put_job (?f j) d)" by (rule put_same_state_inv[OF inv j])
  moreover have "jobs (unpublish jid d) = jobs (put_job (?f j) d)"
    using m find_job_Some[OF j] by (simp add: moves_def put_job_def)
  ultimately show ?thesis
    using job_inv_cong[of "unpublish jid d" "put_job (?f j) d"] by (simp add: unpublish_def)
next
  case False
  have "jobs (unpublish jid d) = jobs d"
    using cond_update_none[OF inv_ids[OF inv] False, of jid] by (simp add: unpublish_def)
  then show ?thesis using inv job_inv_cong[of "unpublish jid d" d] by (simp add: unpublish_def)
qed

lemma mark_published_inv:
  assumes inv: "job_inv st d" and p: "mark_published now jid d = Inr (d', b)"
  shows "job_inv st d'"
proof -
  obtain j where j: "find_job jid d = Some j" "d' = put_job (j\<lparr>j_published_at := Some now\<rparr>) d"
    using p by (auto simp: mark_published_def result_simps)
  have "same_state j (j\<lparr>j_published_at := Some now\<rparr>)" by (simp add: same_state_def same_job_def)
  then show ?thesis using put_same_state_inv[OF inv j(1)] j(2) by simp
qed

lemma publish_inv:
  assumes inv: "job_inv st d" and p: "publish now b jid d = (d', r)"
  shows "job_inv st d'"
proof -
  have "d' = d \<or> (\<exists>b. mark_published now jid d = Inr (d', b))"
    using p by (auto simp: publish_def session_scope_def split: sum.splits if_splits)
  then show ?thesis using inv mark_published_inv by blast
qed

section \<open>Cancelling\<close>

lemma request_cancel_effect:
  assumes inv: "job_inv st d" and c: "request_cancel now st jid actor d = Inr (d', r, imm)"
  shows "\<exists>j j'. find_job jid d = Some j \<and> \<not> is_terminal (j_status j) \<and> \<not> in_registry_stage (j_status j)
    \<and> imm = (j_status j = QUEUED \<and> j_lease_token j = None)
    \<and> effect d d' j (if imm then [CANCELLED] else []) j' \<and> j_cancel_at j' \<noteq> None \<and> row_ok st j'
    \<and> r = to_response j' False \<and> j_lease_token j' = j_lease_token j
    \<and> (imm \<longrightarrow> locks d' = locks (release_lock (j_model j) jid d)
         \<and> slots d' = delete_where (\<lambda>s. sl_job s = jid) (slots d))"
proof -
  obtain j where j: "find_job jid d = Some j" "\<not> is_terminal (j_status j)" "\<not> in_registry_stage (j_status j)"
    using c by (auto simp: request_cancel_def result_simps Let_def split: if_splits)
  define j1 where "j1 = (if j_cancel_at j = None
     then j\<lparr>j_cancel_at := Some now, j_cancel_by := Some actor\<rparr> else j)"
  have j1: "same_state j j1" "j_cancel_at j1 \<noteq> None" "job_id j1 = jid" "j_model j1 = j_model j"
    using find_job_Some[OF j(1)] by (auto simp: j1_def same_state_def same_job_def)
  have m1: "moves d (put_job j1 d) j [] j1"
    using moves_put[OF moves_refl[OF inv_ids[OF inv] j(1)]] j1(1) by (simp add: same_state_def)
  have row1: "row_ok st j1" by (rule row_ok_same_state[OF j1(1) inv_row[OF inv j(1)]])
  show ?thesis
  proof (cases "j_status j = QUEUED \<and> j_lease_token j = None")
    case False
    have imm: "\<not> imm" using c j False
      by (auto simp: request_cancel_def load_job_def Let_def)
    have d': "d' = record_audit JOB_CANCEL_REQUESTED actor (Some jid) (Some (j_model j)) None [] (put_job j1 d)"
      using c j False by (auto simp: request_cancel_def load_job_def Let_def j1_def)
    have "moves d d' j [] j1" by (rule moves_frame[OF m1]) (simp_all add: d')
    moreover have "slots d' = slots d" "locks d' = locks d" by (simp_all add: d')
    ultimately have "effect d d' j [] j1"
      using j1(1) inv_locks[OF inv] delete_where_id[of "slots d"]
      by (simp add: effect_def locks_kept_same same_state_def)
    moreover have "r = to_response j1 False"
      using c j False by (auto simp: request_cancel_def load_job_def Let_def j1_def)
    ultimately show ?thesis using j imm row1 j1 False
      by (intro exI[of _ j] exI[of _ j1]) (auto simp: same_state_def)
  next
    case True
    then obtain er d2 j2 where a: "apply_transition now st j1 CANCELLED er None None (put_job j1 d) = Inr (d2, j2)"
      and d': "d' = record_audit JOB_CANCEL_REQUESTED actor (Some jid) (Some (j_model j)) None []
         (drop_slots (\<lambda>s. sl_job s = jid) (release_lock (j_model j) jid d2))"
      and imm: imm and r: "r = to_response j2 False"
      using c j by (auto simp: request_cancel_def load_job_def result_simps Let_def j1_def)
    note f = apply_transition_Inr[OF a]
    have m: "moves d d' j [CANCELLED] j2"
      using moves_apply[OF m1 a] by (auto intro: moves_frame simp: d')
    have "locks_kept d d' j2"
      by (rule locks_kept_release[OF inv_locks[OF inv], of _ "j_model j"])
        (use f j1 in \<open>simp_all add: release_lock_def d'\<close>)
    moreover have "slots d' = delete_where (\<lambda>s. sl_job s = jid) (slots d)" using f by (simp add: d')
    moreover have "j_lease_token j2 = j_lease_token j" using f(1) j1(1) by (simp add: same_state_def)
    ultimately have "effect d d' j [CANCELLED] j2" using m by (auto simp: effect_def)
    moreover have "row_ok st j2" unfolding f(1)
      by (rule row_ok_queued_end[OF row1]) (use True j1(1) in \<open>simp_all add: same_state_def\<close>)
    moreover have "locks d' = locks (release_lock (j_model j) jid d)"
      using f by (simp add: d' release_lock_def)
    ultimately show ?thesis
      using j imm True f(1) j1(2) r \<open>slots d' = delete_where (\<lambda>s. sl_job s = jid) (slots d)\<close>
        \<open>j_lease_token j2 = j_lease_token j\<close> by (intro exI[of _ j] exI[of _ j2]) simp
  qed
qed

lemma request_cancel_inv:
  "job_inv st d \<Longrightarrow> request_cancel now st jid actor d = Inr (d', r, imm) \<Longrightarrow> job_inv st d'"
  using request_cancel_effect inv_effect by blast

section \<open>The supervisor\<close>

lemma slots_ok_renew:
  assumes "slots_ok st d" and "slots d' = update_where p (\<lambda>s. s\<lparr>sl_expires := u\<rparr>) (slots d)"
  shows "slots_ok st d'"
proof -
  have "map (\<lambda>s. (sl_tenant s, sl_slot s)) (slots d') = map (\<lambda>s. (sl_tenant s, sl_slot s)) (slots d)"
    unfolding assms(2) by (rule keys_update) simp
  then show ?thesis using assms by (auto simp: slots_ok_def set_update_where)
qed

lemma update_all [simp]: "update_where (\<lambda>_. False) f t = t"
  by (simp add: update_where_def)

lemma supervisor_tick_inv:
  assumes inv: "job_inv st d" and t: "supervisor_tick now st c up dr ren d = (d', ren', stop)"
  shows "job_inv st d'"
proof (cases "up \<and> rowcount (\<lambda>j. job_id j = c_job c \<and> j_lease_token j = Some (c_token c)) (jobs d) = 1")
  case False
  then have "d' = d" using t by (auto simp: supervisor_tick_def Let_def split: if_splits)
  then show ?thesis using inv by simp
next
  case True
  let ?p = "\<lambda>j. job_id j = c_job c \<and> j_lease_token j = Some (c_token c)"
  let ?f = "\<lambda>j. j\<lparr>j_lease_expires := Some (now + job_lease_ttl_s st)\<rparr>"
  have jd: "jobs d' = update_where ?p ?f (jobs d)" "job_events d' = job_events d"
    "locks d' = locks (renew_model_lock (c_model c) (c_job c) (now + model_lock_ttl_s st) d)"
    using t True by (auto simp: supervisor_tick_def Let_def renew_model_lock_def split: option.splits)
  have sl: "\<exists>q u. slots d' = update_where q (\<lambda>s. s\<lparr>sl_expires := u\<rparr>) (slots d)"
  proof (cases "c_slot c")
    case None
    then have "slots d' = update_where (\<lambda>_. False) (\<lambda>s. s\<lparr>sl_expires := 0\<rparr>) (slots d)"
      using t True by (auto simp: supervisor_tick_def Let_def)
    then show ?thesis by blast
  next
    case (Some n)
    then have "slots d' = update_where (\<lambda>s. sl_tenant s = c_tenant c \<and> sl_slot s = n \<and> sl_job s = c_job c)
        (\<lambda>s. s\<lparr>sl_expires := now + job_lease_ttl_s st\<rparr>) (slots d)"
      using t True by (auto simp: supervisor_tick_def Let_def)
    then show ?thesis by blast
  qed
  obtain j where j: "find_job (c_job c) d = Some j" "?p j" and m: "moves d d' j [] (?f j)"
    by (rule cond_update_move[OF inv_ids[OF inv] conjunct2[OF True], of "c_job c" ?f d'])
      (simp_all add: jd same_job_def)
  note row = inv_row[OF inv j(1)]
  show ?thesis
  proof (rule inv_moves[OF inv m])
    show "row_ok st (?f j)" using row j by (auto simp: row_ok_def)
    show "locks_ok d'" using inv_locks[OF inv] locks_ok_renew locks_ok_cong[OF jd(3)] by simp
    show "holder_of m d' = holder_of m d \<or> (holder_of m d = Some (job_id j) \<and> is_terminal (j_status (?f j)))" for m
      using holder_cong[OF jd(3)] by simp
    show "slots_ok st d'" using sl slots_ok_renew[OF job_inv_slots[OF inv]] by blast
    show "j_lease_token (?f j) = None \<or> j_lease_token (?f j) = j_lease_token j
        \<or> (\<forall>k \<in> set (jobs d). j_lease_token k \<noteq> j_lease_token (?f j))" by simp
  qed
qed

section \<open>Claiming\<close>

lemma take_slot_Some:
  assumes "take_slot now st tn jid ex d = Some (d', slot)" and "slots_ok st d"
  shows "jobs d' = jobs d \<and> job_events d' = job_events d \<and> locks d' = locks d \<and> slots_ok st d'
    \<and> (case slot of None \<Rightarrow> tenant_limit st tn \<le> 0 \<and> slots d' = slots d
       | Some n \<Rightarrow> int n < tenant_limit st tn
           \<and> \<lparr>sl_tenant = tn, sl_slot = n, sl_job = jid, sl_expires = ex\<rparr> \<in> set (slots d'))"
proof (cases "tenant_limit st tn \<le> 0")
  case True
  then show ?thesis using assms by (simp add: take_slot_def)
next
  case False
  let ?d1 = "drop_slots (\<lambda>s. sl_tenant s = tn \<and> sl_expires s < now) d"
  let ?used = "map sl_slot (filter (\<lambda>s. sl_tenant s = tn) (slots ?d1))"
  from assms(1) False obtain n where n: "find (\<lambda>n. n \<notin> set ?used) [0..<nat (tenant_limit st tn)] = Some n"
    and s: "slot = Some n"
    and d': "d' = ?d1\<lparr>slots := slots ?d1 @ [\<lparr>sl_tenant = tn, sl_slot = n, sl_job = jid, sl_expires = ex\<rparr>]\<rparr>"
    by (auto simp: take_slot_def Let_def split: option.splits)
  have nn: "n < nat (tenant_limit st tn)" "n \<notin> set ?used" using n by (simp_all add: find_upt_least)
  have ok: "slots_ok st ?d1" by (rule slots_ok_drop[OF assms(2)]) simp
  have "(tn, n) \<notin> (\<lambda>s. (sl_tenant s, sl_slot s)) ` set (slots ?d1)" using nn(2) by auto
  then have "slots_ok st d'" using ok nn(1) by (simp add: slots_ok_def d')
  then show ?thesis using s nn(1) by (simp add: d')
qed

lemma try_claim_effect:
  assumes inv: "job_inv st d" and c: "try_claim now st jid owner token d = Inr (d', won)"
  shows "(won = None \<and> d' = d) \<or> (\<exists>j slot. find_job jid d = Some j \<and> claimable j
     \<and> won = Some (claim_of (leased token owner (now + job_lease_ttl_s st) j) token slot)
     \<and> moves d d' j [VALIDATING, DATA_PREPARING]
         ((leased token owner (now + job_lease_ttl_s st) j)\<lparr>j_status := DATA_PREPARING\<rparr>)
     \<and> locks d' = locks (renew_model_lock (j_model j) jid (now + model_lock_ttl_s st) d)
     \<and> slots_ok st d'
     \<and> (case slot of None \<Rightarrow> tenant_limit st (j_tenant j) \<le> 0
        | Some n \<Rightarrow> \<lparr>sl_tenant = j_tenant j, sl_slot = n, sl_job = jid,
             sl_expires = now + job_lease_ttl_s st\<rparr> \<in> set (slots d')))"
proof (cases "rowcount (\<lambda>j. job_id j = jid \<and> claimable j) (jobs d) = 1")
  case False
  then show ?thesis using c by (simp add: try_claim_def Let_def)
next
  case True
  let ?p = "\<lambda>j. job_id j = jid \<and> claimable j"
  let ?ex = "now + job_lease_ttl_s st"
  let ?f = "leased token owner ?ex"
  define d1 where "d1 = d\<lparr>jobs := update_where ?p ?f (jobs d)\<rparr>"
  obtain j where j: "find_job jid d = Some j" "?p j" and m: "moves d d1 j [] (?f j)"
    by (rule cond_update_move[OF inv_ids[OF inv] True, of jid ?f d1])
      (simp_all add: d1_def leased_def same_job_def)
  have l: "find_job jid d1 = Some (?f j)" using moves_find[OF m] j by simp
  have tn: "j_tenant (?f j) = j_tenant j" by (simp add: leased_def)
  have c1: "(case take_slot now st (j_tenant j) jid ?ex d1 of
               None \<Rightarrow> Inr (d, None)
             | Some (d2, slot) \<Rightarrow>
                 bindR (apply_transition now st (?f j) VALIDATING None None None d2) (\<lambda>(d3, j3).
                 bindR (apply_transition now st j3 DATA_PREPARING None None None d3) (\<lambda>(d4, j4).
                 Inr (renew_model_lock (j_model j4) jid (now + model_lock_ttl_s st) d4,
                      Some (claim_of j4 token slot))))) = Inr (d', won)"
    using c True l tn unfolding try_claim_def Let_def d1_def[symmetric] by (simp add: load_job_def)
  show ?thesis
  proof (cases "take_slot now st (j_tenant j) jid ?ex d1")
    case None
    then show ?thesis using c1 by simp
  next
    case (Some ds)
    obtain d2 slot where ds: "ds = (d2, slot)" by (cases ds)
    have sl1: "slots_ok st d1" using job_inv_slots[OF inv] by (simp add: slots_ok_def d1_def)
    note ts = take_slot_Some[OF Some[unfolded ds] sl1]
    obtain d3 j3 d4 j4 where a3: "apply_transition now st (?f j) VALIDATING None None None d2 = Inr (d3, j3)"
      and a4: "apply_transition now st j3 DATA_PREPARING None None None d3 = Inr (d4, j4)"
      and d': "d' = renew_model_lock (j_model j4) jid (now + model_lock_ttl_s st) d4"
      and won: "won = Some (claim_of j4 token slot)"
      using c1 Some ds by (auto simp: result_simps)
    have m2: "moves d d2 j [] (?f j)" using moves_frame[OF m] ts by simp
    have m4: "moves d d4 j [VALIDATING, DATA_PREPARING] j4"
      using moves_apply[OF moves_apply[OF m2 a3] a4] by simp
    note f = apply_transition_Inr[OF a3] apply_transition_Inr[OF a4]
    have j4: "j4 = (?f j)\<lparr>j_status := DATA_PREPARING\<rparr>"
      using f(1) f(8) by (simp add: moved_def or_else_def split: option.splits)
    have "moves d d' j [VALIDATING, DATA_PREPARING] ((?f j)\<lparr>j_status := DATA_PREPARING\<rparr>)"
      using moves_frame[OF m4, of d'] d' j4 by simp
    moreover have "locks d' = locks (renew_model_lock (j_model j) jid (now + model_lock_ttl_s st) d)"
      using d' f ts by (simp add: renew_model_lock_def leased_def d1_def)
    moreover have "slots d' = slots d2" using d' f by simp
    moreover have "won = Some (claim_of (?f j) token slot)"
      using won j4 by (simp add: claim_of_def)
    ultimately show ?thesis using j ts
      by (intro disjI2 exI[of _ j] exI[of _ slot])
        (auto simp: slots_ok_def split: option.splits)
  qed
qed

lemma try_claim_inv:
  assumes inv: "job_inv st d" and fresh: "\<forall>k \<in> set (jobs d). j_lease_token k \<noteq> Some token"
    and c: "try_claim now st jid owner token d = Inr (d', won)"
  shows "job_inv st d'"
  using try_claim_effect[OF inv c]
proof (elim disjE exE conjE)
  fix j slot assume j: "find_job jid d = Some j" "claimable j"
    and m: "moves d d' j [VALIDATING, DATA_PREPARING]
         ((leased token owner (now + job_lease_ttl_s st) j)\<lparr>j_status := DATA_PREPARING\<rparr>)"
    and lk: "locks d' = locks (renew_model_lock (j_model j) jid (now + model_lock_ttl_s st) d)"
    and sl: "slots_ok st d'"
  show ?thesis
  proof (rule inv_moves[OF inv m])
    show "row_ok st ((leased token owner (now + job_lease_ttl_s st) j)\<lparr>j_status := DATA_PREPARING\<rparr>)"
      using inv_row[OF inv j(1)] j(2) by (auto simp: row_ok_def claimable_def running_def leased_def)
    show "locks_ok d'" using inv_locks[OF inv] locks_ok_renew locks_ok_cong[OF lk] by simp
    show "holder_of n d' = holder_of n d \<or> (holder_of n d = Some (job_id j) \<and> is_terminal (j_status
        ((leased token owner (now + job_lease_ttl_s st) j)\<lparr>j_status := DATA_PREPARING\<rparr>)))" for n
      using holder_cong[OF lk] by simp
    show "slots_ok st d'" by (rule sl)
  qed (use fresh in \<open>simp add: leased_def\<close>)
qed (use inv in simp_all)

end
