(* ===== verification/Job_Submit.thy ===== *)
theory Job_Submit
  imports Job_Ops2
begin

text \<open>
  Submitting a drift event keeps the invariant: at most one job that has not ended per model,
  one job per idempotency key, and a job is only recorded together with its model's lock.
\<close>

lemma failed_allowed: "\<not> is_terminal s \<Longrightarrow> FAILED \<in> set (allowed_next s)"
  by (cases s) (simp_all add: allowed_next_def)

lemma queued_allowed: "running s \<Longrightarrow> QUEUED \<in> set (allowed_next s)"
  by (cases s) (simp_all add: allowed_next_def running_def retry_target_def)

lemma fail_abandoned_cases:
  assumes f: "fail_abandoned_job now st old tb d = r"
  obtains "r = Inr d" "\<And>j. find_job old d = Some j \<Longrightarrow> is_terminal (j_status j)"
  | j er d' where "r = Inr d'" "find_job old d = Some j" "\<not> is_terminal (j_status j)"
      "jobs d' = jobs (put_job (clear_lease (moved j FAILED (Some er) None None)) d)"
      "job_events d' = job_events d @ [\<lparr>je_job = old, je_from = Some (j_status j), je_to = FAILED\<rparr>]"
      "locks d' = locks d" "slots d' = delete_where (\<lambda>s. sl_job s = old) (slots d)"
proof (cases "\<exists>j. find_job old d = Some j \<and> \<not> is_terminal (j_status j)")
  case False
  then show ?thesis using that(1) f
    by (auto simp: fail_abandoned_job_def split: option.splits if_splits)
next
  case True
  then obtain j where j: "find_job old d = Some j" "\<not> is_terminal (j_status j)" by blast
  have id: "job_id j = old" using find_job_Some[OF j(1)] by simp
  define er where "er = (let er = to_dict (err JobAbandonedError
                [(''last_stage'', CStatus (j_status j)), (''taken_over_by'', CStr tb)])
      in if in_registry_stage (j_status j) then add_ctx er [(''needs_reconciliation'', CBool True)] else er)"
  obtain d1 where a: "apply_transition now st j FAILED (Some er) None None d =
      Inr (d1, moved j FAILED (Some er) None None)"
    using apply_transition_ok[OF failed_allowed[OF j(2)]] by blast
  have r: "r = Inr (drop_slots (\<lambda>s. sl_job s = old)
      (put_job (clear_lease (moved j FAILED (Some er) None None)) d1))"
    using f j a by (simp add: fail_abandoned_job_def Let_def er_def)
  note g = apply_transition_Inr[OF a]
  show ?thesis
    by (rule that(2)[OF r j]) (use g id in \<open>simp_all add: put_job_def update_twice\<close>)
qed

lemma submit_finish_effect:
  assumes s: "submit_finish now st actor j d = Inr (d', r)" and st: "j_status j = RECEIVED"
  shows "jobs d' = jobs (put_job (moved j QUEUED None None None) d)" "locks d' = locks d" "slots d' = slots d"
    and "job_events d' = job_events d @ [\<lparr>je_job = job_id j, je_from = None, je_to = RECEIVED\<rparr>,
       \<lparr>je_job = job_id j, je_from = Some RECEIVED, je_to = QUEUED\<rparr>]"
    and "r = to_response (moved j QUEUED None None None) False"
proof -
  obtain d3 j' where a: "apply_transition now st j QUEUED None None None d3 = Inr (d', j')"
    and d3: "jobs d3 = jobs d" "locks d3 = locks d" "slots d3 = slots d"
      "job_events d3 = job_events d @ [\<lparr>je_job = job_id j, je_from = None, je_to = RECEIVED\<rparr>]"
    and r: "r = to_response j' False"
    using s by (auto simp: submit_finish_def Let_def result_simps)
  note f = apply_transition_Inr[OF a]
  show "jobs d' = jobs (put_job (moved j QUEUED None None None) d)" "locks d' = locks d" "slots d' = slots d"
    "job_events d' = job_events d @ [\<lparr>je_job = job_id j, je_from = None, je_to = RECEIVED\<rparr>,
       \<lparr>je_job = job_id j, je_from = Some RECEIVED, je_to = QUEUED\<rparr>]"
    "r = to_response (moved j QUEUED None None None) False"
    using f d3 st r by (simp_all add: put_job_def)
qed

lemma submit_finish_total:
  assumes "j_status j = RECEIVED" shows "\<exists>x. submit_finish now st actor j d = Inr x"
proof -
  have "QUEUED \<in> set (allowed_next (j_status j))" using assms by (simp add: allowed_next_def)
  note ok = apply_transition_ok[OF this]
  let ?d3 = "record_audit DRIFT_RECEIVED actor (Some (job_id j)) (Some (j_model j)) None []
    (record_job_transition now st (job_id j) (j_model j) RECEIVED (d\<lparr>job_events := job_events d @
      [\<lparr>je_job = job_id j, je_from = None, je_to = RECEIVED\<rparr>]\<rparr>))"
  obtain d4 where "apply_transition now st j QUEUED None None None ?d3
      = Inr (d4, moved j QUEUED None None None)" by (rule ok)
  then show ?thesis by (simp add: submit_finish_def Let_def)
qed

text \<open>A new job is added to tables in which no job of its model is live.\<close>

lemma inv_insert:
  assumes inv: "job_inv st d" and dead: "\<And>k. k \<in> set (jobs d) \<Longrightarrow> j_model k = j_model j \<Longrightarrow> is_terminal (j_status k)"
    and fresh: "job_id j \<notin> job_id ` set (jobs d)" "j_key j \<notin> j_key ` set (jobs d)" "job_id j \<noteq> []"
    and d': "jobs d' = jobs d @ [j]" "job_events d' = job_events d @
      [\<lparr>je_job = job_id j, je_from = None, je_to = RECEIVED\<rparr>,
       \<lparr>je_job = job_id j, je_from = Some RECEIVED, je_to = QUEUED\<rparr>]"
    and lk: "locks_ok d'" "holder_of (j_model j) d' = Some (job_id j)"
      "\<And>n. n \<noteq> j_model j \<Longrightarrow> holder_of n d' = holder_of n d"
    and sl: "slots_ok st d'" and row: "row_ok st j" "j_status j = QUEUED" "j_lease_token j = None"
  shows "job_inv st d'"
proof -
  have ids: "ids_ok d" and kn: "je_job ` set (job_events d) \<subseteq> job_id ` set (jobs d)"
    using inv by (simp_all add: job_inv_def events_known_def)
  have "ids_ok d'" using ids fresh d'(1) by (auto simp: ids_ok_def)
  moreover have "events_known d'" using kn d' by (auto simp: events_known_def)
  moreover have "good_history k d'" if k: "k \<in> set (jobs d')" for k
  proof (cases "k = j")
    case True
    have "filter (\<lambda>e. je_job e = job_id j) (job_events d) = []"
      unfolding filter_empty_conv using subsetD[OF kn imageI] fresh(1) by metis
    then have "events_of (job_id k) d' = \<lparr>je_job = job_id k, je_from = None, je_to = RECEIVED\<rparr>
         # move_events (job_id k) RECEIVED [QUEUED]"
      unfolding True events_of_def d'(2) by simp
    moreover have "walk RECEIVED [QUEUED]" by (simp add: allowed_next_def)
    moreover have "j_status k = last (RECEIVED # [QUEUED])" using True row(2) by simp
    ultimately show ?thesis unfolding good_history_def by (intro exI[of _ "[QUEUED]"] conjI)
  next
    case False
    then have kd: "k \<in> set (jobs d)" using k d'(1) by simp
    then have "job_id k \<noteq> job_id j" using fresh(1) by (metis imageI)
    then have "events_of (job_id k) d' = events_of (job_id k) d" using d'(2) by (simp add: events_of_def)
    moreover have "good_history k d" using inv kd by (simp add: job_inv_def)
    ultimately show ?thesis by (simp add: good_history_def)
  qed
  moreover have "row_ok st k" if "k \<in> set (jobs d')" for k
    using that d'(1) row(1) inv by (auto simp: job_inv_def)
  moreover have "held d'" unfolding held_def
  proof (intro ballI impI)
    fix k assume k: "k \<in> set (jobs d')" "\<not> is_terminal (j_status k)"
    show "holder_of (j_model k) d' = Some (job_id k)"
    proof (cases "k = j")
      case False
      then have kd: "k \<in> set (jobs d)" using k d'(1) by simp
      then have "j_model k \<noteq> j_model j" using dead k(2) by blast
      moreover have "holder_of (j_model k) d = Some (job_id k)"
        using inv kd k(2) by (simp add: job_inv_def held_def)
      ultimately show ?thesis using lk(3) by simp
    qed (use lk(2) in simp)
  qed
  moreover have "tokens_ok d'" unfolding tokens_ok_def
  proof (intro ballI impI)
    fix a b assume ab: "a \<in> set (jobs d')" "b \<in> set (jobs d')" "j_lease_token a \<noteq> None"
      "j_lease_token a = j_lease_token b"
    then have "a \<in> set (jobs d)" "b \<in> set (jobs d)" using d'(1) row(3) by auto
    then show "job_id a = job_id b" using inv ab(3,4) unfolding job_inv_def tokens_ok_def by blast
  qed
  ultimately show ?thesis using lk(1) sl by (simp add: job_inv_def)
qed

section \<open>The recording transaction\<close>

lemma holder_take_over:
  assumes "locks_ok d"
  shows "holder_of n (snd (take_over_expired_lock now m jid ttl d)) =
     (if n = m \<and> fst (take_over_expired_lock now m jid ttl d) then Some jid else holder_of n d)"
  unfolding holder_of_def lock_of_take_over[OF assms] take_over_iff[OF assms]
  by (cases "lock_of n d") auto

lemma holder_add:
  "add_lock now m jid ttl d = Some d' \<Longrightarrow> holder_of n d' = (if n = m then Some jid else holder_of n d)"
  by (simp add: holder_of_def lock_of_add)

lemma take_over_none:
  assumes "locks_ok d" and "\<not> fst (take_over_expired_lock now m jid ttl d)"
  shows "locks (snd (take_over_expired_lock now m jid ttl d)) = locks d"
proof -
  have "\<not> (lk_model l = m \<and> lk_expires l < now)" if l: "l \<in> set (locks d)" for l
  proof
    assume e: "lk_model l = m \<and> lk_expires l < now"
    have "lock_of m d = Some l"
      unfolding lock_of_def using by_key_unique[of lk_model "locks d" m l] assms(1) l e
      by (simp add: locks_ok_def)
    then show False using assms(2) e take_over_iff[OF assms(1)] by blast
  qed
  then show ?thesis by (simp add: take_over_expired_lock_def Let_def update_where_none)
qed

lemma find_job_append:
  "job_id j \<noteq> k \<Longrightarrow> find_job k (d\<lparr>jobs := jobs d @ [j]\<rparr>) = find_job k d"
  by (simp add: find_job_def by_key_append by_key_single split: option.split)

lemma placed_job_simps [simp]:
  "job_id (placed_job now st jid key actor ev d) = jid"
  "j_key (placed_job now st jid key actor ev d) = key"
  "j_model (placed_job now st jid key actor ev d) = ev_model_id ev"
  "j_status (placed_job now st jid key actor ev d) = RECEIVED"
  "j_lease_token (placed_job now st jid key actor ev d) = None"
  by (simp_all add: placed_job_def)

lemma row_ok_placed:
  "settings_ok st \<Longrightarrow> row_ok st (moved (placed_job now st jid key actor ev d) QUEUED None None None)"
  by (simp add: row_ok_def placed_job_def moved_def running_def settings_ok_def)

lemma put_placed:
  "jid \<notin> job_id ` set t \<Longrightarrow> update_where (\<lambda>r. job_id r = jid) (\<lambda>r. j') t = t"
  by (rule update_where_none) auto

text \<open>The jobs, history, locks and slots after the transaction recorded a new job.\<close>

lemma submit_conflict_same: "submit_conflict key m d = Inr (d', r) \<Longrightarrow>
    d' = d \<and> p_duplicate r \<and> (\<exists>j. find_key key d = Some j \<and> r = to_response j True)"
  by (auto simp: submit_conflict_def to_response_def split: option.splits)

definition added :: "'a jdb_scheme \<Rightarrow> 'a jdb_scheme \<Rightarrow> bool" where
  "added d d' \<longleftrightarrow> (\<exists>db j. jobs d' = jobs db @ [j] \<and> j_lease_token j = None
     \<and> ((db :: 'a jdb_scheme) = d \<or> (\<exists>i k. moves d db i [FAILED] k \<and> j_lease_token k = None)))"

lemma submit_insert_inv:
  assumes inv: "job_inv st d" and st: "settings_ok st" and id: "jid \<noteq> []"
    and s: "submit_insert now st key jid actor ev d = Inr (d', r)"
  shows "job_inv st d'
     \<and> (p_duplicate r \<longrightarrow> d' = d \<and> (\<exists>j. find_key key d = Some j \<and> r = to_response j True)) \<and> (\<not> p_duplicate r \<longrightarrow>
     (\<exists>j. find_job jid d' = Some j \<and> j_key j = key \<and> j_model j = ev_model_id ev \<and> j_status j = QUEUED
        \<and> r = to_response j False)
     \<and> find_job jid d = None \<and> find_key key d = None \<and> added d d')"
proof (cases "find_key key d \<noteq> None \<or> find_job jid d \<noteq> None")
  case True
  then have "submit_conflict key (ev_model_id ev) d = Inr (d', r)"
    using s by (simp add: submit_insert_def Let_def)
  then show ?thesis using inv submit_conflict_same by blast
next
  case False
  let ?m = "ev_model_id ev"
  let ?j = "placed_job now st jid key actor ev d"
  let ?j' = "moved ?j QUEUED None None None"
  define d1 where "d1 = d\<lparr>jobs := jobs d @ [?j]\<rparr>"
  define prev where "prev = holder_of ?m d"
  have prev1: "holder_of ?m d1 = prev" by (simp add: prev_def d1_def holder_of_def lock_of_def)
  define tk where "tk = take_over_expired_lock now ?m jid (model_lock_ttl_s st) d1"
  have idn: "jid \<notin> job_id ` set (jobs d)" and kn: "key \<notin> j_key ` set (jobs d)"
    using False by (auto simp: find_job_def find_key_def by_key_None)
  have lok: "locks_ok d1" using inv_locks[OF inv] by (simp add: d1_def locks_ok_def)
  have na: "\<not> holder_is_active now prev d1"
    using s False prev1 unfolding submit_insert_def Let_def d1_def[symmetric] by (auto split: if_splits)
  have s1: "(if fst tk then
            bindR (case prev of
                None \<Rightarrow> Inr (snd tk)
              | Some old \<Rightarrow> if old \<noteq> [] \<and> old \<noteq> jid then fail_abandoned_job now st old jid (snd tk) else Inr (snd tk))
              (submit_finish now st actor ?j)
          else
            (case add_lock now ?m jid (model_lock_ttl_s st) (snd tk) of
               None \<Rightarrow> submit_conflict key ?m d
             | Some d3 \<Rightarrow> submit_finish now st actor ?j d3)) = Inr (d', r)"
    using s False na
    unfolding submit_insert_def Let_def d1_def[symmetric] tk_def[symmetric] prev1 case_prod_beta
    by simp
  have tks: "jobs (snd tk) = jobs d @ [?j]" "job_events (snd tk) = job_events d" "slots (snd tk) = slots d"
    by (simp_all add: tk_def d1_def)
  have hd1: "holder_of n d1 = holder_of n d" for n by (simp add: d1_def holder_of_def lock_of_def)
  have fin: ?thesis if base: "job_inv st db" and m3: "jobs d3 = jobs db @ [?j]" "job_events d3 = job_events db"
      "slots d3 = slots db" "locks_ok d3" "holder_of ?m d3 = Some jid"
      and hn: "\<And>n. n \<noteq> ?m \<Longrightarrow> holder_of n d3 = holder_of n db"
      and idb: "job_id ` set (jobs db) = job_id ` set (jobs d)" "j_key ` set (jobs db) = j_key ` set (jobs d)"
      and dead: "\<And>k. k \<in> set (jobs db) \<Longrightarrow> j_model k = ?m \<Longrightarrow> is_terminal (j_status k)"
      and f: "submit_finish now st actor ?j d3 = Inr (d', r)"
      and mv: "db = d \<or> (\<exists>i k. moves d db i [FAILED] k \<and> j_lease_token k = None)"
      for db d3 :: "'a jdb_scheme"
  proof -
    note e = submit_finish_effect[OF f placed_job_simps(4)]
    have jb: "jobs d' = jobs db @ [?j']"
      using e(1) m3(1) idn idb(1) put_placed[of jid "jobs db"] by (simp add: put_job_def update_where_def)
    have "job_inv st d'"
    proof (rule inv_insert[OF base _ _ _ _ jb])
      show "is_terminal (j_status k)" if "k \<in> set (jobs db)" "j_model k = j_model ?j'" for k
        using dead that by simp
      show "holder_of (j_model ?j') d' = Some (job_id ?j')" using m3(5) holder_cong[OF e(2)] by simp
      show "holder_of n d' = holder_of n db" if "n \<noteq> j_model ?j'" for n
        using hn that holder_cong[OF e(2)] by simp
      show "locks_ok d'" using m3(4) locks_ok_cong[OF e(2)] by simp
      show "slots_ok st d'" using job_inv_slots[OF base] e(3) m3(3) by (simp add: slots_ok_def)
      show "row_ok st ?j'" by (rule row_ok_placed[OF st])
    qed (use e(4) m3(2) idn kn idb id in simp_all)
    moreover have "find_job jid d' = Some ?j'"
      using idn idb(1) by (simp add: find_job_def jb by_key_append by_key_single by_key_None split: option.split)
        (metis by_key_None option.distinct(1))
    moreover have "added d d'" unfolding added_def using jb mv
      by (intro exI[of _ db] exI[of _ ?j'] conjI) simp_all
    ultimately show ?thesis using e(5) False by (simp add: to_response_def)
  qed
  have live_prev: "prev = Some (job_id k)" if "k \<in> set (jobs d)" "j_model k = ?m" "\<not> is_terminal (j_status k)" for k
    using inv that unfolding job_inv_def held_def prev_def by metis
  have noid: "job_id k \<noteq> []" "job_id k \<noteq> jid" if "k \<in> set (jobs d)" for k
    using inv_ids[OF inv] that idn unfolding ids_ok_def by (metis imageI)+
  have hold_tk: "holder_of n (snd tk) = (if n = ?m \<and> fst tk then Some jid else holder_of n d)" for n
    unfolding tk_def holder_take_over[OF lok] hd1 ..
  have lok_tk: "locks_ok (snd tk)" unfolding tk_def by (rule locks_ok_take_over[OF lok])
  show ?thesis
  proof (cases "fst tk")
    case False
    then consider (c) "submit_conflict key ?m d = Inr (d', r)"
      | (a) d3 where "add_lock now ?m jid (model_lock_ttl_s st) (snd tk) = Some d3"
        "submit_finish now st actor ?j d3 = Inr (d', r)"
      using s1 by (cases "add_lock now ?m jid (model_lock_ttl_s st) (snd tk)") simp_all
    then show ?thesis
    proof cases
      case c
      then show ?thesis using inv submit_conflict_same by blast
    next
      case (a d3)
      have d3: "jobs d3 = jobs d @ [?j]" "job_events d3 = job_events d" "slots d3 = slots d"
        using a(1) tks by (auto simp: add_lock_def split: if_splits)
      have "holder_of ?m (snd tk) = None"
        using a(1) add_lock_None[of now ?m jid "model_lock_ttl_s st" "snd tk"] by (simp add: holder_of_def)
      then have none: "prev = None" using hold_tk False by (simp add: prev_def)
      show ?thesis
      proof (rule fin[OF inv d3])
        show "locks_ok d3" by (rule locks_ok_add[OF lok_tk a(1)])
        show "holder_of ?m d3 = Some jid" using holder_add[OF a(1)] by simp
        show "holder_of n d3 = holder_of n d" if "n \<noteq> ?m" for n
          using holder_add[OF a(1)] hold_tk that by simp
        show "is_terminal (j_status k)" if "k \<in> set (jobs d)" "j_model k = ?m" for k
          using live_prev[OF that] none by blast
        show "submit_finish now st actor ?j d3 = Inr (d', r)" using a(2) by simp
      qed simp_all
    qed
  next
    case True
    then obtain l where "lock_of ?m d1 = Some l" unfolding tk_def take_over_iff[OF lok] by blast
    then obtain old where old: "prev = Some old" using prev1 by (auto simp: holder_of_def)
    let ?o = "old \<noteq> [] \<and> old \<noteq> jid"
    define fr where "fr = (if ?o then fail_abandoned_job now st old jid (snd tk) else Inr (snd tk))"
    have s2: "bindR fr (submit_finish now st actor ?j) = Inr (d', r)"
      using s1 True old by (simp add: fr_def)
    have same: ?thesis if fr: "fr = Inr (snd tk)"
      and dead: "\<And>k. k \<in> set (jobs d) \<Longrightarrow> job_id k = old \<Longrightarrow> is_terminal (j_status k)"
    proof (rule fin[OF inv tks])
      show "locks_ok (snd tk)" by (rule lok_tk)
      show "holder_of ?m (snd tk) = Some jid" using hold_tk True by simp
      show "holder_of n (snd tk) = holder_of n d" if "n \<noteq> ?m" for n using hold_tk that by simp
      show "is_terminal (j_status k)" if "k \<in> set (jobs d)" "j_model k = ?m" for k
        using live_prev[OF that] dead[OF that(1)] old by auto
      show "submit_finish now st actor ?j (snd tk) = Inr (d', r)" using s2 fr by simp
    qed simp_all
    show ?thesis
    proof (cases ?o)
      case False
      show ?thesis
      proof (rule same)
        show "fr = Inr (snd tk)" using False unfolding fr_def by (rule if_not_P)
        show "is_terminal (j_status k)" if "k \<in> set (jobs d)" "job_id k = old" for k
          using noid[OF that(1)] that(2) False by blast
      qed
    next
      case o: True
      then have frf: "fail_abandoned_job now st old jid (snd tk) = fr" by (simp add: fr_def)
      have fj: "find_job old (snd tk) = find_job old d"
        using find_job_append[of ?j old d] o not_sym[of old jid] tks(1) by (simp add: find_job_def)
      show ?thesis using frf
      proof (cases rule: fail_abandoned_cases)
        case 1
        show ?thesis
        proof (rule same[OF 1(1)])
          show "is_terminal (j_status k)" if "k \<in> set (jobs d)" "job_id k = old" for k
            using 1(2) fj that find_job_iff[OF inv_ids[OF inv]] by simp
        qed
      next
        case (2 j er d3)
        have jd: "find_job old d = Some j" using 2(2) fj by simp
        have jid: "job_id j = old" "j \<in> set (jobs d)" using find_job_Some[OF jd] by simp_all
        let ?k = "clear_lease (moved j FAILED (Some er) None None)"
        define db where "db = d\<lparr>jobs := update_where (\<lambda>r. job_id r = old) (\<lambda>r. ?k) (jobs d),
          job_events := job_events d @ [\<lparr>je_job = old, je_from = Some (j_status j), je_to = FAILED\<rparr>],
          locks := locks (release_lock ?m old d), slots := delete_where (\<lambda>s. sl_job s = old) (slots d)\<rparr>"
        have mv: "moves d db j [FAILED] ?k"
          using jd jid failed_allowed[OF 2(3)] by (simp add: moves_def db_def)
        have "locks_kept d db ?k"
          by (rule locks_kept_release[OF inv_locks[OF inv], of _ ?m]) (simp_all add: db_def jid)
        with mv have eff: "effect d db j [FAILED] ?k"
          unfolding effect_def by (auto simp: db_def)
        have row: "row_ok st j" by (rule inv_row[OF inv jd])
        have rowk: "row_ok st ?k" using row 2(3) by (auto simp: row_ok_def running_def clear_lease_def)
        have base: "job_inv st db" by (rule inv_effect[OF inv eff rowk])
        note mem = moves_mem[OF inv_ids[OF inv] mv]
        show ?thesis
        proof (rule fin[OF base])
          have "jid \<noteq> old" using o by blast
          then show "jobs d3 = jobs db @ [?j]"
            using 2(4) tks(1) jid by (simp add: db_def put_job_def update_where_def)
          show "job_events d3 = job_events db" using 2(5) tks(2) by (simp add: db_def)
          show "slots d3 = slots db" using 2(7) tks(3) by (simp add: db_def)
          show "locks_ok d3" using lok_tk locks_ok_cong[OF 2(6)] by simp
          show "holder_of ?m d3 = Some jid" using hold_tk True holder_cong[OF 2(6)] by simp
          show "holder_of n d3 = holder_of n db" if "n \<noteq> ?m" for n
          proof -
            have "holder_of n db = holder_of n (release_lock ?m old d)"
              by (rule holder_cong) (simp add: db_def)
            then show ?thesis
              using hold_tk that holder_cong[OF 2(6)] holder_release[OF inv_locks[OF inv]] by simp
          qed
          show "job_id ` set (jobs db) = job_id ` set (jobs d)" "j_key ` set (jobs db) = j_key ` set (jobs d)"
            using moves_key_sets[OF inv_ids[OF inv] mv] by simp_all
          show "is_terminal (j_status k)" if "k \<in> set (jobs db)" "j_model k = ?m" for k
          proof (cases "k = ?k")
            case False
            then have kd: "k \<in> set (jobs d)" "job_id k \<noteq> old" using that(1) mem jid by simp_all
            then show ?thesis using live_prev[OF kd(1) that(2)] old by auto
          qed simp
          show "submit_finish now st actor ?j d3 = Inr (d', r)" using s2 2(1) by simp
          show "db = d \<or> (\<exists>i k. moves d db i [FAILED] k \<and> j_lease_token k = None)"
            by (intro disjI2 exI[of _ j] exI[of _ ?k] conjI mv) simp
        qed
      qed
    qed
  qed
qed

end
