(* ===== verification/Job_System.thy ===== *)
theory Job_System
  imports Job_Submit
begin

text \<open>
  The job queue as a transition system: any number of API replicas, workers and reapers, each
  step one committed transaction of one of them, in any order and at any time. A worker's
  claim, lease token and clock are whatever it has, so a stalled or restarted worker that comes
  back with an old token is included. Kept beside the tables: every token handed out so far
  (a fresh uuid is never one of them) and the stopped attempts whose threads still run, when
  the executor runs attempts in the worker's own process (\<open>ip\<close>).
\<close>

record sys =
  tables :: jdb
  used :: "string list"
  late :: "claim list"

definition no_jobs :: "sys \<Rightarrow> bool" where
  "no_jobs s \<longleftrightarrow> jobs (tables s) = [] \<and> job_events (tables s) = [] \<and> locks (tables s) = []
     \<and> slots (tables s) = [] \<and> late s = []"

definition stays_late :: "bool \<Rightarrow> attempt_end \<Rightarrow> bool" where
  "stays_late ip out \<longleftrightarrow> ip \<and> (case out of Raised e \<Rightarrow> stopped_by e | _ \<Rightarrow> False)"

inductive jstep :: "settings \<Rightarrow> bool \<Rightarrow> sys \<Rightarrow> sys \<Rightarrow> bool" for st :: settings and ip :: bool where
  submit: "submit_insert now st key jid actor ev (tables s) = Inr (d', r) \<Longrightarrow> jid \<noteq> []
    \<Longrightarrow> jstep st ip s (s\<lparr>tables := d'\<rparr>)"
| claim: "try_claim now st jid owner tok (tables s) = Inr (d', won) \<Longrightarrow> tok \<notin> set (used s)
    \<Longrightarrow> jstep st ip s (s\<lparr>tables := d', used := tok # used s\<rparr>)"
| stage: "transition_job now st jid x None None None (Some tok) (tables s) = Inr (d', r)
    \<Longrightarrow> is_stage x \<Longrightarrow> jstep st ip s (s\<lparr>tables := d'\<rparr>)"
| tick: "supervisor_tick now st c up dr ren (tables s) = (d', ren', stop)
    \<Longrightarrow> jstep st ip s (s\<lparr>tables := d'\<rparr>)"
| finish: "finish_attempt now st ip c out (tables s) = (d', x)
    \<Longrightarrow> jstep st ip s (s\<lparr>tables := d', late := (if stays_late ip out then c # late s else late s)\<rparr>)"
| thread_end: "c \<in> set (late s)
    \<Longrightarrow> jstep st ip s (s\<lparr>tables := release_abandoned c (tables s)\<rparr>)"
| cancel: "request_cancel now st jid actor (tables s) = Inr (d', r, imm)
    \<Longrightarrow> jstep st ip s (s\<lparr>tables := d'\<rparr>)"
| published: "mark_published now jid (tables s) = Inr (d', b) \<Longrightarrow> jstep st ip s (s\<lparr>tables := d'\<rparr>)"
| undelivered: "jstep st ip s (s\<lparr>tables := unpublish jid (tables s)\<rparr>)"
| reaped: "reap_lease now st jt (tables s) = Inr (d', did) \<Longrightarrow> jstep st ip s (s\<lparr>tables := d'\<rparr>)"
| overdue: "reap_overdue now st jid (tables s) = Inr (d', did) \<Longrightarrow> jstep st ip s (s\<lparr>tables := d'\<rparr>)"
| slots_freed: "jstep st ip s (s\<lparr>tables := drop_slots (\<lambda>sl. sl_expires sl < now) (tables s)\<rparr>)"

section \<open>The invariant\<close>

definition sys_inv :: "settings \<Rightarrow> sys \<Rightarrow> bool" where
  "sys_inv st s \<longleftrightarrow> job_inv st (tables s) \<and> late s = []
     \<and> (\<forall>j \<in> set (jobs (tables s)). \<forall>t. j_lease_token j = Some t \<longrightarrow> t \<in> set (used s))"

text \<open>What a step other than a claim does to the rows: no lease is granted.\<close>

definition no_grant :: "'a jdb_scheme \<Rightarrow> 'a jdb_scheme \<Rightarrow> bool" where
  "no_grant d d' \<longleftrightarrow> (\<forall>k \<in> set (jobs d'). j_lease_token k \<noteq> None \<longrightarrow>
     (\<exists>j \<in> set (jobs d). job_id j = job_id k \<and> j_lease_token j = j_lease_token k))"

lemma no_grant_refl [simp]: "no_grant d d"
  by (auto simp: no_grant_def)

lemma no_grant_jobs: "jobs d' = jobs d \<Longrightarrow> no_grant d d'"
  by (auto simp: no_grant_def)

lemma no_grant_moves:
  assumes "ids_ok d" and m: "moves d d' j ts j'"
    and t: "j_lease_token j' = None \<or> j_lease_token j' = j_lease_token j"
  shows "no_grant d d'"
  unfolding no_grant_def
proof (intro ballI impI)
  fix k assume k: "k \<in> set (jobs d')" "j_lease_token k \<noteq> None"
  have j: "j \<in> set (jobs d)" using m find_job_Some by (fastforce simp: moves_def)
  have id: "job_id j' = job_id j" using m by (simp add: moves_def same_job_def)
  from k(1) have "k = j' \<or> k \<in> set (jobs d)" using moves_mem[OF assms(1) m] by blast
  then show "\<exists>j \<in> set (jobs d). job_id j = job_id k \<and> j_lease_token j = j_lease_token k"
  proof
    assume "k = j'"
    then show ?thesis using t k(2) j id by (intro bexI[of _ j]) auto
  qed blast
qed

lemma no_grant_effect: "ids_ok d \<Longrightarrow> effect d d' j ts j' \<Longrightarrow> no_grant d d'"
  by (rule no_grant_moves) (auto simp: effect_def)

text \<open>Every job stays the job it was, and one that ended keeps its outcome.\<close>

definition outcome_of ::
  "job_row \<Rightarrow> job_status \<times> job_result option \<times> err_dict option \<times> strategy option" where
  "outcome_of j = (j_status j, j_result j, j_error j, j_strategy j)"

definition kept :: "'a jdb_scheme \<Rightarrow> 'a jdb_scheme \<Rightarrow> bool" where
  "kept d d' \<longleftrightarrow> (\<forall>j \<in> set (jobs d). \<exists>j' \<in> set (jobs d'). same_job j j'
     \<and> (is_terminal (j_status j) \<longrightarrow> outcome_of j' = outcome_of j))"

lemma kept_jobs: "jobs d' = jobs d \<Longrightarrow> kept d d'"
  unfolding kept_def by (intro ballI bexI) auto

lemma kept_refl [simp]: "kept d d"
  by (simp add: kept_jobs)

lemma kept_moves:
  assumes i: "ids_ok d" and m: "moves d d' j ts j'"
    and t: "ts \<noteq> [] \<or> \<not> is_terminal (j_status j) \<or> outcome_of j' = outcome_of j"
  shows "kept d d'"
  unfolding kept_def
proof
  fix k assume k: "k \<in> set (jobs d)"
  show "\<exists>j' \<in> set (jobs d'). same_job k j' \<and> (is_terminal (j_status k) \<longrightarrow> outcome_of j' = outcome_of k)"
  proof (cases "job_id k = job_id j")
    case True
    have "find_job (job_id j) d = Some j" using m by (simp add: moves_def)
    then have "j \<in> set (jobs d)" using find_job_Some by blast
    then have kj: "k = j" using distinct_map_keyD[of job_id "jobs d" k j] i k True by (simp add: ids_ok_def)
    have "is_terminal (j_status j) \<longrightarrow> ts = []" using m walk_terminal by (simp add: moves_def) blast
    moreover have "same_job j j'" using m by (simp add: moves_def)
    ultimately show ?thesis using moves_mem[OF i m, of j'] t kj by auto
  next
    case False
    then show ?thesis using moves_mem[OF i m, of k] k by (intro bexI[of _ k]) auto
  qed
qed

definition calm :: "'a jdb_scheme \<Rightarrow> 'a jdb_scheme \<Rightarrow> bool" where
  "calm d d' \<longleftrightarrow> no_grant d d' \<and> kept d d'"

lemma calm_refl [simp]: "calm d d" and calm_jobs: "jobs d' = jobs d \<Longrightarrow> calm d d'"
  by (simp_all add: calm_def no_grant_jobs kept_jobs)

lemma calm_effect:
  assumes "job_inv st d" and e: "effect d d' j ts j'"
    and t: "ts \<noteq> [] \<or> \<not> is_terminal (j_status j) \<or> outcome_of j' = outcome_of j"
  shows "calm d d'"
  using no_grant_effect[OF inv_ids[OF assms(1)] e] kept_moves[OF inv_ids[OF assms(1)] _ t] e
  by (simp add: calm_def effect_def)

lemma record_outcome_calm:
  assumes "job_inv st d" and "is_terminal to" and "record_outcome now st' c to er res strat rel d = (d', r)"
  shows "calm d d'"
  using record_outcome_effect[OF inv_ids[OF assms(1)] inv_locks[OF assms(1)] assms(2,3)]
    calm_effect[OF assms(1)] by auto

lemma requeue_or_end_calm:
  assumes "job_inv st d" and "settings_ok st" and "requeue_or_end now st c e d = (d', x)"
  shows "calm d d'"
  using requeue_or_end_effect[OF assms] calm_effect[OF assms(1)] by fastforce

lemma finish_attempt_calm:
  assumes inv: "job_inv st d" and st: "settings_ok st" and f: "finish_attempt now st ip c out d = (d', x)"
  shows "calm d d'"
proof -
  note ro = record_outcome_calm[OF inv, rotated]
  show ?thesis
    using f requeue_or_end_calm[OF inv st]
    by (auto simp: finish_attempt_def record_failure_def intro: ro
        split: attempt_end.splits option.splits if_splits sum.splits)
qed

lemma cond_jobs_calm:
  assumes inv: "job_inv st d" and k: "\<And>r. p r \<Longrightarrow> job_id r = jid"
    and s: "\<And>r. same_job r (f r)" "\<And>r. outcome_of (f r) = outcome_of r" "\<And>r. j_lease_token (f r) = j_lease_token r"
    and d': "jobs d' = update_where p f (jobs d)"
  shows "calm d d'"
proof -
  have "no_grant d d'" unfolding no_grant_def d' set_update_where
  proof (intro ballI impI)
    fix k assume "k \<in> (\<lambda>r. if p r then f r else r) ` set (jobs d)"
    then obtain j where "j \<in> set (jobs d)" "k = (if p j then f j else j)" by blast
    then show "\<exists>j \<in> set (jobs d). job_id j = job_id k \<and> j_lease_token j = j_lease_token k"
      using s by (intro bexI[of _ j]) (simp_all add: same_job_def)
  qed
  moreover have "kept d d'" unfolding kept_def d' set_update_where
  proof
    fix j assume j: "j \<in> set (jobs d)"
    show "\<exists>j' \<in> (\<lambda>r. if p r then f r else r) ` set (jobs d). same_job j j'
        \<and> (is_terminal (j_status j) \<longrightarrow> outcome_of j' = outcome_of j)"
      by (intro bexI[OF _ imageI[OF j]]) (use s in auto)
  qed
  ultimately show ?thesis by (simp add: calm_def)
qed

section \<open>Every step keeps the invariant\<close>

lemma sys_inv_calm:
  assumes "sys_inv st s" and "job_inv st d'" and "calm (tables s) d'"
  shows "sys_inv st (s\<lparr>tables := d'\<rparr>)"
  using assms by (auto simp: sys_inv_def calm_def no_grant_def)

text \<open>
  A step either grants no lease and keeps every job, or is a claim with a fresh token, or adds
  a job.
\<close>

lemma submit_kept:
  assumes inv: "job_inv st d" and st: "settings_ok st" and id: "jid \<noteq> []"
    and s: "submit_insert now st key jid actor ev d = Inr (d', r)"
  shows "calm d d'"
proof (cases "p_duplicate r")
  case True
  then show ?thesis using submit_insert_inv[OF inv st id s] by simp
next
  case False
  then obtain db j where db: "jobs d' = jobs db @ [j]" "j_lease_token j = None"
    and m: "db = d \<or> (\<exists>i k. moves d db i [FAILED] k \<and> j_lease_token k = None)"
    using submit_insert_inv[OF inv st id s] by (auto simp: added_def)
  have "no_grant d db" "kept d db"
    using m no_grant_moves[OF inv_ids[OF inv]] kept_moves[OF inv_ids[OF inv]] by auto
  then show ?thesis using db by (auto simp: calm_def no_grant_def kept_def)
qed

lemma jstep_cases:
  assumes s: "sys_inv st s" and st: "settings_ok st" and j: "jstep st False s t"
  shows "job_inv st (tables t) \<and> late t = [] \<and> kept (tables s) (tables t)
    \<and> ((no_grant (tables s) (tables t) \<and> used t = used s)
       \<or> (\<exists>now jid owner tok won. try_claim now st jid owner tok (tables s) = Inr (tables t, won)
            \<and> tok \<notin> set (used s) \<and> used t = tok # used s))"
proof -
  have inv: "job_inv st (tables s)" and nl: "late s = []"
    and us: "\<forall>j \<in> set (jobs (tables s)). \<forall>t. j_lease_token j = Some t \<longrightarrow> t \<in> set (used s)"
    using s by (simp_all add: sys_inv_def)
  have easy: ?thesis if "job_inv st (tables t)" "calm (tables s) (tables t)" "used t = used s" "late t = []"
    using that by (simp add: calm_def)
  from j show ?thesis
  proof cases
    case (submit now key jid actor ev d' r)
    then show ?thesis using easy submit_insert_inv[OF inv st] submit_kept[OF inv st] nl by auto
  next
    case (claim now jid owner tok d' won)
    have fresh: "\<forall>k \<in> set (jobs (tables s)). j_lease_token k \<noteq> Some tok" using us claim(3) by auto
    have "job_inv st d'" by (rule try_claim_inv[OF inv fresh claim(2)])
    moreover have "kept (tables s) d'"
      using try_claim_effect[OF inv claim(2)] kept_moves[OF inv_ids[OF inv]] by (elim disjE exE conjE) (simp, blast)
    ultimately show ?thesis using claim nl by auto
  next
    case (stage now jid x tok d' r)
    obtain j where "effect (tables s) d' j [x] (moved j x None None None)"
      using transition_job_effect[OF inv_ids[OF inv] inv_locks[OF inv] stage(2)] by blast
    then have "calm (tables s) d'" using calm_effect[OF inv] by blast
    then show ?thesis using easy stage_inv[OF inv stage(3,2)] stage(1) nl by simp
  next
    case (tick now c up dr ren d' ren' stop)
    have "calm (tables s) d'"
    proof (cases "up \<and> rowcount (\<lambda>j. job_id j = c_job c \<and> j_lease_token j = Some (c_token c)) (jobs (tables s)) = 1")
      case False
      then have "d' = tables s" using tick(2) by (auto simp: supervisor_tick_def Let_def split: if_splits)
      then show ?thesis by simp
    next
      case True
      let ?f = "\<lambda>j. j\<lparr>j_lease_expires := Some (now + job_lease_ttl_s st)\<rparr>"
      show ?thesis
        by (rule cond_jobs_calm[OF inv, of "\<lambda>j. job_id j = c_job c \<and> j_lease_token j = Some (c_token c)" "c_job c" ?f])
          (use tick(2) True in \<open>auto simp: supervisor_tick_def Let_def same_job_def outcome_of_def split: option.splits\<close>)
    qed
    then show ?thesis using easy supervisor_tick_inv[OF inv tick(2)] tick(1) nl by simp
  next
    case (finish now c out d' x)
    then show ?thesis
      using easy finish_attempt_inv[OF inv st finish(2)] finish_attempt_calm[OF inv st finish(2)] nl
      by (simp add: stays_late_def)
  next
    case (thread_end c)
    then show ?thesis using nl by simp
  next
    case (cancel now jid actor d' r imm)
    then show ?thesis
      using easy request_cancel_inv[OF inv cancel(2)] request_cancel_effect[OF inv cancel(2)]
        calm_effect[OF inv] nl by fastforce
  next
    case (published now jid d' b)
    obtain k where k: "find_job jid (tables s) = Some k" "d' = put_job (k\<lparr>j_published_at := Some now\<rparr>) (tables s)"
      using published(2) by (auto simp: mark_published_def result_simps)
    have "moves (tables s) d' k [] (k\<lparr>j_published_at := Some now\<rparr>)" unfolding k(2)
      by (rule moves_put[OF moves_refl[OF inv_ids[OF inv] k(1)]]) (simp_all add: same_job_def)
    then have "calm (tables s) d'"
      using no_grant_moves[OF inv_ids[OF inv]] kept_moves[OF inv_ids[OF inv]]
      by (fastforce simp: calm_def outcome_of_def)
    then show ?thesis using easy mark_published_inv[OF inv published(2)] published(1) nl by simp
  next
    case (undelivered jid)
    have "calm (tables s) (unpublish jid (tables s))"
      by (rule cond_jobs_calm[OF inv, of "\<lambda>j. job_id j = jid \<and> j_status j = QUEUED \<and> j_lease_token j = None" jid
            "\<lambda>j. j\<lparr>j_published_at := None\<rparr>"]) (simp_all add: unpublish_def same_job_def outcome_of_def)
    then show ?thesis using easy unpublish_inv[OF inv] undelivered nl by simp
  next
    case (reaped now jt d' did)
    then show ?thesis
      using easy reap_lease_inv[OF inv st reaped(2)] reap_lease_effect[OF inv st, of now "fst jt" "snd jt" d' did]
        calm_effect[OF inv] nl by fastforce
  next
    case (overdue now jid d' did)
    then show ?thesis
      using easy reap_overdue_inv[OF inv overdue(2)] reap_overdue_effect[OF inv overdue(2)]
        calm_effect[OF inv] nl by fastforce
  next
    case (slots_freed now)
    let ?d = "drop_slots (\<lambda>sl. sl_expires sl < now) (tables s)"
    have "slots_ok st ?d" by (rule slots_ok_drop[OF job_inv_slots[OF inv]]) simp
    then have "job_inv st ?d" by (intro job_inv_slots_only[OF inv]) simp_all
    then show ?thesis using easy slots_freed nl calm_jobs[of ?d "tables s"] by simp
  qed
qed

end
