(* ===== verification/Job_Run.thy ===== *)
theory Job_Run
  imports Job_System
begin

text \<open>
  The steps of the job queue keep its invariant (attempts run in worker processes: no late
  threads), and a small recorded run: a job submitted, claimed, taken through its stages and
  completed. The statements about reachable states are applied to the states of that run.
\<close>

lemma sys_inv_step:
  assumes "settings_ok st" and "sys_inv st s" and j: "jstep st False s t"
  shows "sys_inv st t"
proof -
  note c = jstep_cases[OF assms(2,1) j]
  have us: "\<forall>j \<in> set (jobs (tables s)). \<forall>t. j_lease_token j = Some t \<longrightarrow> t \<in> set (used s)"
    and inv: "job_inv st (tables s)"
    using assms(2) by (simp_all add: sys_inv_def)
  have "\<forall>k \<in> set (jobs (tables t)). \<forall>u. j_lease_token k = Some u \<longrightarrow> u \<in> set (used t)"
  proof (cases "no_grant (tables s) (tables t) \<and> used t = used s")
    case True
    then show ?thesis using us unfolding no_grant_def by (metis option.distinct(1))
  next
    case False
    then obtain now jid owner tok won where cl: "try_claim now st jid owner tok (tables s) = Inr (tables t, won)"
      and u: "used t = tok # used s"
      using c by blast
    show ?thesis using try_claim_effect[OF inv cl]
    proof (elim disjE exE conjE)
      assume "tables t = tables s"
      then show ?thesis using us u by simp
    next
      fix j slot assume "find_job jid (tables s) = Some j" and
        m: "moves (tables s) (tables t) j [VALIDATING, DATA_PREPARING]
         ((leased tok owner (now + job_lease_ttl_s st) j)\<lparr>j_status := DATA_PREPARING\<rparr>)"
      show ?thesis using us u moves_mem[OF inv_ids[OF inv] m] by (auto simp: leased_def)
    qed
  qed
  then show ?thesis using c by (simp add: sys_inv_def)
qed

lemma sys_inv_start: "no_jobs s \<Longrightarrow> sys_inv st s"
  by (auto simp: no_jobs_def sys_inv_def job_inv_def ids_ok_def locks_ok_def events_known_def
      held_def slots_ok_def tokens_ok_def)

interpretation job_queue: safe_system no_jobs "jstep st False" "\<lambda>s. settings_ok st \<longrightarrow> sys_inv st s" for st
  by unfold_locales (auto intro: sys_inv_start sys_inv_step)

lemma reach_inv: "settings_ok st \<Longrightarrow> reach no_jobs (jstep st False) s \<Longrightarrow> job_inv st (tables s)"
  using job_queue.reach_I by (auto simp: sys_inv_def)

section \<open>A recorded run\<close>

definition demo_settings :: settings where
  "demo_settings = \<lparr>job_lease_ttl_s = 30, job_max_retries = 2, job_retry_backoff_s = 1,
     job_poison_threshold = 3, job_timeout_s = 600, job_deadline_s = None,
     job_republish_after_s = 60, job_claim_candidates = 10, job_worker_classes = [''default''],
     job_default_class = ''default'', job_class_by_framework = [], job_default_priority = 0,
     job_priority_by_severity = [], job_default_tenant = ''default'', job_tenant_by_principal = [],
     job_tenant_concurrency = 2, job_tenant_limits = [], job_drain_timeout_s = 30,
     job_poll_interval_s = 1, model_lock_ttl_s = 3600, notification_sinks = [],
     notification_sink_events = []\<rparr>"

definition demo_event :: "string \<Rightarrow> string \<Rightarrow> drift_event" where
  "demo_event m e = \<lparr>ev_model_id = m, ev_event_id = Some e, ev_severity = None,
     ev_model_version = None, ev_data_start = None, ev_data_end = None, ev_body = []\<rparr>"

definition empty_db :: jdb where
  "empty_db = \<lparr>metas = [], locks = [], notif_events = [], deliveries = [], audits = [],
     jobs = [], slots = [], job_events = []\<rparr>"

definition demo_submit :: "string \<Rightarrow> string \<Rightarrow> jdb \<Rightarrow> exn + jdb \<times> job_response" where
  "demo_submit e jid = submit_insert 0 demo_settings (''m:'' @ e) jid ''op'' (demo_event ''m'' e)"

definition demo_stage :: "job_status \<Rightarrow> jdb \<Rightarrow> exn + jdb \<times> job_response" where
  "demo_stage x = transition_job 2 demo_settings ''j1'' x None None None (Some ''t1'')"

definition demo_claim :: claim where
  "demo_claim = \<lparr>c_job = ''j1'', c_token = ''t1'', c_attempt = 1, c_tenant = ''default'',
     c_slot = Some 0, c_model = ''m'', c_event = demo_event ''m'' ''1'', c_deadline = None\<rparr>"

definition done_result :: job_result where
  "done_result = \<lparr>r_outcome = O_REGISTERED, r_strategy = Some FINE_TUNING\<rparr>"

text \<open>Submitted, claimed, taken through the stages up to REGISTERING, and completed.\<close>

definition demo1 :: jdb where "demo1 = fst (projr (demo_submit ''1'' ''j1'' empty_db))"
definition demo2 :: jdb where
  "demo2 = fst (projr (try_claim 1 demo_settings ''j1'' ''w'' ''t1'' demo1))"
definition demo3 :: jdb where "demo3 = fst (projr (demo_stage DECISION_PENDING demo2))"
definition demo4 :: jdb where "demo4 = fst (projr (demo_stage ADAPTING demo3))"
definition demo5 :: jdb where "demo5 = fst (projr (demo_stage VALIDATING_CANDIDATE demo4))"
definition demo6 :: jdb where "demo6 = fst (projr (demo_stage REGISTERING demo5))"
definition demo7 :: jdb where "demo7 = fst (projr (demo_stage PROMOTING demo6))"
definition demo8 :: jdb where
  "demo8 = fst (finish_attempt 9 demo_settings False demo_claim (Finished done_result) demo7)"

lemma Inr_projr: "\<not> isl r \<Longrightarrow> r = Inr (fst (projr r), snd (projr r))"
  by (cases r) simp_all

lemma demo_ok: "settings_ok demo_settings"
  by (simp add: settings_ok_def demo_settings_def)

lemmas demo_defs = demo1_def demo2_def demo3_def demo4_def demo5_def demo6_def demo7_def demo8_def

lemma demo1_run: "\<not> isl (demo_submit ''1'' ''j1'' empty_db)" by code_simp
lemma demo2_run: "\<not> isl (try_claim 1 demo_settings ''j1'' ''w'' ''t1'' demo1)" by code_simp
lemma demo3_run: "\<not> isl (demo_stage DECISION_PENDING demo2)" by code_simp
lemma demo4_run: "\<not> isl (demo_stage ADAPTING demo3)" by code_simp
lemma demo5_run: "\<not> isl (demo_stage VALIDATING_CANDIDATE demo4)" by code_simp
lemma demo6_run: "\<not> isl (demo_stage REGISTERING demo5)" by code_simp
lemma demo7_run: "\<not> isl (demo_stage PROMOTING demo6)" by code_simp

definition sys_of :: "jdb \<Rightarrow> string list \<Rightarrow> sys" where
  "sys_of d us = \<lparr>tables = d, used = us, late = []\<rparr>"

lemma sys_of_simps [simp]:
  "tables (sys_of d us) = d" "used (sys_of d us) = us" "late (sys_of d us) = []"
  "(sys_of d us)\<lparr>tables := d'\<rparr> = sys_of d' us"
  "(sys_of d us)\<lparr>used := vs\<rparr> = sys_of d vs"
  "(sys_of d us)\<lparr>late := []\<rparr> = sys_of d us"
  by (simp_all add: sys_of_def)

lemma reach_stage:
  assumes r: "reach no_jobs (jstep demo_settings False) (sys_of d us)" and x: "is_stage x"
    and e: "\<not> isl (demo_stage x d)"
  shows "reach no_jobs (jstep demo_settings False) (sys_of (fst (projr (demo_stage x d))) us)"
proof (rule reach.more[OF r])
  have "transition_job 2 demo_settings ''j1'' x None None None (Some ''t1'') (tables (sys_of d us))
      = Inr (fst (projr (demo_stage x d)), snd (projr (demo_stage x d)))"
    using Inr_projr[OF e] by (simp add: demo_stage_def)
  from jstep.stage[OF this x, of False]
  show "jstep demo_settings False (sys_of d us) (sys_of (fst (projr (demo_stage x d))) us)" by simp
qed

lemma demo_start: "reach no_jobs (jstep demo_settings False) (sys_of empty_db [])"
  by (rule reach.start) (simp add: no_jobs_def empty_db_def)

lemma demo1_reach: "reach no_jobs (jstep demo_settings False) (sys_of demo1 [])"
proof (rule reach.more[OF demo_start])
  have "submit_insert 0 demo_settings (''m:'' @ ''1'') ''j1'' ''op'' (demo_event ''m'' ''1'')
      (tables (sys_of empty_db [])) = Inr (demo1, snd (projr (demo_submit ''1'' ''j1'' empty_db)))"
    unfolding demo1_def using Inr_projr[OF demo1_run] by (simp add: demo_submit_def)
  from jstep.submit[OF this, of False]
  show "jstep demo_settings False (sys_of empty_db []) (sys_of demo1 [])" by simp
qed

lemma demo2_step: "jstep demo_settings False (sys_of demo1 []) (sys_of demo2 [''t1''])"
proof -
  have "try_claim 1 demo_settings ''j1'' ''w'' ''t1'' (tables (sys_of demo1 [])) =
      Inr (demo2, snd (projr (try_claim 1 demo_settings ''j1'' ''w'' ''t1'' demo1)))"
    unfolding demo2_def using Inr_projr[OF demo2_run] by simp
  from jstep.claim[OF this, of False] show ?thesis by simp
qed

lemma demo2_reach: "reach no_jobs (jstep demo_settings False) (sys_of demo2 [''t1''])"
  by (rule reach.more[OF demo1_reach]) (rule demo2_step)

lemma demo6_reach: "reach no_jobs (jstep demo_settings False) (sys_of demo6 [''t1''])"
proof -
  have r3: "reach no_jobs (jstep demo_settings False) (sys_of demo3 [''t1''])"
    unfolding demo3_def by (rule reach_stage[OF demo2_reach _ demo3_run]) (simp add: is_stage_def)
  have r4: "reach no_jobs (jstep demo_settings False) (sys_of demo4 [''t1''])"
    unfolding demo4_def by (rule reach_stage[OF r3 _ demo4_run]) (simp add: is_stage_def)
  have r5: "reach no_jobs (jstep demo_settings False) (sys_of demo5 [''t1''])"
    unfolding demo5_def by (rule reach_stage[OF r4 _ demo5_run]) (simp add: is_stage_def)
  show ?thesis
    unfolding demo6_def by (rule reach_stage[OF r5 _ demo6_run]) (simp add: is_stage_def)
qed

lemma demo7_reach: "reach no_jobs (jstep demo_settings False) (sys_of demo7 [''t1''])"
  unfolding demo7_def by (rule reach_stage[OF demo6_reach _ demo7_run]) (simp add: is_stage_def)

lemma demo8_step: "jstep demo_settings False (sys_of demo7 [''t1'']) (sys_of demo8 [''t1''])"
proof -
  have "finish_attempt 9 demo_settings False demo_claim (Finished done_result) (tables (sys_of demo7 [''t1'']))
      = (demo8, snd (finish_attempt 9 demo_settings False demo_claim (Finished done_result) demo7))"
    unfolding demo8_def sys_of_simps by (rule surjective_pairing)
  from jstep.finish[OF this] show ?thesis by (simp add: stays_late_def)
qed

lemma demo8_reach: "reach no_jobs (jstep demo_settings False) (sys_of demo8 [''t1''])"
  by (rule reach.more[OF demo7_reach]) (rule demo8_step)

end
