(* ===== verification/Job_Props.thy ===== *)
theory Job_Props
  imports Job_Run
begin

text \<open>
  What the job queue guarantees in every reachable state, whatever the order of the steps of
  API replicas, workers and reapers.
\<close>

section \<open>Histories\<close>

lemma before_registering:
  "REGISTERING \<in> set (allowed_next s) \<Longrightarrow> s = VALIDATING_CANDIDATE"
  "VALIDATING_CANDIDATE \<in> set (allowed_next s) \<Longrightarrow> s = ADAPTING"
  "ADAPTING \<in> set (allowed_next s) \<Longrightarrow> s = DECISION_PENDING"
  "PROMOTING \<in> set (allowed_next s) \<Longrightarrow> s = REGISTERING \<or> s = REUSE_DECISION"
  "REUSE_DECISION \<in> set (allowed_next s) \<Longrightarrow> s = EVALUATING_VERSIONS"
  by (cases s; simp add: allowed_next_def retry_target_def)+

lemma walk_pred:
  assumes "walk s (xs @ t # ys)"
  shows "t \<in> set (allowed_next (last (s # xs))) \<and> walk s xs"
  using assms by simp

text \<open>A step back in a history whose last step has only one possible predecessor.\<close>

lemma walk_back:
  assumes w: "walk s (xs @ t # ys)" and u: "\<And>p. t \<in> set (allowed_next p) \<Longrightarrow> p = q" and "q \<noteq> s"
  obtains zs where "xs = zs @ [q]"
proof -
  have "last (s # xs) = q" using walk_pred[OF w] u by blast
  then show ?thesis using that assms(3) by (cases xs rule: rev_cases) auto
qed

lemma good_history_of:
  "settings_ok st \<Longrightarrow> reach no_jobs (jstep st False) s \<Longrightarrow> j \<in> set (jobs (tables s)) \<Longrightarrow>
    \<exists>ts. history (job_id j) (tables s) = RECEIVED # ts \<and> walk RECEIVED ts
     \<and> j_status j = last (RECEIVED # ts)"
  using reach_inv good_history_walk by (fastforce simp: job_inv_def)

text \<open>
  C7. Whatever the interleaving, the recorded history of every job starts with RECEIVED, takes
  only transitions of the state machine, and ends in the status stored on the job.
\<close>

theorem job_history:
  assumes "settings_ok st" and "reach no_jobs (jstep st False) s" and "j \<in> set (jobs (tables s))"
  shows "\<exists>ts. history (job_id j) (tables s) = RECEIVED # ts \<and> walk RECEIVED ts
    \<and> j_status j = last (RECEIVED # ts)"
  using good_history_of[OF assms] .

lemma demo_jobs: "j_status (hd (jobs demo7)) = PROMOTING" "j_status (hd (jobs demo8)) = COMPLETED"
  by code_simp+

lemma demo7_mem: "hd (jobs demo7) \<in> set (jobs demo7)" and demo8_mem: "hd (jobs demo8) \<in> set (jobs demo8)"
proof -
  have "jobs demo7 \<noteq> []" "jobs demo8 \<noteq> []" by code_simp+
  then show "hd (jobs demo7) \<in> set (jobs demo7)" "hd (jobs demo8) \<in> set (jobs demo8)" by simp_all
qed

theorem job_history_witness:
  "\<exists>ts. history (job_id (hd (jobs demo8))) (tables (sys_of demo8 [''t1''])) = RECEIVED # ts
    \<and> walk RECEIVED ts \<and> j_status (hd (jobs demo8)) = last (RECEIVED # ts)"
  by (rule job_history[OF demo_ok demo8_reach]) (simp add: demo8_mem)

text \<open>
  C8. A job never registers a model that was not decided on, adapted and validated: in every
  reachable history REGISTERING comes right after DECISION_PENDING, ADAPTING and
  VALIDATING_CANDIDATE.
\<close>

theorem registering_was_validated:
  assumes "settings_ok st" and "reach no_jobs (jstep st False) s" and "j \<in> set (jobs (tables s))"
    and "history (job_id j) (tables s) = xs @ REGISTERING # ys"
  shows "\<exists>zs. xs = zs @ [DECISION_PENDING, ADAPTING, VALIDATING_CANDIDATE]"
proof -
  obtain ts where h: "history (job_id j) (tables s) = RECEIVED # ts" and w: "walk RECEIVED ts"
    using good_history_of[OF assms(1-3)] by blast
  then obtain us where xs: "xs = RECEIVED # us" and ts: "ts = us @ REGISTERING # ys"
    using assms(4) by (cases xs) auto
  obtain u1 where u1: "us = u1 @ [VALIDATING_CANDIDATE]"
    using walk_back[OF w[unfolded ts] before_registering(1)] by auto
  obtain u2 where u2: "u1 = u2 @ [ADAPTING]"
    using walk_back[of RECEIVED u1 VALIDATING_CANDIDATE "REGISTERING # ys", OF _ before_registering(2)]
      w ts u1 by auto
  obtain u3 where u3: "u2 = u3 @ [DECISION_PENDING]"
    using walk_back[of RECEIVED u2 ADAPTING "VALIDATING_CANDIDATE # REGISTERING # ys", OF _ before_registering(3)]
      w ts u1 u2 by auto
  show ?thesis using xs u1 u2 u3 by simp
qed

lemma demo7_history: "history (job_id (hd (jobs demo7))) demo7 =
  [RECEIVED, QUEUED, VALIDATING, DATA_PREPARING, DECISION_PENDING, ADAPTING, VALIDATING_CANDIDATE]
    @ REGISTERING # [PROMOTING]"
  by code_simp

theorem registering_was_validated_witness:
  "\<exists>zs. [RECEIVED, QUEUED, VALIDATING, DATA_PREPARING, DECISION_PENDING, ADAPTING,
     VALIDATING_CANDIDATE] = zs @ [DECISION_PENDING, ADAPTING, VALIDATING_CANDIDATE]"
proof (rule registering_was_validated[OF demo_ok demo7_reach])
  show "hd (jobs demo7) \<in> set (jobs (tables (sys_of demo7 [''t1''])))" by (simp add: demo7_mem)
  show "history (job_id (hd (jobs demo7))) (tables (sys_of demo7 [''t1''])) =
    [RECEIVED, QUEUED, VALIDATING, DATA_PREPARING, DECISION_PENDING, ADAPTING, VALIDATING_CANDIDATE]
      @ REGISTERING # [PROMOTING]"
    unfolding sys_of_simps by (rule demo7_history)
qed



text \<open>
  C29. An outcome is final: once a job has ended, no step of any process changes its status,
  result, error or strategy.
\<close>

theorem outcome_is_final:
  assumes "settings_ok st" and "reach no_jobs (jstep st False) s" and "(jstep st False)\<^sup>*\<^sup>* s t"
    and "j \<in> set (jobs (tables s))" and "is_terminal (j_status j)"
  shows "\<exists>j' \<in> set (jobs (tables t)). job_id j' = job_id j \<and> outcome_of j' = outcome_of j"
proof (rule job_queue.stable[of st, where P = "\<lambda>s. \<exists>j' \<in> set (jobs (tables s)).
    job_id j' = job_id j \<and> outcome_of j' = outcome_of j", OF _ assms(3)])
  show "settings_ok st \<longrightarrow> sys_inv st s" by (rule job_queue.reach_I[OF assms(2)])
  show "\<exists>j' \<in> set (jobs (tables s)). job_id j' = job_id j \<and> outcome_of j' = outcome_of j"
    using assms(4) by blast
next
  fix u v assume u: "settings_ok st \<longrightarrow> sys_inv st u" and uv: "jstep st False u v"
    and ex: "\<exists>j' \<in> set (jobs (tables u)). job_id j' = job_id j \<and> outcome_of j' = outcome_of j"
  have k: "kept (tables u) (tables v)" using jstep_cases[OF _ assms(1) uv] u assms(1) by blast
  from ex obtain j' where j': "j' \<in> set (jobs (tables u))" "job_id j' = job_id j" "outcome_of j' = outcome_of j"
    by blast
  then have "is_terminal (j_status j')" using assms(5) by (simp add: outcome_of_def)
  then show "\<exists>j' \<in> set (jobs (tables v)). job_id j' = job_id j \<and> outcome_of j' = outcome_of j"
    using k j' unfolding kept_def by (metis same_job_def)
qed

theorem outcome_is_final_witness:
  "\<exists>j' \<in> set (jobs (tables (sys_of demo8 [''t1'']))). job_id j' = job_id (hd (jobs demo8))
     \<and> outcome_of j' = outcome_of (hd (jobs demo8))"
  by (rule outcome_is_final[OF demo_ok demo8_reach rtranclp.rtrancl_refl])
    (simp_all add: demo8_mem demo_jobs)

text \<open>
  C32. A lost lease is lost for good: once no job carries a token that was handed out, no later
  step gives a job that token again, so the writer that holds it stays fenced off.
\<close>

theorem lost_lease_stays_lost:
  assumes "settings_ok st" and "reach no_jobs (jstep st False) s" and "(jstep st False)\<^sup>*\<^sup>* s t"
    and "tok \<in> set (used s)" and "\<forall>j \<in> set (jobs (tables s)). j_lease_token j \<noteq> Some tok"
  shows "\<forall>j \<in> set (jobs (tables t)). j_lease_token j \<noteq> Some tok"
proof -
  have "tok \<in> set (used t) \<and> (\<forall>j \<in> set (jobs (tables t)). j_lease_token j \<noteq> Some tok)"
  proof (rule job_queue.stable[of st, OF _ assms(3)])
    show "settings_ok st \<longrightarrow> sys_inv st s" by (rule job_queue.reach_I[OF assms(2)])
    show "tok \<in> set (used s) \<and> (\<forall>j \<in> set (jobs (tables s)). j_lease_token j \<noteq> Some tok)"
      using assms(4,5) by blast
  next
    fix u v assume u: "settings_ok st \<longrightarrow> sys_inv st u" and uv: "jstep st False u v"
      and p: "tok \<in> set (used u) \<and> (\<forall>j \<in> set (jobs (tables u)). j_lease_token j \<noteq> Some tok)"
    have su: "sys_inv st u" using u assms(1) by blast
    then have inv: "job_inv st (tables u)" by (simp add: sys_inv_def)
    consider "no_grant (tables u) (tables v)" "used v = used u"
      | now jid owner tk won where "try_claim now st jid owner tk (tables u) = Inr (tables v, won)"
          "tk \<notin> set (used u)" "used v = tk # used u"
      using jstep_cases[OF su assms(1) uv] by blast
    then show "tok \<in> set (used v) \<and> (\<forall>j \<in> set (jobs (tables v)). j_lease_token j \<noteq> Some tok)"
    proof cases
      case 1
      then show ?thesis using p unfolding no_grant_def by (metis option.distinct(1))
    next
      case (2 now jid owner tk won)
      have tk: "tk \<noteq> tok" using 2(2) p by blast
      show ?thesis using try_claim_effect[OF inv 2(1)]
      proof (elim disjE exE conjE)
        fix j slot assume "moves (tables u) (tables v) j [VALIDATING, DATA_PREPARING]
         ((leased tk owner (now + job_lease_ttl_s st) j)\<lparr>j_status := DATA_PREPARING\<rparr>)"
        from moves_mem[OF inv_ids[OF inv] this] show ?thesis using p tk 2(3) by (auto simp: leased_def)
      qed (use p 2(3) in simp)
    qed
  qed
  then show ?thesis by blast
qed

theorem lost_lease_stays_lost_witness:
  "list_all (\<lambda>j. j_lease_token j \<noteq> Some ''t1'') (jobs (tables (sys_of demo8 [''t1''])))"
  unfolding list_all_iff
proof (rule lost_lease_stays_lost[OF demo_ok demo8_reach rtranclp.rtrancl_refl])
  have "list_all (\<lambda>j. j_lease_token j \<noteq> Some ''t1'') (jobs demo8)" by code_simp
  then show "\<forall>j \<in> set (jobs (tables (sys_of demo8 [''t1'']))). j_lease_token j \<noteq> Some ''t1''"
    by (simp add: list_all_iff)
qed simp

end
