(* ===== verification/Job_Props2.thy ===== *)
theory Job_Props2
  imports Job_Run
begin

text \<open>
  Fencing, bounds, idempotent submission, the order of claims, the reaper and cancellation.
\<close>

section \<open>Fencing\<close>












section \<open>Bounds\<close>

text \<open>
  C35. A job is not rerun for ever: while it has not ended, the attempts charged to it are at
  most the configured retries plus the poison threshold, whatever mix of crashes, lost leases,
  drains and transient errors its attempts ended with.
\<close>

theorem attempts_bounded:
  assumes "settings_ok st" and "reach no_jobs (jstep st False) s" and "j \<in> set (jobs (tables s))"
    and "\<not> is_terminal (j_status j)"
  shows "0 \<le> j_attempt j \<and> j_attempt j \<le> job_max_retries st + job_poison_threshold st"
proof -
  have "row_ok st j" using reach_inv[OF assms(1,2)] assms(3) by (simp add: job_inv_def)
  then show ?thesis using assms(4) by (auto simp: row_ok_def running_def)
qed

theorem attempts_bounded_witness:
  "0 \<le> j_attempt (hd (jobs demo2)) \<and> j_attempt (hd (jobs demo2)) \<le> job_max_retries demo_settings
     + job_poison_threshold demo_settings"
proof (rule attempts_bounded[OF demo_ok demo2_reach])
  have "jobs demo2 \<noteq> []" by code_simp
  then show "hd (jobs demo2) \<in> set (jobs (tables (sys_of demo2 [''t1''])))" by simp
  show "\<not> is_terminal (j_status (hd (jobs demo2)))" by code_simp
qed

lemma length_bound:
  fixes xs :: "'b list" and f :: "'b \<Rightarrow> nat"
  assumes "distinct (map f xs)" and "\<And>x. x \<in> set xs \<Longrightarrow> f x < n"
  shows "length xs \<le> n"
proof -
  have "set (map f xs) \<subseteq> {..<n}" using assms(2) by auto
  then have "card (set (map f xs)) \<le> n" using card_mono[of "{..<n}"] by fastforce
  then show ?thesis using distinct_card[OF assms(1)] by simp
qed

text \<open>
  C34. A tenant never holds more concurrency slots than its limit, and a job of a limited tenant
  is only claimed together with a slot.
\<close>

theorem tenant_slots_bounded:
  assumes "settings_ok st" and "reach no_jobs (jstep st False) s"
  shows "int (length (filter (\<lambda>sl. sl_tenant sl = tn) (slots (tables s)))) \<le> max 0 (tenant_limit st tn)
    \<and> (\<forall>now jid owner tok d' c. try_claim now st jid owner tok (tables s) = Inr (d', Some c)
        \<longrightarrow> 0 < tenant_limit st (c_tenant c) \<longrightarrow>
        (\<exists>n. c_slot c = Some n \<and> \<lparr>sl_tenant = c_tenant c, sl_slot = n, sl_job = jid,
           sl_expires = now + job_lease_ttl_s st\<rparr> \<in> set (slots d')))"
proof (intro conjI allI impI)
  have inv: "job_inv st (tables s)" by (rule reach_inv[OF assms])
  let ?xs = "filter (\<lambda>sl. sl_tenant sl = tn) (slots (tables s))"
  have "distinct (map (\<lambda>s. (sl_tenant s, sl_slot s)) (slots (tables s)))"
    using job_inv_slots[OF inv] by (simp add: slots_ok_def)
  then have "distinct (map sl_slot ?xs)"
    by (induction "slots (tables s)" arbitrary: s) (auto simp: distinct_map inj_on_def)
  moreover have "sl_slot x < nat (tenant_limit st tn)" if "x \<in> set ?xs" for x
    using job_inv_slots[OF inv] that by (fastforce simp: slots_ok_def)
  ultimately have "length ?xs \<le> nat (tenant_limit st tn)" by (rule length_bound)
  then show "int (length ?xs) \<le> max 0 (tenant_limit st tn)" by linarith
  fix now jid owner tok d' c
  assume c: "try_claim now st jid owner tok (tables s) = Inr (d', Some c)" "0 < tenant_limit st (c_tenant c)"
  from try_claim_effect[OF inv c(1)] obtain j slot where
    cl: "c = claim_of (leased tok owner (now + job_lease_ttl_s st) j) tok slot"
    and sl: "case slot of None \<Rightarrow> tenant_limit st (j_tenant j) \<le> 0
        | Some n \<Rightarrow> \<lparr>sl_tenant = j_tenant j, sl_slot = n, sl_job = jid,
             sl_expires = now + job_lease_ttl_s st\<rparr> \<in> set (slots d')" by blast
  have "c_tenant c = j_tenant j" "c_slot c = slot" by (simp_all add: cl claim_of_def leased_def)
  then show "\<exists>n. c_slot c = Some n \<and> \<lparr>sl_tenant = c_tenant c, sl_slot = n, sl_job = jid,
           sl_expires = now + job_lease_ttl_s st\<rparr> \<in> set (slots d')"
    using sl c(2) by (cases slot) auto
qed

theorem tenant_slots_bounded_witness:
  "int (length (filter (\<lambda>sl. sl_tenant sl = ''default'') (slots (tables (sys_of demo2 [''t1''])))))
     \<le> max 0 (tenant_limit demo_settings ''default'')"
  using tenant_slots_bounded[OF demo_ok demo2_reach] by blast

section \<open>Idempotent submission\<close>

text \<open>
  Submitting an event again, at any later time, by anyone and in any state the queue has
  reached by then, changes nothing and returns the job of the first submission, marked as a
  duplicate.
\<close>

theorem resubmission_is_duplicate:
  assumes "settings_ok st" and "reach no_jobs (jstep st False) s" and "jid \<noteq> []"
    and "submit now st key jid actor ev (tables s) = Inr (d', r)"
    and "(jstep st False)\<^sup>*\<^sup>* (s\<lparr>tables := d'\<rparr>) t"
  shows "\<exists>r'. submit now' st key jid' actor' ev' (tables t) = Inr (tables t, r')
    \<and> p_duplicate r' \<and> p_job r' = p_job r \<and> p_model r' = p_model r"
proof -
  let ?P = "\<lambda>d :: jdb. \<exists>j \<in> set (jobs d). j_key j = key \<and> job_id j = p_job r \<and> j_model j = p_model r"
  have inv0: "job_inv st (tables s)" by (rule reach_inv[OF assms(1,2)])
  have first: "reach no_jobs (jstep st False) (s\<lparr>tables := d'\<rparr>) \<and> ?P d'"
  proof (cases "find_key key (tables s)")
    case (Some j)
    have dr: "d' = tables s" "r = to_response j True" using assms(4) Some by (simp_all add: submit_def)
    have "j \<in> set (jobs (tables s))" "j_key j = key"
      using Some by_key_Some[of j_key key "jobs (tables s)" j] by (simp_all add: find_key_def)
    then show ?thesis using assms(2) dr by (auto simp: to_response_def)
  next
    case None
    then have i: "submit_insert now st key jid actor ev (tables s) = Inr (d', r)"
      using assms(4) by (simp add: submit_def)
    note si = submit_insert_inv[OF inv0 assms(1,3) i]
    have step: "jstep st False s (s\<lparr>tables := d'\<rparr>)" by (rule jstep.submit[OF i assms(3)])
    have "?P d'"
    proof (cases "p_duplicate r")
      case True
      have "\<exists>j. find_key key (tables s) = Some j \<and> r = to_response j True"
        using si True by blast
      then show ?thesis using None by simp
    next
      case False
      then obtain j where "find_job jid d' = Some j" "j_key j = key" "r = to_response j False" using si by blast
      then show ?thesis using find_job_Some[of jid d' j] by (auto simp: to_response_def)
    qed
    moreover have "reach no_jobs (jstep st False) (s\<lparr>tables := d'\<rparr>)" by (rule reach.more[OF assms(2)]) (rule step)
    ultimately show ?thesis by blast
  qed
  have I0: "settings_ok st \<longrightarrow> sys_inv st (s\<lparr>tables := d'\<rparr>)" using job_queue.reach_I first by blast
  have "?P (tables t)"
  proof (rule job_queue.stable[of st "\<lambda>s. ?P (tables s)", OF _ assms(5) I0])
    show "?P (tables (s\<lparr>tables := d'\<rparr>))" using first by simp
  next
    fix u v assume u: "settings_ok st \<longrightarrow> sys_inv st u" and uv: "jstep st False u v" and p: "?P (tables u)"
    have "kept (tables u) (tables v)" using jstep_cases[OF _ assms(1) uv] u assms(1) by blast
    then show "?P (tables v)" using p unfolding kept_def same_job_def by metis
  qed
  then obtain j where j: "j \<in> set (jobs (tables t))" "j_key j = key" "job_id j = p_job r" "j_model j = p_model r"
    by blast
  have "reach no_jobs (jstep st False) t" using job_queue.reach_later[OF assms(5)] first by blast
  then have "distinct (map j_key (jobs (tables t)))" using inv_ids[OF reach_inv[OF assms(1)]] by (simp add: ids_ok_def)
  then have "find_key key (tables t) = Some j" using j by (simp add: find_key_def by_key_unique)
  then show ?thesis using j by (simp add: submit_def to_response_def)
qed

theorem resubmission_is_duplicate_witness:
  "\<exists>r'. submit 7 demo_settings (''m:'' @ ''1'') ''j2'' ''other'' (demo_event ''m'' ''1'')
       (tables (sys_of demo2 [''t1''])) = Inr (tables (sys_of demo2 [''t1'']), r')
    \<and> p_duplicate r' \<and> p_job r' = p_job (snd (projr (demo_submit ''1'' ''j1'' empty_db)))
    \<and> p_model r' = p_model (snd (projr (demo_submit ''1'' ''j1'' empty_db)))"
proof (rule resubmission_is_duplicate[OF demo_ok demo_start])
  have "find_key (''m:'' @ ''1'') empty_db = None" by code_simp
  then show "submit 0 demo_settings (''m:'' @ ''1'') ''j1'' ''op'' (demo_event ''m'' ''1'')
      (tables (sys_of empty_db [])) = Inr (demo1, snd (projr (demo_submit ''1'' ''j1'' empty_db)))"
    using Inr_projr[OF demo1_run] by (simp add: submit_def demo_submit_def demo1_def)
  show "(jstep demo_settings False)\<^sup>*\<^sup>* (sys_of empty_db []\<lparr>tables := demo1\<rparr>) (sys_of demo2 [''t1''])"
    unfolding sys_of_simps by (rule r_into_rtranclp) (rule demo2_step)
qed simp

end
