(* ===== verification/Job_Props3.thy ===== *)
theory Job_Props3
  imports Job_Run
begin

text \<open>
  The order in which jobs are claimed, what a reaper pass leaves behind, and what cancelling
  does.
\<close>

section \<open>The order of claims\<close>

text \<open>A job a worker of these classes may run now, and the order in which it looks at them.\<close>

definition eligible :: "time \<Rightarrow> settings \<Rightarrow> string list \<Rightarrow> job_row \<Rightarrow> bool" where
  "eligible now st classes j \<longleftrightarrow> claimable j
     \<and> j_class j \<in> set (if classes = [] then job_worker_classes st else classes)
     \<and> (case j_available_at j of None \<Rightarrow> True | Some t \<Rightarrow> t \<le> now)"

definition claim_key :: "job_row \<Rightarrow> int \<times> time \<times> string" where
  "claim_key j = (- j_priority j, j_created_at j, job_id j)"

lemma candidates_eq: "candidates now st classes d = take (job_claim_candidates st)
    (map job_id (sort_key claim_key (filter (eligible now st classes) (jobs d))))"
  by (simp add: candidates_def eligible_def[abs_def] claim_key_def[abs_def] Let_def)

lemma claim_first_Some:
  assumes "job_inv st d" and "claim_first now st owner tok jids d = Inr (d', Some c)"
  shows "\<exists>xs y ys. jids = xs @ y # ys \<and> (\<forall>x \<in> set xs. try_claim now st x owner tok d = Inr (d, None))
    \<and> try_claim now st y owner tok d = Inr (d', Some c)"
  using assms(2)
proof (induction jids)
  case Nil
  then show ?case by simp
next
  case (Cons x xs)
  obtain d1 won where t: "try_claim now st x owner tok d = Inr (d1, won)"
    using Cons.prems by (auto simp: result_simps)
  show ?case
  proof (cases won)
    case (Some c')
    then have "try_claim now st x owner tok d = Inr (d', Some c)" using Cons.prems t by simp
    then show ?thesis by (intro exI[of _ "[]"] exI[of _ x] exI[of _ xs]) simp
  next
    case None
    then have d1: "d1 = d" using try_claim_effect[OF assms(1) t] by blast
    then have "claim_first now st owner tok xs d = Inr (d', Some c)" using Cons.prems t None by simp
    then obtain us y vs where "xs = us @ y # vs" "\<forall>x \<in> set us. try_claim now st x owner tok d = Inr (d, None)"
      "try_claim now st y owner tok d = Inr (d', Some c)" using Cons.IH by blast
    then show ?thesis using t None d1 by (intro exI[of _ "x # us"] exI[of _ y] exI[of _ vs]) simp
  qed
qed

lemma take_split: "take n zs = xs @ y # ys \<Longrightarrow> \<exists>ws. zs = xs @ y # ws"
  by (metis append_Cons append_assoc append_take_drop_id)

text \<open>
  A worker takes the eligible job with the highest priority, the oldest of those, unless
  the tenant of a better one has no free slot: every eligible job before the claimed one in
  that order was tried and refused.
\<close>

theorem claims_best_job:
  assumes "settings_ok st" and "reach no_jobs (jstep st False) s"
    and "claim_job now st owner tok classes None (tables s) = Inr (d', Some c)"
  shows "\<exists>j \<in> set (jobs (tables s)). job_id j = c_job c \<and> eligible now st classes j
    \<and> (\<forall>k \<in> set (jobs (tables s)). eligible now st classes k \<longrightarrow> claim_key k < claim_key j \<longrightarrow>
         try_claim now st (job_id k) owner tok (tables s) = Inr (tables s, None))"
proof -
  have inv: "job_inv st (tables s)" by (rule reach_inv[OF assms(1,2)])
  let ?L = "sort_key claim_key (filter (eligible now st classes) (jobs (tables s)))"
  have "claim_first now st owner tok (candidates now st classes (tables s)) (tables s) = Inr (d', Some c)"
    using assms(3) by (simp add: claim_job_def)
  then obtain xs y ys where l: "take (job_claim_candidates st) (map job_id ?L) = xs @ y # ys"
    and xs: "\<forall>x \<in> set xs. try_claim now st x owner tok (tables s) = Inr (tables s, None)"
    and y: "try_claim now st y owner tok (tables s) = Inr (d', Some c)"
    using claim_first_Some[OF inv] unfolding candidates_eq by blast
  from take_split[OF l] obtain ws where "map job_id ?L = xs @ y # ws" by blast
  then obtain us j vs where L: "?L = us @ j # vs" and us: "xs = map job_id us" and j: "y = job_id j"
    by (auto simp: map_eq_append_conv)
  have "j \<in> set ?L" unfolding L by simp
  then have jm: "j \<in> set (jobs (tables s))" "eligible now st classes j" by simp_all
  obtain ja slot where ja: "find_job y (tables s) = Some ja"
    and ca: "c = claim_of (leased tok owner (now + job_lease_ttl_s st) ja) tok slot"
    using try_claim_effect[OF inv y] by blast
  have cj: "c_job c = job_id j" using find_job_Some[OF ja] by (simp add: ca j claim_of_def leased_def)
  have "try_claim now st (job_id k) owner tok (tables s) = Inr (tables s, None)"
    if k: "k \<in> set (jobs (tables s))" "eligible now st classes k" "claim_key k < claim_key j" for k
  proof -
    have "k \<in> set ?L" using k by simp
    then have "k \<in> set us \<or> k = j \<or> k \<in> set vs" unfolding L by auto
    moreover have "sorted (map claim_key (us @ j # vs))"
      using sorted_sort_key[of claim_key "filter (eligible now st classes) (jobs (tables s))"] by (simp only: L)
    then have "\<forall>v \<in> set vs. claim_key j \<le> claim_key v" by (simp add: sorted_append)
    ultimately have "k \<in> set us" using k(3) by auto
    then show ?thesis using xs us by auto
  qed
  then show ?thesis using jm cj by auto
qed

theorem claims_best_job_witness:
  "\<exists>j \<in> set (jobs (tables (sys_of demo1 []))). job_id j = c_job demo_claim
    \<and> eligible 1 demo_settings [] j"
proof -
  have c: "candidates 1 demo_settings [] demo1 = [''j1'']" by code_simp
  have "snd (projr (try_claim 1 demo_settings ''j1'' ''w'' ''t1'' demo1)) = Some demo_claim" by code_simp
  then have t: "try_claim 1 demo_settings ''j1'' ''w'' ''t1'' demo1 = Inr (demo2, Some demo_claim)"
    using Inr_projr[OF demo2_run] by (simp add: demo2_def)
  have "claim_job 1 demo_settings ''w'' ''t1'' [] None (tables (sys_of demo1 [])) = Inr (demo2, Some demo_claim)"
    by (simp add: claim_job_def c t)
  from claims_best_job[OF demo_ok demo1_reach this] show ?thesis by blast
qed

section \<open>A reaper pass\<close>

definition stale :: "time \<Rightarrow> job_row \<Rightarrow> bool" where
  "stale now j \<longleftrightarrow> running (j_status j) \<and> (case j_lease_expires j of None \<Rightarrow> False | Some x \<Rightarrow> x < now)"

text \<open>A step of the pass makes no job stale, and keeps the ids.\<close>

definition no_staler :: "time \<Rightarrow> 'a jdb_scheme \<Rightarrow> 'a jdb_scheme \<Rightarrow> bool" where
  "no_staler now d d' \<longleftrightarrow> job_id ` set (jobs d') = job_id ` set (jobs d)
     \<and> (\<forall>k \<in> set (jobs d'). stale now k \<longrightarrow>
          (\<exists>i \<in> set (jobs d). stale now i \<and> job_id i = job_id k \<and> j_lease_token i = j_lease_token k))"

lemma no_staler_refl [simp]: "no_staler now d d"
  by (auto simp: no_staler_def)

lemma no_staler_trans: "no_staler now a b \<Longrightarrow> no_staler now b c \<Longrightarrow> no_staler now a c"
  unfolding no_staler_def by metis

lemma no_staler_moves:
  assumes i: "ids_ok d" and m: "moves d d' j ts j'" and s: "\<not> stale now j'"
  shows "no_staler now d d'"
proof -
  have "\<exists>i \<in> set (jobs d). stale now i \<and> job_id i = job_id k \<and> j_lease_token i = j_lease_token k"
    if "k \<in> set (jobs d')" "stale now k" for k
    using that s moves_mem[OF i m, of k] by auto
  then show ?thesis using moves_key_sets[OF i m] by (simp add: no_staler_def)
qed

lemma expired_leases_mem:
  "(jid, tok) \<in> set (expired_leases now d) \<longleftrightarrow> (\<exists>j \<in> set (jobs d). job_id j = jid \<and> j_lease_token j = Some tok
     \<and> (case j_lease_expires j of None \<Rightarrow> False | Some x \<Rightarrow> x < now)
     \<and> \<not> is_terminal (j_status j) \<and> j_status j \<noteq> QUEUED)"
proof -
  have m: "y \<in> set (List.map_filter f xs) \<longleftrightarrow> (\<exists>x \<in> set xs. f x = Some y)"
    for f :: "job_row \<Rightarrow> (string \<times> string) option" and xs y
    by (force simp: List.map_filter_def)
  show ?thesis unfolding expired_leases_def m
    by (intro bex_cong refl) (auto split: option.splits)
qed

lemma reap_lease_total:
  assumes inv: "job_inv st d" and id: "fst jt \<in> job_id ` set (jobs d)"
  shows "\<exists>d' did. reap_lease now st jt d = Inr (d', did)"
proof (cases "rowcount (\<lambda>j. job_id j = fst jt \<and> j_lease_token j = Some (snd jt)) (jobs d) = 1")
  case False
  then have "reap_lease now st jt d = Inr (d, False)" by (simp add: reap_lease_def)
  then show ?thesis by blast
next
  case True
  let ?p = "\<lambda>j. job_id j = fst jt \<and> j_lease_token j = Some (snd jt)"
  define d1 where "d1 = d\<lparr>jobs := update_where ?p clear_lease (jobs d)\<rparr>"
  obtain j where j: "find_job (fst jt) d = Some j" "?p j" and m: "moves d d1 j [] (clear_lease j)"
    by (rule cond_update_move[OF inv_ids[OF inv] True, of "fst jt" clear_lease d1]) (simp_all add: d1_def)
  have l: "load_job (fst jt) d1 = Inr (clear_lease j)" using moves_find[OF m] j by (simp add: load_job_def)
  have run: "running (j_status j)" using inv_row[OF inv j(1)] j by (simp add: row_ok_def)
  then have al: "FAILED \<in> set (allowed_next (j_status j))" "QUEUED \<in> set (allowed_next (j_status j))"
    using failed_allowed queued_allowed by (simp_all add: running_def)
  have "\<not> isl (lose now st (clear_lease j) d1)"
    using al by (simp add: lose_def requeue_def apply_transition_def check_transition_def Let_def)
  then obtain d2 j2 ended where lo: "lose now st (clear_lease j) d1 = Inr (d2, j2, ended)"
    by (cases "lose now st (clear_lease j) d1") auto
  show ?thesis unfolding reap_lease_def Let_def d1_def[symmetric] using True l lo by simp blast
qed

lemma reap_lease_stale:
  assumes inv: "job_inv st d" and st: "settings_ok st" and r: "reap_lease now st (jid, tok) d = Inr (d', did)"
  shows "no_staler now d d' \<and> (\<forall>k \<in> set (jobs d'). stale now k \<longrightarrow> (job_id k, j_lease_token k) \<noteq> (jid, Some tok))"
  using reap_lease_effect[OF inv st r]
proof (elim disjE exE conjE)
  assume d: "d' = d" "\<not> did"
  then have "rowcount (\<lambda>j. job_id j = jid \<and> j_lease_token j = Some tok) (jobs d) \<noteq> 1"
    using r by (auto simp: reap_lease_def Let_def result_simps)
  moreover have "rowcount (\<lambda>j. job_id j = jid \<and> j_lease_token j = Some tok) (jobs d) = 1"
    if k: "k \<in> set (jobs d)" "job_id k = jid" "j_lease_token k = Some tok" for k
  proof -
    have "find_job jid d = Some k" using find_job_iff[OF inv_ids[OF inv]] k by simp
    then show ?thesis
      using rowcount_key[of job_id "jobs d" "\<lambda>j. job_id j = jid \<and> j_lease_token j = Some tok" jid]
        inv_ids[OF inv] k by (simp add: ids_ok_def find_job_def)
  qed
  ultimately show ?thesis using d by auto
next
  fix j j' assume j: "find_job jid d = Some j" and e: "effect d d' j [lose_to st j] (clear_lease j')"
    and row: "row_ok st (clear_lease j')"
  have m: "moves d d' j [lose_to st j] (clear_lease j')" using e by (simp add: effect_def)
  have ns: "\<not> stale now (clear_lease j')" using row by (auto simp: row_ok_def stale_def)
  show ?thesis
    using no_staler_moves[OF inv_ids[OF inv] m ns] moves_mem[OF inv_ids[OF inv] m] ns find_job_Some[OF j] by auto
qed

lemma reap_leases_stale:
  assumes "settings_ok st" and "job_inv st d" and "fst ` set L \<subseteq> job_id ` set (jobs d)"
  shows "\<exists>d' n. reap_each (reap_lease now st) L d = (d', Inr n) \<and> job_inv st d' \<and> no_staler now d d'
    \<and> (\<forall>k \<in> set (jobs d'). stale now k \<longrightarrow> (job_id k, j_lease_token k) \<notin> (\<lambda>(i, t). (i, Some t)) ` set L)"
  using assms(2,3)
proof (induction L arbitrary: d)
  case Nil
  then show ?case by simp
next
  case (Cons jt L)
  obtain d1 did where r: "reap_lease now st jt d = Inr (d1, did)"
    using reap_lease_total[OF Cons.prems(1), of jt now] Cons.prems(2) by force
  have inv1: "job_inv st d1" by (rule reap_lease_inv[OF Cons.prems(1) assms(1) r])
  have s1: "no_staler now d d1" "\<forall>k \<in> set (jobs d1). stale now k \<longrightarrow> (job_id k, j_lease_token k) \<noteq> (fst jt, Some (snd jt))"
    using reap_lease_stale[OF Cons.prems(1) assms(1), of now "fst jt" "snd jt"] r by auto
  have "fst ` set L \<subseteq> job_id ` set (jobs d1)" using Cons.prems(2) s1(1) by (auto simp: no_staler_def)
  then obtain d' n where IH: "reap_each (reap_lease now st) L d1 = (d', Inr n)" "job_inv st d'"
    "no_staler now d1 d'" "\<forall>k \<in> set (jobs d'). stale now k \<longrightarrow> (job_id k, j_lease_token k) \<notin> (\<lambda>(i, t). (i, Some t)) ` set L"
    using Cons.IH[OF inv1] by blast
  have "(job_id k, j_lease_token k) \<noteq> (fst jt, Some (snd jt))" if "k \<in> set (jobs d')" "stale now k" for k
    using IH(3) that s1(2) unfolding no_staler_def by metis
  then have "\<forall>k \<in> set (jobs d'). stale now k \<longrightarrow> (job_id k, j_lease_token k) \<notin> (\<lambda>(i, t). (i, Some t)) ` set (jt # L)"
    using IH(4) by (auto simp: case_prod_beta)
  then show ?case using r IH no_staler_trans[OF s1(1) IH(3)]
    by (simp add: thenT_def session_scope_def)
qed

lemma reap_each_keeps:
  assumes step: "\<And>x d. job_inv st d \<Longrightarrow> x \<in> job_id ` set (jobs d) \<Longrightarrow>
      \<exists>d' did. f x d = Inr (d', did) \<and> job_inv st d' \<and> no_staler now d d'"
    and "job_inv st d" and "set L \<subseteq> job_id ` set (jobs d)"
  shows "\<exists>d' n. reap_each f L d = (d', Inr n) \<and> job_inv st d' \<and> no_staler now d d'"
  using assms(2,3)
proof (induction L arbitrary: d)
  case Nil
  then show ?case by simp
next
  case (Cons x L)
  obtain d1 did where r: "f x d = Inr (d1, did)" "job_inv st d1" "no_staler now d d1"
    using step[OF Cons.prems(1), of x] Cons.prems(2) by auto
  have "set L \<subseteq> job_id ` set (jobs d1)" using Cons.prems(2) r(3) by (simp add: no_staler_def)
  then obtain d' n where "reap_each f L d1 = (d', Inr n)" "job_inv st d'" "no_staler now d1 d'"
    using Cons.IH[OF r(2)] by blast
  then show ?case using r no_staler_trans[OF r(3)] by (simp add: thenT_def session_scope_def)
qed

lemma find_of_id: "job_inv st d \<Longrightarrow> jid \<in> job_id ` set (jobs d) \<Longrightarrow> \<exists>j. find_job jid d = Some j"
  using find_job_iff[OF inv_ids] by blast

lemma reap_overdue_step:
  assumes inv: "job_inv st d" and id: "jid \<in> job_id ` set (jobs d)"
  shows "\<exists>d' did. reap_overdue now st jid d = Inr (d', did) \<and> job_inv st d' \<and> no_staler now d d'"
proof -
  obtain j where j: "find_job jid d = Some j" using find_of_id[OF assms] by blast
  have "TIMED_OUT \<in> set (allowed_next QUEUED)" by (simp add: allowed_next_def)
  then have "\<not> isl (reap_overdue now st jid d)"
    using j by (simp add: reap_overdue_def load_job_def apply_transition_def check_transition_def Let_def)
  then obtain d' did where r: "reap_overdue now st jid d = Inr (d', did)"
    by (cases "reap_overdue now st jid d") auto
  have "no_staler now d d'" using reap_overdue_effect[OF inv r]
  proof (elim disjE exE conjE)
    fix j j' assume e: "effect d d' j [TIMED_OUT] j'"
    then have m: "moves d d' j [TIMED_OUT] j'" by (simp add: effect_def)
    then have "\<not> stale now j'" by (simp add: moves_def stale_def running_def)
    then show ?thesis by (rule no_staler_moves[OF inv_ids[OF inv] m])
  qed simp
  then show ?thesis using r reap_overdue_inv[OF inv r] by blast
qed

lemma publish_step:
  assumes inv: "job_inv st d" and id: "jid \<in> job_id ` set (jobs d)"
  shows "\<exists>d' b. publish now broker jid d = (d', Inr b) \<and> job_inv st d' \<and> no_staler now d d'"
proof -
  obtain j where j: "find_job jid d = Some j" using find_of_id[OF assms] by blast
  show ?thesis
  proof (cases "j_status j = QUEUED \<and> broker (queued_job j)")
    case False
    then show ?thesis using j inv by (auto simp: publish_def load_job_def)
  next
    case True
    let ?j = "j\<lparr>j_published_at := Some now\<rparr>"
    have p: "publish now broker jid d = (put_job ?j d, Inr True)"
      using True j by (simp add: publish_def load_job_def session_scope_def mark_published_def)
    have m: "moves d (put_job ?j d) j [] ?j"
      by (rule moves_put[OF moves_refl[OF inv_ids[OF inv] j]]) (simp_all add: same_job_def)
    have "\<not> stale now ?j" using True by (simp add: stale_def running_def)
    then show ?thesis using p publish_inv[OF inv p] no_staler_moves[OF inv_ids[OF inv] m] by blast
  qed
qed

lemma reap_publish_keeps:
  "job_inv st d \<Longrightarrow> set L \<subseteq> job_id ` set (jobs d) \<Longrightarrow>
     \<exists>d' n. reap_publish now b L d = (d', Inr n) \<and> job_inv st d' \<and> no_staler now d d'"
proof (induction L arbitrary: d)
  case Nil
  then show ?case by simp
next
  case (Cons x L)
  have "x \<in> job_id ` set (jobs d)" using Cons.prems(2) by simp
  from publish_step[OF Cons.prems(1) this, of now b]
  obtain d1 did where r: "publish now b x d = (d1, Inr did)" "job_inv st d1" "no_staler now d d1" by blast
  have "set L \<subseteq> job_id ` set (jobs d1)" using Cons.prems(2) r(3) by (simp add: no_staler_def)
  then obtain d' n where "reap_publish now b L d1 = (d', Inr n)" "job_inv st d'" "no_staler now d1 d'"
    using Cons.IH[OF r(2)] by blast
  then show ?case using r no_staler_trans[OF r(3)] by (cases did) (auto simp: thenT_def)
qed

lemma expired_ids: "fst ` set (expired_leases now d) \<subseteq> job_id ` set (jobs d)"
  by (force simp: expired_leases_mem)

text \<open>
  C33. A reaper pass always completes, and after it no job is left with a worker that died: no
  running job's lease had expired when the pass began.
\<close>

theorem reap_recovers_expired_leases:
  assumes st: "settings_ok st" and "reach no_jobs (jstep st False) s"
  shows "\<exists>d' n. reap now st broker (tables s) = (d', Inr n)
    \<and> (\<forall>j \<in> set (jobs d'). \<not> stale now j)"
proof -
  let ?d = "tables s"
  have inv: "job_inv st ?d" by (rule reach_inv[OF assms])
  obtain d1 n1 where r1: "reap_each (reap_lease now st) (expired_leases now ?d) ?d = (d1, Inr n1)"
    and i1: "job_inv st d1" and s1: "no_staler now ?d d1"
    and l1: "\<forall>k \<in> set (jobs d1). stale now k \<longrightarrow>
       (job_id k, j_lease_token k) \<notin> (\<lambda>(i, t). (i, Some t)) ` set (expired_leases now ?d)"
    using reap_leases_stale[OF st inv expired_ids] by blast
  have n1: "\<not> stale now k" if k: "k \<in> set (jobs d1)" for k
  proof
    assume s: "stale now k"
    then obtain i where i: "i \<in> set (jobs ?d)" "stale now i" "job_id i = job_id k" "j_lease_token i = j_lease_token k"
      using s1 k unfolding no_staler_def by blast
    have "row_ok st i" using inv i(1) by (simp add: job_inv_def)
    then obtain t where t: "j_lease_token i = Some t" using i(2) by (auto simp: row_ok_def stale_def)
    have "(job_id i, t) \<in> set (expired_leases now ?d)"
      unfolding expired_leases_mem using i(1,2) t by (auto simp: stale_def running_def)
    then have "(job_id k, j_lease_token k) \<in> (\<lambda>(i, t). (i, Some t)) ` set (expired_leases now ?d)"
      using i(3,4) t by force
    then show False using l1 k s by blast
  qed
  have "set (overdue_jobs now d1) \<subseteq> job_id ` set (jobs d1)" by (auto simp: overdue_jobs_def)
  then obtain d2 n2 where r2: "reap_each (reap_overdue now st) (overdue_jobs now d1) d1 = (d2, Inr n2)"
    and i2: "job_inv st d2" and s2: "no_staler now d1 d2"
    using reap_each_keeps[where f = "reap_overdue now st", OF reap_overdue_step i1] by blast
  obtain d3 n3 where r3: "(case broker of None \<Rightarrow> (d2, Inr 0)
      | Some b \<Rightarrow> reap_publish now b (publish_due now st d2) d2) = (d3, Inr n3)"
    and s3: "no_staler now d2 d3"
  proof (cases broker)
    case None
    then show ?thesis using that[of d2 0] by simp
  next
    case (Some b)
    have "set (publish_due now st d2) \<subseteq> job_id ` set (jobs d2)" by (auto simp: publish_due_def)
    then show ?thesis using reap_publish_keeps[OF i2] Some that by fastforce
  qed
  have "\<not> stale now k" if "k \<in> set (jobs d3)" for k
    using no_staler_trans[OF s2 s3] n1 that unfolding no_staler_def by blast
  then show ?thesis using r1 r2 r3 by (simp add: reap_def thenT_def)
qed

theorem reap_recovers_expired_leases_witness:
  "\<exists>d' n. reap 100 demo_settings None (tables (sys_of demo2 [''t1''])) = (d', Inr n)
    \<and> list_all (\<lambda>j. \<not> stale 100 j) (jobs d')"
  unfolding list_all_iff by (rule reap_recovers_expired_leases[OF demo_ok demo2_reach])

section \<open>Cancelling\<close>

text \<open>
  Cancelling a job: one that has ended or is changing the registry is refused; a queued
  one that no worker holds is CANCELLED at once and gives its model's lock and its slots back;
  any other keeps running and is marked, and from then on its worker's stage reports fail with
  the cancellation until it registers.
\<close>

theorem cancel_outcomes:
  assumes "settings_ok st" and "reach no_jobs (jstep st False) s" and "find_job jid (tables s) = Some j"
  shows "(is_terminal (j_status j) \<or> in_registry_stage (j_status j) \<longrightarrow>
           request_cancel now st jid actor (tables s) = Inl (err JobNotCancellableError
              [(''job_id'', CStr jid), (''status'', CStatus (j_status j))]))
    \<and> (\<not> is_terminal (j_status j) \<and> \<not> in_registry_stage (j_status j) \<longrightarrow>
        (\<exists>d' r j'. request_cancel now st jid actor (tables s) = Inr (d', r, j_status j = QUEUED)
          \<and> find_job jid d' = Some j' \<and> p_cancel_requested r
          \<and> (if j_status j = QUEUED
             then j_status j' = CANCELLED \<and> holder_of (j_model j) d' = None
               \<and> (\<forall>sl \<in> set (slots d'). sl_job sl \<noteq> jid)
             else j_status j' = j_status j \<and> (\<forall>x later. is_stage x \<longrightarrow>
               (\<exists>e. transition_job later st jid x None None None (j_lease_token j) d' = Inl e
                  \<and> e_class e = JobCancelledError)))))"
proof (intro conjI impI)
  let ?d = "tables s"
  have inv: "job_inv st ?d" by (rule reach_inv[OF assms(1,2)])
  note row = inv_row[OF inv assms(3)]
  have jm: "j \<in> set (jobs ?d)" "job_id j = jid" using find_job_Some[OF assms(3)] by simp_all
  show "request_cancel now st jid actor ?d = Inl (err JobNotCancellableError
              [(''job_id'', CStr jid), (''status'', CStatus (j_status j))])"
    if "is_terminal (j_status j) \<or> in_registry_stage (j_status j)"
    using that assms(3) by (simp add: request_cancel_def load_job_def Let_def)
  assume live: "\<not> is_terminal (j_status j) \<and> \<not> in_registry_stage (j_status j)"
  have qt: "(j_status j = QUEUED \<and> j_lease_token j = None) = (j_status j = QUEUED)"
    using row by (auto simp: row_ok_def running_def)
  have "CANCELLED \<in> set (allowed_next (j_status j))" using live by (simp add: allowed_next_def)
  then have "\<not> isl (request_cancel now st jid actor ?d)"
    using live assms(3)
    by (simp add: request_cancel_def load_job_def Let_def apply_transition_def check_transition_def)
  then obtain d' r imm where r: "request_cancel now st jid actor ?d = Inr (d', r, imm)"
    by (cases "request_cancel now st jid actor ?d") auto
  obtain j0 j' where e0: "find_job jid ?d = Some j0" "imm = (j_status j0 = QUEUED \<and> j_lease_token j0 = None)"
    and eff: "effect ?d d' j0 (if imm then [CANCELLED] else []) j'" and cn: "j_cancel_at j' \<noteq> None"
    and rj: "r = to_response j' False" "j_lease_token j' = j_lease_token j0"
    and il: "imm \<Longrightarrow> locks d' = locks (release_lock (j_model j0) jid ?d)"
      "imm \<Longrightarrow> slots d' = delete_where (\<lambda>s. sl_job s = jid) (slots ?d)"
    using request_cancel_effect[OF inv r] by blast
  have j0: "j0 = j" and imm: "imm = (j_status j = QUEUED)" using e0 assms(3) qt by simp_all
  have m: "moves ?d d' j (if imm then [CANCELLED] else []) j'" using eff j0 by (simp add: effect_def)
  have f': "find_job jid d' = Some j'" using moves_find[OF m] jm by simp
  have pc: "p_cancel_requested r" using rj cn by (simp add: to_response_def)
  show "\<exists>d' r j'. request_cancel now st jid actor ?d = Inr (d', r, j_status j = QUEUED)
          \<and> find_job jid d' = Some j' \<and> p_cancel_requested r
          \<and> (if j_status j = QUEUED
             then j_status j' = CANCELLED \<and> holder_of (j_model j) d' = None
               \<and> (\<forall>sl \<in> set (slots d'). sl_job sl \<noteq> jid)
             else j_status j' = j_status j \<and> (\<forall>x later. is_stage x \<longrightarrow>
               (\<exists>e. transition_job later st jid x None None None (j_lease_token j) d' = Inl e
                  \<and> e_class e = JobCancelledError)))"
  proof (cases "j_status j = QUEUED")
    case True
    then have "j_status j' = CANCELLED" using m imm by (simp add: moves_def)
    moreover have "holder_of (j_model j) ?d = Some jid"
      using inv jm live by (auto simp: job_inv_def held_def)
    then have "holder_of (j_model j) d' = None"
      using holder_cong[OF il(1)] holder_release[OF inv_locks[OF inv]] imm True j0 by simp
    moreover have "\<forall>sl \<in> set (slots d'). sl_job sl \<noteq> jid" using il(2) imm True by simp
    ultimately show ?thesis using r f' pc imm True by auto
  next
    case False
    have st': "j_status j' = j_status j" "job_id j' = jid" using m imm False jm by (simp_all add: moves_def same_job_def)
    have "running (j_status j)" using row live False by (simp add: row_ok_def running_def)
    then have tok: "j_lease_token j' = j_lease_token j" "j_lease_token j \<noteq> None"
      using row rj(2) j0 by (simp_all add: row_ok_def)
    have "\<exists>e. transition_job later st jid x None None None (j_lease_token j) d' = Inl e
                  \<and> e_class e = JobCancelledError" if "is_stage x" for x later
      using that f' tok st' cn live
      by (auto simp: transition_job_def load_job_def check_fence_def is_stage_def)
    then show ?thesis using r f' pc imm False st' by auto
  qed
qed

theorem cancel_outcomes_witness:
  "\<exists>d' r j'. request_cancel 3 demo_settings ''j1'' ''op'' (tables (sys_of demo1 [])) = Inr (d', r, True)
     \<and> find_job ''j1'' d' = Some j' \<and> j_status j' = CANCELLED"
proof -
  have f: "find_job ''j1'' (tables (sys_of demo1 [])) = Some (the (find_job ''j1'' demo1))"
    "j_status (the (find_job ''j1'' demo1)) = QUEUED"
  proof -
    have "find_job ''j1'' demo1 \<noteq> None" by code_simp
    then show "find_job ''j1'' (tables (sys_of demo1 [])) = Some (the (find_job ''j1'' demo1))" by simp
    show "j_status (the (find_job ''j1'' demo1)) = QUEUED" by code_simp
  qed
  show ?thesis using cancel_outcomes[OF demo_ok demo1_reach f(1), of 3 "''op''"] f(2) by simp blast
qed

end
