(* ===== verification/Job_Findings.thy ===== *)
theory Job_Findings
  imports Job_Run
begin

text \<open>
  Behaviours of the job queue that its comments and documents do not promise, each shown on a
  concrete state.
\<close>

section \<open>Events of two models under one key\<close>

text \<open>
  Idempotency keys tell models and caller event ids apart when model ids hold no colon.
\<close>

theorem idempotency_key_injective:
  assumes "CHR '':'' \<notin> set (ev_model_id e)" and "CHR '':'' \<notin> set (ev_model_id f)"
    and "ev_event_id e = Some i" and "ev_event_id f = Some k" and "i \<noteq> []" and "k \<noteq> []"
  shows "idempotency_key digest e = idempotency_key digest f \<longleftrightarrow> ev_model_id e = ev_model_id f \<and> i = k"
  using append_colon_inject[OF assms(1,2)] assms(3-6) by (simp add: idempotency_key_def)

theorem idempotency_key_injective_witness:
  "idempotency_key (\<lambda>_. []) (demo_event ''m'' ''1'') = idempotency_key (\<lambda>_. []) (demo_event ''n'' ''1'')
    \<longleftrightarrow> ev_model_id (demo_event ''m'' ''1'') = ev_model_id (demo_event ''n'' ''1'') \<and> ''1'' = ''1''"
  by (rule idempotency_key_injective) (simp_all add: demo_event_def)

text \<open>
  A model id with a colon breaks this: the event \<^verbatim>\<open>c\<close> of model \<^verbatim>\<open>a:b\<close> and the event
  \<^verbatim>\<open>b:c\<close> of model \<^verbatim>\<open>a\<close> share a key, and the second is answered with the job of the other
  model.
\<close>

theorem idempotency_key_collision:
  "let e = demo_event ''a:b'' ''c''; f = demo_event ''a'' ''b:c'';
       r = submit 0 demo_settings (idempotency_key (\<lambda>_. []) e) ''j1'' ''op'' e empty_db;
       r' = submit 5 demo_settings (idempotency_key (\<lambda>_. []) f) ''j2'' ''op'' f (fst (projr r))
   in map_sum e_class (\<lambda>(d, p). (p_duplicate p, p_job p, p_model p)) r' = Inr (True, ''j1'', ''a:b'')"
  by code_simp

section \<open>Attempts stopped while they change the registry\<close>

text \<open>
  An attempt that is drained while REGISTERING goes back to the queue and is run again
  from the start, although a stop in this stage is to be failed for reconciliation.
\<close>

theorem drained_registering_is_requeued:
  "map j_status (jobs demo6) = [REGISTERING]
    \<and> map j_status (jobs (fst (finish_attempt 9 demo_settings False demo_claim
        (Raised (err JobDrainedError [])) demo6))) = [QUEUED]"
  by code_simp

text \<open>A job whose retry backoff has not passed is claimed all the same when named by a message.\<close>

theorem claim_by_id_ignores_backoff:
  "let d = fst (finish_attempt 9 demo_settings False demo_claim (Raised (err RegistryUnavailableError [])) demo2)
   in map j_available_at (jobs d) = [Some 10]
    \<and> candidates 9 demo_settings [] d = []
    \<and> map_option c_job (snd (projr (try_claim 9 demo_settings ''j1'' ''w'' ''t2'' d))) = Some ''j1''"
  by code_simp

text \<open>
  The reaper takes a lease over that its worker renewed between the reaper's scan and its
  update: the update looks at the token only.
\<close>

theorem reaper_takes_renewed_lease:
  "let now = 40; scan = expired_leases now demo2;
       renewed = fst (supervisor_tick now demo_settings demo_claim True False 31 demo2)
   in scan = [(''j1'', ''t1'')] \<and> map j_lease_expires (jobs renewed) = [Some 70]
    \<and> map_sum e_class (\<lambda>(d, took). (map j_status (jobs d), took))
        (reap_lease now demo_settings (hd scan) renewed) = Inr ([QUEUED], True)"
  by code_simp

section \<open>Attempts that run as threads\<close>

text \<open>
  The attempt of the claimed job is drained, the job goes back to the queue, the attempt's
  thread ends and releases the model's lock, and a second job of the model is accepted.
\<close>

definition thread1 :: jdb where
  "thread1 = fst (finish_attempt 9 demo_settings True demo_claim (Raised (err JobDrainedError [])) demo2)"

definition thread2 :: jdb where "thread2 = release_abandoned demo_claim thread1"

definition thread3 :: jdb where "thread3 = fst (projr (demo_submit ''2'' ''j2'' thread2))"

lemma thread3_run: "\<not> isl (demo_submit ''2'' ''j2'' thread2)" by code_simp

lemma demo2_reach_threads: "reach no_jobs (jstep demo_settings True) (sys_of demo2 [''t1''])"
proof -
  have s: "submit_insert 0 demo_settings (''m:'' @ ''1'') ''j1'' ''op'' (demo_event ''m'' ''1'')
      (tables (sys_of empty_db [])) = Inr (demo1, snd (projr (demo_submit ''1'' ''j1'' empty_db)))"
    unfolding demo1_def using Inr_projr[OF demo1_run] by (simp add: demo_submit_def)
  have c: "try_claim 1 demo_settings ''j1'' ''w'' ''t1'' (tables (sys_of demo1 [])) =
      Inr (demo2, snd (projr (try_claim 1 demo_settings ''j1'' ''w'' ''t1'' demo1)))"
    unfolding demo2_def using Inr_projr[OF demo2_run] by simp
  have "reach no_jobs (jstep demo_settings True) (sys_of empty_db [])"
    by (rule reach.start) (simp add: no_jobs_def empty_db_def)
  moreover have "jstep demo_settings True (sys_of empty_db []) (sys_of demo1 [])"
    using jstep.submit[OF s, of True] by simp
  moreover have "jstep demo_settings True (sys_of demo1 []) (sys_of demo2 [''t1''])"
    using jstep.claim[OF c, of True] by simp
  ultimately show ?thesis by (meson reach.more)
qed

text \<open>
  With attempts run as threads of the worker, one job per model is not kept: a reachable
  state has two queued jobs of the same model.
\<close>

theorem thread_mode_two_live_jobs:
  "\<exists>s. reach no_jobs (jstep demo_settings True) s
     \<and> map (\<lambda>j. (job_id j, j_model j, j_status j)) (jobs (tables s)) =
         [(''j1'', ''m'', QUEUED), (''j2'', ''m'', QUEUED)]"
proof -
  let ?s1 = "(sys_of demo2 [''t1''])\<lparr>tables := thread1, late := [demo_claim]\<rparr>"
  let ?s2 = "?s1\<lparr>tables := thread2\<rparr>"
  let ?s3 = "?s2\<lparr>tables := thread3\<rparr>"
  have "finish_attempt 9 demo_settings True demo_claim (Raised (err JobDrainedError [])) (tables (sys_of demo2 [''t1'']))
      = (thread1, snd (finish_attempt 9 demo_settings True demo_claim (Raised (err JobDrainedError [])) demo2))"
    unfolding thread1_def sys_of_simps by (rule surjective_pairing)
  moreover have "stays_late True (Raised (err JobDrainedError []))" by code_simp
  ultimately have s1: "jstep demo_settings True (sys_of demo2 [''t1'']) ?s1"
    using jstep.finish[of 9 demo_settings True demo_claim "Raised (err JobDrainedError [])" "sys_of demo2 [''t1'']"]
    by simp
  have s2: "jstep demo_settings True ?s1 ?s2"
    using jstep.thread_end[of demo_claim ?s1 demo_settings True] by (simp add: thread2_def)
  have "submit_insert 0 demo_settings (''m:'' @ ''2'') ''j2'' ''op'' (demo_event ''m'' ''2'') (tables ?s2)
      = Inr (thread3, snd (projr (demo_submit ''2'' ''j2'' thread2)))"
    unfolding thread3_def using Inr_projr[OF thread3_run] by (simp add: demo_submit_def)
  from jstep.submit[OF this, of True] have s3: "jstep demo_settings True ?s2 ?s3" by simp
  have r1: "reach no_jobs (jstep demo_settings True) ?s1" by (rule reach.more[OF demo2_reach_threads]) (rule s1)
  have r2: "reach no_jobs (jstep demo_settings True) ?s2" by (rule reach.more[OF r1]) (rule s2)
  have r3: "reach no_jobs (jstep demo_settings True) ?s3" by (rule reach.more[OF r2]) (rule s3)
  have "map (\<lambda>j. (job_id j, j_model j, j_status j)) (jobs thread3) =
         [(''j1'', ''m'', QUEUED), (''j2'', ''m'', QUEUED)]" by code_simp
  then have "map (\<lambda>j. (job_id j, j_model j, j_status j)) (jobs (tables ?s3)) =
         [(''j1'', ''m'', QUEUED), (''j2'', ''m'', QUEUED)]" by simp
  with r3 show ?thesis by (intro exI[of _ ?s3] conjI)
qed

end
