(* ===== verification/Health.thy ===== *)
theory Health
  imports Prelude
begin

text \<open>
  The delivery policy (\<^verbatim>\<open>core/policies.py\<close>: \<^verbatim>\<open>HealthRule\<close>, \<^verbatim>\<open>DeliveryPolicy\<close> and the validators of
  its fields) and the online health verdict and A/B test of a rollout (\<^verbatim>\<open>delivery/health.py\<close>).
  Samples and limits are exact rationals. The p-value of Welch's test is a parameter, \<open>None\<close> for
  the not-a-number that two constant arms give. Reason texts are kept as the rule they name.
\<close>

section \<open>The policy\<close>

record health_rule =
  hr_metric :: string
  hr_lower :: bool
  hr_limit :: "rat option"
  hr_max_degradation :: "rat option"
  hr_max_ratio :: "rat option"
  hr_required :: bool

datatype shadow_then = TO_PROMOTE | TO_CANARY | TO_MANUAL
datatype ab_outcome = AB_PROMOTE | AB_ROLLBACK | AB_MANUAL

record delivery_policy =
  p_min_samples :: nat
  p_health :: "health_rule list"
  p_shadow_max_s :: time
  p_shadow_then :: shadow_then
  p_canary_steps :: "nat list"
  p_canary_step_hold_s :: time
  p_ab_percent :: nat
  p_ab_duration_s :: time
  p_ab_metric :: string
  p_ab_lower :: bool
  p_ab_confidence :: rat
  p_ab_inconclusive :: ab_outcome
  p_approval_ttl_s :: time
  p_approval_canary :: bool

text \<open>\<^verbatim>\<open>_steps\<close>: \<open>steps != sorted(set(steps))\<close> says the steps are not strictly increasing.\<close>

definition valid_steps :: "nat list \<Rightarrow> bool" where
  "valid_steps steps \<longleftrightarrow> steps \<noteq> [] \<and> last steps = 100
     \<and> list_all (\<lambda>s. 1 \<le> s \<and> s \<le> 100) steps \<and> steps = sorted_list_of_set (set steps)"

definition valid_rule :: "health_rule \<Rightarrow> bool" where
  "valid_rule r \<longleftrightarrow> hr_metric r \<noteq> []
     \<and> (case hr_max_degradation r of None \<Rightarrow> True | Some d \<Rightarrow> 0 \<le> d)
     \<and> (case hr_max_ratio r of None \<Rightarrow> True | Some q \<Rightarrow> 0 < q)"

definition valid_policy :: "delivery_policy \<Rightarrow> bool" where
  "valid_policy p \<longleftrightarrow> 1 \<le> p_min_samples p \<and> list_all valid_rule (p_health p)
     \<and> 0 < p_shadow_max_s p \<and> valid_steps (p_canary_steps p) \<and> 0 \<le> p_canary_step_hold_s p
     \<and> 1 \<le> p_ab_percent p \<and> p_ab_percent p \<le> 99 \<and> 0 < p_ab_duration_s p \<and> p_ab_metric p \<noteq> []
     \<and> 1/2 < p_ab_confidence p \<and> p_ab_confidence p < 1 \<and> 0 < p_approval_ttl_s p"

section \<open>Health\<close>

record arm_stats =
  ar_samples :: "(string \<times> rat list) list"
  ar_count :: nat

datatype breach_reason = Beyond_Limit string | Degraded string | Ratio string
datatype arm = Stable_Arm | Candidate_Arm

datatype verdict = Healthy | Breach "breach_reason list" | Insufficient "(string \<times> arm) list"

definition samples_of :: "arm_stats \<Rightarrow> string \<Rightarrow> rat list" where
  "samples_of a m = get_or (ar_samples a) m []"

definition fmean :: "rat list \<Rightarrow> rat" where
  "fmean xs = sum_list xs / of_nat (length xs)"

definition mean_of :: "rat list \<Rightarrow> rat option" where
  "mean_of xs = (if xs = [] then None else Some (fmean xs))"

definition worse_by :: "health_rule \<Rightarrow> rat \<Rightarrow> rat \<Rightarrow> rat" where
  "worse_by r c s = (if hr_lower r then c - s else s - c)"

definition ratio_breached :: "health_rule \<Rightarrow> rat \<Rightarrow> rat \<Rightarrow> rat \<Rightarrow> bool" where
  "ratio_breached r q c s = (if hr_lower r then 0 < s \<and> q * s < c else 0 < c \<and> q * c < s)"

definition beyond_limit :: "health_rule \<Rightarrow> rat \<Rightarrow> rat \<Rightarrow> bool" where
  "beyond_limit r l c = (if hr_lower r then l < c else c < l)"

text \<open>The body of the loop over the rules: what it appends to \<open>reasons\<close> and to \<open>missing\<close>.\<close>

definition check_rule ::
  "health_rule \<Rightarrow> arm_stats \<Rightarrow> arm_stats \<Rightarrow> breach_reason list \<times> (string \<times> arm) list" where
  "check_rule r stb cand =
     (let m = hr_metric r in
      case mean_of (samples_of cand m) of
        None \<Rightarrow> ([], if hr_required r then [(m, Candidate_Arm)] else [])
      | Some c \<Rightarrow>
          let lim = (case hr_limit r of None \<Rightarrow> [] | Some l \<Rightarrow> if beyond_limit r l c then [Beyond_Limit m] else [])
          in if hr_max_degradation r = None \<and> hr_max_ratio r = None then (lim, [])
             else (case mean_of (samples_of stb m) of
                 None \<Rightarrow> (lim, if hr_required r then [(m, Stable_Arm)] else [])
               | Some s \<Rightarrow>
                   (lim @ (case hr_max_degradation r of None \<Rightarrow> []
                            | Some d \<Rightarrow> if d < worse_by r c s then [Degraded m] else [])
                        @ (case hr_max_ratio r of None \<Rightarrow> []
                            | Some q \<Rightarrow> if ratio_breached r q c s then [Ratio m] else []), [])))"

fun check_rules ::
  "health_rule list \<Rightarrow> arm_stats \<Rightarrow> arm_stats \<Rightarrow> breach_reason list \<times> (string \<times> arm) list" where
  "check_rules [] stb cand = ([], [])"
| "check_rules (r # rs) stb cand =
     (let (b, m) = check_rule r stb cand; (bs, ms) = check_rules rs stb cand in (b @ bs, m @ ms))"

definition enough_samples :: "delivery_policy \<Rightarrow> arm_stats \<Rightarrow> arm_stats \<Rightarrow> bool" where
  "enough_samples p stb cand \<longleftrightarrow> \<not> (ar_count cand < p_min_samples p \<or> ar_count stb < p_min_samples p)"

definition evaluate_health :: "delivery_policy \<Rightarrow> arm_stats \<Rightarrow> arm_stats \<Rightarrow> verdict" where
  "evaluate_health p stb cand =
     (if \<not> enough_samples p stb cand then Insufficient []
      else let (reasons, missing) = check_rules (p_health p) stb cand
           in if reasons \<noteq> [] then Breach reasons
              else if missing \<noteq> [] then Insufficient missing else Healthy)"

section \<open>The A/B test\<close>

datatype ab_verdict = Better | Worse | Inconclusive

definition ab_test ::
  "(rat list \<Rightarrow> rat list \<Rightarrow> rat option) \<Rightarrow> delivery_policy \<Rightarrow> arm_stats \<Rightarrow> arm_stats \<Rightarrow> ab_verdict" where
  "ab_test welch p stb cand =
     (let cv = samples_of cand (p_ab_metric p); sv = samples_of stb (p_ab_metric p);
          enough = (p_min_samples p \<le> min (ar_count cand) (ar_count stb) \<and> 2 \<le> length cv \<and> 2 \<le> length sv)
      in if \<not> enough then Inconclusive
         else let c = fmean cv; s = fmean sv;
                  pv = (case welch cv sv of Some x \<Rightarrow> x | None \<Rightarrow> if c = s then 1 else 0);
                  alpha = 1 - p_ab_confidence p;
                  improvement = (if p_ab_lower p then s - c else c - s)
              in if pv < alpha \<and> 0 < improvement then Better
                 else if pv < alpha \<and> improvement < 0 then Worse else Inconclusive)"

section \<open>What the verdicts mean\<close>

text \<open>
  A rule read declaratively: broken when a mean that the rule bounds is known and beyond the
  bound, undecided when a mean it needs is not known yet.
\<close>

definition rule_broken :: "health_rule \<Rightarrow> arm_stats \<Rightarrow> arm_stats \<Rightarrow> bool" where
  "rule_broken r stb cand \<longleftrightarrow> samples_of cand (hr_metric r) \<noteq> [] \<and>
     (let c = fmean (samples_of cand (hr_metric r)); s = fmean (samples_of stb (hr_metric r)) in
       (\<exists>l \<in> set_option (hr_limit r). beyond_limit r l c)
     \<or> samples_of stb (hr_metric r) \<noteq> [] \<and>
         ((\<exists>d \<in> set_option (hr_max_degradation r). d < worse_by r c s)
        \<or> (\<exists>q \<in> set_option (hr_max_ratio r). ratio_breached r q c s)))"

definition rule_undecided :: "health_rule \<Rightarrow> arm_stats \<Rightarrow> arm_stats \<Rightarrow> bool" where
  "rule_undecided r stb cand \<longleftrightarrow> hr_required r \<and>
     (samples_of cand (hr_metric r) = []
      \<or> (hr_max_degradation r \<noteq> None \<or> hr_max_ratio r \<noteq> None) \<and> samples_of stb (hr_metric r) = [])"

lemma check_rule_broken: "fst (check_rule r stb cand) \<noteq> [] \<longleftrightarrow> rule_broken r stb cand"
  by (auto simp: check_rule_def rule_broken_def mean_of_def Let_def split: option.splits if_splits)

lemma check_rule_missing: "snd (check_rule r stb cand) \<noteq> [] \<longleftrightarrow> rule_undecided r stb cand"
  by (auto simp: check_rule_def rule_undecided_def mean_of_def Let_def split: option.splits)

lemma check_rules_broken: "fst (check_rules rs stb cand) \<noteq> [] \<longleftrightarrow> list_ex (\<lambda>r. rule_broken r stb cand) rs"
  by (induction rs) (auto simp: Let_def check_rule_broken[symmetric] split: prod.splits)

lemma check_rules_missing: "snd (check_rules rs stb cand) \<noteq> [] \<longleftrightarrow> list_ex (\<lambda>r. rule_undecided r stb cand) rs"
  by (induction rs) (auto simp: Let_def check_rule_missing[symmetric] split: prod.splits)

definition broken :: "verdict \<Rightarrow> bool" where
  "broken v \<longleftrightarrow> (case v of Breach _ \<Rightarrow> True | _ \<Rightarrow> False)"

text \<open>The health verdict is exactly this: a breach when both arms have enough requests and
  some rule is broken; healthy when they have, no rule is broken and no required mean is
  missing; otherwise insufficient. One broken rule is a breach whatever else is missing.\<close>

theorem health_verdict:
  "(broken (evaluate_health p stb cand) \<longleftrightarrow>
      enough_samples p stb cand \<and> list_ex (\<lambda>r. rule_broken r stb cand) (p_health p))
   \<and> (evaluate_health p stb cand = Healthy \<longleftrightarrow> enough_samples p stb cand
      \<and> \<not> list_ex (\<lambda>r. rule_broken r stb cand) (p_health p)
      \<and> \<not> list_ex (\<lambda>r. rule_undecided r stb cand) (p_health p))"
  unfolding check_rules_broken[symmetric] check_rules_missing[symmetric]
  by (auto simp: evaluate_health_def broken_def split: prod.splits)

text \<open>The A/B test does not favour an arm: with a two-sided test, exchanging the arms exchanges
  \<open>better\<close> and \<open>worse\<close>. And a verdict is never against the means: \<open>better\<close> needs a candidate mean
  strictly on the better side of stable's.\<close>

theorem ab_test_fair:
  assumes "\<And>xs ys. welch xs ys = welch ys xs"
  shows "(ab_test welch p stb cand = Better \<longleftrightarrow> ab_test welch p cand stb = Worse)
    \<and> (ab_test welch p stb cand = Better \<longrightarrow>
        (let c = fmean (samples_of cand (p_ab_metric p)); s = fmean (samples_of stb (p_ab_metric p))
         in if p_ab_lower p then c < s else s < c))"
  using assms[of "samples_of cand (p_ab_metric p)" "samples_of stb (p_ab_metric p)"]
  by (auto simp: ab_test_def Let_def min.commute split: if_splits option.splits)

definition demo_policy :: delivery_policy where
  "demo_policy = \<lparr>p_min_samples = 2, p_health =
       [\<lparr>hr_metric = ''error_rate'', hr_lower = True, hr_limit = None, hr_max_degradation = Some (1/100),
         hr_max_ratio = None, hr_required = True\<rparr>],
     p_shadow_max_s = 60, p_shadow_then = TO_CANARY, p_canary_steps = [5, 50, 100],
     p_canary_step_hold_s = 10, p_ab_percent = 50, p_ab_duration_s = 100, p_ab_metric = ''error_rate'',
     p_ab_lower = True, p_ab_confidence = 95/100, p_ab_inconclusive = AB_PROMOTE,
     p_approval_ttl_s = 1000, p_approval_canary = True\<rparr>"

definition demo_arm :: "rat list \<Rightarrow> arm_stats" where
  "demo_arm xs = \<lparr>ar_samples = [(''error_rate'', xs)], ar_count = 10\<rparr>"

lemma ab_test_fair_witness:
  "ab_test (\<lambda>_ _. Some 0) demo_policy (demo_arm [2, 2]) (demo_arm [1, 1]) = Better
   \<and> ab_test (\<lambda>_ _. Some 0) demo_policy (demo_arm [1, 1]) (demo_arm [2, 2]) = Worse"
  using ab_test_fair[of "\<lambda>_ _. Some 0" demo_policy "demo_arm [2, 2]" "demo_arm [1, 1]"]
  by (simp add: ab_test_def demo_policy_def demo_arm_def samples_of_def get_or_def fmean_def)

lemma demo_policy_valid: "valid_policy demo_policy"
  by (simp add: demo_policy_def valid_policy_def valid_rule_def valid_steps_def)

end
