(* ===== verification/Effects.thy ===== *)
theory Effects
  imports Errors
begin

text \<open>
  Code that works on the outside world: the model registry, the serving system, the clock. A
  call gets the world and gives a result and the world it leaves; what it changed before it
  raised stays. A loop may not return: then the whole run is \<open>None\<close>.
\<close>

type_synonym ('w, 'a) act = "'w \<Rightarrow> (exn + 'a) \<times> 'w"
type_synonym ('w, 'a) run = "'w \<Rightarrow> ((exn + 'a) \<times> 'w) option"

named_theorems eff_simps "runs taken apart"

definition retA :: "'a \<Rightarrow> ('w, 'a) act" where "retA x w = (Inr x, w)"
definition raiseA :: "exn \<Rightarrow> ('w, 'a) act" where "raiseA e w = (Inl e, w)"

definition thenA :: "('w, 'a) act \<Rightarrow> ('a \<Rightarrow> ('w, 'b) act) \<Rightarrow> ('w, 'b) act" where
  "thenA m f w = (case m w of (Inl e, w') \<Rightarrow> (Inl e, w') | (Inr x, w') \<Rightarrow> f x w')"

text \<open>\<^verbatim>\<open>try: m except C: h\<close> for the exceptions \<open>c\<close> selects.\<close>

definition catchA :: "('w, 'a) act \<Rightarrow> (exn \<Rightarrow> bool) \<Rightarrow> (exn \<Rightarrow> ('w, 'a) act) \<Rightarrow> ('w, 'a) act" where
  "catchA m c h w = (case m w of (Inl e, w') \<Rightarrow> if c e then h e w' else (Inl e, w') | r \<Rightarrow> r)"

definition readA :: "('w \<Rightarrow> 'a) \<Rightarrow> ('w, 'a) act" where "readA f w = (Inr (f w), w)"
definition writeA :: "('w \<Rightarrow> 'w) \<Rightarrow> ('w, unit) act" where "writeA f w = (Inr (), f w)"

definition callA :: "('w, 'a) act \<Rightarrow> ('w, 'a) run" where "callA m w = Some (m w)"

definition retR :: "'a \<Rightarrow> ('w, 'a) run" where "retR x w = Some (Inr x, w)"
definition raiseR :: "exn \<Rightarrow> ('w, 'a) run" where "raiseR e w = Some (Inl e, w)"

definition thenR :: "('w, 'a) run \<Rightarrow> ('a \<Rightarrow> ('w, 'b) run) \<Rightarrow> ('w, 'b) run" where
  "thenR m f w = (case m w of None \<Rightarrow> None | Some (Inl e, w') \<Rightarrow> Some (Inl e, w')
     | Some (Inr x, w') \<Rightarrow> f x w')"

definition catchR :: "('w, 'a) run \<Rightarrow> (exn \<Rightarrow> bool) \<Rightarrow> (exn \<Rightarrow> ('w, 'a) run) \<Rightarrow> ('w, 'a) run" where
  "catchR m c h w = (case m w of Some (Inl e, w') \<Rightarrow> if c e then h e w' else Some (Inl e, w')
     | r \<Rightarrow> r)"

text \<open>\<^verbatim>\<open>try: m finally: f\<close>: an exception of the final block replaces the result.\<close>

definition finallyR :: "('w, 'a) run \<Rightarrow> ('w, unit) run \<Rightarrow> ('w, 'a) run" where
  "finallyR m f w = (case m w of None \<Rightarrow> None
     | Some (r, w1) \<Rightarrow> (case f w1 of None \<Rightarrow> None
         | Some (Inl e, w2) \<Rightarrow> Some (Inl e, w2) | Some (Inr _, w2) \<Rightarrow> Some (r, w2)))"

definition kind :: "err_class \<Rightarrow> exn \<Rightarrow> bool" where
  "kind c e \<longleftrightarrow> is_a (e_class e) c"

lemma retA_eq [eff_simps]: "retA x w = (r, w') \<longleftrightarrow> r = Inr x \<and> w' = w"
  by (auto simp: retA_def)

lemma raiseA_eq [eff_simps]: "raiseA e w = (r, w') \<longleftrightarrow> r = Inl e \<and> w' = w"
  by (auto simp: raiseA_def)

lemma readA_eq [eff_simps]: "readA f w = (r, w') \<longleftrightarrow> r = Inr (f w) \<and> w' = w"
  by (auto simp: readA_def)

lemma writeA_eq [eff_simps]: "writeA f w = (r, w') \<longleftrightarrow> r = Inr () \<and> w' = f w"
  by (auto simp: writeA_def)

lemma thenA_Inr [eff_simps]:
  "thenA m f w = (Inr y, w') \<longleftrightarrow> (\<exists>x w1. m w = (Inr x, w1) \<and> f x w1 = (Inr y, w'))"
  by (auto simp: thenA_def split: prod.splits sum.splits)

lemma thenA_Inl [eff_simps]:
  "thenA m f w = (Inl e, w') \<longleftrightarrow> m w = (Inl e, w') \<or> (\<exists>x w1. m w = (Inr x, w1) \<and> f x w1 = (Inl e, w'))"
  by (auto simp: thenA_def split: prod.splits sum.splits)

lemma callA_eq [eff_simps]: "callA m w = Some p \<longleftrightarrow> m w = p"
  by (simp add: callA_def)

lemma callA_total [simp]: "callA m w \<noteq> None"
  by (simp add: callA_def)

lemma retR_eq [eff_simps]: "retR x w = Some (r, w') \<longleftrightarrow> r = Inr x \<and> w' = w"
  by (auto simp: retR_def)

lemma raiseR_eq [eff_simps]: "raiseR e w = Some (r, w') \<longleftrightarrow> r = Inl e \<and> w' = w"
  by (auto simp: raiseR_def)

lemma thenR_Inr [eff_simps]:
  "thenR m f w = Some (Inr y, w') \<longleftrightarrow> (\<exists>x w1. m w = Some (Inr x, w1) \<and> f x w1 = Some (Inr y, w'))"
  by (auto simp: thenR_def split: option.splits prod.splits sum.splits)

lemma thenR_Inl [eff_simps]:
  "thenR m f w = Some (Inl e, w') \<longleftrightarrow>
     m w = Some (Inl e, w') \<or> (\<exists>x w1. m w = Some (Inr x, w1) \<and> f x w1 = Some (Inl e, w'))"
  by (auto simp: thenR_def split: option.splits prod.splits sum.splits)

section \<open>What an operation leaves alone\<close>

named_theorems keeps_intros "operations built from ones that leave a part of the world alone"

definition keepsA :: "('w \<Rightarrow> 'k) \<Rightarrow> ('w, 'a) act \<Rightarrow> bool" where
  "keepsA f m \<longleftrightarrow> (\<forall>w. f (snd (m w)) = f w)"

lemma keepsAI: "(\<And>r w w'. m w = (r, w') \<Longrightarrow> f w' = f w) \<Longrightarrow> keepsA f m"
  by (metis keepsA_def prod.exhaust_sel)

lemma keepsAD: "keepsA f m \<Longrightarrow> m w = (r, w') \<Longrightarrow> f w' = f w"
  by (metis keepsA_def snd_conv)

lemma keepsA_ret [keeps_intros]: "keepsA f (retA x)" by (simp add: keepsA_def retA_def)
lemma keepsA_raise [keeps_intros]: "keepsA f (raiseA e)" by (simp add: keepsA_def raiseA_def)

lemma keepsA_then [keeps_intros]: "keepsA f m \<Longrightarrow> (\<And>x. keepsA f (g x)) \<Longrightarrow> keepsA f (thenA m g)"
  by (auto simp: keepsA_def thenA_def split: prod.split sum.split) (metis snd_conv)+

lemma keepsA_catch [keeps_intros]: "keepsA f m \<Longrightarrow> (\<And>e. keepsA f (h e)) \<Longrightarrow> keepsA f (catchA m c h)"
  by (auto simp: keepsA_def catchA_def split: prod.split sum.split) (metis snd_conv)+

lemma keepsA_if [keeps_intros]: "(b \<Longrightarrow> keepsA f m) \<Longrightarrow> (\<not> b \<Longrightarrow> keepsA f n) \<Longrightarrow> keepsA f (if b then m else n)"
  by simp

lemma keepsA_option [keeps_intros]:
  "keepsA f m \<Longrightarrow> (\<And>x. keepsA f (g x)) \<Longrightarrow> keepsA f (case z of None \<Rightarrow> m | Some x \<Rightarrow> g x)"
  by (cases z) auto

section \<open>Weakest preconditions\<close>

text \<open>
  \<open>wlp m Q w\<close>: if \<open>m\<close> run in \<open>w\<close> returns, its result and world satisfy \<open>Q\<close>. The equations
  take a run apart along the code; \<open>wlp_mono\<close> closes a leaf whose postcondition is known.
\<close>

named_theorems wlp_simps "weakest preconditions of the combinators"

definition wlp :: "('w, 'a) run \<Rightarrow> (exn + 'a \<Rightarrow> 'w \<Rightarrow> bool) \<Rightarrow> 'w \<Rightarrow> bool" where
  "wlp m Q w \<longleftrightarrow> (case m w of None \<Rightarrow> True | Some (r, w') \<Rightarrow> Q r w')"

lemma wlpI: "(\<And>r w'. m w = Some (r, w') \<Longrightarrow> Q r w') \<Longrightarrow> wlp m Q w"
  by (auto simp: wlp_def split: option.split)

lemma wlpD: "wlp m Q w \<Longrightarrow> m w = Some (r, w') \<Longrightarrow> Q r w'"
  by (simp add: wlp_def)

lemma wlp_mono: "wlp m P w \<Longrightarrow> (\<And>r w'. P r w' \<Longrightarrow> Q r w') \<Longrightarrow> wlp m Q w"
  by (auto simp: wlp_def split: option.splits)

lemma wlp_conj: "wlp m P w \<Longrightarrow> wlp m Q w \<Longrightarrow> wlp m (\<lambda>r w'. P r w' \<and> Q r w') w"
  by (auto simp: wlp_def split: option.splits)

lemma wlp_True [simp]: "wlp m (\<lambda>_ _. True) w"
  by (simp add: wlp_def split: option.split)

lemma wlp_thenR [wlp_simps]:
  "wlp (thenR m f) Q w \<longleftrightarrow> wlp m (\<lambda>r w'. case r of Inl e \<Rightarrow> Q (Inl e) w' | Inr x \<Rightarrow> wlp (f x) Q w') w"
  by (auto simp: wlp_def thenR_def split: option.splits sum.splits)

lemma wlp_then:
  "wlp m P w \<Longrightarrow> (\<And>e w'. P (Inl e) w' \<Longrightarrow> Q (Inl e) w') \<Longrightarrow> (\<And>x w'. P (Inr x) w' \<Longrightarrow> wlp (f x) Q w')
    \<Longrightarrow> wlp (thenR m f) Q w"
  unfolding wlp_thenR by (erule wlp_mono) (auto split: sum.split)

lemma wlp_catchR [wlp_simps]:
  "wlp (catchR m c h) Q w \<longleftrightarrow>
     wlp m (\<lambda>r w'. case r of Inl e \<Rightarrow> if c e then wlp (h e) Q w' else Q (Inl e) w' | Inr x \<Rightarrow> Q (Inr x) w') w"
  by (auto simp: wlp_def catchR_def split: option.splits sum.splits)

lemma wlp_finallyR [wlp_simps]:
  "wlp (finallyR m f) Q w \<longleftrightarrow>
     wlp m (\<lambda>r. wlp f (\<lambda>q w'. case q of Inl e \<Rightarrow> Q (Inl e) w' | Inr _ \<Rightarrow> Q r w')) w"
  by (auto simp: wlp_def finallyR_def split: option.splits sum.splits)

lemma wlp_retR [wlp_simps]: "wlp (retR x) Q w = Q (Inr x) w"
  by (simp add: wlp_def retR_def)

lemma wlp_raiseR [wlp_simps]: "wlp (raiseR e) Q w = Q (Inl e) w"
  by (simp add: wlp_def raiseR_def)

lemma wlp_callA [wlp_simps]: "wlp (callA m) Q w = Q (fst (m w)) (snd (m w))"
  by (cases "m w") (simp add: wlp_def callA_def)

lemma wlp_if [wlp_simps]: "wlp (if b then m else n) Q w = (if b then wlp m Q w else wlp n Q w)"
  by simp

text \<open>Runs that keep an invariant, on every branch.\<close>

definition keepsR :: "('w \<Rightarrow> bool) \<Rightarrow> ('w, 'a) run \<Rightarrow> bool" where
  "keepsR I m \<longleftrightarrow> (\<forall>w. I w \<longrightarrow> wlp m (\<lambda>_. I) w)"

lemma keepsRI: "(\<And>w. I w \<Longrightarrow> wlp m (\<lambda>_. I) w) \<Longrightarrow> keepsR I m"
  by (simp add: keepsR_def)

lemma keepsRD: "keepsR I m \<Longrightarrow> I w \<Longrightarrow> wlp m (\<lambda>_. I) w"
  by (simp add: keepsR_def)

lemma keepsR_run: "keepsR I m \<Longrightarrow> I w \<Longrightarrow> m w = Some (r, w') \<Longrightarrow> I w'"
  by (auto simp: keepsR_def wlp_def)

lemma keepsR_then [keeps_intros]: "keepsR I m \<Longrightarrow> (\<And>x. keepsR I (f x)) \<Longrightarrow> keepsR I (thenR m f)"
  by (rule keepsRI) (auto simp: wlp_simps keepsR_def elim!: wlp_mono split: sum.split)

lemma keepsR_catch [keeps_intros]: "keepsR I m \<Longrightarrow> (\<And>e. keepsR I (h e)) \<Longrightarrow> keepsR I (catchR m c h)"
  by (rule keepsRI) (auto simp: wlp_simps keepsR_def elim!: wlp_mono split: sum.split)

lemma keepsR_finally [keeps_intros]: "keepsR I m \<Longrightarrow> keepsR I f \<Longrightarrow> keepsR I (finallyR m f)"
proof (rule keepsRI)
  fix w assume m: "keepsR I m" and f: "keepsR I f" and "I w"
  then have "wlp m (\<lambda>_. I) w" by (simp add: keepsRD)
  then have "wlp m (\<lambda>r. wlp f (\<lambda>_. I)) w" by (rule wlp_mono) (use f in \<open>simp add: keepsRD\<close>)
  then show "wlp (finallyR m f) (\<lambda>_. I) w" by (simp add: wlp_simps)
qed

lemma keepsR_leaf [keeps_intros]: "keepsR I (retR x)" "keepsR I (raiseR e)"
  by (auto simp: keepsR_def wlp_simps)

lemma keepsR_if [keeps_intros]: "(b \<Longrightarrow> keepsR I m) \<Longrightarrow> (\<not> b \<Longrightarrow> keepsR I n) \<Longrightarrow> keepsR I (if b then m else n)"
  by simp

lemma keepsR_option [keeps_intros]:
  "keepsR I m \<Longrightarrow> (\<And>x. keepsR I (g x)) \<Longrightarrow> keepsR I (case z of None \<Rightarrow> m | Some x \<Rightarrow> g x)"
  by (cases z) auto

lemma keepsR_pair [keeps_intros]:
  "(\<And>x y. keepsR I (g x y)) \<Longrightarrow> keepsR I (case z of (x, y) \<Rightarrow> g x y)"
  by (cases z) auto

lemma keepsR_let [keeps_intros]: "keepsR I (f x) \<Longrightarrow> keepsR I (Let x f)"
  by simp

lemma thenR_returns: "m w \<noteq> None \<Longrightarrow> (\<And>x w1. f x w1 \<noteq> None) \<Longrightarrow> thenR m f w \<noteq> None"
  by (auto simp: thenR_def split: option.splits sum.splits)

lemma catchR_returns: "m w \<noteq> None \<Longrightarrow> (\<And>e w1. h e w1 \<noteq> None) \<Longrightarrow> catchR m c h w \<noteq> None"
  by (auto simp: catchR_def split: option.splits sum.splits)

lemma finallyR_returns: "m w \<noteq> None \<Longrightarrow> (\<And>w1. f w1 \<noteq> None) \<Longrightarrow> finallyR m f w \<noteq> None"
proof -
  assume m: "m w \<noteq> None" and f: "\<And>w1. f w1 \<noteq> None"
  obtain r w1 where r: "m w = Some (r, w1)" using m by auto
  obtain q w2 where q: "f w1 = Some (q, w2)" using f[of w1] by auto
  show ?thesis by (cases q) (simp_all add: finallyR_def r q)
qed

lemma retR_returns [simp]: "retR x w \<noteq> None" by (simp add: retR_def)
lemma raiseR_returns [simp]: "raiseR e w \<noteq> None" by (simp add: raiseR_def)

end
