(* ===== verification/Fs_Registry.thy ===== *)
theory Fs_Registry
  imports Effects
begin

text \<open>
  The model registry port (\<^verbatim>\<open>ports/registry.py\<close>) as a record of operations, and its
  filesystem adapter (\<^verbatim>\<open>adapters/registry/filesystem.py\<close>): model and version metadata
  files, aliases, tags and artifacts. Every file access and the lock file may fail with
  RegistryUnavailableError: \<open>w_faults\<close> says which of the coming accesses do (past its end all
  succeed). A file is replaced atomically, so a failed write leaves the old contents. An
  artifact is its size and its SHA-256; lineage and timestamps are not kept.

  \<open>w_asked\<close> is no state of the program: it notes every request to set or delete an alias, in order
  and with its outcome, for the properties to speak of. No operation reads it.
\<close>

record artifact =
  ar_size :: nat
  ar_sha :: string

record model_version =
  mv_version :: string
  mv_tags :: "(string \<times> string) list"
  mv_source :: "string option"

record artifact_policy =
  ap_max_bytes :: nat
  ap_checksum_tag :: string
  ap_status_tag :: string

text \<open>The operations of the port that the modelled callers use.\<close>

record 'w registry =
  rg_policy :: artifact_policy
  rg_get_alias :: "string \<Rightarrow> string \<Rightarrow> ('w, string) act"
  rg_set_alias :: "string \<Rightarrow> string \<Rightarrow> string \<Rightarrow> ('w, unit) act"
  rg_delete_alias :: "string \<Rightarrow> string \<Rightarrow> ('w, unit) act"
  rg_get_version :: "string \<Rightarrow> string \<Rightarrow> ('w, model_version) act"
  rg_set_tags :: "string \<Rightarrow> string \<Rightarrow> (string \<times> string) list \<Rightarrow> ('w, unit) act"
  rg_download :: "string \<Rightarrow> string \<Rightarrow> ('w, artifact) act"

section \<open>The filesystem adapter\<close>

datatype artifact_status = READY | PENDING_UPLOAD | FAILED_UPLOAD

record fs_version =
  fv_tags :: "(string \<times> string) list"
  fv_status :: artifact_status
  fv_key :: string
  fv_uri :: "string option"

record fs_model =
  fm_aliases :: "(string \<times> string) list"
  fm_next :: nat

text \<open>The model, the alias, the version it was to name and whether the request was carried out.\<close>

type_synonym alias_request = "string \<times> string \<times> string option \<times> bool"

record world =
  w_models :: "string \<Rightarrow> fs_model option"
  w_versions :: "string \<Rightarrow> string \<Rightarrow> fs_version option"
  w_store :: "string \<Rightarrow> artifact option"
  w_faults :: "bool list"
  w_clock :: rat
  w_asked :: "alias_request list"

text \<open>One file access or lock acquisition.\<close>

definition fs_io :: "('a world_scheme, unit) act" where
  "fs_io w = (case w_faults w of
     True # fs \<Rightarrow> (Inl (err RegistryUnavailableError []), w\<lparr>w_faults := fs\<rparr>)
   | _ # fs \<Rightarrow> (Inr (), w\<lparr>w_faults := fs\<rparr>)
   | [] \<Rightarrow> (Inr (), w))"

definition not_found :: "string \<Rightarrow> exn" where
  "not_found name = err ModelNotFoundError [(''model'', CStr name)]"

text \<open>Python dict operations on an association list.\<close>

fun dict_set :: "'k \<Rightarrow> 'v \<Rightarrow> ('k \<times> 'v) list \<Rightarrow> ('k \<times> 'v) list" where
  "dict_set k v [] = [(k, v)]"
| "dict_set k v ((k', v') # d) = (if k' = k then (k, v) # d else (k', v') # dict_set k v d)"

definition dict_del :: "'k \<Rightarrow> ('k \<times> 'v) list \<Rightarrow> ('k \<times> 'v) list" where
  "dict_del k d = filter (\<lambda>kv. fst kv \<noteq> k) d"

definition dict_update :: "('k \<times> 'v) list \<Rightarrow> ('k \<times> 'v) list \<Rightarrow> ('k \<times> 'v) list" where
  "dict_update d new = fold (\<lambda>(k, v). dict_set k v) new d"

definition name_char :: "char \<Rightarrow> bool" where
  "name_char c \<longleftrightarrow> (let n = (of_char c :: nat) in
     (48 \<le> n \<and> n \<le> 57) \<or> (65 \<le> n \<and> n \<le> 90) \<or> (97 \<le> n \<and> n \<le> 122))"

definition name_rest :: "char \<Rightarrow> bool" where
  "name_rest c \<longleftrightarrow> name_char c \<or> c = CHR ''_'' \<or> c = CHR ''.'' \<or> c = CHR ''-''"

text \<open>
  \<^verbatim>\<open>check_model_name\<close>. The pattern ends in \<open>$\<close>, which in Python also matches before a
  newline that ends the string.
\<close>

definition plain_name :: "string \<Rightarrow> bool" where
  "plain_name n \<longleftrightarrow> n \<noteq> [] \<and> name_char (hd n) \<and> list_all name_rest (tl n) \<and> length n \<le> 128"

definition valid_model_name :: "string \<Rightarrow> bool" where
  "valid_model_name n \<longleftrightarrow> plain_name n \<or> (n \<noteq> [] \<and> last n = CHR 0x0A \<and> plain_name (butlast n))"

definition is_digits :: "string \<Rightarrow> bool" where
  "is_digits s \<longleftrightarrow> s \<noteq> [] \<and> list_all (\<lambda>c. 48 \<le> (of_char c :: nat) \<and> (of_char c :: nat) \<le> 57) s"

definition checked :: "string \<Rightarrow> ('w, unit) act" where
  "checked name = (if valid_model_name name then retA ()
     else raiseA (err InvalidReferenceError [(''name'', CStr name)]))"

definition fs_model_of :: "string \<Rightarrow> ('a world_scheme, fs_model) act" where
  "fs_model_of name = thenA (checked name) (\<lambda>_. thenA fs_io (\<lambda>_ w.
     case w_models w name of None \<Rightarrow> (Inl (not_found name), w) | Some m \<Rightarrow> (Inr m, w)))"

definition save_model :: "string \<Rightarrow> fs_model \<Rightarrow> ('a world_scheme, unit) act" where
  "save_model name m = thenA fs_io (\<lambda>_. writeA (\<lambda>w. w\<lparr>w_models := (w_models w)(name \<mapsto> m)\<rparr>))"

definition raw_version :: "string \<Rightarrow> string \<Rightarrow> ('a world_scheme, fs_version) act" where
  "raw_version name v = thenA (fs_model_of name) (\<lambda>_.
     if \<not> is_digits v then raiseA (not_found name)
     else thenA fs_io (\<lambda>_ w. case w_versions w name v of
       None \<Rightarrow> (Inl (not_found name), w) | Some fv \<Rightarrow> (Inr fv, w)))"

definition write_version :: "string \<Rightarrow> string \<Rightarrow> fs_version \<Rightarrow> ('a world_scheme, unit) act" where
  "write_version name v fv = thenA fs_io (\<lambda>_. writeA (\<lambda>w.
     w\<lparr>w_versions := (w_versions w)(name := (w_versions w name)(v \<mapsto> fv))\<rparr>))"

definition version_of :: "string \<Rightarrow> fs_version \<Rightarrow> model_version" where
  "version_of v fv = \<lparr>mv_version = v, mv_tags = fv_tags fv, mv_source = fv_uri fv\<rparr>"

definition fs_get_version :: "string \<Rightarrow> string \<Rightarrow> ('a world_scheme, model_version) act" where
  "fs_get_version name v = thenA (raw_version name v) (\<lambda>fv. retA (version_of v fv))"

definition fs_get_alias :: "string \<Rightarrow> string \<Rightarrow> ('a world_scheme, string) act" where
  "fs_get_alias name alias = thenA (fs_model_of name) (\<lambda>m.
     case map_of (fm_aliases m) alias of None \<Rightarrow> raiseA (not_found name) | Some v \<Rightarrow> retA v)"

text \<open>
  The lock file of the model is one more access. Removing it at the end is not modelled to fail:
  the OSError of \<^verbatim>\<open>os.remove\<close>, which the code does not turn into a RegistryUnavailableError, would
  leave an operation that has done its work and yet raises.
\<close>

definition noted :: "string \<Rightarrow> string \<Rightarrow> string option \<Rightarrow> ('a world_scheme, 'b) act \<Rightarrow> ('a world_scheme, 'b) act" where
  "noted name alias v m w = (case m w of (r, w') \<Rightarrow> (r, w'\<lparr>w_asked := w_asked w' @ [(name, alias, v, \<not> isl r)]\<rparr>))"

lemma noted_eq [eff_simps]:
  "noted name alias v m w = (r, w') \<longleftrightarrow> (\<exists>w1. m w = (r, w1) \<and> w' = w1\<lparr>w_asked := w_asked w1 @ [(name, alias, v, \<not> isl r)]\<rparr>)"
  by (auto simp: noted_def split: prod.split)

definition fs_set_alias :: "string \<Rightarrow> string \<Rightarrow> string \<Rightarrow> ('a world_scheme, unit) act" where
  "fs_set_alias name alias v = noted name alias (Some v) (thenA (raw_version name v) (\<lambda>_. thenA fs_io (\<lambda>_.
     thenA (fs_model_of name) (\<lambda>m.
     save_model name (m\<lparr>fm_aliases := dict_set alias v (fm_aliases m)\<rparr>)))))"

definition fs_delete_alias :: "string \<Rightarrow> string \<Rightarrow> ('a world_scheme, unit) act" where
  "fs_delete_alias name alias = noted name alias None (thenA (fs_model_of name) (\<lambda>m0.
     if map_of (fm_aliases m0) alias = None then retA ()
     else thenA fs_io (\<lambda>_. thenA (fs_model_of name) (\<lambda>m.
       if map_of (fm_aliases m) alias = None then retA ()
       else save_model name (m\<lparr>fm_aliases := dict_del alias (fm_aliases m)\<rparr>)))))"

definition fs_set_tags :: "string \<Rightarrow> string \<Rightarrow> (string \<times> string) list \<Rightarrow> ('a world_scheme, unit) act" where
  "fs_set_tags name v tags = thenA (raw_version name v) (\<lambda>_. thenA fs_io (\<lambda>_.
     thenA (raw_version name v) (\<lambda>fv.
     write_version name v (fv\<lparr>fv_tags := dict_update (fv_tags fv) tags\<rparr>))))"

definition fs_download :: "string \<Rightarrow> string \<Rightarrow> ('a world_scheme, artifact) act" where
  "fs_download name v = thenA (raw_version name v) (\<lambda>fv.
     if fv_status fv \<noteq> READY then raiseA (err ArtifactError [(''model'', CStr name), (''version'', CStr v)])
     else (\<lambda>w. case w_store w (fv_key fv) of
       None \<Rightarrow> (Inl (err ArtifactError []), w) | Some a \<Rightarrow> (Inr a, w)))"

text \<open>
  Registering a version: reserved as pending under the lock, uploaded outside it, then marked.
  \<open>put\<close>, a parameter, is the artifact store's upload; \<open>show_nat\<close> of a version number is \<open>digits\<close>.
\<close>

fun digits_rev :: "nat \<Rightarrow> string" where
  "digits_rev n = (if n < 10 then [char_of (48 + n)] else char_of (48 + n mod 10) # digits_rev (n div 10))"

declare digits_rev.simps [simp del]

definition show_nat :: "nat \<Rightarrow> string" where "show_nat n = rev (digits_rev n)"

definition fs_finish :: "string \<Rightarrow> string \<Rightarrow> artifact_status \<Rightarrow> string option \<Rightarrow> ('a world_scheme, unit) act" where
  "fs_finish name v status uri = thenA fs_io (\<lambda>_. thenA (raw_version name v) (\<lambda>fv.
     write_version name v (fv\<lparr>fv_status := status, fv_uri := uri\<rparr>)))"

definition fs_reserve ::
  "string \<Rightarrow> string \<Rightarrow> (string \<times> string) list \<Rightarrow> ('a world_scheme, string) act" where
  "fs_reserve name key tags = thenA (checked name) (\<lambda>_. thenA fs_io (\<lambda>_.
     thenA (catchA (fs_model_of name) (kind ModelNotFoundError) (\<lambda>_. retA \<lparr>fm_aliases = [], fm_next = 1\<rparr>))
       (\<lambda>m. let v = show_nat (fm_next m) in
          thenA (save_model name (m\<lparr>fm_next := fm_next m + 1\<rparr>)) (\<lambda>_.
          thenA (write_version name v \<lparr>fv_tags = tags, fv_status = PENDING_UPLOAD, fv_key = key, fv_uri = None\<rparr>)
            (\<lambda>_. retA v)))))"

definition fs_create_version ::
  "(string \<Rightarrow> ('a world_scheme, string) act) \<Rightarrow> string \<Rightarrow> string \<Rightarrow> (string \<times> string) list
    \<Rightarrow> ('a world_scheme, string) act" where
  "fs_create_version put name key tags = thenA (fs_reserve name key tags) (\<lambda>v.
     thenA (catchA (put key) (\<lambda>_. True)
       (\<lambda>e. thenA (fs_finish name v FAILED_UPLOAD None) (\<lambda>_. raiseA e))) (\<lambda>uri.
     thenA (fs_finish name v READY (Some uri)) (\<lambda>_. retA v)))"

definition fs_registry :: "artifact_policy \<Rightarrow> 'a world_scheme registry" where
  "fs_registry p = \<lparr>rg_policy = p, rg_get_alias = fs_get_alias, rg_set_alias = fs_set_alias,
     rg_delete_alias = fs_delete_alias, rg_get_version = fs_get_version, rg_set_tags = fs_set_tags,
     rg_download = fs_download\<rparr>"

end
