(* ===== verification/Registry_Laws.thy ===== *)
theory Registry_Laws
  imports Fs_Registry
begin

text \<open>
  What the callers of a model registry rely on: which version an alias names (\<open>live\<close>) changes
  only by a successful set or delete, reads report it, and \<open>asked\<close> lists the requests made. The
  laws hold for the filesystem adapter whatever its file accesses do.
\<close>

definition set_live ::
  "(string \<Rightarrow> string \<Rightarrow> string option) \<Rightarrow> string \<Rightarrow> string \<Rightarrow> string option
    \<Rightarrow> string \<Rightarrow> string \<Rightarrow> string option" where
  "set_live l n a x = l(n := (l n)(a := x))"

locale alias_registry =
  fixes R :: "'w registry" and live :: "'w \<Rightarrow> string \<Rightarrow> string \<Rightarrow> string option"
    and asked :: "'w \<Rightarrow> alias_request list"
  assumes get_keeps: "rg_get_alias R n a w = (r, w') \<Longrightarrow> live w' = live w"
    and get_reports: "rg_get_alias R n a w = (Inr v, w') \<Longrightarrow> live w n a = Some v"
    and get_missing: "rg_get_alias R n a w = (Inl e, w') \<Longrightarrow> kind ModelNotFoundError e \<Longrightarrow> live w n a = None"
    and set_sets: "rg_set_alias R n a v w = (Inr u, w') \<Longrightarrow> live w' = set_live (live w) n a (Some v)"
    and set_fails: "rg_set_alias R n a v w = (Inl e, w') \<Longrightarrow> live w' = live w"
    and delete_deletes: "rg_delete_alias R n a w = (Inr u, w') \<Longrightarrow> live w' = set_live (live w) n a None"
    and delete_fails: "rg_delete_alias R n a w = (Inl e, w') \<Longrightarrow> live w' = live w"
    and version_keeps: "rg_get_version R n v w = (r1, w') \<Longrightarrow> live w' = live w"
    and tags_keep: "rg_set_tags R n v ts w = (r2, w') \<Longrightarrow> live w' = live w"
    and download_keeps: "rg_download R n v w = (r3, w') \<Longrightarrow> live w' = live w"
    and reads_ask: "keepsA asked (rg_get_alias R n a)" "keepsA asked (rg_get_version R n v)"
      "keepsA asked (rg_set_tags R n v ts)" "keepsA asked (rg_download R n v)"
    and set_asks: "rg_set_alias R n a v w = (r2, w') \<Longrightarrow> asked w' = asked w @ [(n, a, Some v, \<not> isl r2)]"
    and delete_asks: "rg_delete_alias R n a w = (r2, w') \<Longrightarrow> asked w' = asked w @ [(n, a, None, \<not> isl r2)]"

section \<open>The filesystem adapter keeps the laws\<close>

definition fs_live :: "'a world_scheme \<Rightarrow> string \<Rightarrow> string \<Rightarrow> string option" where
  "fs_live w n a = (case w_models w n of None \<Rightarrow> None | Some m \<Rightarrow> map_of (fm_aliases m) a)"

lemma map_of_dict_set [simp]: "map_of (dict_set k v d) = (map_of d)(k \<mapsto> v)"
  by (induction d) (auto simp: fun_eq_iff)

lemma map_of_dict_del [simp]: "map_of (dict_del k d) = (map_of d)(k := None)"
  by (induction d) (auto simp: dict_del_def fun_eq_iff)

lemma fs_io_models: "fs_io w = (r, w') \<Longrightarrow> w_models w' = w_models w \<and> w_versions w' = w_versions w
    \<and> w_store w' = w_store w \<and> w_clock w' = w_clock w
    \<and> (\<forall>e. r = Inl e \<longrightarrow> e_class e = RegistryUnavailableError)"
  by (auto simp: fs_io_def split: list.splits bool.splits)

lemma checked_eq: "checked n w = (r, w') \<Longrightarrow> w' = w \<and> (\<forall>e. r = Inl e \<longrightarrow> e_class e = InvalidReferenceError)"
  by (auto simp: checked_def eff_simps split: if_splits)

lemma fs_model_of_models:
  "fs_model_of n w = (r, w') \<Longrightarrow> w_models w' = w_models w \<and> w_versions w' = w_versions w
     \<and> (\<forall>m. r = Inr m \<longrightarrow> w_models w n = Some m)
     \<and> (\<forall>e. r = Inl e \<longrightarrow> kind ModelNotFoundError e \<longrightarrow> w_models w n = None)"
  by (cases r) (auto simp: fs_model_of_def eff_simps dest!: checked_eq fs_io_models
      simp: kind_def is_a_def ancestors_def split: option.splits)

lemma raw_version_models:
  "raw_version n v w = (r, w') \<Longrightarrow> w_models w' = w_models w \<and> w_versions w' = w_versions w"
  by (cases r) (auto simp: raw_version_def eff_simps dest!: fs_model_of_models fs_io_models
      split: option.splits if_splits)

lemma fs_get_version_models:
  "fs_get_version n v w = (r, w') \<Longrightarrow> w_models w' = w_models w \<and> w_versions w' = w_versions w"
  by (cases r) (auto simp: fs_get_version_def eff_simps dest!: raw_version_models)

lemma fs_get_alias_models:
  "fs_get_alias n a w = (r, w') \<Longrightarrow> w_models w' = w_models w \<and> w_versions w' = w_versions w"
  by (cases r) (auto simp: fs_get_alias_def eff_simps dest!: fs_model_of_models split: option.splits)

lemma fs_set_tags_models: "fs_set_tags n v ts w = (r, w') \<Longrightarrow> w_models w' = w_models w"
  by (cases r) (auto simp: fs_set_tags_def write_version_def eff_simps dest!: raw_version_models fs_io_models)

lemma fs_download_models: "fs_download n v w = (r, w') \<Longrightarrow> w_models w' = w_models w"
  by (cases r) (auto simp: fs_download_def eff_simps dest!: raw_version_models split: option.splits if_splits)

lemma fs_set_alias_models:
  assumes "fs_set_alias n a v w = (r, w')"
  shows "case r of Inl _ \<Rightarrow> w_models w' = w_models w
    | Inr _ \<Rightarrow> \<exists>m. w_models w n = Some m
        \<and> w_models w' = (w_models w)(n \<mapsto> m\<lparr>fm_aliases := dict_set a v (fm_aliases m)\<rparr>)"
  using assms by (cases r) (auto simp: fs_set_alias_def save_model_def eff_simps
      dest!: raw_version_models fs_model_of_models fs_io_models)

lemma fs_delete_alias_models:
  assumes "fs_delete_alias n a w = (r, w')"
  shows "case r of Inl _ \<Rightarrow> w_models w' = w_models w
    | Inr _ \<Rightarrow> (w_models w' = w_models w \<and> fs_live w n a = None) \<or> (\<exists>m. w_models w n = Some m
        \<and> w_models w' = (w_models w)(n \<mapsto> m\<lparr>fm_aliases := dict_del a (fm_aliases m)\<rparr>))"
  using assms by (cases r) (auto simp: fs_delete_alias_def save_model_def eff_simps fs_live_def
      dest!: fs_model_of_models fs_io_models split: if_splits)

lemma fs_live_cong: "w_models w' = w_models w \<Longrightarrow> fs_live w' = fs_live w"
  by (simp add: fs_live_def fun_eq_iff)

lemma fs_io_asked [keeps_intros]: "keepsA w_asked fs_io"
  by (auto simp: keepsA_def fs_io_def split: list.split bool.split)

lemma fs_model_asked [keeps_intros]: "keepsA w_asked (fs_model_of n)"
  unfolding fs_model_of_def checked_def
  by (intro keeps_intros) (auto simp: keepsA_def split: option.split)

lemma raw_version_asked [keeps_intros]: "keepsA w_asked (raw_version n v)"
  unfolding raw_version_def by (intro keeps_intros) (auto simp: keepsA_def split: option.split)

lemma fs_writes_asked [keeps_intros]: "keepsA w_asked (save_model n m)" "keepsA w_asked (write_version n v fv)"
  unfolding save_model_def write_version_def by (intro keeps_intros; simp add: keepsA_def writeA_def)+

lemma noted_asked: "keepsA w_asked m \<Longrightarrow> noted n a v m w = (r, w') \<Longrightarrow> w_asked w' = w_asked w @ [(n, a, v, \<not> isl r)]"
  by (auto simp: noted_eq dest: keepsAD)

interpretation fs_alias: alias_registry "fs_registry p" fs_live w_asked for p :: artifact_policy
proof
  fix n a v :: string and w w' :: "'a world_scheme" and e :: exn and u :: unit
    and r :: "exn + string" and r1 :: "exn + model_version" and r2 :: "exn + unit"
    and r3 :: "exn + artifact" and ts :: "(string \<times> string) list"
  show "rg_get_alias (fs_registry p) n a w = (r, w') \<Longrightarrow> fs_live w' = fs_live w"
    by (auto simp: fs_registry_def intro: fs_live_cong dest: fs_get_alias_models)
  show "rg_get_alias (fs_registry p) n a w = (Inr v, w') \<Longrightarrow> fs_live w n a = Some v"
    by (auto simp: fs_registry_def fs_get_alias_def eff_simps fs_live_def dest!: fs_model_of_models
        split: option.splits)
  show "rg_get_alias (fs_registry p) n a w = (Inl e, w') \<Longrightarrow> kind ModelNotFoundError e \<Longrightarrow> fs_live w n a = None"
    by (auto simp: fs_registry_def fs_get_alias_def eff_simps fs_live_def dest!: fs_model_of_models
        split: option.splits)
  show "rg_set_alias (fs_registry p) n a v w = (Inr u, w') \<Longrightarrow> fs_live w' = set_live (fs_live w) n a (Some v)"
    using fs_set_alias_models[of n a v w "Inr u" w']
    by (auto simp: fs_registry_def fs_live_def set_live_def fun_eq_iff)
  show "rg_set_alias (fs_registry p) n a v w = (Inl e, w') \<Longrightarrow> fs_live w' = fs_live w"
    using fs_set_alias_models[of n a v w "Inl e" w'] by (auto simp: fs_registry_def intro: fs_live_cong)
  show "rg_delete_alias (fs_registry p) n a w = (Inr u, w') \<Longrightarrow> fs_live w' = set_live (fs_live w) n a None"
    using fs_delete_alias_models[of n a w "Inr u" w']
    by (auto simp: fs_registry_def fs_live_def set_live_def fun_eq_iff)
  show "rg_delete_alias (fs_registry p) n a w = (Inl e, w') \<Longrightarrow> fs_live w' = fs_live w"
    using fs_delete_alias_models[of n a w "Inl e" w'] by (auto simp: fs_registry_def intro: fs_live_cong)
  show "rg_get_version (fs_registry p) n v w = (r1, w') \<Longrightarrow> fs_live w' = fs_live w"
    by (auto simp: fs_registry_def intro: fs_live_cong dest: fs_get_version_models)
  show "rg_set_tags (fs_registry p) n v ts w = (r2, w') \<Longrightarrow> fs_live w' = fs_live w"
    by (auto simp: fs_registry_def intro: fs_live_cong dest: fs_set_tags_models)
  show "rg_download (fs_registry p) n v w = (r3, w') \<Longrightarrow> fs_live w' = fs_live w"
    by (auto simp: fs_registry_def intro: fs_live_cong dest: fs_download_models)
  show "keepsA (w_asked :: 'a world_scheme \<Rightarrow> _) (rg_get_alias (fs_registry p) n a)" "keepsA (w_asked :: 'a world_scheme \<Rightarrow> _) (rg_get_version (fs_registry p) n v)"
    "keepsA (w_asked :: 'a world_scheme \<Rightarrow> _) (rg_set_tags (fs_registry p) n v ts)"
    by (auto simp: fs_registry_def fs_get_alias_def fs_get_version_def fs_set_tags_def intro!: keeps_intros)
  have "keepsA (w_asked :: 'a world_scheme \<Rightarrow> _) (\<lambda>w. case w_store w k of None \<Rightarrow> (Inl (err ArtifactError []), w) | Some a \<Rightarrow> (Inr a, w))" for k
    by (simp add: keepsA_def split: option.split)
  then show "keepsA (w_asked :: 'a world_scheme \<Rightarrow> _) (rg_download (fs_registry p) n v)"
    unfolding fs_registry_def fs_download_def by (simp, intro keeps_intros)
  show "rg_set_alias (fs_registry p) n a v w = (r2, w') \<Longrightarrow> w_asked w' = w_asked w @ [(n, a, Some v, \<not> isl r2)]"
    unfolding fs_registry_def fs_set_alias_def by (simp, erule noted_asked[rotated]) (intro keeps_intros)
  show "rg_delete_alias (fs_registry p) n a w = (r2, w') \<Longrightarrow> w_asked w' = w_asked w @ [(n, a, None, \<not> isl r2)]"
    unfolding fs_registry_def fs_delete_alias_def by (simp, erule noted_asked[rotated]) (intro keeps_intros)
qed

end
