(* ===== verification/Deployer.thy ===== *)
theory Deployer
  imports Registry_Laws
begin

text \<open>
  Putting a version into service and reading it back (\<^verbatim>\<open>registry/deployment.py\<close>), over the
  deployment port as a record of operations, and the registry-alias adapter of that port
  (\<^verbatim>\<open>adapters/deployment/alias.py\<close>). The polling loops end only if the clock passes the
  deadline: they are partial functions, and that they return is proved from the clock's laws.
\<close>

record target =
  t_model :: string
  t_version :: string
  t_source :: "string option"
  t_artifact :: "artifact option"

record dep_state =
  ds_version :: "string option"
  ds_ready :: bool
  ds_failed :: bool

record split =
  sp_stable :: "string option"
  sp_candidate :: "string option"
  sp_percent :: nat

record 'w deploy_port =
  dp_status :: "string \<Rightarrow> ('w, dep_state) act"
  dp_deploy :: "target \<Rightarrow> ('w, unit) act"
  dp_restore :: "string \<Rightarrow> target option \<Rightarrow> ('w, unit) act"
  dp_splits :: bool
  dp_set_traffic :: "string \<Rightarrow> target \<Rightarrow> target option \<Rightarrow> nat \<Rightarrow> ('w, unit) act"
  dp_traffic :: "string \<Rightarrow> ('w, split) act"

record 'w deployer =
  de_port :: "'w deploy_port"
  de_timeout :: rat
  de_poll :: rat
  de_clock :: "'w \<Rightarrow> rat"
  de_sleep :: "rat \<Rightarrow> 'w \<Rightarrow> 'w"

definition deploy_err :: "string \<Rightarrow> exn" where
  "deploy_err model = err DeploymentError [(''model'', CStr model)]"

section \<open>Polling\<close>

partial_function (option) poll ::
  "'w deployer \<Rightarrow> string \<Rightarrow> string option \<Rightarrow> bool \<Rightarrow> rat \<Rightarrow> ('w, dep_state) run" where
  "poll D m v fail_on_other deadline w =
     (case dp_status (de_port D) m w of
        (Inl e, w1) \<Rightarrow> Some (Inl e, w1)
      | (Inr s, w1) \<Rightarrow>
          if ds_ready s \<and> ds_version s = v then Some (Inr s, w1)
          else if ds_failed s then Some (Inl (deploy_err m), w1)
          else if fail_on_other \<and> ds_ready s \<and> ds_version s \<noteq> v then Some (Inl (deploy_err m), w1)
          else if deadline \<le> de_clock D w1 then Some (Inl (deploy_err m), w1)
          else poll D m v fail_on_other deadline (de_sleep D (de_poll D) w1))"

definition wait_for :: "'w deployer \<Rightarrow> string \<Rightarrow> string option \<Rightarrow> bool \<Rightarrow> ('w, dep_state) run" where
  "wait_for D m v fail_on_other w = poll D m v fail_on_other (de_clock D w + de_timeout D) w"

text \<open>\<^verbatim>\<open>revert\<close>: whether \<open>previous\<close> was put back and read back.\<close>

definition revert :: "'w deployer \<Rightarrow> string \<Rightarrow> target option \<Rightarrow> ('w, bool) run" where
  "revert D m previous = catchR
     (thenR (callA (dp_restore (de_port D) m previous)) (\<lambda>_.
      thenR (wait_for D m (map_option t_version previous) False) (\<lambda>_. retR True)))
     (kind AdaptationError) (\<lambda>_. retR False)"

definition rollout_failed :: "target \<Rightarrow> bool \<Rightarrow> exn" where
  "rollout_failed t restored = err DeploymentError
     [(''model'', CStr (t_model t)), (''version'', CStr (t_version t)), (''restored'', CBool restored)]"

definition deployer_rollout :: "'w deployer \<Rightarrow> target \<Rightarrow> target option \<Rightarrow> ('w, dep_state) run" where
  "deployer_rollout D t previous = catchR
     (thenR (callA (dp_deploy (de_port D) t)) (\<lambda>_. wait_for D (t_model t) (Some (t_version t)) True))
     (kind AdaptationError)
     (\<lambda>e. thenR (revert D (t_model t) previous) (\<lambda>restored. raiseR (rollout_failed t restored)))"

definition serving :: "'w deployer \<Rightarrow> string \<Rightarrow> ('w, string option) act" where
  "serving D m = thenA (dp_status (de_port D) m) (\<lambda>s. retA (ds_version s))"

section \<open>Traffic splits\<close>

definition settled :: "dep_state \<Rightarrow> split \<Rightarrow> target \<Rightarrow> string option \<Rightarrow> nat \<Rightarrow> bool" where
  "settled s sp stb want percent \<longleftrightarrow> ds_ready s \<and> sp_stable sp = Some (t_version stb)
     \<and> sp_candidate sp = want \<and> sp_percent sp = percent
     \<and> (want \<noteq> None \<or> ds_version s = Some (t_version stb))"

partial_function (option) read_back_split ::
  "'w deployer \<Rightarrow> string \<Rightarrow> target \<Rightarrow> string option \<Rightarrow> nat \<Rightarrow> rat \<Rightarrow> ('w, split) run" where
  "read_back_split D m stb want percent deadline w =
     (case dp_status (de_port D) m w of
        (Inl e, w1) \<Rightarrow> Some (Inl e, w1)
      | (Inr s, w1) \<Rightarrow>
          if ds_failed s then Some (Inl (deploy_err m), w1)
          else (case dp_traffic (de_port D) m w1 of
             (Inl e, w2) \<Rightarrow> Some (Inl e, w2)
           | (Inr sp, w2) \<Rightarrow>
               if settled s sp stb want percent then Some (Inr sp, w2)
               else if deadline \<le> de_clock D w2 then Some (Inl (deploy_err m), w2)
               else read_back_split D m stb want percent deadline (de_sleep D (de_poll D) w2)))"

definition deployer_split ::
  "'w deployer \<Rightarrow> string \<Rightarrow> target \<Rightarrow> target option \<Rightarrow> nat \<Rightarrow> ('w, split) run" where
  "deployer_split D m stb candidate percent =
     (if \<not> dp_splits (de_port D) then raiseR (deploy_err m)
      else
        let none = (candidate = None \<or> percent = 0);
            cand = (if none then None else candidate); pct = (if none then 0 else percent)
        in thenR (callA (dp_set_traffic (de_port D) m stb cand pct)) (\<lambda>_ w.
             read_back_split D m stb (map_option t_version cand) pct (de_clock D w + de_timeout D) w))"

definition traffic :: "'w deployer \<Rightarrow> string \<Rightarrow> ('w, split) act" where
  "traffic D m = (if \<not> dp_splits (de_port D) then raiseA (deploy_err m) else dp_traffic (de_port D) m)"

section \<open>The registry-alias adapter\<close>

definition alias_or_none :: "'w registry \<Rightarrow> string \<Rightarrow> string \<Rightarrow> ('w, string option) act" where
  "alias_or_none R m a = catchA (thenA (rg_get_alias R m a) (\<lambda>v. retA (Some v)))
     (kind ModelNotFoundError) (\<lambda>_. retA None)"

definition alias_status :: "'w registry \<Rightarrow> string \<Rightarrow> string \<Rightarrow> ('w, dep_state) act" where
  "alias_status R a m = thenA (alias_or_none R m a)
     (\<lambda>v. retA \<lparr>ds_version = v, ds_ready = True, ds_failed = False\<rparr>)"

definition alias_deploy :: "'w registry \<Rightarrow> string \<Rightarrow> target \<Rightarrow> ('w, unit) act" where
  "alias_deploy R a t = rg_set_alias R (t_model t) a (t_version t)"

definition alias_restore :: "'w registry \<Rightarrow> string \<Rightarrow> string \<Rightarrow> target option \<Rightarrow> ('w, unit) act" where
  "alias_restore R a m previous = (case previous of None \<Rightarrow> rg_delete_alias R m a
     | Some t \<Rightarrow> rg_set_alias R m a (t_version t))"

definition alias_set_traffic ::
  "'w registry \<Rightarrow> string \<Rightarrow> string \<Rightarrow> string \<Rightarrow> string \<Rightarrow> target \<Rightarrow> target option \<Rightarrow> nat \<Rightarrow> ('w, unit) act" where
  "alias_set_traffic R a canary tag m stb candidate percent =
     thenA (alias_or_none R m a) (\<lambda>v.
     thenA (if v \<noteq> Some (t_version stb) then rg_set_alias R m a (t_version stb) else retA ()) (\<lambda>_.
       case (if percent = 0 then None else candidate) of
         None \<Rightarrow> thenA (alias_or_none R m canary) (\<lambda>c.
                   if c \<noteq> None then rg_delete_alias R m canary else retA ())
       | Some t \<Rightarrow> thenA (rg_set_tags R m (t_version t) [(tag, show_nat percent)]) (\<lambda>_.
                   rg_set_alias R m canary (t_version t))))"

definition parse_digits :: "string \<Rightarrow> nat" where
  "parse_digits s = foldl (\<lambda>n c. 10 * n + (of_char c - 48)) 0 s"

definition alias_traffic :: "'w registry \<Rightarrow> string \<Rightarrow> string \<Rightarrow> string \<Rightarrow> string \<Rightarrow> ('w, split) act" where
  "alias_traffic R a canary tag m =
     thenA (alias_or_none R m a) (\<lambda>stb.
     thenA (alias_or_none R m canary) (\<lambda>cand.
       case cand of
         None \<Rightarrow> retA \<lparr>sp_stable = stb, sp_candidate = None, sp_percent = 0\<rparr>
       | Some c \<Rightarrow> thenA (rg_get_version R m c) (\<lambda>v.
           let t = get_or (mv_tags v) tag ''0''
           in retA \<lparr>sp_stable = stb, sp_candidate = Some c,
                sp_percent = (if is_digits t then parse_digits t else 0)\<rparr>)))"

definition alias_port :: "'w registry \<Rightarrow> string \<Rightarrow> string \<Rightarrow> string \<Rightarrow> 'w deploy_port" where
  "alias_port R a canary tag = \<lparr>dp_status = alias_status R a, dp_deploy = alias_deploy R a,
     dp_restore = alias_restore R a, dp_splits = True,
     dp_set_traffic = alias_set_traffic R a canary tag, dp_traffic = alias_traffic R a canary tag\<rparr>"

text \<open>The deployer of the default configuration on the filesystem registry.\<close>

definition world_deployer :: "artifact_policy \<Rightarrow> string \<Rightarrow> string \<Rightarrow> string \<Rightarrow> rat \<Rightarrow> rat \<Rightarrow> 'a world_scheme deployer" where
  "world_deployer p a canary tag timeout pl = \<lparr>de_port = alias_port (fs_registry p) a canary tag,
     de_timeout = timeout, de_poll = pl, de_clock = w_clock, de_sleep = (\<lambda>s w. w\<lparr>w_clock := w_clock w + s\<rparr>)\<rparr>"

text \<open>The equations of the loops, for evaluation.\<close>

declare poll.simps [code]
declare read_back_split.simps [code]

section \<open>Polling returns\<close>

text \<open>
  The clock and the serving system: sleeping passes at least the time slept, and no operation
  turns the clock back.
\<close>

locale polling =
  fixes D :: "'w deployer"
  assumes sleep_passes: "de_clock D w + s \<le> de_clock D (de_sleep D s w)"
    and status_clock: "dp_status (de_port D) m w = (r, w') \<Longrightarrow> de_clock D w \<le> de_clock D w'"
    and traffic_clock: "dp_traffic (de_port D) m w = (r1, w') \<Longrightarrow> de_clock D w \<le> de_clock D w'"
begin

lemma steps_left:
  fixes c c' d p :: rat
  assumes p: "0 < p" and c: "c + p \<le> c'" and d: "c < d"
  shows "nat \<lceil>(d - c') / p\<rceil> < nat \<lceil>(d - c) / p\<rceil>"
proof -
  have "(d - c') / p \<le> (d - c - p) / p" using p c by (intro divide_right_mono) auto
  also have "\<dots> = (d - c) / p - 1" using p by (simp add: diff_divide_distrib)
  finally have "(d - c') / p \<le> (d - c) / p - 1" .
  then have "\<lceil>(d - c') / p\<rceil> \<le> \<lceil>(d - c) / p\<rceil> - 1" by (metis ceiling_diff_one ceiling_mono)
  moreover have "0 < (d - c) / p" using p d by simp
  then have "0 < \<lceil>(d - c) / p\<rceil>" by simp
  ultimately show ?thesis by linarith
qed

lemma poll_returns:
  assumes "0 < de_poll D"
  shows "poll D m v f dl w \<noteq> None"
proof (induction "nat \<lceil>(dl - de_clock D w) / de_poll D\<rceil>" arbitrary: w rule: less_induct)
  case less
  obtain r w1 where s: "dp_status (de_port D) m w = (r, w1)" by (cases "dp_status (de_port D) m w")
  have "poll D m v f dl (de_sleep D (de_poll D) w1) \<noteq> None" if "\<not> dl \<le> de_clock D w1"
  proof (rule less)
    let ?w2 = "de_sleep D (de_poll D) w1"
    have "de_clock D w + de_poll D \<le> de_clock D ?w2"
      using sleep_passes[of w1 "de_poll D"] status_clock[OF s] by linarith
    moreover have "de_clock D w < dl" using that status_clock[OF s] by linarith
    ultimately show "nat \<lceil>(dl - de_clock D ?w2) / de_poll D\<rceil> < nat \<lceil>(dl - de_clock D w) / de_poll D\<rceil>"
      by (rule steps_left[OF assms])
  qed
  then show ?case using s by (subst poll.simps) (auto split: sum.split)
qed

lemma read_back_returns:
  assumes "0 < de_poll D"
  shows "read_back_split D m st want pct dl w \<noteq> None"
proof (induction "nat \<lceil>(dl - de_clock D w) / de_poll D\<rceil>" arbitrary: w rule: less_induct)
  case less
  obtain r w1 where s: "dp_status (de_port D) m w = (r, w1)" by (cases "dp_status (de_port D) m w")
  obtain q w2 where t: "dp_traffic (de_port D) m w1 = (q, w2)" by (cases "dp_traffic (de_port D) m w1")
  have "read_back_split D m st want pct dl (de_sleep D (de_poll D) w2) \<noteq> None" if "\<not> dl \<le> de_clock D w2"
  proof (rule less)
    let ?w3 = "de_sleep D (de_poll D) w2"
    have "de_clock D w + de_poll D \<le> de_clock D ?w3"
      using sleep_passes[of w2 "de_poll D"] status_clock[OF s] traffic_clock[OF t] by linarith
    moreover have "de_clock D w < dl" using that status_clock[OF s] traffic_clock[OF t] by linarith
    ultimately show "nat \<lceil>(dl - de_clock D ?w3) / de_poll D\<rceil> < nat \<lceil>(dl - de_clock D w) / de_poll D\<rceil>"
      by (rule steps_left[OF assms])
  qed
  then show ?case using s t by (subst read_back_split.simps) (auto split: sum.split)
qed

lemma wait_returns: "0 < de_poll D \<Longrightarrow> wait_for D m v f w \<noteq> None"
  using poll_returns by (simp add: wait_for_def)

lemma revert_returns: "0 < de_poll D \<Longrightarrow> revert D m prev w \<noteq> None"
  unfolding revert_def by (intro catchR_returns thenR_returns wait_returns) (simp_all add: retR_def)

lemma rollout_returns: "0 < de_poll D \<Longrightarrow> deployer_rollout D t prev w \<noteq> None"
  unfolding deployer_rollout_def
  by (intro catchR_returns thenR_returns wait_returns revert_returns) (simp_all add: raiseR_def)

lemma split_returns: "0 < de_poll D \<Longrightarrow> deployer_split D m st cand pct w \<noteq> None"
  unfolding deployer_split_def Let_def
  by (cases "dp_splits (de_port D)") (simp_all add: raiseR_def callA_def read_back_returns thenR_returns
      del: not_None_eq)

end

text \<open>What asking the serving system and sleeping leave alone, polling leaves alone.\<close>

lemma poll_keeps:
  assumes status: "\<And>m w r w'. dp_status (de_port D) m w = (r, w') \<Longrightarrow> g w' = g w" and sleep: "\<And>t w. g (de_sleep D t w) = g w"
    and run: "poll D m v f dl w = Some y"
  shows "g (snd y) = g w"
proof -
  have "D = D \<longrightarrow> g (snd y) = g w"
    using run
  proof (rule poll.raw_induct[where P = "\<lambda>D' m v f dl w y. D' = D \<longrightarrow> g (snd y) = g w", rotated])
    fix pl D' m v f dl w y
    assume IH: "\<And>D' m v f dl w y. pl D' m v f dl w = Some y \<Longrightarrow> D' = D \<longrightarrow> g (snd y) = g w"
      and step: "(case dp_status (de_port D') m w of
        (Inl e, w1) \<Rightarrow> Some (Inl e, w1)
      | (Inr s, w1) \<Rightarrow>
          if ds_ready s \<and> ds_version s = v then Some (Inr s, w1)
          else if ds_failed s then Some (Inl (deploy_err m), w1)
          else if f \<and> ds_ready s \<and> ds_version s \<noteq> v then Some (Inl (deploy_err m), w1)
          else if dl \<le> de_clock D' w1 then Some (Inl (deploy_err m), w1)
          else pl D' m v f dl (de_sleep D' (de_poll D') w1)) = Some y"
    show "D' = D \<longrightarrow> g (snd y) = g w"
    proof
      assume D: "D' = D"
      obtain q w1 where a: "dp_status (de_port D) m w = (q, w1)" by (cases "dp_status (de_port D) m w")
      show "g (snd y) = g w" using step IH status[OF a] sleep
        by (cases q) (auto simp: a D split: if_splits)
    qed
  qed
  then show ?thesis by simp
qed

section \<open>The alias adapter's clock\<close>

lemma fs_io_clock [keeps_intros]: "keepsA w_clock fs_io"
  by (auto simp: keepsA_def fs_io_def split: list.split bool.split)

lemma fs_model_clock [keeps_intros]: "keepsA w_clock (fs_model_of n)"
  unfolding fs_model_of_def checked_def
  by (intro keeps_intros) (auto simp: keepsA_def split: option.split)

lemma raw_version_clock [keeps_intros]: "keepsA w_clock (raw_version n v)"
  unfolding raw_version_def by (intro keeps_intros) (auto simp: keepsA_def split: option.split)

lemma fs_reads_clock [keeps_intros]:
  "keepsA w_clock (rg_get_alias (fs_registry p) n a)" "keepsA w_clock (rg_get_version (fs_registry p) n v)"
  by (auto simp: fs_registry_def fs_get_alias_def fs_get_version_def intro!: keeps_intros)

lemma alias_reads_clock:
  "keepsA w_clock (alias_status (fs_registry p) a m)" "keepsA w_clock (alias_traffic (fs_registry p) a canary tag m)"
  unfolding alias_status_def alias_traffic_def alias_or_none_def Let_def by (intro keeps_intros)+

lemma alias_or_none_cases:
  "alias_or_none R m a w = (r, w') \<Longrightarrow> \<exists>q. rg_get_alias R m a w = (q, w') \<and>
     (case q of Inr v \<Rightarrow> r = Inr (Some v)
      | Inl e \<Rightarrow> if kind ModelNotFoundError e then r = Inr None else r = Inl e)"
  by (auto simp: alias_or_none_def catchA_def thenA_def retA_def split: prod.splits sum.splits if_splits)

interpretation world_polling: polling "world_deployer p a canary tag timeout pl"
  for p :: artifact_policy and a canary tag :: string and timeout pl :: rat
  by unfold_locales (auto simp: world_deployer_def alias_port_def dest!: keepsAD[OF alias_reads_clock(1)]
      keepsAD[OF alias_reads_clock(2)])

section \<open>What a rollout that returned has established\<close>

text \<open>The last thing the serving system reported: ready at \<open>v\<close>, or the split it routes by.\<close>

definition read_back :: "'w deployer \<Rightarrow> string \<Rightarrow> string option \<Rightarrow> 'w \<Rightarrow> bool" where
  "read_back D m v w' \<longleftrightarrow> (\<exists>s w1. dp_status (de_port D) m w1 = (Inr s, w') \<and> ds_ready s \<and> ds_version s = v)"

definition split_back :: "'w deployer \<Rightarrow> string \<Rightarrow> split \<Rightarrow> 'w \<Rightarrow> bool" where
  "split_back D m sp w' \<longleftrightarrow> (\<exists>w1. dp_traffic (de_port D) m w1 = (Inr sp, w'))"

lemma read_backI: "dp_status (de_port D) m w1 = (Inr s, w') \<Longrightarrow> ds_ready s \<Longrightarrow> read_back D m (ds_version s) w'"
  by (auto simp: read_back_def)

lemma split_backI: "dp_traffic (de_port D) m w1 = (Inr sp, w') \<Longrightarrow> split_back D m sp w'"
  by (auto simp: split_back_def)

lemma poll_outcome:
  assumes "poll D m v f dl w = Some y"
  shows "\<forall>s. fst y = Inr s \<longrightarrow> ds_ready s \<and> ds_version s = v \<and> read_back D m v (snd y)"
  using assms
proof (rule poll.raw_induct[rotated])
  fix pl and D :: "'a deployer" and m v f dl w y
  assume IH: "\<And>D m v f dl w y. pl D m v f dl w = Some y \<Longrightarrow>
      \<forall>s. fst y = Inr s \<longrightarrow> ds_ready s \<and> ds_version s = v \<and> read_back D m v (snd y)"
    and step: "(case dp_status (de_port D) m w of
        (Inl e, w1) \<Rightarrow> Some (Inl e, w1)
      | (Inr s, w1) \<Rightarrow>
          if ds_ready s \<and> ds_version s = v then Some (Inr s, w1)
          else if ds_failed s then Some (Inl (deploy_err m), w1)
          else if f \<and> ds_ready s \<and> ds_version s \<noteq> v then Some (Inl (deploy_err m), w1)
          else if dl \<le> de_clock D w1 then Some (Inl (deploy_err m), w1)
          else pl D m v f dl (de_sleep D (de_poll D) w1)) = Some y"
  obtain q w1 where a: "dp_status (de_port D) m w = (q, w1)" by (cases "dp_status (de_port D) m w")
  show "\<forall>s. fst y = Inr s \<longrightarrow> ds_ready s \<and> ds_version s = v \<and> read_back D m v (snd y)"
  proof (cases q)
    case (Inr s)
    have "ds_ready s \<Longrightarrow> read_back D m (ds_version s) w1" using a Inr by (auto intro: read_backI)
    then show ?thesis using step by (auto simp: a Inr split: if_splits dest!: IH)
  qed (use step in \<open>auto simp: a\<close>)
qed

lemma read_back_outcome:
  assumes "read_back_split D m st want pct dl w = Some y"
  shows "\<forall>sp. fst y = Inr sp \<longrightarrow> sp_stable sp = Some (t_version st) \<and> sp_candidate sp = want
     \<and> sp_percent sp = pct \<and> split_back D m sp (snd y)"
  using assms
proof (rule read_back_split.raw_induct[rotated])
  fix rb and D :: "'a deployer" and m st want pct dl w y
  assume IH: "\<And>D m st want pct dl w y. rb D m st want pct dl w = Some y \<Longrightarrow>
      \<forall>sp. fst y = Inr sp \<longrightarrow> sp_stable sp = Some (t_version st) \<and> sp_candidate sp = want
     \<and> sp_percent sp = pct \<and> split_back D m sp (snd y)"
    and step: "(case dp_status (de_port D) m w of
        (Inl e, w1) \<Rightarrow> Some (Inl e, w1)
      | (Inr s, w1) \<Rightarrow>
          if ds_failed s then Some (Inl (deploy_err m), w1)
          else (case dp_traffic (de_port D) m w1 of
             (Inl e, w2) \<Rightarrow> Some (Inl e, w2)
           | (Inr sp, w2) \<Rightarrow>
               if settled s sp st want pct then Some (Inr sp, w2)
               else if dl \<le> de_clock D w2 then Some (Inl (deploy_err m), w2)
               else rb D m st want pct dl (de_sleep D (de_poll D) w2))) = Some y"
  obtain q w1 where a: "dp_status (de_port D) m w = (q, w1)" by (cases "dp_status (de_port D) m w")
  obtain q2 w2 where t: "dp_traffic (de_port D) m w1 = (q2, w2)" by (cases "dp_traffic (de_port D) m w1")
  show "\<forall>sp. fst y = Inr sp \<longrightarrow> sp_stable sp = Some (t_version st) \<and> sp_candidate sp = want
     \<and> sp_percent sp = pct \<and> split_back D m sp (snd y)"
  proof (cases q; cases q2)
    fix s sp assume q: "q = Inr s" "q2 = Inr sp"
    have "split_back D m sp w2" using t q by (auto intro: split_backI)
    then show ?thesis using step by (auto simp: a t q settled_def split: if_splits dest!: IH)
  qed (use step in \<open>auto simp: a t split: if_splits\<close>)
qed

lemma kind_root [simp]: "kind AdaptationError e"
  by (simp add: kind_def)

lemma wlp_wait_for:
  "(\<And>s w'. ds_ready s \<Longrightarrow> ds_version s = v \<Longrightarrow> read_back D m v w' \<Longrightarrow> Q (Inr s) w')
    \<Longrightarrow> (\<And>e w'. Q (Inl e) w') \<Longrightarrow> wlp (wait_for D m v f) Q w"
proof (rule wlpI)
  fix r w'
  assume Q: "\<And>s w'. ds_ready s \<Longrightarrow> ds_version s = v \<Longrightarrow> read_back D m v w' \<Longrightarrow> Q (Inr s) w'" "\<And>e w'. Q (Inl e) w'"
    and run: "wait_for D m v f w = Some (r, w')"
  show "Q r w'" using poll_outcome[OF run[unfolded wait_for_def]] Q
    by (cases r) auto
qed

lemma wlp_revert:
  assumes "\<And>b w'. (b \<longrightarrow> read_back D m (map_option t_version prev) w') \<Longrightarrow> Q (Inr b) w'"
  shows "wlp (revert D m prev) Q w"
  unfolding revert_def by (auto simp: wlp_simps intro!: wlp_wait_for assms split: sum.split)

lemma wlp_read_back_split:
  assumes "\<And>sp w'. sp_stable sp = Some (t_version st) \<Longrightarrow> sp_candidate sp = want
      \<Longrightarrow> sp_percent sp = pct \<Longrightarrow> split_back D m sp w' \<Longrightarrow> Q (Inr sp) w'"
    and "\<And>e w'. Q (Inl e) w'"
  shows "wlp (read_back_split D m st want pct dl) Q w"
proof (rule wlpI)
  fix r w'
  assume "read_back_split D m st want pct dl w = Some (r, w')"
  from read_back_outcome[OF this] show "Q r w'" using assms by (cases r) auto
qed

lemma wlp_timed_read_back:
  assumes "\<And>sp w'. sp_stable sp = Some (t_version st) \<Longrightarrow> sp_candidate sp = want
      \<Longrightarrow> sp_percent sp = pct \<Longrightarrow> split_back D m sp w' \<Longrightarrow> Q (Inr sp) w'"
    and "\<And>e w'. Q (Inl e) w'"
  shows "wlp (\<lambda>w. read_back_split D m st want pct (de_clock D w + to) w) Q w"
proof -
  have "wlp (read_back_split D m st want pct (de_clock D w + to)) Q w"
    using assms by (rule wlp_read_back_split)
  then show ?thesis by (simp add: wlp_def)
qed

lemma wlp_split:
  assumes "\<And>sp w'. sp_stable sp = Some (t_version st)
      \<Longrightarrow> sp_candidate sp = (if pct = 0 then None else map_option t_version cand)
      \<Longrightarrow> sp_percent sp = (if cand = None then 0 else pct) \<Longrightarrow> split_back D m sp w' \<Longrightarrow> Q (Inr sp) w'"
    and "\<And>e w'. Q (Inl e) w'"
  shows "wlp (deployer_split D m st cand pct) Q w"
  unfolding deployer_split_def Let_def
  by (cases "cand = None \<or> pct = 0")
    (auto simp: wlp_simps intro!: wlp_timed_read_back assms split: sum.split)

text \<open>A rollout that returned is settled: it succeeded only if the last thing the serving
  system said is that it is ready at the target version; otherwise the error is a
  DeploymentError, and it claims the previous version was restored only if the last thing the
  serving system said is that it is ready at that version.\<close>

theorem rollout_settles:
  "wlp (deployer_rollout D t prev) (\<lambda>r w'. case r of
      Inr s \<Rightarrow> read_back D (t_model t) (Some (t_version t)) w'
    | Inl e \<Rightarrow> \<exists>restored. e = rollout_failed t restored
        \<and> (restored \<longrightarrow> read_back D (t_model t) (map_option t_version prev) w')) w"
  unfolding deployer_rollout_def by (auto simp: wlp_simps intro!: wlp_wait_for wlp_revert split: sum.split)

end
