(* ===== verification/Delivery_Db.thy ===== *)
theory Delivery_Db
  imports Health Deployer Job_Store
begin

text \<open>
  The tables of promotion and progressive delivery (\<^verbatim>\<open>ModelPromotion\<close>, \<^verbatim>\<open>Rollout\<close> and
  \<^verbatim>\<open>RolloutObservation\<close> of \<^verbatim>\<open>db/models.py\<close>) and the session their code holds across many
  commits: \<open>ss_db\<close> is what the session sees, \<open>ss_saved\<close> what a rollback returns to, \<open>ss_faults\<close>
  says which of the coming flushes and commits fail, and \<open>ss_world\<close> is the outside world. Other
  sessions do not write between the statements of one operation; the model lock orders operations.
  Any database error is a DatabaseUnavailableError here: the handlers only ask whether an error
  is one of the deployment, promotion, conflict or metrics errors.
\<close>

datatype promo_status = APPLIED | NO_CHANGE

record promo_row =
  pm_model :: string
  pm_kind :: promotion_kind
  pm_from :: "string option"
  pm_to :: string
  pm_status :: promo_status
  pm_actor :: string
  pm_job :: "string option"
  pm_key :: "string option"
  pm_sha :: "string option"

datatype roll_strategy = SHADOW_STRATEGY | CANARY_STRATEGY | AB_STRATEGY | MANUAL_STRATEGY

datatype roll_state = SHADOW | CANARY | AB | AWAITING_APPROVAL | PROMOTED | ROLLED_BACK | EXPIRED | REJECTED

text \<open>A history entry: a transition, or a note on a failed attempt.\<close>

datatype hist_entry =
  Moved (h_at: time) (h_from: roll_state) (h_to: roll_state) (h_step: nat) (h_percent: nat) (h_actor: string)
| Noted (h_at: time)

record rollout_row =
  ro_id :: string
  ro_model :: string
  ro_job :: "string option"
  ro_strategy :: roll_strategy
  ro_state :: roll_state
  ro_stable :: "string option"
  ro_candidate :: string
  ro_step :: nat
  ro_percent :: nat
  ro_policy :: delivery_policy
  ro_started :: time
  ro_deadline :: "time option"
  ro_decided_by :: "string option"
  ro_history :: "hist_entry list"
  ro_finished :: "time option"

record observation =
  ob_rollout :: string
  ob_arm :: arm
  ob_requests :: nat
  ob_metrics :: "(string \<times> rat) list"
  ob_at :: time

record ddb = db +
  promos :: "promo_row list"
  rollouts :: "rollout_row list"
  observations :: "observation list"

record 'w sess =
  ss_db :: ddb
  ss_saved :: ddb
  ss_faults :: "bool list"
  ss_world :: 'w

section \<open>What code does with a session\<close>

definition db_io :: "('w sess, unit) run" where
  "db_io s = (case ss_faults s of
     True # fs \<Rightarrow> Some (Inl (err DatabaseUnavailableError []), s\<lparr>ss_faults := fs\<rparr>)
   | _ # fs \<Rightarrow> Some (Inr (), s\<lparr>ss_faults := fs\<rparr>)
   | [] \<Rightarrow> Some (Inr (), s))"

definition readD :: "(ddb \<Rightarrow> 'a) \<Rightarrow> ('w sess, 'a) run" where
  "readD f s = Some (Inr (f (ss_db s)), s)"

definition writeD :: "(ddb \<Rightarrow> ddb) \<Rightarrow> ('w sess, unit) run" where
  "writeD f s = Some (Inr (), s\<lparr>ss_db := f (ss_db s)\<rparr>)"

definition commit :: "('w sess, unit) run" where
  "commit = thenR db_io (\<lambda>_ s. Some (Inr (), s\<lparr>ss_saved := ss_db s\<rparr>))"

definition rollback :: "('w sess, unit) run" where
  "rollback s = Some (Inr (), s\<lparr>ss_db := ss_saved s\<rparr>)"

definition onW :: "('w, 'a) act \<Rightarrow> ('w sess, 'a) run" where
  "onW m s = (let (r, w) = m (ss_world s) in Some (r, s\<lparr>ss_world := w\<rparr>))"

definition onWR :: "('w, 'a) run \<Rightarrow> ('w sess, 'a) run" where
  "onWR m s = map_option (\<lambda>(r, w). (r, s\<lparr>ss_world := w\<rparr>)) (m (ss_world s))"

text \<open>The body of a \<^verbatim>\<open>try\<close> up to its next statement: an exception goes to \<open>h\<close>, else \<open>k\<close> goes on.\<close>

definition elseR :: "('w, 'a) run \<Rightarrow> (exn \<Rightarrow> ('w, 'b) run) \<Rightarrow> ('a \<Rightarrow> ('w, 'b) run) \<Rightarrow> ('w, 'b) run" where
  "elseR m h k w = (case m w of None \<Rightarrow> None | Some (Inl e, w') \<Rightarrow> h e w' | Some (Inr x, w') \<Rightarrow> k x w')"

lemma wlp_db_io [wlp_simps]:
  "wlp db_io Q s \<longleftrightarrow> (case ss_faults s of
     True # fs \<Rightarrow> Q (Inl (err DatabaseUnavailableError [])) (s\<lparr>ss_faults := fs\<rparr>)
   | _ # fs \<Rightarrow> Q (Inr ()) (s\<lparr>ss_faults := fs\<rparr>)
   | [] \<Rightarrow> Q (Inr ()) s)"
  by (auto simp: wlp_def db_io_def split: list.split bool.split)

lemma wlp_readD [wlp_simps]: "wlp (readD f) Q s = Q (Inr (f (ss_db s))) s"
  by (simp add: wlp_def readD_def)

lemma wlp_writeD [wlp_simps]: "wlp (writeD f) Q s = Q (Inr ()) (s\<lparr>ss_db := f (ss_db s)\<rparr>)"
  by (simp add: wlp_def writeD_def)

lemma wlp_rollback [wlp_simps]: "wlp rollback Q s = Q (Inr ()) (s\<lparr>ss_db := ss_saved s\<rparr>)"
  by (simp add: wlp_def rollback_def)

lemma wlp_onW [wlp_simps]:
  "wlp (onW m) Q s = Q (fst (m (ss_world s))) (s\<lparr>ss_world := snd (m (ss_world s))\<rparr>)"
  by (simp add: wlp_def onW_def case_prod_beta)

lemma wlp_onWR [wlp_simps]: "wlp (onWR m) Q s = wlp m (\<lambda>r w. Q r (s\<lparr>ss_world := w\<rparr>)) (ss_world s)"
  by (auto simp: wlp_def onWR_def split: option.split)

lemma wlp_elseR [wlp_simps]:
  "wlp (elseR m h k) Q w \<longleftrightarrow> wlp m (\<lambda>r w'. case r of Inl e \<Rightarrow> wlp (h e) Q w' | Inr x \<Rightarrow> wlp (k x) Q w') w"
  by (auto simp: wlp_def elseR_def split: option.splits sum.splits)

lemma wlp_else:
  "wlp m P s \<Longrightarrow> (\<And>e s'. P (Inl e) s' \<Longrightarrow> wlp (h e) Q s') \<Longrightarrow> (\<And>x s'. P (Inr x) s' \<Longrightarrow> wlp (k x) Q s')
    \<Longrightarrow> wlp (elseR m h k) Q s"
  unfolding wlp_elseR by (erule wlp_mono) (auto split: sum.split)

text \<open>A commit saves what the session sees, or fails and changes nothing but the fault list.\<close>

lemma wlp_commitI:
  assumes "\<And>fs. Q (Inr ()) (s\<lparr>ss_faults := fs, ss_saved := ss_db s\<rparr>)"
    and "\<And>fs. Q (Inl (err DatabaseUnavailableError [])) (s\<lparr>ss_faults := fs\<rparr>)"
  shows "wlp commit Q s"
proof -
  have "s\<lparr>ss_saved := ss_db s\<rparr> = s\<lparr>ss_faults := ss_faults s, ss_saved := ss_db s\<rparr>" by simp
  then have "Q (Inr ()) (s\<lparr>ss_saved := ss_db s\<rparr>)" using assms(1)[of "ss_faults s"] by metis
  then show ?thesis using assms
    by (auto simp: commit_def wlp_simps wlp_def[of "\<lambda>s. Some (f s, g s)" for f g] split: list.split bool.split)
qed

lemma commit_ok: "ss_faults s = [] \<Longrightarrow> commit s = Some (Inr (), s\<lparr>ss_saved := ss_db s\<rparr>)"
  by (simp add: commit_def thenR_def db_io_def)

text \<open>An invariant of the tables, both as the session sees them and as they are saved.\<close>

definition both :: "(ddb \<Rightarrow> bool) \<Rightarrow> 'w sess \<Rightarrow> bool" where
  "both P s \<longleftrightarrow> P (ss_db s) \<and> P (ss_saved s)"

lemma keepsR_both [keeps_intros]:
  "keepsR (both P) db_io" "keepsR (both P) (readD f)" "keepsR (both P) commit" "keepsR (both P) rollback"
  "keepsR (both P) (onW m)" "keepsR (both P) (onWR q)"
proof -
  show "keepsR (both P) (onWR q)"
    by (rule keepsRI) (auto simp: wlp_def onWR_def both_def split: option.split)
  show "keepsR (both P) (onW m)" by (rule keepsRI) (simp add: wlp_simps both_def)
  show "keepsR (both P) commit" by (rule keepsRI, rule wlp_commitI) (simp_all add: both_def)
qed (rule keepsRI, auto simp: wlp_simps both_def split: list.split bool.split)+

lemma keepsR_else [keeps_intros]:
  "keepsR I m \<Longrightarrow> (\<And>e. keepsR I (h e)) \<Longrightarrow> (\<And>x. keepsR I (k x)) \<Longrightarrow> keepsR I (elseR m h k)"
  by (rule keepsRI) (auto simp: wlp_simps keepsR_def elim!: wlp_mono split: sum.split)

lemma keepsR_writeD: "(\<And>d. P d \<Longrightarrow> P (f d)) \<Longrightarrow> keepsR (both P) (writeD f)"
  by (rule keepsRI) (simp add: wlp_simps both_def)

text \<open>Statements of the session alone leave the world as it is.\<close>

lemma keeps_world [keeps_intros]:
  "keepsR (\<lambda>s. P (ss_world s)) db_io" "keepsR (\<lambda>s. P (ss_world s)) (readD f)" "keepsR (\<lambda>s. P (ss_world s)) (writeD g)"
  "keepsR (\<lambda>s. P (ss_world s)) commit" "keepsR (\<lambda>s. P (ss_world s)) rollback"
  by (rule keepsRI, simp add: wlp_simps wlp_commitI split: list.split bool.split)+

lemma keeps_onW:
  "(\<And>w. P w \<Longrightarrow> P (snd (m w))) \<Longrightarrow> keepsR (\<lambda>s. P (ss_world s)) (onW m)"
  "keepsR P q \<Longrightarrow> keepsR (\<lambda>s. P (ss_world s)) (onWR q)"
  by (auto simp: keepsR_def wlp_simps)

text \<open>Every operation of a session returns; what may not is what the world runs.\<close>

named_theorems run_returns "operations that return"

lemma sess_returns [run_returns]:
  "db_io s \<noteq> None" "readD f s \<noteq> None" "writeD g s \<noteq> None" "commit s \<noteq> None" "rollback s \<noteq> None"
  "onW a s \<noteq> None"
proof -
  show d: "db_io s \<noteq> None" for s by (auto simp: db_io_def split: list.split bool.split)
  show "commit s \<noteq> None" unfolding commit_def by (intro thenR_returns d) simp
qed (simp_all add: readD_def writeD_def rollback_def onW_def case_prod_beta)

lemma onWR_returns [run_returns]: "(\<And>w. m w \<noteq> None) \<Longrightarrow> onWR m s \<noteq> None"
  by (simp add: onWR_def)

lemma elseR_returns [run_returns]:
  "m w \<noteq> None \<Longrightarrow> (\<And>e w1. h e w1 \<noteq> None) \<Longrightarrow> (\<And>x w1. k x w1 \<noteq> None) \<Longrightarrow> elseR m h k w \<noteq> None"
  by (auto simp: elseR_def split: option.splits sum.splits)

lemmas [run_returns] = thenR_returns catchR_returns finallyR_returns retR_returns raiseR_returns

lemma option_returns [run_returns]:
  "m s \<noteq> None \<Longrightarrow> (\<And>x. f x s \<noteq> None) \<Longrightarrow> (case z of None \<Rightarrow> m | Some x \<Rightarrow> f x) s \<noteq> None"
  by (cases z) auto

lemma pair_returns: "(\<And>x y. f x y s \<noteq> None) \<Longrightarrow> (case z of (x, y) \<Rightarrow> f x y) s \<noteq> None"
  by (cases z) auto

lemma if_returns [run_returns]: "(b \<Longrightarrow> m s \<noteq> None) \<Longrightarrow> (\<not> b \<Longrightarrow> n s \<noteq> None) \<Longrightarrow> (if b then m else n) s \<noteq> None"
  by simp

end
