(* ===== verification/Promotion.thy ===== *)
theory Promotion
  imports Delivery_Db
begin

text \<open>
  Moving a model's live alias (\<^verbatim>\<open>registry/promotion.py\<close>) with the size and checksum checks of
  \<^verbatim>\<open>core/integrity.py\<close>. The locals \<open>alias_moved\<close>, \<open>rollout_started\<close> and \<open>deployed\<close> that the
  exception handler asks about are the stage the body had reached. Reasons, logs and metrics are
  not kept; the work directory is not modelled (a download is the artifact itself).
\<close>

record promo_args =
  pa_model :: string
  pa_version :: string
  pa_kind :: promotion_kind
  pa_actor :: string
  pa_job :: "string option"
  pa_expected :: "string option"
  pa_key :: "string option"

definition model_meta_of :: "string \<Rightarrow> ('w sess, model_meta) run" where
  "model_meta_of m = thenR (readD (\<lambda>d. by_key mm_model m (metas d))) (\<lambda>x. case x of
     None \<Rightarrow> raiseR (err ModelNotFoundError [(''model_id'', CStr m)]) | Some meta \<Rightarrow> retR meta)"

definition current_live :: "'w registry \<Rightarrow> string \<Rightarrow> string \<Rightarrow> ('w, string option) act" where
  "current_live R name alias = catchA (thenA (rg_get_alias R name alias) (\<lambda>v. retA (Some v)))
     (kind ModelNotFoundError) (\<lambda>_. retA None)"

definition check_size :: "artifact \<Rightarrow> nat \<Rightarrow> ('w, nat) act" where
  "check_size a limit = (if limit < ar_size a then raiseA (err ArtifactError []) else retA (ar_size a))"

definition verify_checksum :: "artifact \<Rightarrow> string \<Rightarrow> ('w, unit) act" where
  "verify_checksum a expected =
     (if ar_sha a \<noteq> expected then raiseA (err ArtifactIntegrityError []) else retA ())"

definition verify_version_artifact :: "'w registry \<Rightarrow> string \<Rightarrow> string \<Rightarrow> ('w, artifact \<times> string) act" where
  "verify_version_artifact R name v =
     thenA (rg_get_version R name v) (\<lambda>info.
     thenA (rg_download R name v) (\<lambda>a.
     thenA (check_size a (ap_max_bytes (rg_policy R))) (\<lambda>_.
       let expected = get_or (mv_tags info) (ap_checksum_tag (rg_policy R)) ''''
       in if expected \<noteq> '''' then thenA (verify_checksum a expected) (\<lambda>_. retA (a, expected))
          else thenA (rg_set_tags R name v [(ap_checksum_tag (rg_policy R), ar_sha a)]) (\<lambda>_. retA (a, ar_sha a)))))"

definition serving_target :: "'w registry \<Rightarrow> 'w deployer \<Rightarrow> string \<Rightarrow> ('w, target option) act" where
  "serving_target R D name = thenA (serving D name) (\<lambda>s. case s of
     None \<Rightarrow> retA None
   | Some v \<Rightarrow> thenA (catchA (thenA (rg_get_version R name v) (\<lambda>i. retA (mv_source i)))
       (kind ModelNotFoundError) (\<lambda>_. retA None))
       (\<lambda>src. retA (Some \<lparr>t_model = name, t_version = v, t_source = src, t_artifact = None\<rparr>)))"

definition put_alias :: "'w registry \<Rightarrow> string \<Rightarrow> string \<Rightarrow> string option \<Rightarrow> ('w, unit) act" where
  "put_alias R name alias previous = (case previous of None \<Rightarrow> rg_delete_alias R name alias
     | Some v \<Rightarrow> rg_set_alias R name alias v)"

definition restore_alias :: "'w registry \<Rightarrow> string \<Rightarrow> string \<Rightarrow> string option \<Rightarrow> ('w, unit) act" where
  "restore_alias R name alias previous =
     catchA (put_alias R name alias previous) (kind AdaptationError) (\<lambda>_. retA ())"

definition audit_move :: "promo_args \<Rightarrow> string \<Rightarrow> ('w sess, unit) run" where
  "audit_move a status = writeD (\<lambda>d. record_audit
     (if pa_kind a = ROLLBACK_KIND then MODEL_ROLLED_BACK else MODEL_PROMOTED) (pa_actor a) (pa_job a)
     (Some (pa_model a)) (Some (pa_version a)) status d)"

definition audit_failed_move :: "promo_args \<Rightarrow> ('w sess, unit) run" where
  "audit_failed_move a = catchR (thenR (audit_move a ''FAILED'') (\<lambda>_. commit)) (\<lambda>_. True) (\<lambda>_. rollback)"

text \<open>The insert reaches the database at a flush or commit, where a repeated key is refused.\<close>

definition add_promo :: "promo_row \<Rightarrow> ('w sess, unit) run" where
  "add_promo row = thenR db_io (\<lambda>_. thenR (readD (\<lambda>d. pm_key row \<noteq> None \<and> pm_key row \<in> pm_key ` set (promos d)))
     (\<lambda>taken. if taken then raiseR (err DatabaseUnavailableError [])
       else writeD (\<lambda>d. d\<lparr>promos := promos d @ [row]\<rparr>)))"

definition promo_row_of :: "promo_args \<Rightarrow> string option \<Rightarrow> promo_status \<Rightarrow> string option \<Rightarrow> promo_row" where
  "promo_row_of a previous status sha = \<lparr>pm_model = pa_model a, pm_kind = pa_kind a, pm_from = previous,
     pm_to = pa_version a, pm_status = status, pm_actor = pa_actor a, pm_job = pa_job a, pm_key = pa_key a,
     pm_sha = sha\<rparr>"

text \<open>How far the body had come when an exception reached the handler.\<close>

datatype progress = Nothing_Done | Alias_Moved | Rollout_Started | Deployed

definition promotion_failed ::
  "'w registry \<Rightarrow> 'w deployer \<Rightarrow> string \<Rightarrow> promo_args \<Rightarrow> string \<Rightarrow> string option \<Rightarrow> progress \<Rightarrow> target option
    \<Rightarrow> exn \<Rightarrow> ('w sess, promo_row) run" where
  "promotion_failed R D la a name previous stage prior e =
     thenR rollback (\<lambda>_.
     thenR (if stage = Deployed \<or> stage = Rollout_Started \<and> \<not> kind DeploymentError e
            then thenR (onWR (revert D name prior)) (\<lambda>_. retR ()) else retR ()) (\<lambda>_.
     thenR (if stage \<noteq> Nothing_Done then onW (restore_alias R name la previous) else retR ()) (\<lambda>_.
     thenR (audit_failed_move a) (\<lambda>_.
       raiseR (if kind PromotionError e then e else err PromotionError [(''model_id'', CStr (pa_model a))])))))"

definition read_back_alias :: "'w registry \<Rightarrow> string \<Rightarrow> string \<Rightarrow> string \<Rightarrow> ('w, unit) act" where
  "read_back_alias R name la v = thenA (rg_get_alias R name la) (\<lambda>now.
     if now \<noteq> v then raiseA (err PromotionError [(''expected'', CStr v)]) else retA ())"

definition set_status_tags :: "'w registry \<Rightarrow> string \<Rightarrow> string \<Rightarrow> string option \<Rightarrow> ('w, unit) act" where
  "set_status_tags R name v previous =
     thenA (rg_set_tags R name v [(ap_status_tag (rg_policy R), ''LIVE'')]) (\<lambda>_. case previous of
       None \<Rightarrow> retA () | Some p \<Rightarrow> rg_set_tags R name p [(ap_status_tag (rg_policy R), ''ARCHIVED'')])"

text \<open>The body of the \<^verbatim>\<open>try\<close> of \<^verbatim>\<open>promote_version\<close>, one definition per stage, last stage first.\<close>

definition finish_move ::
  "'w registry \<Rightarrow> 'w deployer \<Rightarrow> string \<Rightarrow> promo_args \<Rightarrow> string \<Rightarrow> string option \<Rightarrow> target option \<Rightarrow> promo_row
    \<Rightarrow> ('w sess, promo_row) run" where
  "finish_move R D la a name previous prior row =
     elseR (thenR (onW (set_status_tags R name (pa_version a) previous)) (\<lambda>_.
            thenR (audit_move a ''OK'') (\<lambda>_. commit)))
       (promotion_failed R D la a name previous Deployed prior) (\<lambda>_. retR row)"

definition deploy_move ::
  "'w registry \<Rightarrow> 'w deployer \<Rightarrow> string \<Rightarrow> promo_args \<Rightarrow> string \<Rightarrow> string option \<Rightarrow> target \<Rightarrow> target option
    \<Rightarrow> promo_row \<Rightarrow> ('w sess, promo_row) run" where
  "deploy_move R D la a name previous tgt prior row =
     elseR (onW (read_back_alias R name la (pa_version a)))
       (promotion_failed R D la a name previous Alias_Moved prior) (\<lambda>_.
     elseR (onWR (deployer_rollout D tgt prior))
       (promotion_failed R D la a name previous Rollout_Started prior) (\<lambda>_.
     finish_move R D la a name previous prior row))"

definition move_live ::
  "'w registry \<Rightarrow> 'w deployer \<Rightarrow> string \<Rightarrow> promo_args \<Rightarrow> string \<Rightarrow> string option \<Rightarrow> target \<Rightarrow> promo_row
    \<Rightarrow> ('w sess, promo_row) run" where
  "move_live R D la a name previous tgt row =
     elseR (thenR (add_promo row) (\<lambda>_. onW (serving_target R D name)))
       (promotion_failed R D la a name previous Nothing_Done None) (\<lambda>prior.
     elseR (onW (rg_set_alias R name la (pa_version a)))
       (promotion_failed R D la a name previous Nothing_Done prior) (\<lambda>_.
     deploy_move R D la a name previous tgt prior row))"

definition verified_move ::
  "'w registry \<Rightarrow> 'w deployer \<Rightarrow> string \<Rightarrow> promo_args \<Rightarrow> string \<Rightarrow> string option \<Rightarrow> ('w sess, promo_row) run" where
  "verified_move R D la a name previous =
     thenR (onW (verify_version_artifact R name (pa_version a))) (\<lambda>(loc, digest).
     thenR (onW (rg_get_version R name (pa_version a))) (\<lambda>info.
       move_live R D la a name previous
         \<lparr>t_model = name, t_version = pa_version a, t_source = mv_source info, t_artifact = Some loc\<rparr>
         (promo_row_of a previous APPLIED (Some digest))))"

definition already_live :: "promo_args \<Rightarrow> string option \<Rightarrow> ('w sess, promo_row) run" where
  "already_live a previous = (let row = promo_row_of a previous NO_CHANGE None
     in thenR (add_promo row) (\<lambda>_. thenR commit (\<lambda>_. retR row)))"

definition earlier_promotion :: "string option \<Rightarrow> ddb \<Rightarrow> promo_row option" where
  "earlier_promotion key d = (case key of None \<Rightarrow> None
     | Some k \<Rightarrow> if k = '''' then None else by_key pm_key (Some k) (promos d))"

definition promote_version ::
  "'w registry \<Rightarrow> 'w deployer \<Rightarrow> string \<Rightarrow> promo_args \<Rightarrow> ('w sess, promo_row) run" where
  "promote_version R D la a =
     thenR (readD (earlier_promotion (pa_key a))) (\<lambda>earlier. case earlier of
       Some row \<Rightarrow> retR row
     | None \<Rightarrow>
         thenR (model_meta_of (pa_model a)) (\<lambda>meta.
         thenR (onW (current_live R (mm_name meta) la)) (\<lambda>previous.
           if pa_expected a \<noteq> None \<and> previous \<noteq> pa_expected a
           then raiseR (err ConflictError [(''model_id'', CStr (pa_model a))])
           else if previous = Some (pa_version a) then already_live a previous
           else verified_move R D la a (mm_name meta) previous)))"

section \<open>Rolling back\<close>

definition last_applied_promotion :: "string \<Rightarrow> ddb \<Rightarrow> promo_row option" where
  "last_applied_promotion m d = find (\<lambda>r. pm_model r = m \<and> pm_status r = APPLIED) (rev (promos d))"

definition rollback_target :: "string \<Rightarrow> string option \<Rightarrow> ('w sess, string) run" where
  "rollback_target m want = (case want of Some v \<Rightarrow> retR v
     | None \<Rightarrow> thenR (readD (last_applied_promotion m)) (\<lambda>last.
         case Option.bind last pm_from of
           None \<Rightarrow> raiseR (err ConflictError [(''model_id'', CStr m)]) | Some v \<Rightarrow> retR v))"

text \<open>\<open>load\<close>, a parameter, is the model handler's loading of an artifact for a framework.\<close>

definition rollback_model ::
  "'w registry \<Rightarrow> 'w deployer \<Rightarrow> (artifact \<Rightarrow> string \<Rightarrow> ('w, unit) act) \<Rightarrow> string \<Rightarrow> string \<Rightarrow> string option
    \<Rightarrow> string \<Rightarrow> string option \<Rightarrow> ('w sess, promo_row) run" where
  "rollback_model R D load la m want actor key =
     thenR (model_meta_of m) (\<lambda>meta.
     thenR (rollback_target m want) (\<lambda>v.
     thenR (onW (rg_get_version R (mm_name meta) v)) (\<lambda>_.
     thenR (onW (verify_version_artifact R (mm_name meta) v)) (\<lambda>(local, _).
     case mm_framework meta of
       None \<Rightarrow> raiseR (err ArtifactError [(''model_id'', CStr m)])
     | Some fw \<Rightarrow>
         thenR (onW (catchA (load local fw) (\<lambda>_. True) (\<lambda>_. raiseA (err ArtifactError [(''model_id'', CStr m)])))) (\<lambda>_.
         promote_version R D la \<lparr>pa_model = m, pa_version = v, pa_kind = ROLLBACK_KIND, pa_actor = actor,
           pa_job = None, pa_expected = None, pa_key = key\<rparr>)))))"

end
