(* ===== verification/Rollout.thy ===== *)
theory Rollout
  imports Promotion
begin

text \<open>
  The progressive delivery controller (\<^verbatim>\<open>delivery/controller.py\<close>) and the default source of its
  online metrics (\<^verbatim>\<open>adapters/rollout_metrics.py\<close>, the \<^verbatim>\<open>api\<close> adapter). One definition per
  function. A loaded rollout object stays attached to the session, so reading one of its
  attributes after a commit or rollback reads the row again: the model passes the rollout's id
  and reads the row where the code reads an attribute. The clock of one call is its \<open>now\<close>. The
  p-value of the A/B test is a parameter of the controller. Trace lookups and gauges are left out.
\<close>

record 'w controller =
  ct_registry :: "'w registry"
  ct_deployer :: "'w deployer"
  ct_observe :: "string \<Rightarrow> arm \<Rightarrow> string \<Rightarrow> time \<Rightarrow> time \<Rightarrow> ddb \<Rightarrow> ('w, arm_stats) act"
  ct_settings :: settings
  ct_live_alias :: string
  ct_policy :: delivery_policy
  ct_welch :: "rat list \<Rightarrow> rat list \<Rightarrow> rat option"

section \<open>States\<close>

definition active_states :: "roll_state list" where
  "active_states = [SHADOW, CANARY, AB, AWAITING_APPROVAL]"

definition final_states :: "roll_state list" where
  "final_states = [PROMOTED, ROLLED_BACK, EXPIRED, REJECTED]"

definition is_active :: "roll_state \<Rightarrow> bool" where
  "is_active st \<longleftrightarrow> st \<in> set active_states"

fun roll_state_value :: "roll_state \<Rightarrow> string" where
  "roll_state_value SHADOW = ''SHADOW''"
| "roll_state_value CANARY = ''CANARY''"
| "roll_state_value AB = ''AB''"
| "roll_state_value AWAITING_APPROVAL = ''AWAITING_APPROVAL''"
| "roll_state_value PROMOTED = ''PROMOTED''"
| "roll_state_value ROLLED_BACK = ''ROLLED_BACK''"
| "roll_state_value EXPIRED = ''EXPIRED''"
| "roll_state_value REJECTED = ''REJECTED''"

definition strategies :: "(string \<times> roll_strategy) list" where
  "strategies = [(''shadow'', SHADOW_STRATEGY), (''canary'', CANARY_STRATEGY), (''ab'', AB_STRATEGY),
     (''manual'', MANUAL_STRATEGY)]"

fun initial_state :: "roll_strategy \<Rightarrow> roll_state" where
  "initial_state SHADOW_STRATEGY = SHADOW"
| "initial_state CANARY_STRATEGY = CANARY"
| "initial_state AB_STRATEGY = AB"
| "initial_state MANUAL_STRATEGY = AWAITING_APPROVAL"

section \<open>Lookups\<close>

definition active_rollout :: "string \<Rightarrow> ddb \<Rightarrow> rollout_row option" where
  "active_rollout m d = find (\<lambda>r. ro_model r = m \<and> is_active (ro_state r)) (rev (rollouts d))"

definition get_rollout :: "string \<Rightarrow> ('w sess, rollout_row) run" where
  "get_rollout rid = thenR (readD (\<lambda>d. by_key ro_id rid (rollouts d))) (\<lambda>x. case x of
     None \<Rightarrow> raiseR (err RolloutNotFoundError [(''rollout_id'', CStr rid)]) | Some ro \<Rightarrow> retR ro)"

definition list_rollouts ::
  "string option \<Rightarrow> roll_state option \<Rightarrow> bool option \<Rightarrow> nat \<Rightarrow> nat \<Rightarrow> ddb \<Rightarrow> rollout_row list" where
  "list_rollouts m st act limit offset d =
     take limit (drop offset (rev (filter (\<lambda>r. (m = None \<or> m = Some (ro_model r))
       \<and> (st = None \<or> st = Some (ro_state r))
       \<and> (act = Some True \<longrightarrow> ro_state r \<in> set active_states)
       \<and> (act = Some False \<longrightarrow> ro_state r \<in> set final_states)) (rollouts d))))"

definition model_name :: "string \<Rightarrow> ('w sess, string) run" where
  "model_name m = thenR (model_meta_of m) (\<lambda>meta. retR (mm_name meta))"

definition target_of :: "'w registry \<Rightarrow> string \<Rightarrow> string \<Rightarrow> ('w, target) act" where
  "target_of R name v = thenA (catchA (thenA (rg_get_version R name v) (\<lambda>i. retA (mv_source i)))
       (kind ModelNotFoundError) (\<lambda>_. retA None))
     (\<lambda>src. retA \<lparr>t_model = name, t_version = v, t_source = src, t_artifact = None\<rparr>)"

section \<open>Transitions\<close>

definition set_rollout :: "string \<Rightarrow> (rollout_row \<Rightarrow> rollout_row) \<Rightarrow> ('w sess, unit) run" where
  "set_rollout rid f = writeD (\<lambda>d. d\<lparr>rollouts := update_where (\<lambda>r. ro_id r = rid) f (rollouts d)\<rparr>)"

definition moved_row ::
  "time \<Rightarrow> roll_state \<Rightarrow> string \<Rightarrow> nat option \<Rightarrow> nat option \<Rightarrow> time option \<Rightarrow> rollout_row \<Rightarrow> rollout_row" where
  "moved_row now to actor percent step deadline ro =
     (let p = (case percent of None \<Rightarrow> ro_percent ro | Some x \<Rightarrow> x);
          st = (case step of None \<Rightarrow> ro_step ro | Some x \<Rightarrow> x)
      in ro\<lparr>ro_percent := p, ro_step := st, ro_state := to, ro_started := now, ro_deadline := deadline,
            ro_history := ro_history ro @ [Moved now (ro_state ro) to st p actor],
            ro_finished := if to \<in> set final_states then Some now else ro_finished ro\<rparr>)"

definition record_move ::
  "'w controller \<Rightarrow> time \<Rightarrow> string \<Rightarrow> roll_state \<Rightarrow> string \<Rightarrow> nat option \<Rightarrow> nat option \<Rightarrow> time option
    \<Rightarrow> ('w sess, unit) run" where
  "record_move C now rid to actor percent step deadline =
     thenR (get_rollout rid) (\<lambda>ro.
     thenR (set_rollout rid (moved_row now to actor percent step deadline)) (\<lambda>_.
     thenR (writeD (record_audit (if to \<in> set final_states then ROLLOUT_FINISHED else ROLLOUT_ADVANCED) actor
       (ro_job ro) (Some (ro_model ro)) (Some (ro_candidate ro)) ''OK'')) (\<lambda>_.
     writeD (record_event now (ct_settings C) (''rollout.'' @ lower (roll_state_value to)) rid (Some (ro_model ro))))))"

definition add_note :: "time \<Rightarrow> string \<Rightarrow> ('w sess, unit) run" where
  "add_note now rid = set_rollout rid (\<lambda>ro. ro\<lparr>ro_history := ro_history ro @ [Noted now]\<rparr>)"

text \<open>
  A missing stable version is an AssertionError in the code; \<open>start_rollout\<close> always stores one.
\<close>

definition stable_of :: "rollout_row \<Rightarrow> ('w sess, string) run" where
  "stable_of ro = (case ro_stable ro of None \<Rightarrow> raiseR (err AdaptationError []) | Some v \<Rightarrow> retR v)"

definition split_to :: "'w controller \<Rightarrow> string \<Rightarrow> nat \<Rightarrow> ('w sess, unit) run" where
  "split_to C rid percent =
     thenR (get_rollout rid) (\<lambda>ro.
     thenR (model_name (ro_model ro)) (\<lambda>name.
     thenR (stable_of ro) (\<lambda>v.
     thenR (onW (target_of (ct_registry C) name v)) (\<lambda>stb.
     thenR (if percent \<noteq> 0 then thenR (onW (target_of (ct_registry C) name (ro_candidate ro))) (\<lambda>t. retR (Some t))
            else retR None) (\<lambda>cand.
     thenR (onWR (deployer_split (ct_deployer C) name stb cand percent)) (\<lambda>_. retR ()))))))"

definition undo_traffic :: "'w controller \<Rightarrow> string \<Rightarrow> ('w sess, unit) run" where
  "undo_traffic C rid =
     thenR (get_rollout rid) (\<lambda>ro.
       if \<not> dp_splits (de_port (ct_deployer C)) \<or> ro_stable ro = None then retR ()
       else if 0 < ro_percent ro then split_to C rid 0
       else thenR (model_name (ro_model ro)) (\<lambda>name.
            thenR (onW (traffic (ct_deployer C) name)) (\<lambda>sp.
              if sp_candidate sp \<noteq> None then split_to C rid 0 else retR ())))"

definition end_without_promotion ::
  "'w controller \<Rightarrow> time \<Rightarrow> string \<Rightarrow> roll_state \<Rightarrow> string \<Rightarrow> ('w sess, unit) run" where
  "end_without_promotion C now rid to actor =
     thenR (undo_traffic C rid) (\<lambda>_.
     thenR (record_move C now rid to actor (Some 0) None None) (\<lambda>_. commit))"

definition clear_split :: "'w controller \<Rightarrow> time \<Rightarrow> string \<Rightarrow> ('w sess, unit) run" where
  "clear_split C now rid =
     thenR (get_rollout rid) (\<lambda>ro.
       if dp_splits (de_port (ct_deployer C)) \<and> 0 < ro_percent ro
       then thenR (model_name (ro_model ro)) (\<lambda>name.
            thenR (onW (target_of (ct_registry C) name (ro_candidate ro))) (\<lambda>live.
            catchR (thenR (onWR (deployer_split (ct_deployer C) name live None 0)) (\<lambda>_. retR ()))
              (kind DeploymentError) (\<lambda>_. add_note now rid)))
       else retR ())"

definition promotion_args :: "rollout_row \<Rightarrow> string \<Rightarrow> promo_args" where
  "promotion_args ro actor = \<lparr>pa_model = ro_model ro, pa_version = ro_candidate ro, pa_kind = PROMOTE_CANDIDATE,
     pa_actor = actor, pa_job = ro_job ro, pa_expected = ro_stable ro,
     pa_key = Some (''rollout:'' @ ro_id ro @ '':promote'')\<rparr>"

definition promote_rollout :: "'w controller \<Rightarrow> time \<Rightarrow> string \<Rightarrow> string \<Rightarrow> ('w sess, unit) run" where
  "promote_rollout C now rid actor =
     thenR commit (\<lambda>_.
     thenR (get_rollout rid) (\<lambda>ro.
     elseR (promote_version (ct_registry C) (ct_deployer C) (ct_live_alias C) (promotion_args ro actor))
       (\<lambda>e. if kind PromotionError e \<or> kind ConflictError e
            then thenR rollback (\<lambda>_. end_without_promotion C now rid ROLLED_BACK actor) else raiseR e)
       (\<lambda>_. thenR (clear_split C now rid) (\<lambda>_.
            thenR (record_move C now rid PROMOTED actor (Some 100) None None) (\<lambda>_. commit)))))"

definition enter_canary :: "'w controller \<Rightarrow> time \<Rightarrow> string \<Rightarrow> string \<Rightarrow> ('w sess, unit) run" where
  "enter_canary C now rid actor =
     thenR (get_rollout rid) (\<lambda>ro. let first = hd (p_canary_steps (ro_policy ro)) in
       if 100 \<le> first then promote_rollout C now rid actor
       else thenR (split_to C rid first) (\<lambda>_.
            thenR (record_move C now rid CANARY actor (Some first) (Some 0) None) (\<lambda>_. commit)))"

section \<open>Starting\<close>

record start_args =
  sa_model :: string
  sa_strategy :: string
  sa_stable :: string
  sa_candidate :: string
  sa_job :: "string option"
  sa_policy :: "delivery_policy option"

definition new_rollout :: "time \<Rightarrow> string \<Rightarrow> start_args \<Rightarrow> roll_strategy \<Rightarrow> delivery_policy \<Rightarrow> rollout_row" where
  "new_rollout now rid a strat p = \<lparr>ro_id = rid, ro_model = sa_model a, ro_job = sa_job a, ro_strategy = strat,
     ro_state = initial_state strat, ro_stable = Some (sa_stable a), ro_candidate = sa_candidate a, ro_step = 0,
     ro_percent = 0, ro_policy = p, ro_started = now, ro_deadline = None, ro_decided_by = None, ro_history = [],
     ro_finished = None\<rparr>"

definition first_percent :: "roll_strategy \<Rightarrow> delivery_policy \<Rightarrow> nat" where
  "first_percent strat p = (case strat of CANARY_STRATEGY \<Rightarrow> hd (p_canary_steps p) | AB_STRATEGY \<Rightarrow> p_ab_percent p | _ \<Rightarrow> 0)"

definition first_deadline :: "time \<Rightarrow> roll_strategy \<Rightarrow> delivery_policy \<Rightarrow> time option" where
  "first_deadline now strat p = (case strat of
     SHADOW_STRATEGY \<Rightarrow> Some (now + p_shadow_max_s p) | AB_STRATEGY \<Rightarrow> Some (now + p_ab_duration_s p)
   | MANUAL_STRATEGY \<Rightarrow> Some (now + p_approval_ttl_s p) | CANARY_STRATEGY \<Rightarrow> None)"

definition first_split_failed :: "'w controller \<Rightarrow> time \<Rightarrow> string \<Rightarrow> ('w sess, rollout_row) run" where
  "first_split_failed C now rid =
     thenR (catchR (end_without_promotion C now rid ROLLED_BACK ''system'') (kind DeploymentError)
       (\<lambda>_. thenR (add_note now rid) (\<lambda>_. commit))) (\<lambda>_. get_rollout rid)"

definition begin_delivery ::
  "'w controller \<Rightarrow> time \<Rightarrow> string \<Rightarrow> roll_strategy \<Rightarrow> delivery_policy \<Rightarrow> ('w sess, rollout_row) run" where
  "begin_delivery C now rid strat p = (let percent = first_percent strat p; initial = initial_state strat in
     if 100 \<le> percent
     then thenR (record_move C now rid initial ''system'' None None None) (\<lambda>_.
          thenR (promote_rollout C now rid ''system'') (\<lambda>_. get_rollout rid))
     else elseR (if percent \<noteq> 0 then split_to C rid percent else retR ())
       (\<lambda>e. if kind DeploymentError e then first_split_failed C now rid else raiseR e)
       (\<lambda>_. thenR (record_move C now rid initial ''system'' (Some percent) None (first_deadline now strat p)) (\<lambda>_.
            thenR commit (\<lambda>_. get_rollout rid))))"

text \<open>\<open>rid\<close>, a parameter, is the fresh uuid of the rollout.\<close>

definition start_rollout :: "'w controller \<Rightarrow> time \<Rightarrow> string \<Rightarrow> start_args \<Rightarrow> ('w sess, rollout_row) run" where
  "start_rollout C now rid a =
     (case map_of strategies (sa_strategy a) of
        None \<Rightarrow> raiseR (err RolloutStateError [(''strategy'', CStr (sa_strategy a))])
      | Some strat \<Rightarrow>
          thenR (readD (active_rollout (sa_model a))) (\<lambda>existing. case existing of
            Some r \<Rightarrow> raiseR (err RolloutStateError [(''rollout_id'', CStr (ro_id r))])
          | None \<Rightarrow>
              let p = (case sa_policy a of None \<Rightarrow> ct_policy C | Some x \<Rightarrow> x) in
              thenR (writeD (\<lambda>d. d\<lparr>rollouts := rollouts d @ [new_rollout now rid a strat p]\<rparr>)) (\<lambda>_.
              thenR db_io (\<lambda>_.
              thenR (writeD (record_audit ROLLOUT_STARTED ''system'' (sa_job a) (Some (sa_model a))
                (Some (sa_candidate a)) ''OK'')) (\<lambda>_.
              begin_delivery C now rid strat p)))))"

section \<open>Ticks\<close>

datatype tick_result = Waiting | Went roll_state | Ended | Busy | Unavailable

definition arm_stats_of :: "'w controller \<Rightarrow> time \<Rightarrow> rollout_row \<Rightarrow> arm \<Rightarrow> string \<Rightarrow> ('w sess, arm_stats) run" where
  "arm_stats_of C now ro arm v = thenR (readD (\<lambda>d. d)) (\<lambda>d.
     onW (ct_observe C (ro_id ro) arm v (ro_started ro) now d))"

definition both_stats :: "'w controller \<Rightarrow> time \<Rightarrow> rollout_row \<Rightarrow> ('w sess, arm_stats \<times> arm_stats) run" where
  "both_stats C now ro =
     thenR (stable_of ro) (\<lambda>v.
     thenR (arm_stats_of C now ro Stable_Arm v) (\<lambda>stb.
     thenR (arm_stats_of C now ro Candidate_Arm (ro_candidate ro)) (\<lambda>cand. retR (stb, cand))))"

text \<open>The flush of the staged lock row: an IntegrityError when the model is locked.\<close>

definition lock_taken :: "string \<Rightarrow> ddb \<Rightarrow> bool" where
  "lock_taken m d \<longleftrightarrow> lock_of m d \<noteq> None"

definition insert_lock :: "time \<Rightarrow> string \<Rightarrow> string \<Rightarrow> time \<Rightarrow> ddb \<Rightarrow> ddb" where
  "insert_lock now m holder ttl d = (case add_lock now m holder ttl d of None \<Rightarrow> d | Some d' \<Rightarrow> d')"

definition lock_model :: "'w controller \<Rightarrow> time \<Rightarrow> string \<Rightarrow> string \<Rightarrow> ('w sess, bool) run" where
  "lock_model C now m holder =
     thenR (readD (\<lambda>d. fst (take_over_expired_lock now m holder (model_lock_ttl_s (ct_settings C)) d))) (\<lambda>expired.
     thenR (writeD (\<lambda>d. snd (take_over_expired_lock now m holder (model_lock_ttl_s (ct_settings C)) d))) (\<lambda>_.
       if expired then thenR commit (\<lambda>_. retR True)
       else thenR db_io (\<lambda>_.
            thenR (readD (lock_taken m)) (\<lambda>taken.
              if taken then thenR rollback (\<lambda>_. retR False)
              else thenR (writeD (insert_lock now m holder (model_lock_ttl_s (ct_settings C)))) (\<lambda>_.
                   thenR commit (\<lambda>_. retR True))))))"

definition unlock_model :: "string \<Rightarrow> string \<Rightarrow> ('w sess, unit) run" where
  "unlock_model m holder = thenR rollback (\<lambda>_. thenR (writeD (release_lock m holder)) (\<lambda>_. commit))"

definition past :: "time \<Rightarrow> time option \<Rightarrow> bool" where
  "past now deadline \<longleftrightarrow> (case deadline of None \<Rightarrow> False | Some t \<Rightarrow> t \<le> now)"

definition await_approval :: "'w controller \<Rightarrow> time \<Rightarrow> string \<Rightarrow> rollout_row \<Rightarrow> ('w sess, tick_result) run" where
  "await_approval C now rid ro =
     thenR (record_move C now rid AWAITING_APPROVAL ''system'' None None (Some (now + p_approval_ttl_s (ro_policy ro)))) (\<lambda>_.
     thenR commit (\<lambda>_. retR (Went AWAITING_APPROVAL)))"

definition end_as :: "'w controller \<Rightarrow> time \<Rightarrow> string \<Rightarrow> roll_state \<Rightarrow> ('w sess, tick_result) run" where
  "end_as C now rid to = thenR (end_without_promotion C now rid to ''system'') (\<lambda>_. retR (Went to))"

definition promote_as :: "'w controller \<Rightarrow> time \<Rightarrow> string \<Rightarrow> ('w sess, tick_result) run" where
  "promote_as C now rid = thenR (promote_rollout C now rid ''system'') (\<lambda>_. retR (Went PROMOTED))"

definition advance_shadow ::
  "'w controller \<Rightarrow> time \<Rightarrow> string \<Rightarrow> rollout_row \<Rightarrow> verdict \<Rightarrow> ('w sess, tick_result) run" where
  "advance_shadow C now rid ro health =
     (if health = Healthy
      then (case p_shadow_then (ro_policy ro) of
          TO_PROMOTE \<Rightarrow> promote_as C now rid
        | TO_CANARY \<Rightarrow> thenR (enter_canary C now rid ''system'') (\<lambda>_. retR (Went CANARY))
        | TO_MANUAL \<Rightarrow> await_approval C now rid ro)
      else if past now (ro_deadline ro) then end_as C now rid EXPIRED
      else retR Waiting)"

definition advance_canary ::
  "'w controller \<Rightarrow> time \<Rightarrow> string \<Rightarrow> rollout_row \<Rightarrow> verdict \<Rightarrow> ('w sess, tick_result) run" where
  "advance_canary C now rid ro health =
     (if health \<noteq> Healthy \<or> now - ro_started ro < p_canary_step_hold_s (ro_policy ro) then retR Waiting
      else if length (p_canary_steps (ro_policy ro)) \<le> ro_step ro + 1 then raiseR (err AdaptationError [])
      else let nxt = ro_step ro + 1; percent = p_canary_steps (ro_policy ro) ! nxt in
        if 100 \<le> percent then promote_as C now rid
        else thenR (split_to C rid percent) (\<lambda>_.
             thenR (record_move C now rid CANARY ''system'' (Some percent) (Some nxt) None) (\<lambda>_.
             thenR commit (\<lambda>_. retR (Went CANARY)))))"

definition advance_ab ::
  "'w controller \<Rightarrow> time \<Rightarrow> string \<Rightarrow> rollout_row \<Rightarrow> arm_stats \<Rightarrow> arm_stats \<Rightarrow> ('w sess, tick_result) run" where
  "advance_ab C now rid ro stb cand =
     (if ro_deadline ro \<noteq> None \<and> \<not> past now (ro_deadline ro) then retR Waiting
      else case (case ab_test (ct_welch C) (ro_policy ro) stb cand of
             Better \<Rightarrow> AB_PROMOTE | Worse \<Rightarrow> AB_ROLLBACK | Inconclusive \<Rightarrow> p_ab_inconclusive (ro_policy ro)) of
          AB_PROMOTE \<Rightarrow> promote_as C now rid
        | AB_MANUAL \<Rightarrow> await_approval C now rid ro
        | AB_ROLLBACK \<Rightarrow> end_as C now rid ROLLED_BACK)"

definition advance :: "'w controller \<Rightarrow> time \<Rightarrow> string \<Rightarrow> ('w sess, tick_result) run" where
  "advance C now rid =
     thenR (get_rollout rid) (\<lambda>ro.
       if ro_state ro = AWAITING_APPROVAL
       then if past now (ro_deadline ro) then end_as C now rid EXPIRED else retR Waiting
       else thenR (model_name (ro_model ro)) (\<lambda>_.
            thenR (both_stats C now ro) (\<lambda>(stb, cand).
              let health = evaluate_health (ro_policy ro) stb cand in
              if broken health then end_as C now rid ROLLED_BACK
              else if ro_state ro = SHADOW then advance_shadow C now rid ro health
              else if ro_state ro = CANARY then advance_canary C now rid ro health
              else advance_ab C now rid ro stb cand)))"

definition rollout_holder :: "string \<Rightarrow> string" where
  "rollout_holder rid = ''rollout:'' @ rid"

definition tick_unavailable :: "time \<Rightarrow> string \<Rightarrow> ('w sess, tick_result) run" where
  "tick_unavailable now rid =
     thenR rollback (\<lambda>_.
     thenR (get_rollout rid) (\<lambda>_.
     thenR (add_note now rid) (\<lambda>_.
     thenR commit (\<lambda>_. retR Unavailable))))"

definition tick_locked :: "'w controller \<Rightarrow> time \<Rightarrow> string \<Rightarrow> ('w sess, tick_result) run" where
  "tick_locked C now rid =
     thenR (get_rollout rid) (\<lambda>ro.
       if \<not> is_active (ro_state ro) then retR Ended
       else catchR (advance C now rid) (\<lambda>e. kind RolloutMetricsUnavailableError e \<or> kind DeploymentError e)
         (\<lambda>_. tick_unavailable now rid))"

definition tick :: "'w controller \<Rightarrow> time \<Rightarrow> string \<Rightarrow> ('w sess, tick_result) run" where
  "tick C now rid =
     thenR (get_rollout rid) (\<lambda>ro.
       if \<not> is_active (ro_state ro) then retR Ended
       else thenR (lock_model C now (ro_model ro) (rollout_holder rid)) (\<lambda>got.
         if \<not> got then retR Busy
         else finallyR (tick_locked C now rid) (unlock_model (ro_model ro) (rollout_holder rid))))"

fun tick_each :: "'w controller \<Rightarrow> time \<Rightarrow> string list \<Rightarrow> ('w sess, (string \<times> (string + tick_result)) list) run" where
  "tick_each C now [] = retR []"
| "tick_each C now (rid # rids) =
     thenR (catchR (thenR (tick C now rid) (\<lambda>x. retR (Inr x))) (kind AdaptationError)
       (\<lambda>e. thenR rollback (\<lambda>_. retR (Inl (e_code e))))) (\<lambda>out.
     thenR (tick_each C now rids) (\<lambda>outs. retR ((rid, out) # outs)))"

definition tick_all :: "'w controller \<Rightarrow> time \<Rightarrow> ('w sess, (string \<times> (string + tick_result)) list) run" where
  "tick_all C now = thenR (readD (\<lambda>d. map ro_id (list_rollouts None None (Some True) 10000 0 d))) (\<lambda>rids.
     tick_each C now rids)"

section \<open>Operator actions\<close>

definition locked_action :: "'w controller \<Rightarrow> time \<Rightarrow> string \<Rightarrow> ('w sess, rollout_row) run" where
  "locked_action C now rid =
     thenR (get_rollout rid) (\<lambda>ro.
       if \<not> is_active (ro_state ro) then raiseR (err RolloutStateError [(''rollout_id'', CStr rid)])
       else thenR (lock_model C now (ro_model ro) (rollout_holder rid)) (\<lambda>got.
         if \<not> got then raiseR (err RolloutStateError [(''rollout_id'', CStr rid), (''model_id'', CStr (ro_model ro))])
         else get_rollout rid))"

definition decide :: "string \<Rightarrow> string \<Rightarrow> ('w sess, unit) run" where
  "decide rid actor = set_rollout rid (\<lambda>ro. ro\<lparr>ro_decided_by := Some actor\<rparr>)"

definition approve_locked :: "'w controller \<Rightarrow> time \<Rightarrow> string \<Rightarrow> string \<Rightarrow> rollout_row \<Rightarrow> ('w sess, rollout_row) run" where
  "approve_locked C now rid actor ro =
     (if ro_state ro \<noteq> AWAITING_APPROVAL then raiseR (err RolloutStateError [(''rollout_id'', CStr rid)])
      else if past now (ro_deadline ro)
      then thenR (end_without_promotion C now rid EXPIRED ''system'') (\<lambda>_.
           raiseR (err RolloutStateError [(''rollout_id'', CStr rid)]))
      else thenR (decide rid actor) (\<lambda>_.
           thenR (if p_approval_canary (ro_policy ro) then enter_canary C now rid actor
                  else promote_rollout C now rid actor) (\<lambda>_. get_rollout rid)))"

definition approve :: "'w controller \<Rightarrow> time \<Rightarrow> string \<Rightarrow> string \<Rightarrow> ('w sess, rollout_row) run" where
  "approve C now rid actor = thenR (locked_action C now rid) (\<lambda>ro.
     finallyR (approve_locked C now rid actor ro) (unlock_model (ro_model ro) (rollout_holder rid)))"

definition reject :: "'w controller \<Rightarrow> time \<Rightarrow> string \<Rightarrow> string \<Rightarrow> ('w sess, rollout_row) run" where
  "reject C now rid actor = thenR (locked_action C now rid) (\<lambda>ro.
     finallyR (thenR (decide rid actor) (\<lambda>_.
               thenR (end_without_promotion C now rid REJECTED actor) (\<lambda>_. get_rollout rid)))
       (unlock_model (ro_model ro) (rollout_holder rid)))"

definition arm_of :: "string \<Rightarrow> arm option" where
  "arm_of s = map_of [(''stable'', Stable_Arm), (''candidate'', Candidate_Arm)] s"

definition observe :: "time \<Rightarrow> string \<Rightarrow> string \<Rightarrow> nat \<Rightarrow> (string \<times> rat) list \<Rightarrow> ('w sess, observation) run" where
  "observe when rid arm requests metrics =
     thenR (get_rollout rid) (\<lambda>ro.
       if \<not> is_active (ro_state ro) then raiseR (err RolloutStateError [(''rollout_id'', CStr rid)])
       else case arm_of arm of
         None \<Rightarrow> raiseR (err RolloutStateError [(''arm'', CStr arm)])
       | Some ar \<Rightarrow> let row = \<lparr>ob_rollout = rid, ob_arm = ar, ob_requests = requests, ob_metrics = metrics, ob_at = when\<rparr> in
           thenR (writeD (\<lambda>d. d\<lparr>observations := observations d @ [row]\<rparr>)) (\<lambda>_. thenR commit (\<lambda>_. retR row)))"

section \<open>The api metrics source\<close>

fun add_sample :: "string \<Rightarrow> rat \<Rightarrow> (string \<times> rat list) list \<Rightarrow> (string \<times> rat list) list" where
  "add_sample m x [] = [(m, [x])]"
| "add_sample m x ((n, xs) # rest) = (if n = m then (n, xs @ [x]) # rest else (n, xs) # add_sample m x rest)"

definition window_stats :: "string \<Rightarrow> arm \<Rightarrow> time \<Rightarrow> time \<Rightarrow> observation list \<Rightarrow> arm_stats" where
  "window_stats rid arm start until obs =
     (let rows = filter (\<lambda>ob. ob_rollout ob = rid \<and> ob_arm ob = arm \<and> start \<le> ob_at ob \<and> ob_at ob \<le> until) obs
      in \<lparr>ar_samples = fold (\<lambda>ob. fold (\<lambda>(m, x). add_sample m x) (ob_metrics ob)) rows [],
          ar_count = sum_list (map ob_requests rows)\<rparr>)"

definition api_observe :: "string \<Rightarrow> arm \<Rightarrow> string \<Rightarrow> time \<Rightarrow> time \<Rightarrow> ddb \<Rightarrow> ('w, arm_stats) act" where
  "api_observe rid arm v start until d = retA (window_stats rid arm start until (observations d))"

end
