(* ===== verification/Promotion_Laws.thy ===== *)
theory Promotion_Laws
  imports Promotion
begin

text \<open>
  What a move of the live alias does to the alias and to the promotion history: the rows it
  writes (over any registry and deployer) and, over a registry and a serving system that keep
  the laws of \<open>live_delivery\<close>, where LIVE points afterwards.
\<close>

section \<open>The tables a move touches\<close>

text \<open>What does not depend on the promotion history and the audit trail survives a move.\<close>

definition beside_moves :: "(ddb \<Rightarrow> bool) \<Rightarrow> bool" where
  "beside_moves P \<longleftrightarrow> (\<forall>d ps as. P d \<longrightarrow> P (d\<lparr>promos := ps\<rparr>) \<and> P (d\<lparr>audits := as\<rparr>))"

lemma keeps_audit_move: "beside_moves P \<Longrightarrow> keepsR (both P) (audit_move a status)"
  unfolding audit_move_def by (rule keepsR_writeD) (auto simp: beside_moves_def record_audit_def)

lemma keeps_add_promo: "beside_moves P \<Longrightarrow> keepsR (both P) (add_promo row)"
  unfolding add_promo_def by (intro keeps_intros keepsR_writeD) (auto simp: beside_moves_def)

lemma keeps_promotion_failed:
  "beside_moves P \<Longrightarrow> keepsR (both P) (promotion_failed R D la a name previous stage prior e)"
  unfolding promotion_failed_def audit_failed_move_def by (intro keeps_intros keeps_audit_move)

lemma keeps_model_meta [keeps_intros]: "keepsR (both P) (model_meta_of m)"
  unfolding model_meta_of_def by (intro keeps_intros)

lemma keeps_promote: "beside_moves P \<Longrightarrow> keepsR (both P) (promote_version R D la a)"
  unfolding promote_version_def verified_move_def already_live_def move_live_def deploy_move_def finish_move_def
  by (intro keeps_intros keeps_audit_move keeps_add_promo keeps_promotion_failed)

section \<open>Where LIVE points\<close>

text \<open>
  The laws: asking the serving system or sleeping moves no alias, what it serves is the alias
  \<open>da\<close>, and deploying the version LIVE already names leaves LIVE there (also when \<open>da\<close> is LIVE).
  No deployment moves an alias without asking the registry.
\<close>

locale live_delivery = alias_registry R live asked
  for R :: "'w registry" and live :: "'w \<Rightarrow> string \<Rightarrow> string \<Rightarrow> string option" and asked :: "'w \<Rightarrow> alias_request list" +
  fixes D :: "'w deployer" and la da :: string
  assumes status_live: "dp_status (de_port D) m w = (r, w') \<Longrightarrow> live w' = live w"
    and status_reports: "dp_status (de_port D) m w = (Inr st, w') \<Longrightarrow> ds_version st = live w m da"
    and sleep_live: "live (de_sleep D t w) = live w"
    and deploy_live: "dp_deploy (de_port D) tg w = (u, w') \<Longrightarrow> live w (t_model tg) la = Some (t_version tg)
      \<Longrightarrow> live w' (t_model tg) la = Some (t_version tg)"
    and status_asks: "dp_status (de_port D) m w = (r, w') \<Longrightarrow> asked w' = asked w"
    and sleep_asks: "asked (de_sleep D t w) = asked w"
    and deploy_asks: "dp_deploy (de_port D) tg w = (u, w') \<Longrightarrow> \<exists>more. asked w' = asked w @ more \<and> (more = [] \<longrightarrow> live w' = live w)"
    and restore_asks: "dp_restore (de_port D) m before w = (u, w') \<Longrightarrow> \<exists>more. asked w' = asked w @ more \<and> (more = [] \<longrightarrow> live w' = live w)"
begin

lemma poll_live: "poll D m v f dl w = Some y \<Longrightarrow> live (snd y) = live w"
  by (rule poll_keeps) (auto simp: sleep_live dest: status_live)

lemma wait_live: "wlp (wait_for D m v f) (\<lambda>r w'. live w' = live w) w"
  by (rule wlpI) (auto simp: wait_for_def dest!: poll_live)

lemma read_back_live: "read_back D m v w' \<Longrightarrow> live w' m da = v"
  by (metis read_back_def status_live status_reports)

lemma rollout_live:
  assumes "live w (t_model tg) la = Some (t_version tg)"
  shows "wlp (deployer_rollout D tg before) (\<lambda>r w'. \<forall>x. r = Inr x \<longrightarrow>
      live w' (t_model tg) la = Some (t_version tg) \<and> live w' (t_model tg) da = Some (t_version tg)) w"
proof -
  obtain u w1 where d: "dp_deploy (de_port D) tg w = (u, w1)" by (cases "dp_deploy (de_port D) tg w")
  have l: "live w1 (t_model tg) la = Some (t_version tg)" using deploy_live[OF d assms] .
  have "wlp (wait_for D m v True) (\<lambda>r w'. live w' = live w1 \<and> (\<forall>x. r = Inr x \<longrightarrow> live w' m da = v)) w1" for m v
    by (rule wlp_conj[OF wait_live]) (auto intro: wlp_wait_for read_back_live)
  then have "wlp (wait_for D (t_model tg) (Some (t_version tg)) True) (\<lambda>r w'. \<forall>x. r = Inr x \<longrightarrow>
      live w' (t_model tg) la = Some (t_version tg) \<and> live w' (t_model tg) da = Some (t_version tg)) w1"
    by (rule wlp_mono) (use l in auto)
  then show ?thesis
    by (simp add: deployer_rollout_def wlp_simps d split: sum.split)
qed

lemma keeps_live [keeps_intros]:
  "keepsA live (rg_get_alias R n a)" "keepsA live (rg_get_version R n v)" "keepsA live (rg_set_tags R n v ts)"
  "keepsA live (rg_download R n v)" "keepsA live (dp_status (de_port D) m)"
  by (auto intro!: keepsAI dest: get_keeps version_keeps tags_keep download_keeps status_live)

lemma keeps_live_reads [keeps_intros]:
  "keepsA live (current_live R n a)" "keepsA live (serving_target R D n)" "keepsA live (read_back_alias R n a v)"
  "keepsA live (set_status_tags R n v p)" "keepsA live (verify_version_artifact R n v)"
  unfolding current_live_def serving_target_def serving_def read_back_alias_def set_status_tags_def
    verify_version_artifact_def check_size_def verify_checksum_def Let_def
  by (intro keeps_intros)+

lemma current_live_reports: "current_live R n a w = (Inr v, w') \<Longrightarrow> v = live w n a"
  by (auto simp: current_live_def catchA_def thenA_def retA_def split: prod.splits sum.splits if_splits
      dest: get_reports get_missing)

text \<open>The last alias request so far was to put the alias back to a version, and it was refused.\<close>

definition refused :: "string \<Rightarrow> string option \<Rightarrow> 'w \<Rightarrow> bool" where
  "refused name v w \<longleftrightarrow> asked w \<noteq> [] \<and> last (asked w) = (name, la, v, False)"

lemma restore_live: "live (snd (restore_alias R n la v w)) n la = v \<or> refused n v (snd (restore_alias R n la v w))"
proof -
  obtain r w' where p: "put_alias R n la v w = (r, w')" by (cases "put_alias R n la v w")
  have "live w' n la = v" if "r = Inr u" for u
    using p that by (auto simp: put_alias_def set_live_def dest!: set_sets delete_deletes split: option.splits)
  moreover have "refused n v w'" if "r = Inl e" for e
    using p that by (auto simp: put_alias_def refused_def dest!: set_asks delete_asks split: option.splits)
  ultimately show ?thesis by (cases r) (auto simp: restore_alias_def catchA_def p retA_def)
qed

definition live_restored :: "string \<Rightarrow> string option \<Rightarrow> 'w \<Rightarrow> bool" where
  "live_restored name previous w' \<longleftrightarrow> live w' name la = previous \<or> refused name previous w'"

lemma wlp_audit_failed:
  "promos (ss_db s) = ps \<Longrightarrow> promos (ss_saved s) = ps \<Longrightarrow>
     wlp (audit_failed_move a) (\<lambda>r s'. r = Inr () \<and> promos (ss_saved s') = ps
       \<and> promos (ss_db s') = ps \<and> ss_world s' = ss_world s) s"
  unfolding audit_failed_move_def audit_move_def
  by (auto simp: wlp_simps record_audit_def intro!: wlp_commitI)

definition undone :: "string \<Rightarrow> string option \<Rightarrow> promo_row list \<Rightarrow> exn + promo_row \<Rightarrow> 'w sess \<Rightarrow> bool" where
  "undone name previous ps r s' \<longleftrightarrow> (\<exists>e. r = Inl e \<and> e_class e = PromotionError)
     \<and> live_restored name previous (ss_world s') \<and> promos (ss_saved s') = ps"

definition move_post ::
  "promo_args \<Rightarrow> string \<Rightarrow> string option \<Rightarrow> promo_row list \<Rightarrow> promo_row \<Rightarrow> exn + promo_row \<Rightarrow> 'w sess \<Rightarrow> bool" where
  "move_post a name previous ps row r s' \<longleftrightarrow> undone name previous ps r s'
     \<or> r = Inr row \<and> live (ss_world s') name la = Some (pa_version a)
        \<and> live (ss_world s') name da = Some (pa_version a) \<and> promos (ss_saved s') = ps @ [row]"

lemma kind_PromotionError: "kind PromotionError e \<Longrightarrow> e_class e = PromotionError"
  by (cases "e_class e") (simp_all add: kind_def is_a_def ancestors_def)

lemma wlp_failure_reported:
  assumes "promos (ss_saved s) = ps" "promos (ss_db s) = ps" "live_restored name previous (ss_world s)"
  shows "wlp (thenR (audit_failed_move a)
      (\<lambda>_. raiseR (if kind PromotionError e then e else err PromotionError [(''model_id'', CStr (pa_model a))])))
     (undone name previous ps) s"
  unfolding wlp_thenR
  by (rule wlp_mono[OF wlp_audit_failed[OF assms(2,1)]])
    (use assms(3) kind_PromotionError in \<open>auto simp: wlp_simps undone_def\<close>)

lemma wlp_alias_put_back:
  assumes "promos (ss_saved s) = ps" "promos (ss_db s) = ps"
    and "stage = Nothing_Done \<Longrightarrow> live (ss_world s) name la = previous"
  shows "wlp (thenR (if stage \<noteq> Nothing_Done then onW (restore_alias R name la previous) else retR ())
      (\<lambda>_. thenR (audit_failed_move a)
        (\<lambda>_. raiseR (if kind PromotionError e then e else err PromotionError [(''model_id'', CStr (pa_model a))]))))
     (undone name previous ps) s"
proof (cases "stage = Nothing_Done")
  case True
  then have "live_restored name previous (ss_world s)" using assms(3) by (simp add: live_restored_def)
  then show ?thesis using assms(1,2) wlp_failure_reported by (simp add: True wlp_thenR wlp_retR)
next
  case False
  obtain u where "fst (restore_alias R name la previous (ss_world s)) = Inr u"
    by (auto simp: restore_alias_def catchA_def retA_def split: prod.splits sum.splits)
  moreover have "live_restored name previous (snd (restore_alias R name la previous (ss_world s)))"
    using restore_live by (simp add: live_restored_def)
  ultimately show ?thesis using assms(1,2) False wlp_failure_reported
    by (simp add: wlp_thenR wlp_onW)
qed

lemma wlp_promotion_failed:
  assumes "stage = Nothing_Done \<Longrightarrow> live (ss_world s) name la = previous"
    and "promos (ss_saved s) = ps"
  shows "wlp (promotion_failed R D la a name previous stage before e) (undone name previous ps) s"
proof -
  let ?rest = "thenR (if stage \<noteq> Nothing_Done then onW (restore_alias R name la previous) else retR ())
      (\<lambda>_. thenR (audit_failed_move a)
        (\<lambda>_. raiseR (if kind PromotionError e then e else err PromotionError [(''model_id'', CStr (pa_model a))])))"
  have rest: "wlp ?rest (undone name previous ps) (s\<lparr>ss_db := ss_saved s, ss_world := w\<rparr>)"
    if "stage = Nothing_Done \<Longrightarrow> w = ss_world s" for w
    by (rule wlp_alias_put_back) (use that assms in auto)
  have "s\<lparr>ss_db := ss_saved s\<rparr> = s\<lparr>ss_db := ss_saved s, ss_world := ss_world s\<rparr>" by simp
  then have same: "wlp ?rest (undone name previous ps) (s\<lparr>ss_db := ss_saved s\<rparr>)" using rest by metis
  show ?thesis
    unfolding promotion_failed_def
  proof (rule wlp_then[where P = "\<lambda>r s1. r = Inr () \<and> s1 = s\<lparr>ss_db := ss_saved s\<rparr>"])
    fix u s1
    assume s1: "Inr u = Inr () \<and> s1 = s\<lparr>ss_db := ss_saved s\<rparr>"
    let ?reverts = "stage = Deployed \<or> stage = Rollout_Started \<and> \<not> kind DeploymentError e"
    show "wlp (thenR (if ?reverts then thenR (onWR (revert D name before)) (\<lambda>_. retR ()) else retR ()) (\<lambda>_. ?rest))
      (undone name previous ps) s1"
    proof (rule wlp_then[where P = "\<lambda>r s2. r = Inr () \<and> (s2 = s1 \<or> ?reverts \<and> (\<exists>w. s2 = s1\<lparr>ss_world := w\<rparr>))"])
      show "wlp (if ?reverts then thenR (onWR (revert D name before)) (\<lambda>_. retR ()) else retR ())
        (\<lambda>r s2. r = Inr () \<and> (s2 = s1 \<or> ?reverts \<and> (\<exists>w. s2 = s1\<lparr>ss_world := w\<rparr>))) s1"
        by (auto simp: wlp_simps intro!: wlp_revert)
    next
      fix x s2
      assume "Inr x = Inr () \<and> (s2 = s1 \<or> ?reverts \<and> (\<exists>w. s2 = s1\<lparr>ss_world := w\<rparr>))"
      then show "wlp ?rest (undone name previous ps) s2" using s1 same rest by auto
    qed simp
  qed (simp_all add: wlp_rollback)
qed

lemma wlp_add_promo:
  assumes "promos (ss_saved s) = ps" "promos (ss_db s) = ps"
  shows "wlp (add_promo row) (\<lambda>r s'. ss_world s' = ss_world s \<and> promos (ss_saved s') = ps
     \<and> (r = Inr () \<longrightarrow> promos (ss_db s') = ps @ [row])) s"
  using assms by (auto simp: add_promo_def wlp_simps split: list.split bool.split)

text \<open>The row is staged: in the session, not yet saved.\<close>

definition staged :: "promo_row list \<Rightarrow> promo_row \<Rightarrow> 'w sess \<Rightarrow> bool" where
  "staged ps row s \<longleftrightarrow> promos (ss_saved s) = ps \<and> promos (ss_db s) = ps @ [row]"

lemma live_after: "keepsA live m \<Longrightarrow> live (snd (m w)) = live w"
  by (simp add: keepsA_def)

lemma wlp_failed:
  assumes "stage = Nothing_Done \<Longrightarrow> live (ss_world s) name la = previous" "promos (ss_saved s) = ps"
  shows "wlp (promotion_failed R D la a name previous stage before e) (move_post a name previous ps row) s"
  by (rule wlp_mono[OF wlp_promotion_failed]) (use assms in \<open>auto simp: move_post_def\<close>)

lemma wlp_finish_move:
  assumes "staged ps row s" "live (ss_world s) name la = Some (pa_version a)" "live (ss_world s) name da = Some (pa_version a)"
  shows "wlp (finish_move R D la a name previous before row) (move_post a name previous ps row) s"
  unfolding finish_move_def
proof (rule wlp_else[where P = "\<lambda>r s1. live (ss_world s1) = live (ss_world s)
    \<and> (case r of Inl _ \<Rightarrow> promos (ss_saved s1) = ps | Inr _ \<Rightarrow> promos (ss_saved s1) = ps @ [row])"])
  show "wlp (thenR (onW (set_status_tags R name (pa_version a) previous)) (\<lambda>_. thenR (audit_move a ''OK'') (\<lambda>_. commit)))
    (\<lambda>r s1. live (ss_world s1) = live (ss_world s)
      \<and> (case r of Inl _ \<Rightarrow> promos (ss_saved s1) = ps | Inr _ \<Rightarrow> promos (ss_saved s1) = ps @ [row])) s"
    using assms(1) by (auto simp: wlp_simps audit_move_def record_audit_def staged_def live_after keeps_live_reads
        split: sum.split intro!: wlp_commitI)
qed (use assms in \<open>auto intro!: wlp_failed simp: wlp_retR move_post_def\<close>)

lemma wlp_deploy_move:
  assumes "t_model tgt = name" "t_version tgt = pa_version a"
    and "staged ps row s" "live (ss_world s) name la = Some (pa_version a)"
  shows "wlp (deploy_move R D la a name previous tgt before row) (move_post a name previous ps row) s"
  unfolding deploy_move_def
proof (rule wlp_else[where P = "\<lambda>r s1. staged ps row s1 \<and> live (ss_world s1) name la = Some (pa_version a)"])
  fix u :: unit and s1 :: "'w sess"
  assume s1: "staged ps row s1 \<and> live (ss_world s1) name la = Some (pa_version a)"
  show "wlp (elseR (onWR (deployer_rollout D tgt before)) (promotion_failed R D la a name previous Rollout_Started before)
      (\<lambda>_. finish_move R D la a name previous before row)) (move_post a name previous ps row) s1"
  proof (rule wlp_else[where P = "\<lambda>r s2. staged ps row s2 \<and> (\<forall>x. r = Inr x \<longrightarrow>
      live (ss_world s2) name la = Some (pa_version a) \<and> live (ss_world s2) name da = Some (pa_version a))"])
    show "wlp (onWR (deployer_rollout D tgt before)) (\<lambda>r s2. staged ps row s2 \<and> (\<forall>x. r = Inr x \<longrightarrow>
      live (ss_world s2) name la = Some (pa_version a) \<and> live (ss_world s2) name da = Some (pa_version a))) s1"
      unfolding wlp_onWR
      by (rule wlp_mono[OF rollout_live]) (use s1 assms in \<open>auto simp: staged_def\<close>)
  qed (auto intro!: wlp_failed wlp_finish_move simp: staged_def)
qed (use assms in \<open>auto intro!: wlp_failed simp: staged_def wlp_onW live_after keeps_live_reads\<close>)

lemma wlp_move_live:
  assumes name: "t_model tgt = name" "t_version tgt = pa_version a"
    and prev: "live (ss_world s) name la = previous"
    and ps: "promos (ss_saved s) = ps" "promos (ss_db s) = ps"
  shows "wlp (move_live R D la a name previous tgt row) (move_post a name previous ps row) s"
  unfolding move_live_def
proof (rule wlp_else[where P = "\<lambda>r s1. live (ss_world s1) = live (ss_world s) \<and> promos (ss_saved s1) = ps
    \<and> (\<forall>x. r = Inr x \<longrightarrow> staged ps row s1)"])
  show "wlp (thenR (add_promo row) (\<lambda>_. onW (serving_target R D name)))
    (\<lambda>r s1. live (ss_world s1) = live (ss_world s) \<and> promos (ss_saved s1) = ps \<and> (\<forall>x. r = Inr x \<longrightarrow> staged ps row s1)) s"
    by (rule wlp_then[OF wlp_add_promo[OF ps]]) (auto simp: wlp_onW live_after keeps_live_reads staged_def)
next
  fix before :: "target option" and s1 :: "'w sess"
  assume s1: "live (ss_world s1) = live (ss_world s) \<and> promos (ss_saved s1) = ps
    \<and> (\<forall>x. Inr before = Inr x \<longrightarrow> staged ps row s1)"
  show "wlp (elseR (onW (rg_set_alias R name la (pa_version a))) (promotion_failed R D la a name previous Nothing_Done before)
    (\<lambda>_. deploy_move R D la a name previous tgt before row)) (move_post a name previous ps row) s1"
  proof (rule wlp_else[where P = "\<lambda>r s2. staged ps row s2 \<and> (case r of Inl e \<Rightarrow> live (ss_world s2) = live (ss_world s)
      | Inr _ \<Rightarrow> live (ss_world s2) name la = Some (pa_version a))"])
    show "wlp (onW (rg_set_alias R name la (pa_version a))) (\<lambda>r s2. staged ps row s2 \<and> (case r of
        Inl e \<Rightarrow> live (ss_world s2) = live (ss_world s) | Inr _ \<Rightarrow> live (ss_world s2) name la = Some (pa_version a))) s1"
      using s1 set_sets[of name la "pa_version a" "ss_world s1"] set_fails[of name la "pa_version a" "ss_world s1"]
      by (cases "rg_set_alias R name la (pa_version a) (ss_world s1)") (auto simp: wlp_onW set_live_def staged_def split: sum.split)
  qed (auto intro!: wlp_failed wlp_deploy_move name simp: prev staged_def)
qed (auto intro!: wlp_failed simp: prev)

text \<open>The whole of \<^verbatim>\<open>promote_version\<close> from a clean session.\<close>

definition promote_post :: "promo_args \<Rightarrow> 'w sess \<Rightarrow> exn + promo_row \<Rightarrow> 'w sess \<Rightarrow> bool" where
  "promote_post a s r s' \<longleftrightarrow>
     (case by_key mm_model (pa_model a) (metas (ss_db s)) of
        None \<Rightarrow> live (ss_world s') = live (ss_world s) \<and> promos (ss_saved s') = promos (ss_saved s)
      | Some meta \<Rightarrow> let name = mm_name meta; before = live (ss_world s) name la in
          case r of
            Inl e \<Rightarrow> promos (ss_saved s') = promos (ss_saved s) \<and> live_restored name before (ss_world s')
          | Inr row \<Rightarrow> earlier_promotion (pa_key a) (ss_db s) = Some row \<and> s' = s
              \<or> promos (ss_saved s') = promos (ss_saved s) @ [row] \<and> live (ss_world s') name la = Some (pa_version a)
                \<and> pm_from row = before \<and> pm_to row = pa_version a
                \<and> (pm_status row = APPLIED \<longrightarrow> live (ss_world s') name da = Some (pa_version a)))"

lemma wlp_verified_move:
  fixes s :: "'w sess"
  assumes "promos (ss_saved s) = ps" "promos (ss_db s) = ps" "live (ss_world s) name la = previous"
  shows "wlp (verified_move R D la a name previous)
     (\<lambda>r s'. (\<exists>e. r = Inl e \<and> promos (ss_saved s') = ps \<and> live_restored name previous (ss_world s'))
        \<or> (\<exists>sha. move_post a name previous ps (promo_row_of a previous APPLIED sha) r s')) s"
    (is "wlp _ ?Q s")
  unfolding verified_move_def
proof (rule wlp_then[where P = "\<lambda>r s1. live (ss_world s1) = live (ss_world s) \<and> ss_db s1 = ss_db s \<and> ss_saved s1 = ss_saved s"])
  fix x :: "artifact \<times> string" and s1 :: "'w sess"
  assume s1: "live (ss_world s1) = live (ss_world s) \<and> ss_db s1 = ss_db s \<and> ss_saved s1 = ss_saved s"
  obtain loc digest where x: "x = (loc, digest)" by (cases x)
  show "wlp (case x of (loc, digest) \<Rightarrow> thenR (onW (rg_get_version R name (pa_version a))) (\<lambda>info.
         move_live R D la a name previous
           \<lparr>t_model = name, t_version = pa_version a, t_source = mv_source info, t_artifact = Some loc\<rparr>
           (promo_row_of a previous APPLIED (Some digest)))) ?Q s1"
    unfolding x prod.case
  proof (rule wlp_then[where P = "\<lambda>r s2. live (ss_world s2) = live (ss_world s) \<and> ss_db s2 = ss_db s \<and> ss_saved s2 = ss_saved s"])
    fix info and s2 :: "'w sess"
    assume s2: "live (ss_world s2) = live (ss_world s) \<and> ss_db s2 = ss_db s \<and> ss_saved s2 = ss_saved s"
    show "wlp (move_live R D la a name previous
           \<lparr>t_model = name, t_version = pa_version a, t_source = mv_source info, t_artifact = Some loc\<rparr>
           (promo_row_of a previous APPLIED (Some digest))) ?Q s2"
      by (rule wlp_mono[OF wlp_move_live]) (use s2 assms in auto)
  qed (use s1 assms in \<open>auto simp: wlp_onW live_after keeps_live live_restored_def\<close>)
qed (use assms in \<open>auto simp: wlp_onW live_after keeps_live_reads live_restored_def\<close>)

lemma wlp_already_live:
  fixes s :: "'w sess"
  assumes "promos (ss_saved s) = ps" "promos (ss_db s) = ps"
  shows "wlp (already_live a previous)
    (\<lambda>r s'. ss_world s' = ss_world s \<and> (case r of Inl e \<Rightarrow> promos (ss_saved s') = ps
       | Inr row \<Rightarrow> row = promo_row_of a previous NO_CHANGE None \<and> promos (ss_saved s') = ps @ [row])) s"
    (is "wlp _ ?Q s")
  unfolding already_live_def Let_def
proof (rule wlp_then[OF wlp_add_promo[OF assms]])
  fix u and s1 :: "'w sess"
  assume s1: "ss_world s1 = ss_world s \<and> promos (ss_saved s1) = ps
    \<and> (Inr u = Inr () \<longrightarrow> promos (ss_db s1) = ps @ [promo_row_of a previous NO_CHANGE None])"
  show "wlp (thenR commit (\<lambda>_. retR (promo_row_of a previous NO_CHANGE None))) ?Q s1"
    unfolding wlp_thenR by (rule wlp_commitI) (use s1 in \<open>simp_all add: wlp_retR\<close>)
qed simp

lemma wlp_promote:
  fixes s :: "'w sess"
  assumes clean: "promos (ss_saved s) = promos (ss_db s)"
  shows "wlp (promote_version R D la a) (promote_post a s) s"
proof (cases "earlier_promotion (pa_key a) (ss_db s)")
  case (Some row)
  then show ?thesis by (auto simp: promote_version_def wlp_simps promote_post_def Let_def split: option.split)
next
  case None
  show ?thesis
  proof (cases "by_key mm_model (pa_model a) (metas (ss_db s))")
    case no_meta: None
    then show ?thesis using None
      by (auto simp: promote_version_def model_meta_of_def wlp_simps promote_post_def)
  next
    case meta: (Some meta)
    let ?n = "mm_name meta" and ?w = "ss_world s"
    obtain q w1 where cl: "current_live R ?n la ?w = (q, w1)" by (cases "current_live R ?n la ?w")
    have l1: "live w1 = live ?w" using keeps_live_reads(1) cl by (metis keepsAD)
    let ?s1 = "s\<lparr>ss_world := w1\<rparr>"
    have conflict: "promote_post a s (Inl e) ?s1" for e
      using l1 by (simp add: promote_post_def Let_def meta live_restored_def)
    have moved: "wlp (verified_move R D la a ?n (live ?w ?n la)) (promote_post a s) ?s1"
      by (rule wlp_mono[OF wlp_verified_move[of ?s1 "promos (ss_saved s)"]])
        (use clean l1 in \<open>auto simp: promote_post_def Let_def meta move_post_def undone_def promo_row_of_def split: sum.split\<close>)
    have same: "wlp (already_live a (live ?w ?n la)) (promote_post a s) ?s1" if "live ?w ?n la = Some (pa_version a)"
      by (rule wlp_mono[OF wlp_already_live[of ?s1 "promos (ss_saved s)"]])
        (use clean l1 that in \<open>auto simp: promote_post_def Let_def meta promo_row_of_def live_restored_def split: sum.splits\<close>)
    consider e where "q = Inl e" | "q = Inr (live ?w ?n la)"
      using cl current_live_reports by (metis sum.exhaust)
    then show ?thesis
      using moved same by cases (auto simp: None meta cl conflict promote_version_def model_meta_of_def wlp_thenR
          wlp_readD wlp_retR wlp_raiseR wlp_onW)
  qed
qed

section \<open>No alias moves unasked\<close>

text \<open>Since the requests \<open>h\<close> more may have been made; as long as none was, LIVE is where it was.\<close>

definition asking :: "alias_request list \<Rightarrow> (string \<Rightarrow> string \<Rightarrow> string option) \<Rightarrow> 'w \<Rightarrow> bool" where
  "asking h L w \<longleftrightarrow> (\<exists>more. asked w = h @ more \<and> (more = [] \<longrightarrow> live w = L))"

lemma asking_more: "asking h L w \<Longrightarrow> asked w' = asked w @ x # xs \<Longrightarrow> asking h L w'"
  by (auto simp: asking_def)

lemma asking_same: "asking h L w \<Longrightarrow> asked w' = asked w \<Longrightarrow> live w' = live w \<Longrightarrow> asking h L w'"
  by (auto simp: asking_def)

lemma asking_moved: "asking h L w \<Longrightarrow> \<exists>more. asked w' = asked w @ more \<and> (more = [] \<longrightarrow> live w' = live w) \<Longrightarrow> asking h L w'"
  using asking_more asking_same by (metis append_Nil2 neq_Nil_conv)

lemma keeps_asked [keeps_intros]:
  "keepsA asked (rg_get_alias R n a)" "keepsA asked (rg_get_version R n v)" "keepsA asked (rg_set_tags R n v ts)"
  "keepsA asked (rg_download R n v)" "keepsA asked (dp_status (de_port D) m)"
  by (auto intro!: reads_ask keepsAI dest: status_asks)

lemma keeps_asked_reads [keeps_intros]:
  "keepsA asked (current_live R n a)" "keepsA asked (serving_target R D n)" "keepsA asked (read_back_alias R n a v)"
  "keepsA asked (set_status_tags R n v p)" "keepsA asked (verify_version_artifact R n v)"
  unfolding current_live_def serving_target_def serving_def read_back_alias_def set_status_tags_def
    verify_version_artifact_def check_size_def verify_checksum_def Let_def
  by (intro keeps_intros)+

lemma keeps_asking_read: "keepsA live m \<Longrightarrow> keepsA asked m \<Longrightarrow> keepsR (\<lambda>s. asking h L (ss_world s)) (onW m)"
  by (rule keeps_onW) (auto simp: keepsA_def intro: asking_same)

lemma keeps_asking_moves [keeps_intros]:
  "keepsR (\<lambda>s. asking h L (ss_world s)) (onW (rg_set_alias R n a v))"
  "keepsR (\<lambda>s. asking h L (ss_world s)) (onW (restore_alias R n a p))"
proof -
  show "keepsR (\<lambda>s. asking h L (ss_world s)) (onW (rg_set_alias R n a v))"
    by (rule keeps_onW) (metis asking_more set_asks prod.collapse)
  have "asking h L (snd (restore_alias R n a p w))" if "asking h L w" for w
  proof -
    obtain r w' where put: "put_alias R n a p w = (r, w')" by fastforce
    then have "asking h L w'" using that asking_more set_asks delete_asks
      by (cases p) (metis put_alias_def option.case(1), metis put_alias_def option.case(2))
    then show ?thesis using put by (cases r) (auto simp: restore_alias_def catchA_def retA_def)
  qed
  then show "keepsR (\<lambda>s. asking h L (ss_world s)) (onW (restore_alias R n a p))" by (rule keeps_onW)
qed

lemma keeps_asking_act: "keepsR (asking h L) (callA (dp_deploy (de_port D) tg))" "keepsR (asking h L) (callA (dp_restore (de_port D) m p))"
  unfolding keepsR_def wlp_callA using asking_moved deploy_asks restore_asks by (metis prod.collapse)+

lemma keeps_asking_wait: "keepsR (asking h L) (wait_for D m v f)"
proof (rule keepsRI, rule wlpI)
  fix w r w' assume w: "asking h L w" and run: "wait_for D m v f w = Some (r, w')"
  have "(live w', asked w') = (live w, asked w)"
    using run poll_keeps[of D "\<lambda>w. (live w, asked w)" m v f "de_clock D w + de_timeout D" w "(r, w')"]
    by (auto simp: wait_for_def sleep_live sleep_asks dest: status_live status_asks)
  then show "asking h L w'" using w asking_same by auto
qed

lemma keeps_asking_runs [keeps_intros]:
  "keepsR (\<lambda>s. asking h L (ss_world s)) (onWR (revert D m p))"
  "keepsR (\<lambda>s. asking h L (ss_world s)) (onWR (deployer_rollout D tg p))"
proof -
  have r: "keepsR (asking h L) (revert D m p)" for m
    unfolding revert_def by (intro keeps_intros keeps_asking_act keeps_asking_wait)
  then show "keepsR (\<lambda>s. asking h L (ss_world s)) (onWR (revert D m p))" by (rule keeps_onW)
  have "keepsR (asking h L) (deployer_rollout D tg p)"
    unfolding deployer_rollout_def by (intro keeps_intros keeps_asking_act keeps_asking_wait r)
  then show "keepsR (\<lambda>s. asking h L (ss_world s)) (onWR (deployer_rollout D tg p))" by (rule keeps_onW)
qed

lemma keeps_asking: "keepsR (\<lambda>s. asking h L (ss_world s)) (promote_version R D la a)"
  unfolding promote_version_def verified_move_def already_live_def move_live_def deploy_move_def finish_move_def
    promotion_failed_def audit_failed_move_def audit_move_def add_promo_def model_meta_of_def
  by (intro keeps_intros keeps_asking_read)

text \<open>What a promotion leaves, with the requests it made: an error leaves LIVE where it was, or its last
  request was to put LIVE back and was refused.\<close>

definition put_back_refused :: "alias_request list \<Rightarrow> string \<Rightarrow> string option \<Rightarrow> 'w \<Rightarrow> bool" where
  "put_back_refused h name v w \<longleftrightarrow> (\<exists>more. asked w = h @ more @ [(name, la, v, False)])"

lemma wlp_promote_error:
  fixes s :: "'w sess"
  assumes clean: "promos (ss_saved s) = promos (ss_db s)" and meta: "by_key mm_model (pa_model a) (metas (ss_db s)) = Some meta"
  shows "wlp (promote_version R D la a) (\<lambda>r s'. promote_post a s r s' \<and> (\<exists>more. asked (ss_world s') = asked (ss_world s) @ more)
    \<and> (\<forall>e. r = Inl e \<longrightarrow> live (ss_world s') (mm_name meta) la = live (ss_world s) (mm_name meta) la
        \<or> put_back_refused (asked (ss_world s)) (mm_name meta) (live (ss_world s) (mm_name meta) la) (ss_world s'))) s"
proof -
  have "asking (asked (ss_world s)) (live (ss_world s)) (ss_world s)" by (simp add: asking_def)
  note grown = keepsRD[OF keeps_asking this]
  show ?thesis
  proof (rule wlp_mono[OF wlp_conj[OF wlp_promote[OF clean] grown]], intro conjI allI impI)
    fix r and s' :: "'w sess" and e
    assume *: "promote_post a s r s' \<and> asking (asked (ss_world s)) (live (ss_world s)) (ss_world s')"
    then show "promote_post a s r s'" by blast
    obtain more where more: "asked (ss_world s') = asked (ss_world s) @ more" "more = [] \<longrightarrow> live (ss_world s') = live (ss_world s)"
      using * by (auto simp: asking_def)
    then show "\<exists>more. asked (ss_world s') = asked (ss_world s) @ more" by blast
    assume "r = Inl e"
    then have "live (ss_world s') (mm_name meta) la = live (ss_world s) (mm_name meta) la
        \<or> refused (mm_name meta) (live (ss_world s) (mm_name meta) la) (ss_world s')"
      using * meta by (auto simp: promote_post_def live_restored_def Let_def)
    then show "live (ss_world s') (mm_name meta) la = live (ss_world s) (mm_name meta) la
        \<or> put_back_refused (asked (ss_world s)) (mm_name meta) (live (ss_world s) (mm_name meta) la) (ss_world s')"
      using more by (cases more rule: rev_cases) (auto simp: refused_def put_back_refused_def)
  qed
qed

end

end
