(* ===== verification/Rollout_Moves.thy ===== *)
theory Rollout_Moves
  imports Rollout Promotion_Laws
begin

text \<open>
  What one operation of the delivery controller may do to the table of rollouts. \<open>rollout_edge\<close>
  is the state machine of a rollout, given independently of the code: which state may follow
  which, with which step and percentage. Every operation on a rollout leaves all other rows as
  they are and moves its own row along at most one edge, on every branch, whatever the registry,
  the serving system, the metrics source or the database do.
\<close>

section \<open>The state machine\<close>

definition same_rollout :: "rollout_row \<Rightarrow> rollout_row \<Rightarrow> bool" where
  "same_rollout r r' \<longleftrightarrow> ro_id r' = ro_id r \<and> ro_model r' = ro_model r \<and> ro_job r' = ro_job r
     \<and> ro_strategy r' = ro_strategy r \<and> ro_stable r' = ro_stable r \<and> ro_candidate r' = ro_candidate r
     \<and> ro_policy r' = ro_policy r"

text \<open>The same row up to notes in its history and who decided.\<close>

definition noted :: "rollout_row \<Rightarrow> rollout_row \<Rightarrow> bool" where
  "noted r r' \<longleftrightarrow> same_rollout r r' \<and> ro_state r' = ro_state r \<and> ro_step r' = ro_step r
     \<and> ro_percent r' = ro_percent r \<and> ro_started r' = ro_started r \<and> ro_deadline r' = ro_deadline r
     \<and> ro_finished r' = ro_finished r"

fun next_states :: "roll_state \<Rightarrow> roll_state list" where
  "next_states SHADOW = [CANARY, AWAITING_APPROVAL, PROMOTED, ROLLED_BACK, EXPIRED, REJECTED]"
| "next_states CANARY = [CANARY, PROMOTED, ROLLED_BACK, REJECTED]"
| "next_states AB = [AWAITING_APPROVAL, PROMOTED, ROLLED_BACK, REJECTED]"
| "next_states AWAITING_APPROVAL = [CANARY, PROMOTED, ROLLED_BACK, EXPIRED, REJECTED]"
| "next_states _ = []"

definition rollout_edge :: "rollout_row \<Rightarrow> rollout_row \<Rightarrow> bool" where
  "rollout_edge r r' \<longleftrightarrow> same_rollout r r' \<and> ro_state r' \<in> set (next_states (ro_state r)) \<and>
     (case ro_state r' of
        CANARY \<Rightarrow> let steps = p_canary_steps (ro_policy r); k = (if ro_state r = CANARY then ro_step r + 1 else 0)
          in ro_step r' = k \<and> (k = 0 \<or> k < length steps) \<and> ro_percent r' = (if k = 0 then hd steps else steps ! k)
             \<and> ro_percent r' < 100 \<and> ro_finished r' = ro_finished r
      | AWAITING_APPROVAL \<Rightarrow> ro_percent r' = ro_percent r \<and> ro_deadline r' \<noteq> None \<and> ro_finished r' = ro_finished r
      | PROMOTED \<Rightarrow> ro_percent r' = 100 \<and> ro_finished r' \<noteq> None
      | _ \<Rightarrow> ro_percent r' = 0 \<and> ro_finished r' \<noteq> None)"

text \<open>The same rollout in the same state, whatever its percentage, times and history.\<close>

definition like :: "rollout_row \<Rightarrow> rollout_row \<Rightarrow> bool" where
  "like r r' \<longleftrightarrow> same_rollout r r' \<and> ro_state r' = ro_state r \<and> ro_step r' = ro_step r"

section \<open>What the evidence justifies\<close>

text \<open>
  The states a tick may move a rollout to, given the statistics of the two arms: a breach only
  ends it; more exposure needs a healthy verdict and, in a canary, that the step was held; an A/B
  test decides when it has a deadline and that deadline has passed.
\<close>

definition ab_decision :: "(rat list \<Rightarrow> rat list \<Rightarrow> rat option) \<Rightarrow> rollout_row \<Rightarrow> arm_stats \<Rightarrow> arm_stats \<Rightarrow> ab_outcome" where
  "ab_decision W r stb cand = (case ab_test W (ro_policy r) stb cand of
     Better \<Rightarrow> AB_PROMOTE | Worse \<Rightarrow> AB_ROLLBACK | Inconclusive \<Rightarrow> p_ab_inconclusive (ro_policy r))"

definition promotion_due ::
  "(rat list \<Rightarrow> rat list \<Rightarrow> rat option) \<Rightarrow> time \<Rightarrow> rollout_row \<Rightarrow> arm_stats \<Rightarrow> arm_stats \<Rightarrow> bool" where
  "promotion_due W now r stb cand \<longleftrightarrow> (let p = ro_policy r; healthy = (evaluate_health p stb cand = Healthy) in
     case ro_state r of
       SHADOW \<Rightarrow> healthy \<and> (p_shadow_then p = TO_PROMOTE \<or> p_shadow_then p = TO_CANARY \<and> 100 \<le> hd (p_canary_steps p))
     | CANARY \<Rightarrow> healthy \<and> p_canary_step_hold_s p \<le> now - ro_started r
         \<and> ro_step r + 1 < length (p_canary_steps p) \<and> 100 \<le> p_canary_steps p ! (ro_step r + 1)
     | AB \<Rightarrow> past now (ro_deadline r) \<and> ab_decision W r stb cand = AB_PROMOTE
     | _ \<Rightarrow> False)"

definition justified ::
  "(rat list \<Rightarrow> rat list \<Rightarrow> rat option) \<Rightarrow> time \<Rightarrow> rollout_row \<Rightarrow> arm_stats \<Rightarrow> arm_stats \<Rightarrow> roll_state \<Rightarrow> bool" where
  "justified W now r stb cand to \<longleftrightarrow> (let p = ro_policy r; h = evaluate_health p stb cand; st = ro_state r;
       over = past now (ro_deadline r) in
     if st = AWAITING_APPROVAL then to = EXPIRED \<and> past now (ro_deadline r)
     else if broken h then to = ROLLED_BACK
     else case to of
       CANARY \<Rightarrow> h = Healthy \<and> (st = SHADOW \<and> p_shadow_then p = TO_CANARY
         \<or> st = CANARY \<and> p_canary_step_hold_s p \<le> now - ro_started r)
     | AWAITING_APPROVAL \<Rightarrow> st = SHADOW \<and> h = Healthy \<and> p_shadow_then p = TO_MANUAL
         \<or> st = AB \<and> over \<and> ab_decision W r stb cand = AB_MANUAL
     | PROMOTED \<Rightarrow> promotion_due W now r stb cand
     | ROLLED_BACK \<Rightarrow> promotion_due W now r stb cand \<or> st = AB \<and> over \<and> ab_decision W r stb cand = AB_ROLLBACK
     | EXPIRED \<Rightarrow> st = SHADOW \<and> h \<noteq> Healthy \<and> past now (ro_deadline r)
     | _ \<Rightarrow> False)"

text \<open>An A/B test that never got a deadline: the code decides it at once.\<close>

definition untimed :: "rollout_row \<Rightarrow> bool" where
  "untimed r \<longleftrightarrow> ro_state r = AB \<and> ro_deadline r = None"

text \<open>Every edge of the state machine into \<open>to\<close> is among \<open>E\<close>.\<close>

definition allows :: "(rollout_row \<Rightarrow> bool) \<Rightarrow> (rollout_row \<Rightarrow> rollout_row \<Rightarrow> bool) \<Rightarrow> roll_state \<Rightarrow> bool" where
  "allows L E to \<longleftrightarrow> (\<forall>r r'. L r \<longrightarrow> rollout_edge r r' \<longrightarrow> ro_state r' = to \<longrightarrow> E r r')"

lemma noted_refl [simp]: "noted r r"
  by (simp add: noted_def same_rollout_def)

lemma noted_trans: "noted r s \<Longrightarrow> noted s t \<Longrightarrow> noted r t"
  by (simp add: noted_def same_rollout_def)

lemma edge_noted: "rollout_edge r s \<Longrightarrow> noted s t \<Longrightarrow> rollout_edge r t"
  by (auto simp: rollout_edge_def noted_def same_rollout_def Let_def split: roll_state.splits)

lemma noted_edge: "noted r s \<Longrightarrow> rollout_edge s t \<Longrightarrow> rollout_edge r t"
  by (auto simp: rollout_edge_def noted_def same_rollout_def Let_def split: roll_state.splits)

lemma noted_id: "noted r s \<Longrightarrow> ro_id s = ro_id r"
  by (simp add: noted_def same_rollout_def)

section \<open>Conditions on the table of rollouts\<close>

text \<open>A condition on the rollouts and their observations alone.\<close>

definition on_rollouts :: "(ddb \<Rightarrow> bool) \<Rightarrow> bool" where
  "on_rollouts P \<longleftrightarrow> (\<forall>d d'. rollouts d' = rollouts d \<longrightarrow> observations d' = observations d \<longrightarrow> P d \<longrightarrow> P d')"

lemma keeps_beside_rollouts: "on_rollouts P \<Longrightarrow> (\<And>d. rollouts (f d) = rollouts d) \<Longrightarrow> (\<And>d. observations (f d) = observations d) \<Longrightarrow> keepsR (both P) (writeD f)"
  by (rule keepsR_writeD) (auto simp: on_rollouts_def)

lemma beside_rollouts [simp]:
  "rollouts (record_audit ac actor j m v st d) = rollouts d"
  "rollouts (record_event now se ty su m d) = rollouts d"
  "rollouts (release_lock mo h d) = rollouts d"
  "rollouts (snd (take_over_expired_lock now mo h ttl d)) = rollouts d"
  "observations (record_audit ac actor j m v st d) = observations d"
  "observations (record_event now se ty su m d) = observations d"
  "observations (release_lock mo h d) = observations d"
  "observations (snd (take_over_expired_lock now mo h ttl d)) = observations d"
  by (simp_all add: record_audit_def record_event_def release_lock_def take_over_expired_lock_def Let_def)

lemma add_lock_rollouts: "add_lock now m h ttl d = Some d' \<Longrightarrow> rollouts d' = rollouts d \<and> observations d' = observations d"
  by (auto simp: add_lock_def split: if_splits)

lemma insert_lock_rollouts [simp]:
  "rollouts (insert_lock now m h ttl d) = rollouts d" "observations (insert_lock now m h ttl d) = observations d"
  by (auto simp: insert_lock_def dest: add_lock_rollouts split: option.split)

lemma keeps_promote_rollouts: "on_rollouts P \<Longrightarrow> keepsR (both P) (promote_version R D la a)"
  by (rule keeps_promote) (auto simp: beside_moves_def on_rollouts_def)

lemma keeps_reads [keeps_intros]:
  "keepsR (both P) (get_rollout i)" "keepsR (both P) (model_name m)" "keepsR (both P) (stable_of ro)"
  unfolding get_rollout_def model_name_def stable_of_def by (intro keeps_intros)+

lemma keeps_split [keeps_intros]: "keepsR (both P) (split_to C rid percent)"
  unfolding split_to_def by (intro keeps_intros)

lemma keeps_undo [keeps_intros]: "keepsR (both P) (undo_traffic C rid)"
  unfolding undo_traffic_def by (intro keeps_intros)

lemma keeps_stats [keeps_intros]: "keepsR (both P) (both_stats C now ro)"
  unfolding both_stats_def arm_stats_of_def by (intro keeps_intros)

lemma keeps_unlock [keeps_intros]: "on_rollouts P \<Longrightarrow> keepsR (both P) (unlock_model m h)"
  unfolding unlock_model_def by (intro keeps_intros keeps_beside_rollouts) simp_all

lemma keeps_lock [keeps_intros]: "on_rollouts P \<Longrightarrow> keepsR (both P) (lock_model C now m holder)"
  unfolding lock_model_def by (intro keeps_intros keeps_beside_rollouts) simp_all

lemma by_key_set:
  "(\<And>r. ro_id (f r) = ro_id r) \<Longrightarrow> by_key ro_id rid (update_where (\<lambda>r. ro_id r = rid) f rs)
     = map_option f (by_key ro_id rid rs)"
  by (cases "by_key ro_id rid rs") (auto simp: by_key_update dest: by_key_Some)

lemma active_next: "is_active st \<Longrightarrow> PROMOTED \<in> set (next_states st) \<and> ROLLED_BACK \<in> set (next_states st) \<and> REJECTED \<in> set (next_states st)"
  by (cases st) (simp_all add: is_active_def active_states_def)

lemmas edge_defs = rollout_edge_def moved_row_def like_def noted_def same_rollout_def final_states_def Let_def

lemma thenR_assoc: "thenR (thenR m f) g = thenR m (\<lambda>x. thenR (f x) g)"
  by (rule ext) (auto simp: thenR_def split: option.split sum.split)

lemma thenR_raise: "thenR (raiseR e) g = raiseR e"
  by (rule ext) (simp add: thenR_def raiseR_def)

lemma thenR_if: "thenR (if b then m else n) g = (if b then thenR m g else thenR n g)"
  by simp

section \<open>At most one move\<close>

text \<open>
  The contract of one operation on row \<open>rid\<close>: \<open>P\<close> holds while the row is in the state of \<open>r0\<close>
  (and \<open>L\<close> of the row is known), \<open>Q\<close> when it may also have moved along one of the edges \<open>E\<close>;
  notes in the history change neither. The row need not be there.
\<close>

definition at_row :: "string \<Rightarrow> (rollout_row \<Rightarrow> rollout_row) \<Rightarrow> ddb \<Rightarrow> ddb" where
  "at_row rid f d = d\<lparr>rollouts := update_where (\<lambda>r. ro_id r = rid) f (rollouts d)\<rparr>"

definition turns :: "('w \<Rightarrow> bool) \<Rightarrow> ('w, 'a) run \<Rightarrow> ('w \<Rightarrow> bool) \<Rightarrow> bool" where
  "turns I m J \<longleftrightarrow> (\<forall>w. I w \<longrightarrow> wlp m (\<lambda>_. J) w)"

locale one_move =
  fixes rid :: string and r0 :: rollout_row and obs :: "observation list" and L :: "rollout_row \<Rightarrow> bool"
    and E :: "rollout_row \<Rightarrow> rollout_row \<Rightarrow> bool" and P Q :: "ddb \<Rightarrow> bool"
  assumes P_Q: "P d \<Longrightarrow> Q d"
    and rows: "on_rollouts P" "on_rollouts Q"
    and P_obs: "P d \<Longrightarrow> observations d = obs"
    and P_row: "P d \<Longrightarrow> by_key ro_id rid (rollouts d) = Some r \<Longrightarrow> L r"
    and L_like: "L r \<Longrightarrow> like r0 r"
    and P_note: "P d \<Longrightarrow> (\<And>r. noted r (f r)) \<Longrightarrow> P (at_row rid f d)"
    and Q_note: "Q d \<Longrightarrow> (\<And>r. noted r (f r)) \<Longrightarrow> Q (at_row rid f d)"
    and P_edge: "P d \<Longrightarrow> (\<And>r. L r \<Longrightarrow> E r (f r)) \<Longrightarrow> (\<And>r. ro_id (f r) = ro_id r) \<Longrightarrow> Q (at_row rid f d)"
begin

abbreviation moves1 :: "('w sess, 'a) run \<Rightarrow> bool" where
  "moves1 m \<equiv> turns (both P) m (both Q)"

lemma unmoved_once: "both P s \<Longrightarrow> both Q s"
  by (auto simp: both_def P_Q)

lemma turns_keeps: "keepsR (both P) m \<Longrightarrow> moves1 m"
  by (auto simp: turns_def keepsR_def intro: wlp_mono unmoved_once)

lemma turns_then: "keepsR (both P) m \<Longrightarrow> (\<And>x. moves1 (f x)) \<Longrightarrow> moves1 (thenR m f)"
  unfolding turns_def
  by (auto simp: wlp_thenR split: sum.split intro: unmoved_once wlp_mono[OF keepsRD])

lemma turns_last: "moves1 m \<Longrightarrow> (\<And>x. keepsR (both Q) (f x)) \<Longrightarrow> moves1 (thenR m f)"
  unfolding turns_def by (blast intro: wlp_then keepsRD)

lemma turns_else: "keepsR (both P) m \<Longrightarrow> (\<And>e. moves1 (h e)) \<Longrightarrow> (\<And>x. moves1 (k x)) \<Longrightarrow> moves1 (elseR m h k)"
  unfolding turns_def by (auto simp: wlp_elseR split: sum.split intro: wlp_mono[OF keepsRD])

lemma catch_post: "I w' \<Longrightarrow> (\<And>e. keepsR I (h e)) \<Longrightarrow>
    (case r of Inl e \<Rightarrow> if c e then wlp (h e) (\<lambda>_. I) w' else I w' | Inr x \<Rightarrow> I w')"
  by (cases r) (auto intro: keepsRD)

lemma turns_catch: "moves1 m \<Longrightarrow> (\<And>e. keepsR (both Q) (h e)) \<Longrightarrow> moves1 (catchR m c h)"
  unfolding turns_def wlp_catchR by (blast intro: wlp_mono[of m "\<lambda>_. both Q"] catch_post)

lemma turns_finally:
  assumes "moves1 m" and "keepsR (both Q) f"
  shows "moves1 (finallyR m f)"
  unfolding turns_def
proof (intro allI impI)
  fix w :: "'a sess" assume "both P w"
  then have "wlp m (\<lambda>_. both Q) w" using assms(1) by (simp add: turns_def)
  then have "wlp m (\<lambda>r. wlp f (\<lambda>_. both Q)) w"
    by (rule wlp_mono) (use assms(2) in \<open>simp add: keepsRD\<close>)
  then show "wlp (finallyR m f) (\<lambda>_. both Q) w" by (simp add: wlp_finallyR)
qed

lemma turns_if: "(b \<Longrightarrow> moves1 m) \<Longrightarrow> (\<not> b \<Longrightarrow> moves1 n) \<Longrightarrow> moves1 (if b then m else n)"
  by simp

lemma turns_raise: "moves1 (raiseR e)" "moves1 (retR x)"
  by (rule turns_keeps, intro keeps_intros)+

lemma turns_get:
  assumes "\<And>ro. L ro \<Longrightarrow> moves1 (f ro)"
  shows "moves1 (thenR (get_rollout rid) f)"
  unfolding turns_def
proof (intro allI impI)
  fix s :: "'a sess" assume s: "both P s"
  show "wlp (thenR (get_rollout rid) f) (\<lambda>_. both Q) s"
  proof (cases "by_key ro_id rid (rollouts (ss_db s))")
    case None
    then show ?thesis using unmoved_once[OF s] by (simp add: get_rollout_def wlp_simps)
  next
    case (Some ro)
    then have "L ro" using s P_row by (auto simp: both_def)
    then have "wlp (f ro) (\<lambda>_. both Q) s" using assms s by (simp add: turns_def)
    then show ?thesis by (simp add: get_rollout_def wlp_simps Some)
  qed
qed

text \<open>The statistics of the \<^verbatim>\<open>api\<close> source are a function of the observations.\<close>

lemma turns_api_stats:
  assumes "ct_observe C = api_observe" "ro_stable ro = Some v"
    and "moves1 (f (window_stats (ro_id ro) Stable_Arm (ro_started ro) now obs,
                    window_stats (ro_id ro) Candidate_Arm (ro_started ro) now obs))"
  shows "moves1 (thenR (both_stats C now ro) f)"
  unfolding turns_def
proof (intro allI impI)
  fix s :: "'a sess" assume s: "both P s"
  then have o: "observations (ss_db s) = obs" using P_obs by (simp add: both_def)
  show "wlp (thenR (both_stats C now ro) f) (\<lambda>_. both Q) s"
    using assms(3) s by (simp add: turns_def both_stats_def arm_stats_of_def stable_of_def assms(1,2) wlp_simps
        api_observe_def retA_def o)
qed

lemma keeps_note [keeps_intros]:
  "keepsR (both P) (add_note now rid)" "keepsR (both Q) (add_note now rid)" "keepsR (both P) (decide rid actor)"
  unfolding add_note_def decide_def set_rollout_def at_row_def[symmetric]
  by (rule keepsR_writeD, erule P_note Q_note, simp add: noted_def same_rollout_def)+

lemma turns_set:
  assumes "\<And>r. L r \<Longrightarrow> E r (f r)" and "\<And>r. ro_id (f r) = ro_id r"
  shows "moves1 (set_rollout rid f)"
  unfolding turns_def set_rollout_def at_row_def[symmetric]
  by (auto simp: wlp_simps both_def intro: P_edge P_Q assms)

lemma turns_record:
  assumes "\<And>r. L r \<Longrightarrow> E r (moved_row now to actor percent step deadline r)"
  shows "moves1 (record_move C now rid to actor percent step deadline)"
  unfolding record_move_def
  by (intro turns_then[OF keeps_reads(1)] turns_last[OF turns_set] keeps_intros keeps_beside_rollouts rows assms)
    (simp_all add: moved_row_def Let_def)

lemma turns_record_commit:
  assumes "\<And>r. L r \<Longrightarrow> E r (moved_row now to actor percent step deadline r)"
    and "\<And>x. keepsR (both Q) (f x)"
  shows "moves1 (thenR (record_move C now rid to actor percent step deadline) f)"
  by (rule turns_last[OF turns_record]) (use assms in auto)

lemma turns_end_to:
  assumes "\<And>r. L r \<Longrightarrow> E r (moved_row now to actor (Some 0) None None r)"
  shows "moves1 (end_without_promotion C now rid to actor)"
  unfolding end_without_promotion_def
  by (rule turns_then[OF keeps_undo], rule turns_record_commit) (use assms in \<open>auto intro: keeps_intros\<close>)

lemma keeps_clear_split [keeps_intros]: "keepsR (both P) (clear_split C now rid)"
  unfolding clear_split_def by (intro keeps_intros)

lemma keeps_unavailable: "keepsR (both Q) (tick_unavailable now rid)"
  unfolding tick_unavailable_def by (intro keeps_intros)

lemma turns_move:
  assumes "allows L E to" and "\<And>r. like r0 r \<Longrightarrow> rollout_edge r (moved_row now to actor percent step deadline r)"
    and "\<And>x. keepsR (both Q) (f x)"
  shows "moves1 (thenR (record_move C now rid to actor percent step deadline) f)"
proof (rule turns_record_commit[OF _ assms(3)])
  fix r assume "L r"
  moreover from this have "rollout_edge r (moved_row now to actor percent step deadline r)" by (intro assms(2) L_like)
  ultimately show "E r (moved_row now to actor percent step deadline r)"
    using assms(1) by (auto simp: allows_def moved_row_def Let_def)
qed

lemma turns_end:
  assumes "to \<in> set (next_states (ro_state r0))" and "to \<in> {ROLLED_BACK, EXPIRED, REJECTED}" and "allows L E to"
  shows "moves1 (end_without_promotion C now rid to actor)"
  unfolding end_without_promotion_def
  by (rule turns_then[OF keeps_undo], rule turns_move[OF assms(3)])
    (use assms(1,2) in \<open>auto simp: edge_defs intro: keeps_intros\<close>)

lemma turns_promote:
  assumes "is_active (ro_state r0)" "allows L E PROMOTED" "allows L E ROLLED_BACK"
  shows "moves1 (promote_rollout C now rid actor)"
  unfolding promote_rollout_def
proof (rule turns_then[OF keepsR_both(3)], rule turns_get, rule turns_else[OF keeps_promote_rollouts[OF rows(1)]])
  fix e show "moves1 (if kind PromotionError e \<or> kind ConflictError e
      then thenR rollback (\<lambda>_. end_without_promotion C now rid ROLLED_BACK actor) else raiseR e)"
    by (rule turns_if, rule turns_then[OF keepsR_both(4)], rule turns_end)
      (use active_next[OF assms(1)] turns_raise assms(3) in auto)
next
  show "moves1 (thenR (clear_split C now rid) (\<lambda>_. thenR (record_move C now rid PROMOTED actor (Some 100) None None) (\<lambda>_. commit)))"
    by (rule turns_then[OF keeps_clear_split], rule turns_move[OF assms(2)])
      (use active_next[OF assms(1)] in \<open>auto simp: edge_defs intro: keeps_intros\<close>)
qed

lemma turns_enter_canary:
  assumes "ro_state r0 \<in> {SHADOW, AWAITING_APPROVAL}" and "allows L E CANARY"
    and "100 \<le> hd (p_canary_steps (ro_policy r0)) \<Longrightarrow> allows L E PROMOTED \<and> allows L E ROLLED_BACK"
  shows "moves1 (enter_canary C now rid actor)"
  unfolding enter_canary_def Let_def
proof (rule turns_get, rule turns_if)
  fix ro assume n: "L ro"
  have p: "ro_policy ro = ro_policy r0" using L_like[OF n] by (simp add: like_def same_rollout_def)
  let ?first = "hd (p_canary_steps (ro_policy ro))"
  show "moves1 (promote_rollout C now rid actor)" if "100 \<le> ?first"
    by (rule turns_promote) (use that p assms in \<open>auto simp: is_active_def active_states_def\<close>)
  assume "\<not> 100 \<le> ?first"
  then show "moves1 (thenR (split_to C rid ?first)
      (\<lambda>_. thenR (record_move C now rid CANARY actor (Some ?first) (Some 0) None) (\<lambda>_. commit)))"
    using assms(1) L_like[OF n]
    by (intro turns_then[OF keeps_split] turns_move[OF assms(2)] keeps_intros) (auto simp: edge_defs)
qed

section \<open>Ticks\<close>

lemma turns_await:
  assumes "L ro" "ro_state r0 \<in> {SHADOW, AB}" "allows L E AWAITING_APPROVAL"
  shows "moves1 (await_approval C now rid ro)"
  unfolding await_approval_def
  by (rule turns_move[OF assms(3)]) (use assms(2) in \<open>auto simp: edge_defs intro: keeps_intros\<close>)

lemma turns_end_as:
  assumes "to \<in> set (next_states (ro_state r0))" and "to \<in> {ROLLED_BACK, EXPIRED, REJECTED}" and "allows L E to"
  shows "moves1 (end_as C now rid to)"
  unfolding end_as_def by (rule turns_last[OF turns_end[OF assms]]) (rule keeps_intros)

lemma turns_promote_as:
  assumes "is_active (ro_state r0)" "allows L E PROMOTED" "allows L E ROLLED_BACK"
  shows "moves1 (promote_as C now rid)"
  unfolding promote_as_def by (rule turns_last[OF turns_promote[OF assms]]) (auto intro: keeps_intros)

lemma L_same: "L ro \<Longrightarrow> ro_state ro = ro_state r0 \<and> ro_policy ro = ro_policy r0 \<and> ro_step ro = ro_step r0"
  by (drule L_like) (simp add: like_def same_rollout_def)

lemma turns_shadow:
  assumes n: "L ro" and c: "ro_state r0 = SHADOW" and h: "\<not> broken (evaluate_health (ro_policy ro) stb cand)"
    and ok: "\<And>to. justified (ct_welch C) now ro stb cand to \<or> untimed ro \<Longrightarrow> allows L E to"
  shows "moves1 (advance_shadow C now rid ro (evaluate_health (ro_policy ro) stb cand))"
proof -
  note same = L_same[OF n]
  have "moves1 (thenR (enter_canary C now rid ''system'') (\<lambda>_. retR (Went CANARY)))"
    if "evaluate_health (ro_policy ro) stb cand = Healthy" "p_shadow_then (ro_policy ro) = TO_CANARY"
    by (rule turns_last[OF turns_enter_canary])
      (use that c h same in \<open>auto intro!: ok keeps_intros simp: justified_def promotion_due_def Let_def\<close>)
  then show ?thesis unfolding advance_shadow_def
    by (auto intro!: turns_promote_as turns_await turns_end_as turns_raise split: shadow_then.split)
      (use h in \<open>auto intro!: ok simp: c n same is_active_def active_states_def justified_def promotion_due_def Let_def\<close>)
qed

lemma turns_canary:
  assumes n: "L ro" and c: "ro_state r0 = CANARY" and h: "\<not> broken (evaluate_health (ro_policy ro) stb cand)"
    and ok: "\<And>to. justified (ct_welch C) now ro stb cand to \<or> untimed ro \<Longrightarrow> allows L E to"
  shows "moves1 (advance_canary C now rid ro (evaluate_health (ro_policy ro) stb cand))"
  unfolding advance_canary_def Let_def
proof (intro turns_if turns_raise)
  let ?k = "ro_step ro + 1" and ?steps = "p_canary_steps (ro_policy ro)"
  note same = L_same[OF n]
  assume held: "\<not> (evaluate_health (ro_policy ro) stb cand \<noteq> Healthy \<or> now - ro_started ro < p_canary_step_hold_s (ro_policy ro))"
    and k: "\<not> length ?steps \<le> ?k"
  show "moves1 (promote_as C now rid)" if "100 \<le> ?steps ! ?k"
    by (rule turns_promote_as) (use held k that c h same in
      \<open>auto intro!: ok simp: is_active_def active_states_def justified_def promotion_due_def Let_def\<close>)
  have can: "allows L E CANARY" using held c h same by (intro ok) (auto simp: justified_def Let_def)
  assume "\<not> 100 \<le> ?steps ! ?k"
  then show "moves1 (thenR (split_to C rid (?steps ! ?k)) (\<lambda>_.
      thenR (record_move C now rid CANARY ''system'' (Some (?steps ! ?k)) (Some ?k) None) (\<lambda>_. thenR commit (\<lambda>_. retR (Went CANARY)))))"
    using L_like[OF n] c k by (intro turns_then[OF keeps_split] turns_move[OF can] keeps_intros) (auto simp: edge_defs)
qed

lemma turns_ab:
  assumes n: "L ro" and c: "ro_state r0 = AB" and h: "\<not> broken (evaluate_health (ro_policy ro) stb cand)"
    and ok: "\<And>to. justified (ct_welch C) now ro stb cand to \<or> untimed ro \<Longrightarrow> allows L E to"
  shows "moves1 (advance_ab C now rid ro stb cand)"
  unfolding advance_ab_def ab_decision_def[symmetric]
  by (auto intro!: turns_promote_as turns_await turns_end_as turns_raise split: ab_outcome.split)
    (use h in \<open>auto intro!: ok simp: c n L_same[OF n] untimed_def is_active_def active_states_def justified_def promotion_due_def Let_def\<close>)

text \<open>What a tick does once it has the statistics.\<close>

lemma turns_decision:
  assumes n: "L ro" and act: "is_active (ro_state r0)" and st: "ro_state ro \<noteq> AWAITING_APPROVAL"
    and ok: "\<And>to. justified (ct_welch C) now ro stb cand to \<or> untimed ro \<Longrightarrow> allows L E to"
  shows "moves1 (let health = evaluate_health (ro_policy ro) stb cand in
      if broken health then end_as C now rid ROLLED_BACK
      else if ro_state ro = SHADOW then advance_shadow C now rid ro health
      else if ro_state ro = CANARY then advance_canary C now rid ro health
      else advance_ab C now rid ro stb cand)"
  unfolding Let_def
proof (intro turns_if turns_shadow[OF n] turns_canary[OF n] turns_ab[OF n])
  note same = L_same[OF n]
  show "moves1 (end_as C now rid ROLLED_BACK)" if "broken (evaluate_health (ro_policy ro) stb cand)"
    by (rule turns_end_as) (use that active_next[OF act] st in \<open>auto intro!: ok simp: justified_def Let_def\<close>)
qed (use act st L_same[OF n] ok in \<open>auto simp: is_active_def active_states_def\<close>)

lemma turns_advance:
  assumes act: "is_active (ro_state r0)"
    and expired: "\<And>ro. L ro \<Longrightarrow> ro_state ro = AWAITING_APPROVAL \<Longrightarrow> past now (ro_deadline ro) \<Longrightarrow> allows L E EXPIRED"
    and decision: "\<And>ro. L ro \<Longrightarrow> ro_state ro \<noteq> AWAITING_APPROVAL \<Longrightarrow>
      moves1 (thenR (both_stats C now ro) (\<lambda>(stb, cand).
        let health = evaluate_health (ro_policy ro) stb cand in
        if broken health then end_as C now rid ROLLED_BACK
        else if ro_state ro = SHADOW then advance_shadow C now rid ro health
        else if ro_state ro = CANARY then advance_canary C now rid ro health
        else advance_ab C now rid ro stb cand))"
  shows "moves1 (advance C now rid)"
  unfolding advance_def
  by (intro turns_get turns_if turns_then[OF keeps_reads(2)] decision turns_end_as turns_raise expired)
    (use L_same in auto)

text \<open>The frame of a tick around its decision.\<close>

lemma turns_tick_frame:
  assumes "is_active (ro_state r0) \<Longrightarrow> moves1 (advance C now rid)"
  shows "moves1 (tick C now rid)"
  unfolding tick_def tick_locked_def
  by (intro turns_get turns_if turns_raise turns_then[OF keeps_lock] turns_finally turns_catch
      keeps_unavailable keeps_unlock rows assms) (auto simp: like_def dest: L_like)

text \<open>A tick with the \<^verbatim>\<open>api\<close> metrics source moves only where the stored observations justify it.\<close>

lemma turns_tick_api:
  assumes api: "ct_observe C = api_observe"
    and ok: "\<And>ro to. L ro \<Longrightarrow> justified (ct_welch C) now ro
        (window_stats (ro_id ro) Stable_Arm (ro_started ro) now obs)
        (window_stats (ro_id ro) Candidate_Arm (ro_started ro) now obs) to \<or> untimed ro \<Longrightarrow> allows L E to"
  shows "moves1 (tick C now rid)"
proof (rule turns_tick_frame, rule turns_advance)
  fix ro assume n: "L ro"
  show "allows L E EXPIRED" if "ro_state ro = AWAITING_APPROVAL" "past now (ro_deadline ro)"
    by (rule ok[OF n]) (simp add: justified_def that)
  show "moves1 (thenR (both_stats C now ro) (\<lambda>(stb, cand).
        let health = evaluate_health (ro_policy ro) stb cand in
        if broken health then end_as C now rid ROLLED_BACK
        else if ro_state ro = SHADOW then advance_shadow C now rid ro health
        else if ro_state ro = CANARY then advance_canary C now rid ro health
        else advance_ab C now rid ro stb cand))"
    if act: "is_active (ro_state r0)" and st: "ro_state ro \<noteq> AWAITING_APPROVAL"
  proof (cases "ro_stable ro")
    case None
    then show ?thesis by (simp add: both_stats_def stable_of_def thenR_raise turns_raise)
  next
    case (Some v)
    show ?thesis
      by (rule turns_api_stats[where C = C, OF api Some], simp only: prod.case, rule turns_decision[OF n act st ok[OF n]])
  qed
qed

end

text \<open>Where every edge of the state machine is allowed.\<close>

locale any_move = one_move +
  assumes all_edges: "L r \<Longrightarrow> rollout_edge r r' \<Longrightarrow> E r r'"
begin

lemma all_allowed [simp]: "allows L E to"
  by (simp add: allows_def all_edges)

lemma turns_tick: "moves1 (tick C now rid)"
proof (rule turns_tick_frame, rule turns_advance)
  fix ro assume "L ro" "is_active (ro_state r0)" "ro_state ro \<noteq> AWAITING_APPROVAL"
  then show "moves1 (thenR (both_stats C now ro) (\<lambda>(stb, cand).
        let health = evaluate_health (ro_policy ro) stb cand in
        if broken health then end_as C now rid ROLLED_BACK
        else if ro_state ro = SHADOW then advance_shadow C now rid ro health
        else if ro_state ro = CANARY then advance_canary C now rid ro health
        else advance_ab C now rid ro stb cand))"
    by (intro turns_then[OF keeps_stats]) (simp only: split_beta, rule turns_decision, simp_all)
qed simp_all

lemma turns_locked_action:
  assumes "\<And>ro. L ro \<Longrightarrow> is_active (ro_state r0) \<Longrightarrow> moves1 (f ro)"
  shows "moves1 (thenR (locked_action C now rid) f)"
  unfolding locked_action_def thenR_assoc thenR_if thenR_raise
  by (intro turns_get turns_if turns_raise turns_then[OF keeps_lock] rows)
    (use L_like in \<open>auto simp: like_def intro!: assms\<close>)

lemma turns_approve: "moves1 (approve C now rid actor)"
  unfolding approve_def
proof (intro turns_locked_action turns_finally keeps_unlock rows)
  fix ro assume n: "L ro" and "is_active (ro_state r0)"
  have st: "ro_state ro = ro_state r0" using L_like[OF n] by (simp add: like_def)
  show "moves1 (approve_locked C now rid actor ro)"
    unfolding approve_locked_def
    by (intro turns_if turns_raise turns_then[OF keeps_note(3)] turns_last[OF turns_end] keeps_intros)
      (auto simp: st is_active_def active_states_def intro!: turns_last turns_if turns_enter_canary turns_promote keeps_intros)
qed

lemma turns_reject: "moves1 (reject C now rid actor)"
  unfolding reject_def
  by (intro turns_locked_action turns_finally keeps_unlock rows turns_then[OF keeps_note(3)]
      turns_last[OF turns_end] keeps_intros) (auto dest: active_next)

end

end
