(* ===== verification/Rollout_System.thy ===== *)
theory Rollout_System
  imports Rollout_Moves
begin

text \<open>
  The rollouts of all models as a transition system on committed tables: every operation of the
  controller, run in a session of its own on any registry, serving system and metrics source and
  with any database failures, and whatever the rest of the program does to the other tables. The
  invariant: ids are unique, every row is well-formed, a model has at most one active rollout.
\<close>

section \<open>The contract holds for an existing row\<close>

text \<open>The other rows are those of \<open>d0\<close>; row \<open>rid\<close> is \<open>r0\<close> up to notes, or one edge further.\<close>

definition other_rows :: "ddb \<Rightarrow> string \<Rightarrow> ddb \<Rightarrow> bool" where
  "other_rows d0 rid d \<longleftrightarrow> map ro_id (rollouts d) = map ro_id (rollouts d0)
     \<and> (\<forall>i. i \<noteq> rid \<longrightarrow> by_key ro_id i (rollouts d) = by_key ro_id i (rollouts d0))"

definition rollout_move :: "rollout_row \<Rightarrow> rollout_row \<Rightarrow> bool" where
  "rollout_move r r' \<longleftrightarrow> noted r r' \<or> rollout_edge r r'"

definition unmoved :: "ddb \<Rightarrow> string \<Rightarrow> rollout_row \<Rightarrow> ddb \<Rightarrow> bool" where
  "unmoved d0 rid r0 d \<longleftrightarrow> other_rows d0 rid d \<and> observations d = observations d0
     \<and> (\<exists>r. by_key ro_id rid (rollouts d) = Some r \<and> noted r0 r)"

text \<open>An edge into one of the states \<open>T\<close>.\<close>

definition edge_to :: "roll_state set \<Rightarrow> rollout_row \<Rightarrow> rollout_row \<Rightarrow> bool" where
  "edge_to T r r' \<longleftrightarrow> rollout_edge r r' \<and> ro_state r' \<in> T"

definition moved_to :: "roll_state set \<Rightarrow> ddb \<Rightarrow> string \<Rightarrow> rollout_row \<Rightarrow> ddb \<Rightarrow> bool" where
  "moved_to T d0 rid r0 d \<longleftrightarrow> other_rows d0 rid d
     \<and> (\<exists>r. by_key ro_id rid (rollouts d) = Some r \<and> (noted r0 r \<or> edge_to T r0 r))"

abbreviation moved_once :: "ddb \<Rightarrow> string \<Rightarrow> rollout_row \<Rightarrow> ddb \<Rightarrow> bool" where
  "moved_once \<equiv> moved_to UNIV"

lemma at_row_observations [simp]: "observations (at_row rid f d) = observations d"
  by (simp add: at_row_def)

lemma other_rows_at_row:
  assumes "other_rows d0 rid d" "\<And>r. ro_id (f r) = ro_id r"
  shows "other_rows d0 rid (at_row rid f d)"
proof -
  have "by_key ro_id i (update_where (\<lambda>r. ro_id r = rid) f (rollouts d)) = by_key ro_id i (rollouts d)" if "i \<noteq> rid" for i
    by (cases "by_key ro_id i (rollouts d)") (use that assms(2) in \<open>auto simp: by_key_update dest: by_key_Some\<close>)
  then show ?thesis using assms by (simp add: other_rows_def keys_update at_row_def)
qed

lemma noted_like: "noted r s \<Longrightarrow> like r s"
  by (simp add: noted_def like_def)

lemma edge_id: "(\<And>r. noted r (f r)) \<Longrightarrow> ro_id (f r) = ro_id r"
  using noted_id by blast

lemma edge_to_noted: "edge_to T r s \<Longrightarrow> noted s t \<Longrightarrow> edge_to T r t"
  by (auto simp: edge_to_def intro: edge_noted) (simp add: noted_def)

lemma noted_edge_to: "noted r s \<Longrightarrow> edge_to T s t \<Longrightarrow> edge_to T r t"
  by (auto simp: edge_to_def intro: noted_edge)

interpretation existing_row: one_move rid r0 "observations d0" "noted r0" "edge_to T" "unmoved d0 rid r0" "moved_to T d0 rid r0"
  for rid :: string and r0 :: rollout_row and d0 :: ddb and T :: "roll_state set"
proof
  fix d r and f :: "rollout_row \<Rightarrow> rollout_row"
  show "unmoved d0 rid r0 d \<Longrightarrow> moved_to T d0 rid r0 d"
    by (auto simp: unmoved_def moved_to_def)
  show "on_rollouts (unmoved d0 rid r0)" "on_rollouts (moved_to T d0 rid r0)"
    by (auto simp: on_rollouts_def unmoved_def moved_to_def other_rows_def)
  show "unmoved d0 rid r0 d \<Longrightarrow> observations d = observations d0"
    by (simp add: unmoved_def)
  show "unmoved d0 rid r0 d \<Longrightarrow> by_key ro_id rid (rollouts d) = Some r \<Longrightarrow> noted r0 r"
    by (auto simp: unmoved_def)
  show "noted r0 r \<Longrightarrow> like r0 r" by (rule noted_like)
  show "unmoved d0 rid r0 d \<Longrightarrow> (\<And>r. noted r (f r)) \<Longrightarrow> unmoved d0 rid r0 (at_row rid f d)"
    using edge_id[of f] by (auto simp: unmoved_def other_rows_at_row) (auto simp: at_row_def by_key_set intro: noted_trans)
  show "moved_to T d0 rid r0 d \<Longrightarrow> (\<And>r. noted r (f r)) \<Longrightarrow> moved_to T d0 rid r0 (at_row rid f d)"
    using edge_id[of f] by (auto simp: moved_to_def other_rows_at_row)
      (auto simp: at_row_def by_key_set intro: noted_trans edge_to_noted)
  show "unmoved d0 rid r0 d \<Longrightarrow> (\<And>r. noted r0 r \<Longrightarrow> edge_to T r (f r)) \<Longrightarrow> (\<And>r. ro_id (f r) = ro_id r)
      \<Longrightarrow> moved_to T d0 rid r0 (at_row rid f d)"
    by (auto simp: unmoved_def moved_to_def other_rows_at_row)
      (auto simp: at_row_def by_key_set intro: noted_edge_to)
qed

interpretation existing_any: any_move rid r0 "observations d0" "noted r0" "edge_to UNIV" "unmoved d0 rid r0" "moved_once d0 rid r0"
  for rid :: string and r0 :: rollout_row and d0 :: ddb
  by unfold_locales (simp add: edge_to_def)

text \<open>Read off at the end of an operation that began in a clean session.\<close>

lemma existing_run:
  assumes "turns (both (unmoved d0 rid r0)) m (both (moved_to T d0 rid r0))" "m s = Some (r, s')"
    and "ss_db s = d0" "ss_saved s = d0" "by_key ro_id rid (rollouts d0) = Some r0"
  shows "moved_to T d0 rid r0 (ss_saved s')"
proof -
  have "both (unmoved d0 rid r0) s" using assms by (simp add: both_def unmoved_def other_rows_def)
  then have "wlp m (\<lambda>_. both (moved_to T d0 rid r0)) s" using assms(1) by (simp add: turns_def)
  from wlpD[OF this assms(2)] show ?thesis by (simp add: both_def)
qed

section \<open>The contract holds for a row being started\<close>

definition opened :: "rollout_row \<Rightarrow> rollout_row \<Rightarrow> bool" where
  "opened r0 r \<longleftrightarrow> like r0 r \<and> ro_finished r = None
     \<and> (ro_percent r = 0 \<or> ro_percent r = first_percent (ro_strategy r0) (ro_policy r0) \<and> ro_percent r < 100)"

definition starting :: "rollout_row list \<Rightarrow> observation list \<Rightarrow> rollout_row \<Rightarrow> ddb \<Rightarrow> bool" where
  "starting rs obs r0 d \<longleftrightarrow> observations d = obs \<and> ro_id r0 \<notin> ro_id ` set rs \<and> (rollouts d = rs \<or> (\<exists>r. rollouts d = rs @ [r] \<and> opened r0 r))"


lemma update_fresh: "k \<notin> ro_id ` set rs \<Longrightarrow> update_where (\<lambda>r. ro_id r = k) f rs = rs"
  by (rule update_where_none) auto

lemma update_last:
  "k \<notin> ro_id ` set rs \<Longrightarrow> ro_id r = k \<Longrightarrow> update_where (\<lambda>r. ro_id r = k) f (rs @ [r]) = rs @ [f r]"
  by (simp add: update_where_def) (rule map_idI, metis imageI)

lemma opened_id: "opened r0 r \<Longrightarrow> ro_id r = ro_id r0"
  by (simp add: opened_def like_def same_rollout_def)

lemma opened_noted: "opened r0 r \<Longrightarrow> noted r s \<Longrightarrow> opened r0 s"
  by (auto simp: opened_def like_def noted_def same_rollout_def)

lemma edge_same: "rollout_edge r s \<Longrightarrow> ro_id s = ro_id r"
  by (simp add: rollout_edge_def same_rollout_def)

text \<open>An update of the row being started, whether or not it is there.\<close>

lemma at_row_fresh:
  assumes "k \<notin> ro_id ` set rs" "rollouts d = rs \<or> (\<exists>r. rollouts d = rs @ [r] \<and> ro_id r = k \<and> A r)"
    and "\<And>r. A r \<Longrightarrow> B (f r)"
  shows "rollouts (at_row k f d) = rs \<or> (\<exists>r. rollouts (at_row k f d) = rs @ [r] \<and> B r)"
  using assms(2)
proof
  assume "rollouts d = rs"
  then show ?thesis using update_fresh[OF assms(1)] by (simp add: at_row_def)
next
  assume "\<exists>r. rollouts d = rs @ [r] \<and> ro_id r = k \<and> A r"
  then obtain r where "rollouts d = rs @ [r]" "ro_id r = k" "A r" by blast
  then have "rollouts (at_row k f d) = rs @ [f r]" "B (f r)"
    using update_last[OF assms(1), of r f] assms(3) by (auto simp: at_row_def)
  then show ?thesis by blast
qed

definition begun :: "rollout_row \<Rightarrow> rollout_row \<Rightarrow> bool" where
  "begun r0 r \<longleftrightarrow> (\<exists>r1. opened r0 r1 \<and> rollout_move r1 r)"

definition started :: "rollout_row list \<Rightarrow> rollout_row \<Rightarrow> ddb \<Rightarrow> bool" where
  "started rs r0 d \<longleftrightarrow> ro_id r0 \<notin> ro_id ` set rs \<and> (rollouts d = rs \<or> (\<exists>r. rollouts d = rs @ [r] \<and> begun r0 r))"

lemma begun_id: "begun r0 r \<Longrightarrow> ro_id r = ro_id r0"
  by (auto simp: begun_def rollout_move_def noted_id edge_same opened_id)

lemma move_noted: "rollout_move r s \<Longrightarrow> noted s t \<Longrightarrow> rollout_move r t"
  by (auto simp: rollout_move_def intro: noted_trans edge_noted)

lemma started_alt: "started rs r0 d \<longleftrightarrow> ro_id r0 \<notin> ro_id ` set rs
    \<and> (rollouts d = rs \<or> (\<exists>r. rollouts d = rs @ [r] \<and> ro_id r = ro_id r0 \<and> begun r0 r))"
  using begun_id by (auto simp: started_def)

lemma starting_alt: "starting rs obs r0 d \<longleftrightarrow> observations d = obs \<and> ro_id r0 \<notin> ro_id ` set rs
    \<and> (rollouts d = rs \<or> (\<exists>r. rollouts d = rs @ [r] \<and> ro_id r = ro_id r0 \<and> opened r0 r))"
  using opened_id by (auto simp: starting_def)

interpretation new_row: any_move "ro_id r0" r0 obs "like r0" rollout_edge "starting rs obs r0" "started rs r0"
  for r0 :: rollout_row and obs :: "observation list" and rs :: "rollout_row list"
proof
  fix d r and f :: "rollout_row \<Rightarrow> rollout_row"
  show "starting rs obs r0 d \<Longrightarrow> started rs r0 d"
    by (auto simp: starting_def started_def begun_def rollout_move_def intro: noted_refl)
  show "on_rollouts (starting rs obs r0)" "on_rollouts (started rs r0)"
    by (auto simp: on_rollouts_def starting_def started_def)
  show "starting rs obs r0 d \<Longrightarrow> observations d = obs" by (simp add: starting_def)
  show "starting rs obs r0 d \<Longrightarrow> by_key ro_id (ro_id r0) (rollouts d) = Some r \<Longrightarrow> like r0 r"
    by (auto simp: starting_def by_key_None[symmetric] by_key_append by_key_single opened_def split: if_splits)
  show "starting rs obs r0 d \<Longrightarrow> (\<And>r. noted r (f r)) \<Longrightarrow> starting rs obs r0 (at_row (ro_id r0) f d)"
    using at_row_fresh[of "ro_id r0" rs d "opened r0" "opened r0" f] by (simp add: starting_alt) (metis opened_id opened_noted)
  show "started rs r0 d \<Longrightarrow> (\<And>r. noted r (f r)) \<Longrightarrow> started rs r0 (at_row (ro_id r0) f d)"
    using at_row_fresh[of "ro_id r0" rs d "begun r0" "begun r0" f] by (simp add: started_alt) (metis begun_def begun_id move_noted)
  show "starting rs obs r0 d \<Longrightarrow> (\<And>r. like r0 r \<Longrightarrow> rollout_edge r (f r)) \<Longrightarrow> (\<And>r. ro_id (f r) = ro_id r)
      \<Longrightarrow> started rs r0 (at_row (ro_id r0) f d)"
    using at_row_fresh[of "ro_id r0" rs d "opened r0" "begun r0" f]
    by (simp add: starting_alt started_alt) (metis begun_def begun_id opened_def rollout_move_def)
qed auto

lemma keeps_opening:
  assumes "r0 = new_rollout now rid a strat p"
    and "pct = None \<or> pct = Some (first_percent strat p) \<and> first_percent strat p < 100"
  shows "keepsR (both (starting rs obs r0)) (record_move C now rid (initial_state strat) ''system'' pct None dl)"
proof -
  have id: "ro_id r0 = rid" using assms(1) by (simp add: new_rollout_def)
  have nf: "initial_state strat \<notin> set final_states" by (cases strat) (simp_all add: final_states_def)
  have op: "opened r0 (moved_row now (initial_state strat) ''system'' pct None dl r)" if "opened r0 r" for r
    using that assms nf
    by (auto simp: opened_def moved_row_def like_def same_rollout_def new_rollout_def Let_def)
  have w: "keepsR (both (starting rs obs r0)) (set_rollout rid (moved_row now (initial_state strat) ''system'' pct None dl) :: ('w sess, unit) run)"
    unfolding set_rollout_def at_row_def[symmetric]
  proof (rule keepsR_writeD)
    let ?f = "moved_row now (initial_state strat) ''system'' pct None dl" and ?A = "\<lambda>r. ro_id r = ro_id r0 \<and> opened r0 r"
    fix d assume d: "starting rs obs r0 d"
    have "rollouts (at_row (ro_id r0) ?f d) = rs \<or> (\<exists>r. rollouts (at_row (ro_id r0) ?f d) = rs @ [r] \<and> ?A r)"
      by (rule at_row_fresh[where A = "opened r0"]) (use d op opened_id in \<open>auto simp: starting_alt\<close>)
    then show "starting rs obs r0 (at_row rid ?f d)" using d id by (simp add: starting_alt at_row_def)
  qed
  show ?thesis unfolding record_move_def
    by (intro keeps_intros keeps_beside_rollouts new_row.rows) (auto intro: w)
qed

lemma initial_active: "is_active (initial_state strat)"
  by (cases strat) (simp_all add: is_active_def active_states_def)

lemma turns_begin:
  fixes C :: "'w controller"
  assumes r0: "r0 = new_rollout now rid a strat p"
  shows "turns (both (starting rs obs r0)) (begin_delivery C now rid strat p) (both (started rs r0))"
proof -
  have id: "rid = ro_id r0" and act: "is_active (ro_state r0)"
    using r0 initial_active by (simp_all add: new_rollout_def)
  note rec = keeps_opening[OF r0, unfolded id] and pr = new_row.turns_promote[OF act]
  have rb: "ROLLED_BACK \<in> set (next_states (ro_state r0))" using active_next[OF act] by simp
  have failed: "turns (both (starting rs obs r0)) (first_split_failed C now (ro_id r0) :: ('w sess, rollout_row) run) (both (started rs r0))"
    unfolding first_split_failed_def
    by (intro new_row.turns_last new_row.turns_catch new_row.turns_end[OF rb] keeps_intros new_row.keeps_note) simp_all
  show ?thesis
    unfolding begin_delivery_def Let_def id
    by (intro new_row.turns_if new_row.turns_then[OF rec] new_row.turns_last[OF pr] new_row.turns_else
        failed new_row.turns_raise new_row.turns_keeps[of rs] keeps_intros) auto
qed

lemma start_outcome:
  assumes run: "start_rollout C now rid a s = Some (r, s')" and clean: "ss_db s = d" "ss_saved s = d"
    and fresh: "rid \<notin> ro_id ` set (rollouts d)"
  shows "rollouts (ss_saved s') = rollouts d \<or> (\<exists>strat row. active_rollout (sa_model a) d = None
     \<and> map_of strategies (sa_strategy a) = Some strat \<and> rollouts (ss_saved s') = rollouts d @ [row]
     \<and> begun (new_rollout now rid a strat (case sa_policy a of None \<Rightarrow> ct_policy C | Some x \<Rightarrow> x)) row)"
proof (cases "map_of strategies (sa_strategy a)")
  case None
  then show ?thesis using run clean by (auto simp: start_rollout_def raiseR_def)
next
  case (Some strat)
  show ?thesis
  proof (cases "active_rollout (sa_model a) d")
    case (Some r)
    then show ?thesis using run clean \<open>map_of strategies (sa_strategy a) = Some strat\<close>
      by (auto simp: start_rollout_def thenR_def readD_def raiseR_def)
  next
    case None
    let ?p = "case sa_policy a of None \<Rightarrow> ct_policy C | Some x \<Rightarrow> x"
    let ?r0 = "new_rollout now rid a strat ?p" and ?rs = "rollouts d"
    let ?m = "thenR db_io (\<lambda>_. thenR (writeD (record_audit ROLLOUT_STARTED ''system'' (sa_job a) (Some (sa_model a))
                (Some (sa_candidate a)) ''OK'')) (\<lambda>_. begin_delivery C now rid strat ?p))"
    let ?s1 = "s\<lparr>ss_db := d\<lparr>rollouts := ?rs @ [?r0]\<rparr>\<rparr>"
    have r: "?m ?s1 = Some (r, s')"
      using run clean None \<open>map_of strategies (sa_strategy a) = Some strat\<close>
      by (simp add: start_rollout_def thenR_def readD_def writeD_def Let_def)
    have id: "ro_id ?r0 = rid" by (simp add: new_rollout_def)
    have "both (starting ?rs (observations d) ?r0) ?s1"
      using clean fresh by (simp add: both_def starting_def id opened_def like_def same_rollout_def new_rollout_def)
    moreover have "turns (both (starting ?rs (observations d) ?r0)) ?m (both (started ?rs ?r0))"
      by (intro new_row.turns_then turns_begin[OF refl] keeps_intros keeps_beside_rollouts new_row.rows) simp_all
    ultimately have "wlp ?m (\<lambda>_. both (started ?rs ?r0)) ?s1" by (simp add: turns_def)
    from wlpD[OF this r] have "started ?rs ?r0 (ss_saved s')" by (simp add: both_def)
    then show ?thesis using None \<open>map_of strategies (sa_strategy a) = Some strat\<close> by (auto simp: started_def)
  qed
qed

section \<open>The system\<close>

text \<open>
  One operation on the committed tables. An operation runs in a session of its own (of any world
  and with any failures to come); what its session has saved when it ends is the next state. The
  last rule is the rest of the program: anything that leaves the rollouts alone.
\<close>

inductive delivery_step :: "'w controller \<Rightarrow> ddb \<Rightarrow> ddb \<Rightarrow> bool" for C :: "'w controller" where
  d_tick: "ss_db s = d \<Longrightarrow> ss_saved s = d \<Longrightarrow> tick C now rid s = Some (r, s') \<Longrightarrow> delivery_step C d (ss_saved s')"
| d_approve: "ss_db s = d \<Longrightarrow> ss_saved s = d \<Longrightarrow> approve C now rid actor s = Some (q, s') \<Longrightarrow> delivery_step C d (ss_saved s')"
| d_reject: "ss_db s = d \<Longrightarrow> ss_saved s = d \<Longrightarrow> reject C now rid actor s = Some (q, s') \<Longrightarrow> delivery_step C d (ss_saved s')"
| d_start: "ss_db s = d \<Longrightarrow> ss_saved s = d \<Longrightarrow> rid \<notin> ro_id ` set (rollouts d)
    \<Longrightarrow> valid_policy (case sa_policy a of None \<Rightarrow> ct_policy C | Some p \<Rightarrow> p)
    \<Longrightarrow> start_rollout C now rid a s = Some (q, s') \<Longrightarrow> delivery_step C d (ss_saved s')"
| d_beside: "rollouts d' = rollouts d \<Longrightarrow> delivery_step C d d'"

inductive_cases delivery_stepE: "delivery_step C d d'"

definition row_sound :: "rollout_row \<Rightarrow> bool" where
  "row_sound r \<longleftrightarrow> valid_policy (ro_policy r) \<and> (is_active (ro_state r) \<longleftrightarrow> ro_finished r = None) \<and>
     (let steps = p_canary_steps (ro_policy r) in case ro_state r of
        SHADOW \<Rightarrow> ro_percent r = 0
      | CANARY \<Rightarrow> ro_step r < length steps \<and> ro_percent r < 100
          \<and> (ro_percent r = steps ! ro_step r \<or> ro_percent r = 0 \<and> ro_step r = 0)
      | AB \<Rightarrow> ro_percent r \<in> {0, p_ab_percent (ro_policy r)}
      | AWAITING_APPROVAL \<Rightarrow> ro_percent r \<in> {0, p_ab_percent (ro_policy r)}
      | PROMOTED \<Rightarrow> ro_percent r = 100
      | _ \<Rightarrow> ro_percent r = 0)"

definition one_active :: "rollout_row list \<Rightarrow> bool" where
  "one_active rs \<longleftrightarrow> (\<forall>r \<in> set rs. \<forall>q \<in> set rs. ro_model r = ro_model q \<longrightarrow> is_active (ro_state r)
     \<longrightarrow> is_active (ro_state q) \<longrightarrow> ro_id r = ro_id q)"

definition rollouts_ok :: "ddb \<Rightarrow> bool" where
  "rollouts_ok d \<longleftrightarrow> distinct (map ro_id (rollouts d)) \<and> (\<forall>r \<in> set (rollouts d). row_sound r) \<and> one_active (rollouts d)"

lemma noted_sound: "noted r s \<Longrightarrow> row_sound r \<Longrightarrow> row_sound s"
  by (cases "ro_state r") (auto simp: row_sound_def noted_def same_rollout_def Let_def)

lemma edge_sound: "rollout_edge r s \<Longrightarrow> row_sound r \<Longrightarrow> row_sound s"
  by (cases "ro_state r") (auto simp: row_sound_def edge_defs is_active_def active_states_def valid_policy_def
      valid_steps_def hd_conv_nth split: roll_state.splits if_splits)

lemma move_sound: "rollout_move r s \<Longrightarrow> row_sound r \<Longrightarrow> row_sound s"
  by (auto simp: rollout_move_def intro: noted_sound edge_sound)

lemma move_keeps: "rollout_move r s \<Longrightarrow> ro_id s = ro_id r \<and> ro_model s = ro_model r \<and> (is_active (ro_state s) \<longrightarrow> is_active (ro_state r))"
  by (cases "ro_state r") (auto simp: rollout_move_def edge_defs is_active_def active_states_def)

lemma active_rollout_None: "active_rollout m d = None \<longleftrightarrow> (\<forall>r \<in> set (rollouts d). ro_model r = m \<longrightarrow> \<not> is_active (ro_state r))"
  by (auto simp: active_rollout_def find_None_iff)

text \<open>A table whose rows moved one by one.\<close>

definition rows_moved :: "rollout_row list \<Rightarrow> rollout_row list \<Rightarrow> bool" where
  "rows_moved rs rs' \<longleftrightarrow> list_all2 rollout_move rs rs'"

lemma rows_moved_ok:
  assumes "rows_moved rs rs'" "distinct (map ro_id rs)" "\<forall>r \<in> set rs. row_sound r" "one_active rs"
  shows "distinct (map ro_id rs') \<and> (\<forall>r \<in> set rs'. row_sound r) \<and> one_active rs'"
proof -
  have l: "length rs' = length rs" and m: "\<And>i. i < length rs \<Longrightarrow> rollout_move (rs ! i) (rs' ! i)"
    using assms(1) by (auto simp: rows_moved_def list_all2_conv_all_nth)
  have "map ro_id rs' = map ro_id rs" by (rule nth_equalityI) (use l m move_keeps in auto)
  moreover have "row_sound r" if "r \<in> set rs'" for r
    using that assms(3) l m by (metis in_set_conv_nth move_sound)
  moreover have "one_active rs'"
    unfolding one_active_def
  proof (intro ballI impI)
    fix r q assume rq: "r \<in> set rs'" "q \<in> set rs'" "ro_model r = ro_model q" "is_active (ro_state r)" "is_active (ro_state q)"
    obtain i j where i: "i < length rs" "r = rs' ! i" and j: "j < length rs" "q = rs' ! j"
      using rq(1,2) l by (auto simp: in_set_conv_nth)
    have "ro_id (rs ! i) = ro_id (rs ! j)"
      using assms(4) move_keeps[OF m[OF i(1)]] move_keeps[OF m[OF j(1)]] i j rq by (auto simp: one_active_def)
    then show "ro_id r = ro_id q" using move_keeps[OF m[OF i(1)]] move_keeps[OF m[OF j(1)]] i j by simp
  qed
  ultimately show ?thesis using assms(2) by simp
qed

lemma moved_once_rows:
  assumes ok: "distinct (map ro_id (rollouts d0))" and r0: "by_key ro_id rid (rollouts d0) = Some r0"
    and m: "moved_once d0 rid r0 d"
  shows "rows_moved (rollouts d0) (rollouts d)"
  unfolding rows_moved_def list_all2_conv_all_nth
proof (intro conjI allI impI)
  have ids: "map ro_id (rollouts d) = map ro_id (rollouts d0)" using m by (simp add: moved_to_def other_rows_def)
  then show l: "length (rollouts d0) = length (rollouts d)" by (metis length_map)
  have dd: "distinct (map ro_id (rollouts d))" using ok ids by simp
  fix i assume i: "i < length (rollouts d0)"
  let ?r = "rollouts d0 ! i" and ?s = "rollouts d ! i"
  have id: "ro_id ?s = ro_id ?r" using ids i l by (metis nth_map)
  have s: "by_key ro_id (ro_id ?r) (rollouts d) = Some ?s" using by_key_unique[OF dd] id i l by auto
  have r: "by_key ro_id (ro_id ?r) (rollouts d0) = Some ?r" using by_key_unique[OF ok] i by auto
  show "rollout_move ?r ?s"
  proof (cases "ro_id ?r = rid")
    case True
    then have "r0 = ?r" using r0 r by simp
    moreover obtain r' where "by_key ro_id rid (rollouts d) = Some r'" "rollout_move r0 r'" using m by (auto simp: moved_to_def edge_to_def rollout_move_def)
    ultimately show ?thesis using s True by simp
  next
    case False
    then have "by_key ro_id (ro_id ?r) (rollouts d) = by_key ro_id (ro_id ?r) (rollouts d0)"
      using m by (simp add: moved_to_def other_rows_def)
    then have "?s = ?r" using r s by simp
    then show ?thesis by (simp add: rollout_move_def)
  qed
qed

lemma missing_row:
  assumes "by_key ro_id rid (rollouts (ss_db s)) = None"
  shows "thenR (get_rollout rid) f s = Some (Inl (err RolloutNotFoundError [(''rollout_id'', CStr rid)]), s)"
  using assms by (simp add: thenR_def get_rollout_def readD_def raiseR_def)

lemma rows_moved_refl: "rows_moved rs rs"
  by (auto simp: rows_moved_def rollout_move_def intro: list_all2_refl)

lemma operation_rows:
  assumes ok: "distinct (map ro_id (rollouts d))" and clean: "ss_db s = d" "ss_saved s = d"
    and op: "m = thenR (get_rollout rid) f" "m s = Some (r, s')"
    and turns: "\<And>r0. turns (both (unmoved d rid r0)) m (both (moved_once d rid r0))"
  shows "rows_moved (rollouts d) (rollouts (ss_saved s'))"
proof (cases "by_key ro_id rid (rollouts d)")
  case None
  then have "s' = s" using op missing_row[of rid s f] clean by simp
  then show ?thesis using clean rows_moved_refl by simp
next
  case (Some r0)
  show ?thesis by (rule moved_once_rows[OF ok Some existing_run[OF turns op(2) clean Some]])
qed

lemma approve_get: "\<exists>f. approve C now rid actor = thenR (get_rollout rid) f"
  unfolding approve_def locked_action_def thenR_assoc by blast

lemma reject_get: "\<exists>f. reject C now rid actor = thenR (get_rollout rid) f"
  unfolding reject_def locked_action_def thenR_assoc by blast

lemma step_rows:
  assumes "delivery_step C d d'" and ok: "distinct (map ro_id (rollouts d))"
  shows "rows_moved (rollouts d) (rollouts d') \<or> (\<exists>now rid a strat p row. rollouts d' = rollouts d @ [row]
     \<and> rid \<notin> ro_id ` set (rollouts d) \<and> active_rollout (sa_model a) d = None \<and> valid_policy p
     \<and> begun (new_rollout now rid a strat p) row)"
  using assms(1)
proof cases
  case (d_tick s now rid r s')
  have "rows_moved (rollouts d) (rollouts (ss_saved s'))"
    by (rule operation_rows[OF ok d_tick(2,3) _ d_tick(4) existing_any.turns_tick]) (simp add: tick_def)
  then show ?thesis using d_tick(1) by simp
next
  case (d_approve s now rid actor q s')
  obtain f where f: "approve C now rid actor = thenR (get_rollout rid) f" using approve_get by blast
  have "rows_moved (rollouts d) (rollouts (ss_saved s'))"
    by (rule operation_rows[OF ok d_approve(2,3) f d_approve(4) existing_any.turns_approve])
  then show ?thesis using d_approve(1) by simp
next
  case (d_reject s now rid actor q s')
  obtain f where f: "reject C now rid actor = thenR (get_rollout rid) f" using reject_get by blast
  have "rows_moved (rollouts d) (rollouts (ss_saved s'))"
    by (rule operation_rows[OF ok d_reject(2,3) f d_reject(4) existing_any.turns_reject])
  then show ?thesis using d_reject(1) by simp
next
  case (d_start s rid a now q s')
  from start_outcome[OF d_start(6,2,3,4)] show ?thesis using d_start(1,4,5) rows_moved_refl by metis
next
  case d_beside
  then show ?thesis using rows_moved_refl by simp
qed

lemma opened_sound: "opened (new_rollout now rid a strat p) r \<Longrightarrow> valid_policy p \<Longrightarrow> row_sound r"
  by (cases strat) (auto simp: opened_def like_def same_rollout_def new_rollout_def row_sound_def first_percent_def
      is_active_def active_states_def valid_policy_def valid_steps_def hd_conv_nth Let_def)

lemma begun_sound: "begun (new_rollout now rid a strat p) r \<Longrightarrow> valid_policy p \<Longrightarrow> row_sound r \<and> ro_id r = rid \<and> ro_model r = sa_model a"
  using begun_id[of "new_rollout now rid a strat p" r] move_keeps
  by (auto simp: begun_def intro: move_sound opened_sound) (auto simp: new_rollout_def opened_def like_def same_rollout_def)

lemma step_ok:
  assumes step: "delivery_step C d d'" and ok: "rollouts_ok d"
  shows "rollouts_ok d'"
proof -
  have d: "distinct (map ro_id (rollouts d))" "\<forall>r \<in> set (rollouts d). row_sound r" "one_active (rollouts d)"
    using ok by (simp_all add: rollouts_ok_def)
  from step_rows[OF step d(1)] show ?thesis
  proof
    assume "rows_moved (rollouts d) (rollouts d')"
    from rows_moved_ok[OF this d] show ?thesis by (simp add: rollouts_ok_def)
  next
    assume "\<exists>now rid a strat p row. rollouts d' = rollouts d @ [row]
     \<and> rid \<notin> ro_id ` set (rollouts d) \<and> active_rollout (sa_model a) d = None \<and> valid_policy p
     \<and> begun (new_rollout now rid a strat p) row"
    then obtain now rid a strat p row where n: "rollouts d' = rollouts d @ [row]" "rid \<notin> ro_id ` set (rollouts d)"
      "active_rollout (sa_model a) d = None" "valid_policy p" "begun (new_rollout now rid a strat p) row" by blast
    have r: "row_sound row" "ro_id row = rid" "ro_model row = sa_model a" using begun_sound[OF n(5,4)] by auto
    have "\<forall>r \<in> set (rollouts d). ro_model r = sa_model a \<longrightarrow> \<not> is_active (ro_state r)"
      using n(3) by (simp add: active_rollout_None)
    then have "one_active (rollouts d @ [row])" using d(3) r unfolding one_active_def by fastforce
    then show ?thesis using d n(2) r by (simp add: rollouts_ok_def n(1))
  qed
qed

definition no_rollouts :: "ddb \<Rightarrow> bool" where
  "no_rollouts d \<longleftrightarrow> rollouts d = []"

interpretation delivery: safe_system no_rollouts "delivery_step C" rollouts_ok for C :: "'w controller"
  by unfold_locales (simp add: no_rollouts_def rollouts_ok_def one_active_def, rule step_ok)

end
