(* ===== verification/Promotion_Props.thy ===== *)
theory Promotion_Props
  imports Promotion_Laws
begin

text \<open>
  The laws of \<open>live_delivery\<close> hold for the registry-alias deployment adapter on the filesystem
  registry, in the default configuration (one alias for LIVE and for serving) and with a
  separate serving alias; with them the properties of moving LIVE.
\<close>

section \<open>The default adapters keep the laws\<close>

lemma fs_io_live [keeps_intros]: "keepsA fs_live fs_io"
  by (rule keepsAI) (auto dest!: fs_io_models simp: fs_live_def fun_eq_iff)

lemma alias_or_none_reports:
  "alias_or_none (fs_registry p) m a w = (Inr v, w') \<Longrightarrow> v = fs_live w m a"
  using fs_alias.get_reports[of p m a w] fs_alias.get_missing[of p m a w]
  by (auto simp: alias_or_none_def catchA_def thenA_def retA_def split: prod.splits sum.splits if_splits)

lemma alias_or_none_live [keeps_intros]: "keepsA fs_live (alias_or_none (fs_registry p) m a)"
  unfolding alias_or_none_def
  by (intro keeps_intros keepsAI) (metis fs_alias.get_keeps)

lemma set_alias_moves:
  fixes w :: "'a world_scheme"
  shows "rg_set_alias (fs_registry p) n a v w = (r, w') \<Longrightarrow> \<exists>more. w_asked w' = w_asked w @ more \<and> (more = [] \<longrightarrow> fs_live w' = fs_live w)"
    "rg_delete_alias (fs_registry p) n a w = (r, w') \<Longrightarrow> \<exists>more. w_asked w' = w_asked w @ more \<and> (more = [] \<longrightarrow> fs_live w' = fs_live w)"
  by (auto dest: fs_alias.set_asks fs_alias.delete_asks)

lemma alias_status_asked: "keepsA w_asked (alias_status (fs_registry p) da m)"
  unfolding alias_status_def alias_or_none_def by (intro keeps_intros fs_alias.reads_ask)

interpretation fs_delivery: live_delivery "fs_registry p" fs_live w_asked "world_deployer p da canary tag timeout pl" la da
  for p :: artifact_policy and la da canary tag :: string and timeout pl :: rat
proof unfold_locales
  fix m :: string and w w' :: "'a world_scheme" and t :: rat and r :: "exn + dep_state" and st :: dep_state
    and tg :: target and u :: "exn + unit"
  let ?D = "world_deployer p da canary tag timeout pl :: 'a world_scheme deployer"
  have k: "keepsA fs_live (alias_status (fs_registry p) da m)"
    unfolding alias_status_def by (intro keeps_intros)
  show "dp_status (de_port ?D) m w = (r, w') \<Longrightarrow> fs_live w' = fs_live w"
    using keepsAD[OF k, of w r w'] by (simp add: world_deployer_def alias_port_def)
  show "dp_status (de_port ?D) m w = (Inr st, w') \<Longrightarrow> ds_version st = fs_live w m da"
    by (auto simp: world_deployer_def alias_port_def alias_status_def eff_simps dest: alias_or_none_reports)
  show "fs_live (de_sleep ?D t w) = fs_live w"
    by (simp add: world_deployer_def fs_live_def fun_eq_iff)
  show "dp_deploy (de_port ?D) tg w = (u, w') \<Longrightarrow> fs_live w (t_model tg) la = Some (t_version tg)
      \<Longrightarrow> fs_live w' (t_model tg) la = Some (t_version tg)"
    using fs_alias.set_sets[of p "t_model tg" da "t_version tg" w] fs_alias.set_fails[of p "t_model tg" da "t_version tg" w]
    by (cases u) (auto simp: world_deployer_def alias_port_def alias_deploy_def set_live_def)
  show "dp_status (de_port ?D) m w = (r, w') \<Longrightarrow> w_asked w' = w_asked w"
    using keepsAD[OF alias_status_asked] by (simp add: world_deployer_def alias_port_def)
  show "w_asked (de_sleep ?D t w) = w_asked w" by (simp add: world_deployer_def)
  show "dp_deploy (de_port ?D) tg w = (u, w') \<Longrightarrow> \<exists>more. w_asked w' = w_asked w @ more \<and> (more = [] \<longrightarrow> fs_live w' = fs_live w)"
    using set_alias_moves(1) by (simp add: world_deployer_def alias_port_def alias_deploy_def)
  show "dp_restore (de_port ?D) m before w = (u, w') \<Longrightarrow> \<exists>more. w_asked w' = w_asked w @ more \<and> (more = [] \<longrightarrow> fs_live w' = fs_live w)"
    for before using set_alias_moves by (simp add: world_deployer_def alias_port_def alias_restore_def split: option.splits)
qed

section \<open>Moving LIVE\<close>

text \<open>The requests to move an alias since \<open>h\<close> end with one to put \<open>la\<close> back to \<open>v\<close>, which the registry refused.\<close>

definition restore_refused :: "alias_request list \<Rightarrow> string \<Rightarrow> string \<Rightarrow> string option \<Rightarrow> 'a world_scheme \<Rightarrow> bool" where
  "restore_refused h name la v w \<longleftrightarrow> (\<exists>more. w_asked w = h @ more @ [(name, la, v, False)])"

text \<open>C3. A move of LIVE is all or nothing. Whatever registry access, database write or rollout
  fails: an error leaves the promotion history as it was and LIVE at the version it had, except
  that when LIVE was to be put back, as the last alias request of the move, and the registry
  refused that, LIVE may be elsewhere; a success leaves LIVE at the version, one new history row
  that says where LIVE was, and the serving system at that version when the row is APPLIED (a
  repeated idempotency key only returns its first row). That a registry operation which has done
  its work then raises because its lock file cannot be removed is outside the model.\<close>

theorem promotion_all_or_nothing:
  assumes clean: "promos (ss_saved s) = promos (ss_db s)"
    and meta: "by_key mm_model (pa_model a) (metas (ss_db s)) = Some meta"
    and run: "promote_version (fs_registry p) (world_deployer p da canary tag timeout pl) la a s = Some (r, s')"
  shows "let name = mm_name meta; before = fs_live (ss_world s) name la in case r of
      Inl e \<Rightarrow> promos (ss_saved s') = promos (ss_saved s)
        \<and> (fs_live (ss_world s') name la = before
            \<or> restore_refused (w_asked (ss_world s)) name la before (ss_world s'))
    | Inr row \<Rightarrow> earlier_promotion (pa_key a) (ss_db s) = Some row \<and> s' = s
        \<or> promos (ss_saved s') = promos (ss_saved s) @ [row] \<and> fs_live (ss_world s') name la = Some (pa_version a)
          \<and> pm_from row = before \<and> pm_to row = pa_version a
          \<and> (pm_status row = APPLIED \<longrightarrow> fs_live (ss_world s') name da = Some (pa_version a))"
  using wlpD[OF fs_delivery.wlp_promote_error[OF clean meta] run] meta
  by (simp add: fs_delivery.promote_post_def fs_delivery.put_back_refused_def restore_refused_def Let_def split: sum.splits)

lemma world_runs_return:
  fixes w :: "'a world_scheme"
  assumes "0 < pl"
  shows "deployer_rollout (world_deployer p da canary tag timeout pl) t before w \<noteq> None"
    and "revert (world_deployer p da canary tag timeout pl) m before w \<noteq> None"
    and "deployer_split (world_deployer p da canary tag timeout pl) m st cand pct w \<noteq> None"
proof -
  have "0 < de_poll (world_deployer p da canary tag timeout pl :: 'a world_scheme deployer)"
    using assms by (simp add: world_deployer_def)
  then show "deployer_rollout (world_deployer p da canary tag timeout pl) t before w \<noteq> None"
    "revert (world_deployer p da canary tag timeout pl) m before w \<noteq> None"
    "deployer_split (world_deployer p da canary tag timeout pl) m st cand pct w \<noteq> None"
    by (rule world_polling.rollout_returns world_polling.revert_returns world_polling.split_returns)+
qed

lemma promotion_failed_returns:
  fixes s :: "'a world_scheme sess"
  assumes "0 < pl"
  shows "promotion_failed R (world_deployer p da canary tag timeout pl) la a name previous stage before e s \<noteq> None"
  unfolding promotion_failed_def audit_failed_move_def audit_move_def
  by (intro run_returns world_runs_return(2) assms)

lemma promote_returns:
  fixes s :: "'a world_scheme sess"
  assumes "0 < pl"
  shows "promote_version R (world_deployer p da canary tag timeout pl) la a s \<noteq> None"
  unfolding promote_version_def already_live_def verified_move_def move_live_def deploy_move_def finish_move_def
    model_meta_of_def add_promo_def audit_move_def Let_def
  by (intro run_returns pair_returns world_runs_return(1) promotion_failed_returns assms)

text \<open>C37. Every move of LIVE returns, rollbacks included: with a positive polling interval neither
  the rollout of a promotion nor the restoring after a failure polls forever.\<close>

theorem moves_return:
  fixes s :: "'a world_scheme sess"
  assumes "0 < pl"
  shows "promote_version (fs_registry p) (world_deployer p da canary tag timeout pl) la a s \<noteq> None
    \<and> rollback_model (fs_registry p) (world_deployer p da canary tag timeout pl) load la m want actor key s \<noteq> None"
  unfolding rollback_model_def rollback_target_def model_meta_of_def
  by (intro conjI run_returns pair_returns promote_returns assms)

section \<open>Only a verified artifact goes live\<close>

lemma wlp_anything: "(\<And>r w'. Q r w') \<Longrightarrow> wlp m Q w"
  by (auto simp: wlp_def split: option.split)

lemma wlp_failed_Inl: "(\<And>e w'. Q (Inl e) w') \<Longrightarrow> wlp (promotion_failed R D la a name previous stage before e) Q s"
  unfolding promotion_failed_def
  by (rule wlp_then[where P = "\<lambda>_ _. True"] | simp add: wlp_anything wlp_raiseR)+

lemma wlp_move_row: "(\<And>e s'. Q (Inl e) s') \<Longrightarrow> (\<And>s'. Q (Inr row) s')
    \<Longrightarrow> wlp (move_live R D la a name previous tgt row) Q s"
  unfolding move_live_def deploy_move_def finish_move_def
  by (rule wlp_else[where P = "\<lambda>_ _. True"] | simp add: wlp_anything wlp_retR wlp_failed_Inl)+

abbreviation artifacts :: "'a world_scheme \<Rightarrow> (string \<Rightarrow> string \<Rightarrow> fs_version option) \<times> (string \<Rightarrow> artifact option)" where
  "artifacts w \<equiv> (w_versions w, w_store w)"

lemma keeps_artifacts [keeps_intros]: "keepsA artifacts fs_io" "keepsA artifacts (fs_model_of n)"
proof -
  show io: "keepsA artifacts fs_io" by (rule keepsAI) (auto dest: fs_io_models)
  show "keepsA artifacts (fs_model_of n)"
    unfolding fs_model_of_def checked_def by (intro keeps_intros io) (auto simp: keepsA_def split: option.split)
qed

lemma current_live_artifacts: "keepsA artifacts (current_live (fs_registry p) n a)"
  by (auto simp: current_live_def fs_registry_def fs_get_alias_def intro!: keeps_intros)

lemma fs_model_artifacts: "fs_model_of n w = (r, w') \<Longrightarrow> w_versions w' = w_versions w \<and> w_store w' = w_store w"
  using keepsAD[OF keeps_artifacts(2)] by blast

lemma raw_version_Inr:
  "raw_version n v w = (Inr fv, w') \<Longrightarrow> w_versions w n v = Some fv \<and> artifacts w' = artifacts w"
  by (auto simp: raw_version_def eff_simps split: if_splits option.splits dest!: fs_io_models
      dest!: fs_model_artifacts)

text \<open>The artifact of a version that \<^verbatim>\<open>verify_version_artifact\<close> accepts, with its checksum.\<close>

definition sound_artifact :: "artifact_policy \<Rightarrow> 'a world_scheme \<Rightarrow> string \<Rightarrow> string \<Rightarrow> string \<Rightarrow> bool" where
  "sound_artifact p w name v sha \<longleftrightarrow> (case w_versions w name v of None \<Rightarrow> False
     | Some fv \<Rightarrow> (case w_store w (fv_key fv) of None \<Rightarrow> False
       | Some art \<Rightarrow> ar_sha art = sha \<and> ar_size art \<le> ap_max_bytes p
           \<and> get_or (fv_tags fv) (ap_checksum_tag p) '''' \<in> {'''', sha}))"

lemma fs_verify_sound:
  assumes "verify_version_artifact (fs_registry p) n v w = (Inr (art, sha), w')"
  shows "sound_artifact p w n v sha"
proof -
  obtain info w1 w2 where i: "fs_get_version n v w = (Inr info, w1)" and d: "fs_download n v w1 = (Inr art, w2)"
    and z: "ar_size art \<le> ap_max_bytes p"
    and t: "sha = ar_sha art \<and> get_or (mv_tags info) (ap_checksum_tag p) '''' \<in> {'''', sha}"
    using assms by (auto simp: verify_version_artifact_def eff_simps fs_registry_def check_size_def verify_checksum_def
        Let_def split: if_splits)
  obtain fv where fv: "raw_version n v w = (Inr fv, w1)" "info = version_of v fv"
    using i by (auto simp: fs_get_version_def eff_simps)
  have v: "w_versions w n v = Some fv" "artifacts w1 = artifacts w" using raw_version_Inr[OF fv(1)] by auto
  obtain fv' w3 where r: "raw_version n v w1 = (Inr fv', w3)" "w_store w3 (fv_key fv') = Some art"
    using d by (auto simp: fs_download_def eff_simps split: if_splits option.splits)
  have "fv' = fv" "w_store w3 = w_store w" using raw_version_Inr[OF r(1)] v by auto
  then show ?thesis using v(1) r(2) z t by (auto simp: sound_artifact_def fv(2) version_of_def)
qed

definition applied_sound :: "artifact_policy \<Rightarrow> 'a world_scheme \<Rightarrow> string \<Rightarrow> string \<Rightarrow> exn + promo_row \<Rightarrow> 'b \<Rightarrow> bool" where
  "applied_sound p w name v r s' \<longleftrightarrow> (\<forall>row. r = Inr row \<longrightarrow> pm_status row = APPLIED \<longrightarrow>
     (\<exists>sha. pm_sha row = Some sha \<and> sound_artifact p w name v sha))"

lemma sound_artifact_cong: "artifacts w' = artifacts w \<Longrightarrow> sound_artifact p w' = sound_artifact p w"
  by (intro ext) (auto simp: sound_artifact_def split: option.split)

lemma wlp_verified_move_sound:
  "wlp (verified_move (fs_registry p) D la a name previous) (applied_sound p (ss_world s) name (pa_version a)) s"
  unfolding verified_move_def
proof (rule wlp_then[where P = "\<lambda>r s1. \<forall>x. r = Inr x \<longrightarrow> sound_artifact p (ss_world s) name (pa_version a) (snd x)"])
  show "wlp (onW (verify_version_artifact (fs_registry p) name (pa_version a)))
      (\<lambda>r s1. \<forall>x. r = Inr x \<longrightarrow> sound_artifact p (ss_world s) name (pa_version a) (snd x)) s"
    using fs_verify_sound by (fastforce simp: wlp_onW fst_def snd_def split: prod.splits)
next
  fix x :: "artifact \<times> string" and s1
  assume x: "\<forall>y. Inr x = Inr y \<longrightarrow> sound_artifact p (ss_world s) name (pa_version a) (snd y)"
  show "wlp (case x of (loc, digest) \<Rightarrow> thenR (onW (rg_get_version (fs_registry p) name (pa_version a))) (\<lambda>info.
         move_live (fs_registry p) D la a name previous
           \<lparr>t_model = name, t_version = pa_version a, t_source = mv_source info, t_artifact = Some loc\<rparr>
           (promo_row_of a previous APPLIED (Some digest)))) (applied_sound p (ss_world s) name (pa_version a)) s1"
    using x by (cases x) (auto intro!: wlp_then[where P = "\<lambda>_ _. True"] wlp_move_row simp: applied_sound_def promo_row_of_def)
qed (simp add: applied_sound_def)

text \<open>C4. Nothing unverified goes live: when a promotion is APPLIED (not the repeat of an earlier
  one), the stored artifact of the version is within the size limit, its SHA-256 is the one the
  history row records, and it equals the checksum tag of the version if there is one.\<close>

theorem promoted_was_verified:
  assumes "promote_version (fs_registry p) D la a s = Some (Inr row, s')" "pm_status row = APPLIED"
    and "earlier_promotion (pa_key a) (ss_db s) = None"
    and "by_key mm_model (pa_model a) (metas (ss_db s)) = Some meta"
  shows "\<exists>sha. pm_sha row = Some sha \<and> sound_artifact p (ss_world s) (mm_name meta) (pa_version a) sha"
proof -
  let ?w = "ss_world s" and ?n = "mm_name meta"
  obtain q w1 where cl: "current_live (fs_registry p) ?n la ?w = (q, w1)" by (cases "current_live (fs_registry p) ?n la ?w")
  have w1: "sound_artifact p w1 = sound_artifact p ?w"
    using keepsAD[OF current_live_artifacts cl] by (intro sound_artifact_cong) simp
  have nc: "wlp (already_live a prev) (applied_sound p ?w ?n (pa_version a)) s1" for prev s1
    unfolding already_live_def Let_def
    by (auto intro!: wlp_then[where P = "\<lambda>_ _. True"] simp: wlp_retR applied_sound_def promo_row_of_def)
  have vm: "wlp (verified_move (fs_registry p) D la a ?n prev) (applied_sound p ?w ?n (pa_version a)) (s\<lparr>ss_world := w1\<rparr>)" for prev
    using wlp_verified_move_sound[of p D la a ?n prev "s\<lparr>ss_world := w1\<rparr>"]
    by (rule wlp_mono) (simp add: applied_sound_def w1)
  have "wlp (promote_version (fs_registry p) D la a) (applied_sound p ?w ?n (pa_version a)) s"
    using nc vm by (auto simp: promote_version_def model_meta_of_def assms(3,4) cl wlp_thenR wlp_readD wlp_retR
        wlp_raiseR wlp_onW applied_sound_def split: sum.split)
  from wlpD[OF this assms(1)] show ?thesis using assms(2) by (simp add: applied_sound_def)
qed

section \<open>Rolling back\<close>

lemma wlp_model_meta: "by_key mm_model m (metas (ss_db s)) = Some meta \<Longrightarrow> Q (Inr meta) s \<Longrightarrow> wlp (model_meta_of m) Q s"
  by (simp add: model_meta_of_def wlp_simps)

lemma rollback_to_last:
  assumes clean: "promos (ss_saved s) = promos (ss_db s)"
    and meta: "by_key mm_model m (metas (ss_db s)) = Some meta"
    and run: "rollback_model (fs_registry p) (world_deployer p da canary tag timeout pl) load la m None actor None s = Some (r, s')"
  shows "case Option.bind (last_applied_promotion m (ss_db s)) pm_from of
      None \<Rightarrow> r = Inl (err ConflictError [(''model_id'', CStr m)]) \<and> s' = s
    | Some v \<Rightarrow> (\<forall>row. r = Inr row \<longrightarrow> pm_to row = v \<and> fs_live (ss_world s') (mm_name meta) la = Some v
        \<and> promos (ss_saved s') = promos (ss_saved s) @ [row])"
proof -
  let ?R = "fs_registry p" and ?D = "world_deployer p da canary tag timeout pl :: 'a world_scheme deployer"
  let ?last = "Option.bind (last_applied_promotion m (ss_db s)) pm_from"
  let ?Q = "\<lambda>v r s'. \<forall>row. r = Inr row \<longrightarrow> pm_to row = v \<and> fs_live (ss_world s') (mm_name meta) la = Some v
        \<and> promos (ss_saved s') = promos (ss_saved s) @ [row]"
  have promote: "wlp (promote_version ?R ?D la \<lparr>pa_model = m, pa_version = v, pa_kind = ROLLBACK_KIND, pa_actor = actor,
           pa_job = None, pa_expected = None, pa_key = None\<rparr>) (?Q v) (s\<lparr>ss_world := w\<rparr>)" for v w
    by (rule wlp_mono[OF fs_delivery.wlp_promote])
      (use clean meta in \<open>auto simp: fs_delivery.promote_post_def Let_def earlier_promotion_def split: sum.splits\<close>)
  have body: "wlp (thenR (onW (rg_get_version ?R (mm_name meta) v)) (\<lambda>_.
     thenR (onW (verify_version_artifact ?R (mm_name meta) v)) (\<lambda>(loc, _).
     case mm_framework meta of None \<Rightarrow> raiseR (err ArtifactError [(''model_id'', CStr m)])
     | Some fw \<Rightarrow> thenR (onW (catchA (load loc fw) (\<lambda>_. True) (\<lambda>_. raiseA (err ArtifactError [(''model_id'', CStr m)])))) (\<lambda>_.
         promote_version ?R ?D la \<lparr>pa_model = m, pa_version = v, pa_kind = ROLLBACK_KIND, pa_actor = actor,
           pa_job = None, pa_expected = None, pa_key = None\<rparr>)))) (?Q v) s" for v
    using promote[of v] by (auto simp: wlp_thenR wlp_onW wlp_raiseR split: sum.split option.split)
  have "wlp (rollback_model ?R ?D load la m None actor None) (\<lambda>r s'. case ?last of
      None \<Rightarrow> r = Inl (err ConflictError [(''model_id'', CStr m)]) \<and> s' = s | Some v \<Rightarrow> ?Q v r s') s"
    using body by (cases ?last) (auto simp: rollback_model_def rollback_target_def wlp_thenR[of "model_meta_of m"]
        wlp_thenR[of "thenR x y" for x y] wlp_thenR[of "readD f" for f] wlp_readD wlp_raiseR wlp_retR
        intro!: wlp_model_meta meta)
  from wlpD[OF this run] show ?thesis .
qed

text \<open>C31. A rollback without a target undoes the latest applied move of the model: when it succeeds, LIVE names
  the version it held before that move, and the new history row says so. Without such a version
  on record nothing is touched.\<close>

theorem rollback_undoes_last_move:
  assumes clean: "promos (ss_saved s) = promos (ss_db s)"
    and meta: "by_key mm_model m (metas (ss_db s)) = Some meta"
    and last: "promos (ss_db s) = older @ move # newer" "pm_model move = m" "pm_status move = APPLIED"
      "list_all (\<lambda>r. pm_model r \<noteq> m \<or> pm_status r \<noteq> APPLIED) newer"
    and run: "rollback_model (fs_registry p) (world_deployer p da canary tag timeout pl) load la m None actor None s = Some (r, s')"
  shows "case pm_from move of
      None \<Rightarrow> r = Inl (err ConflictError [(''model_id'', CStr m)]) \<and> s' = s
    | Some v \<Rightarrow> (\<forall>row. r = Inr row \<longrightarrow> pm_to row = v \<and> fs_live (ss_world s') (mm_name meta) la = Some v
        \<and> promos (ss_saved s') = promos (ss_saved s) @ [row])"
proof -
  have "find (\<lambda>r. pm_model r = m \<and> pm_status r = APPLIED) (rev newer) = None"
    using last(4) by (auto simp: find_None_iff list_all_iff)
  then have "last_applied_promotion m (ss_db s) = Some move"
    using last(1-3) by (simp add: last_applied_promotion_def find_after)
  then show ?thesis using rollback_to_last[OF clean meta run] by simp
qed

section \<open>A run\<close>

definition demo_artifacts :: artifact_policy where
  "demo_artifacts = \<lparr>ap_max_bytes = 100, ap_checksum_tag = ''sha256'', ap_status_tag = ''status''\<rparr>"

definition demo_world :: "bool list \<Rightarrow> world" where
  "demo_world faults = \<lparr>w_models = [''m'' \<mapsto> \<lparr>fm_aliases = [(''live'', ''1'')], fm_next = 3\<rparr>],
     w_versions = (\<lambda>n. if n = ''m'' then
       [''1'' \<mapsto> \<lparr>fv_tags = [(''sha256'', ''aa''), (''status'', ''LIVE'')], fv_status = READY, fv_key = ''k1'', fv_uri = None\<rparr>,
        ''2'' \<mapsto> \<lparr>fv_tags = [(''sha256'', ''bb''), (''status'', ''VALIDATED'')], fv_status = READY, fv_key = ''k2'', fv_uri = None\<rparr>]
       else Map.empty),
     w_store = [''k1'' \<mapsto> \<lparr>ar_size = 10, ar_sha = ''aa''\<rparr>, ''k2'' \<mapsto> \<lparr>ar_size = 20, ar_sha = ''bb''\<rparr>],
     w_faults = faults, w_clock = 0, w_asked = []\<rparr>"

definition demo_ddb :: ddb where
  "demo_ddb = \<lparr>metas = [\<lparr>mm_model = ''m1'', mm_name = ''m'', mm_framework = Some ''sklearn'', mm_target = None\<rparr>],
     locks = [], notif_events = [], deliveries = [], audits = [], promos = [], rollouts = [], observations = []\<rparr>"

definition demo_sess :: "bool list \<Rightarrow> bool list \<Rightarrow> world sess" where
  "demo_sess db_faults faults = \<lparr>ss_db = demo_ddb, ss_saved = demo_ddb, ss_faults = db_faults, ss_world = demo_world faults\<rparr>"

definition demo_deployer :: "world deployer" where
  "demo_deployer = world_deployer demo_artifacts ''live'' ''canary'' ''pct'' 5 1"

definition demo_promote :: promo_args where
  "demo_promote = \<lparr>pa_model = ''m1'', pa_version = ''2'', pa_kind = PROMOTE_CANDIDATE, pa_actor = ''op'', pa_job = None,
     pa_expected = None, pa_key = None\<rparr>"

definition demo_move :: "bool list \<Rightarrow> bool list \<Rightarrow> (exn + promo_row) \<times> world sess" where
  "demo_move db_faults faults = the (promote_version (fs_registry demo_artifacts) demo_deployer ''live'' demo_promote
     (demo_sess db_faults faults))"

definition demo_back :: "(exn + promo_row) \<times> world sess" where
  "demo_back = the (rollback_model (fs_registry demo_artifacts) demo_deployer (\<lambda>_ _. retA ()) ''live'' ''m1'' None ''op'' None
     (snd (demo_move [] [])))"

lemma moves_return_witness:
  "promote_version (fs_registry demo_artifacts) demo_deployer ''live'' demo_promote (demo_sess [] []) \<noteq> None"
  using moves_return[of 1 demo_artifacts "''live''" "''canary''" "''pct''" 5 "''live''" demo_promote "demo_sess [] []"]
  by (simp add: demo_deployer_def)

lemma demo_move_run:
  "promote_version (fs_registry demo_artifacts) (world_deployer demo_artifacts ''live'' ''canary'' ''pct'' 5 1) ''live''
     demo_promote (demo_sess db_faults faults) = Some (fst (demo_move db_faults faults), snd (demo_move db_faults faults))"
  using promote_returns[of 1 "fs_registry demo_artifacts" demo_artifacts "''live''" "''canary''" "''pct''" 5 "''live''"
      demo_promote "demo_sess db_faults faults"]
  by (auto simp: demo_move_def demo_deployer_def)

lemma demo_move_ok: "demo_move [] [] = (Inr (promo_row_of demo_promote (Some ''1'') APPLIED (Some ''bb'')), snd (demo_move [] []))"
  by (rule prod_eqI, code_simp, simp)

lemma promotion_all_or_nothing_witness:
  "fs_live (ss_world (snd (demo_move [] []))) ''m'' ''live'' = Some ''2''
   \<and> fs_live (ss_world (snd (demo_move [False, True] []))) ''m'' ''live'' = Some ''1''"
proof -
  have clean: "promos (ss_saved (demo_sess b f)) = promos (ss_db (demo_sess b f))"
    "by_key mm_model (pa_model demo_promote) (metas (ss_db (demo_sess b f))) = Some \<lparr>mm_model = ''m1'', mm_name = ''m'', mm_framework = Some ''sklearn'', mm_target = None\<rparr>"
    "fs_live (ss_world (demo_sess b f)) ''m'' ''live'' = Some ''1''" "earlier_promotion (pa_key demo_promote) d = None" for b f d
    by (simp_all add: demo_sess_def demo_ddb_def demo_promote_def by_key_def demo_world_def fs_live_def earlier_promotion_def)
  note * = promotion_all_or_nothing[OF clean(1,2) demo_move_run, simplified clean, unfolded Let_def]
  obtain e where e: "fst (demo_move [False, True] []) = Inl e"
  proof -
    have "isl (fst (demo_move [False, True] []))" by code_simp
    then show thesis using that by (cases "fst (demo_move [False, True] [])") auto
  qed
  have "last (w_asked (ss_world (snd (demo_move [False, True] [])))) = (''m'', ''live'', Some ''1'', True)" by code_simp
  then have kept: "\<not> restore_refused h ''m'' ''live'' (Some ''1'') (ss_world (snd (demo_move [False, True] [])))" for h
    by (auto simp: restore_refused_def)
  show ?thesis using *[of "[]" "[]"] *[of "[False, True]" "[]"] e clean kept
    by (subst (asm) demo_move_ok) (simp add: demo_promote_def promo_row_of_def)
qed

lemma promoted_was_verified_witness:
  "sound_artifact demo_artifacts (ss_world (demo_sess [] [])) ''m'' ''2'' ''bb''"
proof -
  have run: "promote_version (fs_registry demo_artifacts) demo_deployer ''live'' demo_promote (demo_sess [] [])
      = Some (Inr (promo_row_of demo_promote (Some ''1'') APPLIED (Some ''bb'')), snd (demo_move [] []))"
    using demo_move_run[of "[]" "[]"] demo_move_ok by (metis demo_deployer_def fst_conv)
  have "earlier_promotion (pa_key demo_promote) (ss_db (demo_sess [] [])) = None"
    "by_key mm_model (pa_model demo_promote) (metas (ss_db (demo_sess [] []))) = Some (hd (metas demo_ddb))"
    by (simp_all add: demo_promote_def earlier_promotion_def demo_sess_def demo_ddb_def by_key_def)
  from promoted_was_verified[OF run _ this] show ?thesis
    by (simp add: promo_row_of_def demo_ddb_def demo_promote_def)
qed

lemma demo_back_ok: "(case fst demo_back of Inl e \<Rightarrow> False | Inr row \<Rightarrow> pm_to row = ''1'')"
  by code_simp

lemma rollback_undoes_last_move_witness:
  "fs_live (ss_world (snd (demo_move [] []))) ''m'' ''live'' = Some ''2''
   \<and> fs_live (ss_world (snd demo_back)) ''m'' ''live'' = Some ''1''"
proof -
  let ?s = "snd (demo_move [] []) :: world sess"
  have clean: "promos (ss_saved ?s) = promos (ss_db ?s)" by code_simp
  have meta: "by_key mm_model ''m1'' (metas (ss_db ?s)) = Some (hd (metas demo_ddb))" by code_simp
  have history: "promos (ss_db ?s) = [] @ promo_row_of demo_promote (Some ''1'') APPLIED (Some ''bb'') # []" by code_simp
  have "rollback_model (fs_registry demo_artifacts) (world_deployer demo_artifacts ''live'' ''canary'' ''pct'' 5 1)
      (\<lambda>_ _. retA ()) ''live'' ''m1'' None ''op'' None ?s = Some (fst demo_back, snd demo_back)"
    using moves_return[of 1 demo_artifacts "''live''" "''canary''" "''pct''" 5 "''live''" demo_promote ?s
        "\<lambda>_ _. retA ()" "''m1''" None "''op''" None]
    by (auto simp: demo_back_def demo_deployer_def)
  from rollback_undoes_last_move[OF clean meta history _ _ _ this] demo_back_ok
  have "fs_live (ss_world (snd demo_back)) (mm_name (hd (metas demo_ddb))) ''live'' = Some ''1''"
    by (auto simp: promo_row_of_def demo_promote_def split: sum.splits)
  moreover have "fs_live (ss_world ?s) ''m'' ''live'' = Some ''2''" by code_simp
  ultimately show ?thesis by (simp add: demo_ddb_def)
qed

text \<open>All or nothing does not cover the version status tags: when the last commit of a move
  fails, LIVE is put back to version 1 and no history row is kept, but the registry still tags
  version 2 as LIVE and version 1 as ARCHIVED.\<close>

theorem failed_move_leaves_status_tags:
  "isl (fst (demo_move [False, True] []))
   \<and> fs_live (ss_world (snd (demo_move [False, True] []))) ''m'' ''live'' = Some ''1''
   \<and> promos (ss_saved (snd (demo_move [False, True] []))) = []
   \<and> map_option (\<lambda>v. get_or (fv_tags v) ''status'' '''') (w_versions (ss_world (snd (demo_move [False, True] []))) ''m'' ''2'')
       = Some ''LIVE''
   \<and> map_option (\<lambda>v. get_or (fv_tags v) ''status'' '''') (w_versions (ss_world (snd (demo_move [False, True] []))) ''m'' ''1'')
       = Some ''ARCHIVED''"
  by code_simp

end
