(* ===== verification/Rollout_Props.thy ===== *)
theory Rollout_Props
  imports Rollout_System Job_Run Promotion_Props
begin

text \<open>
  The properties of progressive delivery: what every history of operations keeps, what one tick
  may do with the evidence it has, that operations return and release the model, and that a
  rollout that ended without promotion leaves no traffic on the candidate.
\<close>

section \<open>Operations return\<close>

text \<open>What the controller relies on: with a positive polling interval, splits and promotions return.\<close>

locale settling =
  fixes C :: "'w controller"
  assumes split_ret: "0 < de_poll (ct_deployer C) \<Longrightarrow> deployer_split (ct_deployer C) name stb cand pct w \<noteq> None"
    and promote_ret: "0 < de_poll (ct_deployer C)
      \<Longrightarrow> promote_version (ct_registry C) (ct_deployer C) la a s \<noteq> None"
begin

lemma prod_returns: "(\<And>x y. f x y s \<noteq> None) \<Longrightarrow> (\<lambda>(x, y). f x y) z s \<noteq> None"
  by (cases z) simp

lemma outcome_returns:
  "a s \<noteq> None \<Longrightarrow> b s \<noteq> None \<Longrightarrow> c s \<noteq> None \<Longrightarrow> (case x of TO_PROMOTE \<Rightarrow> a | TO_CANARY \<Rightarrow> b | TO_MANUAL \<Rightarrow> c) s \<noteq> None"
  "a s \<noteq> None \<Longrightarrow> b s \<noteq> None \<Longrightarrow> c s \<noteq> None \<Longrightarrow> (case y of AB_PROMOTE \<Rightarrow> a | AB_ROLLBACK \<Rightarrow> b | AB_MANUAL \<Rightarrow> c) s \<noteq> None"
  by (cases x; simp) (cases y; simp)

lemmas returns = run_returns prod_returns pair_returns outcome_returns

lemma basic_returns: "get_rollout rid s \<noteq> None" "model_name m s \<noteq> None" "stable_of ro s \<noteq> None" "add_note now rid s \<noteq> None"
    "record_move C now rid to actor percent step deadline s \<noteq> None" "lock_model C now m holder s \<noteq> None"
    "unlock_model m holder s \<noteq> None" "tick_unavailable now rid s \<noteq> None" "both_stats C now ro s \<noteq> None"
    "await_approval C now rid ro s \<noteq> None" "decide rid actor s \<noteq> None"
proof -
  show g: "get_rollout i s \<noteq> None" for i s unfolding get_rollout_def by (intro returns)
  show "model_name m s \<noteq> None" unfolding model_name_def model_meta_of_def by (intro returns)
  show st: "stable_of ro s \<noteq> None" for ro s unfolding stable_of_def by (intro returns)
  show n: "add_note now rid s \<noteq> None" for s unfolding add_note_def set_rollout_def by (intro returns)
  show r: "record_move C now rid to actor percent step deadline s \<noteq> None" for to actor percent step deadline s
    unfolding record_move_def set_rollout_def by (intro returns g)
  show "lock_model C now m holder s \<noteq> None" unfolding lock_model_def by (intro returns)
  show "unlock_model m holder s \<noteq> None" unfolding unlock_model_def by (intro returns)
  show "tick_unavailable now rid s \<noteq> None" unfolding tick_unavailable_def by (intro returns g n)
  show "both_stats C now ro s \<noteq> None" unfolding both_stats_def arm_stats_of_def by (intro returns st)
  show "await_approval C now rid ro s \<noteq> None" unfolding await_approval_def by (intro returns r)
  show "decide rid actor s \<noteq> None" unfolding decide_def set_rollout_def by (intro returns)
qed

lemma traffic_returns:
  assumes pl: "0 < de_poll (ct_deployer C)"
  shows "split_to C rid pct s \<noteq> None" "end_without_promotion C now rid to actor s \<noteq> None"
    "promote_rollout C now rid actor s \<noteq> None" "enter_canary C now rid actor s \<noteq> None"
proof -
  show sp: "split_to C rid pct s \<noteq> None" for rid pct s
    unfolding split_to_def by (intro returns basic_returns split_ret pl)
  have u: "undo_traffic C rid s \<noteq> None" for rid s
    unfolding undo_traffic_def by (intro returns basic_returns sp)
  show en: "end_without_promotion C now rid to actor s \<noteq> None" for to s
    unfolding end_without_promotion_def by (intro returns basic_returns u)
  have c: "clear_split C now rid s \<noteq> None" for s
    unfolding clear_split_def by (intro returns basic_returns split_ret pl)
  show pr: "promote_rollout C now rid actor s \<noteq> None" for s
    unfolding promote_rollout_def by (intro returns basic_returns promote_ret pl c en)
  show "enter_canary C now rid actor s \<noteq> None"
    unfolding enter_canary_def Let_def by (intro returns basic_returns sp pr)
qed

lemma tick_returns:
  assumes pl: "0 < de_poll (ct_deployer C)"
  shows "tick C now rid s \<noteq> None"
proof -
  have e: "end_as C now rid to s \<noteq> None" for to s unfolding end_as_def by (intro returns traffic_returns[OF pl])
  have p: "promote_as C now rid s \<noteq> None" for s unfolding promote_as_def by (intro returns traffic_returns[OF pl])
  have sh: "advance_shadow C now rid ro h s \<noteq> None" for ro h s
    unfolding advance_shadow_def
    by (intro returns e p basic_returns traffic_returns[OF pl])
  have ca: "advance_canary C now rid ro h s \<noteq> None" for ro h s
    unfolding advance_canary_def Let_def by (intro returns basic_returns p traffic_returns[OF pl])
  have ab: "advance_ab C now rid ro x y s \<noteq> None" for ro x y s
    unfolding advance_ab_def ab_decision_def[symmetric]
    by (intro returns e p basic_returns)
  have "advance C now rid s \<noteq> None" for s
    unfolding advance_def Let_def by (intro returns basic_returns e sh ca ab)
  then show ?thesis unfolding tick_def tick_locked_def by (intro returns basic_returns)
qed

lemma operator_returns:
  assumes pl: "0 < de_poll (ct_deployer C)"
  shows "approve C now rid actor s \<noteq> None" "reject C now rid actor s \<noteq> None" "start_rollout C now rid a s \<noteq> None"
proof -
  have l: "locked_action C now rid s \<noteq> None" for s unfolding locked_action_def by (intro returns basic_returns)
  show "approve C now rid actor s \<noteq> None"
    unfolding approve_def approve_locked_def by (intro returns l basic_returns traffic_returns[OF pl])
  show "reject C now rid actor s \<noteq> None"
    unfolding reject_def by (intro returns l basic_returns traffic_returns[OF pl])
  show "start_rollout C now rid a s \<noteq> None"
    unfolding start_rollout_def begin_delivery_def first_split_failed_def Let_def
    by (intro returns basic_returns traffic_returns[OF pl])
qed

end

text \<open>The controller on the alias deployment of a filesystem registry.\<close>

interpretation alias_serving: settling "C\<lparr>ct_registry := R, ct_deployer := world_deployer p da canary tag timeout pl\<rparr>"
  for C :: "'a world_scheme controller" and R p da canary tag timeout pl
proof
  let ?C = "C\<lparr>ct_registry := R, ct_deployer := world_deployer p da canary tag timeout pl\<rparr>"
  assume "0 < de_poll (ct_deployer ?C)"
  then have "0 < pl" by (simp add: world_deployer_def)
  then show "deployer_split (ct_deployer ?C) name stb cand pct w \<noteq> None"
    "promote_version (ct_registry ?C) (ct_deployer ?C) la a s \<noteq> None" for name stb cand pct w la a s
    using promote_returns world_runs_return(3) by simp_all
qed

lemma positive_polling: "de_poll (world_deployer p da canary tag timeout pl) = pl"
  by (simp add: world_deployer_def)

text \<open>C36. Every operation of the delivery controller on the alias deployment returns: with a
  positive polling interval no tick, approval, rejection or start waits forever, whatever the
  registry, the database and the metrics source do.\<close>

theorem delivery_returns:
  fixes s :: "'a world_scheme sess"
  assumes "0 < pl" and "ct_deployer C = world_deployer p da canary tag timeout pl"
  shows "tick C now rid s \<noteq> None \<and> approve C now rid actor s \<noteq> None \<and> reject C now rid actor s \<noteq> None
    \<and> start_rollout C now rid a s \<noteq> None"
proof -
  have C: "C\<lparr>ct_registry := ct_registry C, ct_deployer := world_deployer p da canary tag timeout pl\<rparr> = C"
    using assms(2) by (cases C) simp
  have "0 < de_poll (ct_deployer C)" using assms by (simp add: positive_polling)
  then show ?thesis
    using alias_serving.tick_returns[where C = C and R = "ct_registry C" and pl = pl and p = p and da = da and canary = canary and tag = tag and timeout = timeout]
      alias_serving.operator_returns[where C = C and R = "ct_registry C" and pl = pl and p = p and da = da and canary = canary and tag = tag and timeout = timeout]
    unfolding C by blast
qed

section \<open>What every history keeps\<close>

text \<open>C9. At most one active rollout per model, whatever operations ran and however they failed.\<close>

theorem one_active_rollout:
  assumes "reach no_rollouts (delivery_step C) d"
  shows "length (filter (\<lambda>r. ro_model r = m \<and> is_active (ro_state r)) (rollouts d)) \<le> 1"
proof -
  let ?as = "filter (\<lambda>r. ro_model r = m \<and> is_active (ro_state r)) (rollouts d)"
  have ok: "distinct (map ro_id (rollouts d))" "one_active (rollouts d)"
    using delivery.reach_I[OF assms] by (simp_all add: rollouts_ok_def)
  then have dist: "distinct (map ro_id ?as)" by (simp add: distinct_map_filter)
  have same: "ro_id r = ro_id q" if "r \<in> set ?as" "q \<in> set ?as" for r q
    using that ok(2) by (auto simp: one_active_def)
  have two: "?as \<noteq> a # b # xs" for a b xs
  proof
    assume eq: "?as = a # b # xs"
    have "a \<in> set ?as" "b \<in> set ?as" unfolding eq by simp_all
    then have "ro_id a = ro_id b" by (rule same)
    moreover have "distinct (map ro_id (a # b # xs))" using dist unfolding eq .
    ultimately show False by simp
  qed
  show ?thesis
  proof (cases ?as)
    case (Cons a as)
    then show ?thesis using two[of a "hd as" "tl as"] by (cases as) auto
  qed simp
qed

text \<open>C13. Exposure is bounded by the policy: an active rollout sends the candidate 0 percent, a step
  of the canary plan below 100 or the A/B share; a shadow sends none; only PROMOTED means 100,
  and every other end means 0. A row has a finishing time exactly when it is final.\<close>

theorem exposure_bounded:
  assumes "reach no_rollouts (delivery_step C) d" and "r \<in> set (rollouts d)"
  shows "(is_active (ro_state r) \<longrightarrow> ro_percent r < 100 \<and> ro_finished r = None
      \<and> (ro_percent r = 0 \<or> ro_percent r \<in> set (p_canary_steps (ro_policy r)) \<or> ro_percent r = p_ab_percent (ro_policy r)))
    \<and> (ro_state r = SHADOW \<longrightarrow> ro_percent r = 0)
    \<and> (\<not> is_active (ro_state r) \<longrightarrow> ro_finished r \<noteq> None \<and> ro_percent r = (if ro_state r = PROMOTED then 100 else 0))"
proof -
  have "row_sound r" using delivery.reach_I[OF assms(1)] assms(2) by (simp add: rollouts_ok_def)
  moreover from this have "p_ab_percent (ro_policy r) < 100" by (simp add: row_sound_def valid_policy_def)
  ultimately show ?thesis
    by (cases "ro_state r") (auto simp: row_sound_def is_active_def active_states_def Let_def)
qed

lemma moves_trans: "rollout_move\<^sup>*\<^sup>* r q \<Longrightarrow> rollout_move q s \<Longrightarrow> rollout_move\<^sup>*\<^sup>* r s"
  by (rule rtranclp.rtrancl_into_rtrancl)

lemma final_stays: "rollout_move r s \<Longrightarrow> \<not> is_active (ro_state r) \<Longrightarrow> noted r s"
  by (cases "ro_state r") (auto simp: rollout_move_def rollout_edge_def is_active_def active_states_def)

lemma step_row:
  assumes "delivery_step C d d'" "rollouts_ok d" "by_key ro_id i (rollouts d) = Some r"
  shows "\<exists>r'. by_key ro_id i (rollouts d') = Some r' \<and> rollout_move r r'"
proof -
  have dd: "distinct (map ro_id (rollouts d))" "distinct (map ro_id (rollouts d'))"
    using assms step_ok by (auto simp: rollouts_ok_def)
  have r: "r \<in> set (rollouts d)" "ro_id r = i" using by_key_Some[OF assms(3)] by auto
  from step_rows[OF assms(1) dd(1)] show ?thesis
  proof
    assume "rows_moved (rollouts d) (rollouts d')"
    then obtain r' where "r' \<in> set (rollouts d')" "rollout_move r r'"
      using r(1) unfolding rows_moved_def by (metis list_all2_conv_all_nth in_set_conv_nth)
    moreover from this have "ro_id r' = i" using move_keeps[of r r'] r(2) by simp
    ultimately show ?thesis using by_key_unique[OF dd(2), of i r'] by auto
  next
    assume "\<exists>now rid a strat p row. rollouts d' = rollouts d @ [row] \<and> rid \<notin> ro_id ` set (rollouts d)
      \<and> active_rollout (sa_model a) d = None \<and> valid_policy p \<and> begun (new_rollout now rid a strat p) row"
    then have "r \<in> set (rollouts d')" using r(1) by auto
    then have "by_key ro_id i (rollouts d') = Some r" using by_key_unique[OF dd(2)] r(2) by auto
    then show ?thesis by (auto simp: rollout_move_def)
  qed
qed

text \<open>C10. Rollouts follow their state machine and are never lost: whatever operations come later, a
  rollout's row is still there under its id and was reached by edges of \<open>rollout_edge\<close> (and
  notes); a final one stays as it is but for notes.\<close>

theorem rollout_history:
  assumes "reach no_rollouts (delivery_step C) d" and "(delivery_step C)\<^sup>*\<^sup>* d d'" and "r \<in> set (rollouts d)"
  shows "\<exists>r'. by_key ro_id (ro_id r) (rollouts d') = Some r' \<and> rollout_move\<^sup>*\<^sup>* r r'
    \<and> (\<not> is_active (ro_state r) \<longrightarrow> noted r r')"
  using assms(2)
proof (induction rule: rtranclp_induct)
  case base
  have "distinct (map ro_id (rollouts d))" using delivery.reach_I[OF assms(1)] by (simp add: rollouts_ok_def)
  from by_key_unique[OF this] show ?case using assms(3) by (intro exI[of _ r]) simp
next
  case (step d1 d2)
  then obtain r1 where r1: "by_key ro_id (ro_id r) (rollouts d1) = Some r1" "rollout_move\<^sup>*\<^sup>* r r1"
    "\<not> is_active (ro_state r) \<Longrightarrow> noted r r1" by blast
  have "rollouts_ok d1" using delivery.later_I[OF step(1) delivery.reach_I[OF assms(1)]] .
  from step_row[OF step(2) this r1(1)] obtain r2 where r2: "by_key ro_id (ro_id r) (rollouts d2) = Some r2" "rollout_move r1 r2" by blast
  have "noted r r2" if "\<not> is_active (ro_state r)"
  proof -
    have n: "noted r r1" by (rule r1(3)[OF that])
    then have "\<not> is_active (ro_state r1)" using that by (simp add: noted_def)
    from noted_trans[OF n final_stays[OF r2(2) this]] show ?thesis .
  qed
  then show ?case using r2 moves_trans[OF r1(2) r2(2)] by blast
qed

section \<open>What a tick does with the evidence\<close>

lemma justified_noted: "noted r r' \<Longrightarrow> justified W now r' stb cand to = justified W now r stb cand to"
  by (simp add: justified_def promotion_due_def ab_decision_def noted_def same_rollout_def Let_def cong: roll_state.case_cong ab_verdict.case_cong)

text \<open>C11. With the stored observations as evidence, a tick of a rollout that is not an A/B test
  without a deadline moves it only where they justify it, along one edge of the state machine, or
  leaves it where it is; all other rollouts stay as they are. In particular a breach can only roll
  back, traffic grows only when the window is healthy and the step was held, and an A/B test is
  decided only when its deadline has passed. (An A/B test gets a deadline when its first split
  succeeds; one left without it is decided by the code at once, whatever was observed.)\<close>

theorem tick_follows_evidence:
  assumes api: "ct_observe C = api_observe" and clean: "ss_db s = d" "ss_saved s = d"
    and row: "by_key ro_id rid (rollouts d) = Some r" and run: "tick C now rid s = Some (res, s')"
    and timed: "ro_state r = AB \<Longrightarrow> ro_deadline r \<noteq> None"
  shows "\<exists>r'. by_key ro_id rid (rollouts (ss_saved s')) = Some r' \<and> (noted r r' \<or> rollout_edge r r'
        \<and> justified (ct_welch C) now r (window_stats rid Stable_Arm (ro_started r) now (observations d))
            (window_stats rid Candidate_Arm (ro_started r) now (observations d)) (ro_state r'))
    \<and> (\<forall>i. i \<noteq> rid \<longrightarrow> by_key ro_id i (rollouts (ss_saved s')) = by_key ro_id i (rollouts d))"
proof -
  let ?stb = "window_stats rid Stable_Arm (ro_started r) now (observations d)"
    and ?cand = "window_stats rid Candidate_Arm (ro_started r) now (observations d)"
  let ?T = "{to. justified (ct_welch C) now r ?stb ?cand to}"
  have id: "ro_id r = rid" using by_key_Some[OF row] by simp
  have "turns (both (unmoved d rid r)) (tick C now rid) (both (moved_to ?T d rid r))"
  proof (rule existing_row.turns_tick_api[OF api])
    fix ro to assume n: "noted r ro" and j: "justified (ct_welch C) now ro
        (window_stats (ro_id ro) Stable_Arm (ro_started ro) now (observations d))
        (window_stats (ro_id ro) Candidate_Arm (ro_started ro) now (observations d)) to \<or> untimed ro"
    have "\<not> untimed ro" using n timed by (auto simp: untimed_def noted_def)
    moreover have "ro_id ro = rid" "ro_started ro = ro_started r" using n id by (simp_all add: noted_def same_rollout_def)
    ultimately have "to \<in> ?T" using j justified_noted[OF n] by simp
    then show "allows (noted r) (edge_to ?T) to" by (auto simp: allows_def edge_to_def)
  qed
  from existing_run[OF this run clean row] show ?thesis
    by (auto simp: moved_to_def edge_to_def other_rows_def)
qed

section \<open>The model is released\<close>

text \<open>No database failure to come.\<close>

definition calm :: "'w sess \<Rightarrow> bool" where
  "calm s \<longleftrightarrow> ss_faults s = []"

lemma keeps_calm [keeps_intros]:
  "keepsR calm db_io" "keepsR calm (readD f)" "keepsR calm (writeD g)" "keepsR calm commit" "keepsR calm rollback"
  "keepsR calm (onW m)" "keepsR calm (onWR q)"
proof -
  show "keepsR calm (onWR q)" by (rule keepsRI) (auto simp: wlp_def onWR_def calm_def split: option.split)
  show "keepsR calm commit" by (rule keepsRI) (simp add: wlp_def commit_ok calm_def)
qed (rule keepsRI, simp add: wlp_simps calm_def)+

lemma keeps_calm_promote [keeps_intros]: "keepsR calm (promote_version R D la a)"
  unfolding promote_version_def verified_move_def already_live_def move_live_def deploy_move_def finish_move_def
    promotion_failed_def audit_failed_move_def audit_move_def add_promo_def model_meta_of_def Let_def
  by (intro keeps_intros)

lemma keeps_calm_parts [keeps_intros]:
  "keepsR calm (get_rollout rid)" "keepsR calm (model_name m)" "keepsR calm (stable_of ro)"
  "keepsR calm (record_move C now rid to actor percent step deadline)" "keepsR calm (add_note now rid)"
  unfolding get_rollout_def model_name_def model_meta_of_def stable_of_def record_move_def add_note_def set_rollout_def
  by (intro keeps_intros)+

lemma keeps_calm_split [keeps_intros]: "keepsR calm (split_to C rid pct)"
  unfolding split_to_def by (intro keeps_intros)

lemma keeps_calm_end [keeps_intros]: "keepsR calm (end_without_promotion C now rid to actor)"
  unfolding end_without_promotion_def undo_traffic_def by (intro keeps_intros)

lemma keeps_calm_promotion [keeps_intros]: "keepsR calm (promote_rollout C now rid actor)"
  unfolding promote_rollout_def clear_split_def by (intro keeps_intros)

lemma keeps_calm_cases [keeps_intros]:
  "keepsR I a \<Longrightarrow> keepsR I b \<Longrightarrow> keepsR I c \<Longrightarrow> keepsR I (case x of TO_PROMOTE \<Rightarrow> a | TO_CANARY \<Rightarrow> b | TO_MANUAL \<Rightarrow> c)"
  "keepsR I a \<Longrightarrow> keepsR I b \<Longrightarrow> keepsR I c \<Longrightarrow> keepsR I (case y of AB_PROMOTE \<Rightarrow> a | AB_ROLLBACK \<Rightarrow> b | AB_MANUAL \<Rightarrow> c)"
  by (cases x; simp) (cases y; simp)

lemma keeps_calm_tick: "keepsR calm (tick_locked C now rid)"
  unfolding tick_locked_def advance_def advance_shadow_def advance_canary_def advance_ab_def end_as_def promote_as_def
    await_approval_def enter_canary_def tick_unavailable_def both_stats_def arm_stats_of_def Let_def ab_decision_def[symmetric]
  by (intro keeps_intros)

definition not_held :: "string \<Rightarrow> string \<Rightarrow> ddb \<Rightarrow> bool" where
  "not_held m holder d \<longleftrightarrow> \<not> list_ex (\<lambda>l. lk_model l = m \<and> lk_job l = holder) (locks d)"

lemma wlp_unlock: "calm s \<Longrightarrow> wlp (unlock_model m holder) (\<lambda>_ s'. not_held m holder (ss_saved s')) s"
  by (simp add: unlock_model_def wlp_simps calm_def wlp_def[of commit] commit_ok not_held_def release_lock_def delete_where_def
      list_ex_iff)

lemma wlp_lock_busy:
  "calm s \<Longrightarrow> wlp (lock_model C now m holder) (\<lambda>r s'. calm s' \<and> (r = Inr True \<or> r = Inr False \<and> ss_saved s' = ss_saved s)) s"
  by (simp add: lock_model_def wlp_simps calm_def wlp_def[of commit] commit_ok)

text \<open>C30. A tick releases the model it locked: when no database call fails, then after a tick that
  got past the lock, however it ended, no lock of the model is in the rollout's name; a tick that
  found the model busy (or the rollout missing or ended) leaves the tables as they were.\<close>

theorem tick_releases_model:
  assumes "ss_faults s = []" and "ss_db s = ss_saved s" and "by_key ro_id rid (rollouts (ss_db s)) = Some r"
    and "tick C now rid s = Some (res, s')"
  shows "not_held (ro_model r) (rollout_holder rid) (ss_saved s') \<or> (res = Inr Busy \<or> res = Inr Ended) \<and> ss_saved s' = ss_saved s"
proof -
  let ?Q = "\<lambda>res s'. not_held (ro_model r) (rollout_holder rid) (ss_saved s') \<or> (res = Inr Busy \<or> res = Inr Ended) \<and> ss_saved s' = ss_saved s"
  have locked: "wlp (finallyR (tick_locked C now rid) (unlock_model (ro_model r) (rollout_holder rid))) ?Q s1" if "calm s1" for s1
    unfolding wlp_finallyR
  proof (rule wlp_mono[OF keepsRD[OF keeps_calm_tick that]])
    fix q s2 assume "calm s2"
    from wlp_unlock[OF this, of "ro_model r" "rollout_holder rid"]
    show "wlp (unlock_model (ro_model r) (rollout_holder rid))
      (\<lambda>x w''. case x of Inl e \<Rightarrow> ?Q (Inl e) w'' | Inr y \<Rightarrow> ?Q q w'') s2"
      by (rule wlp_mono) (auto split: sum.split)
  qed
  have "wlp (tick C now rid) ?Q s"
    unfolding tick_def
  proof (rule wlp_then[where P = "\<lambda>q s1. q = Inr r \<and> s1 = s"])
    show "wlp (get_rollout rid) (\<lambda>q s1. q = Inr r \<and> s1 = s) s" by (simp add: get_rollout_def wlp_simps assms(3))
  next
    fix ro s1 assume ro: "Inr ro = Inr r \<and> s1 = s"
    have "wlp (thenR (lock_model C now (ro_model r) (rollout_holder rid)) (\<lambda>got.
         if \<not> got then retR Busy
         else finallyR (tick_locked C now rid) (unlock_model (ro_model r) (rollout_holder rid)))) ?Q s"
      by (rule wlp_then[OF wlp_lock_busy]) (use locked in \<open>auto simp: calm_def assms(1) wlp_retR\<close>)
    then show "wlp (if \<not> is_active (ro_state ro) then retR Ended
        else thenR (lock_model C now (ro_model ro) (rollout_holder rid)) (\<lambda>got.
         if \<not> got then retR Busy
         else finallyR (tick_locked C now rid) (unlock_model (ro_model ro) (rollout_holder rid)))) ?Q s1"
      using ro by (auto simp: wlp_retR)
  qed simp
  from wlpD[OF this assms(4)] show ?thesis .
qed

section \<open>No traffic is left on a candidate that was turned down\<close>

text \<open>The serving system's last word on the model's traffic: none of it goes to a candidate.\<close>

definition no_candidate :: "'w deployer \<Rightarrow> string \<Rightarrow> 'w \<Rightarrow> bool" where
  "no_candidate D name w \<longleftrightarrow> (\<exists>sp. split_back D name sp w \<and> sp_candidate sp = None)"

lemma no_candidateI: "split_back D name sp w \<Longrightarrow> sp_candidate sp = None \<Longrightarrow> no_candidate D name w"
  by (auto simp: no_candidate_def)

definition turned_down :: "roll_state \<Rightarrow> bool" where
  "turned_down st \<longleftrightarrow> st \<in> {ROLLED_BACK, EXPIRED, REJECTED}"

definition not_down :: "string \<Rightarrow> ddb \<Rightarrow> bool" where
  "not_down rid d \<longleftrightarrow> (\<forall>r. by_key ro_id rid (rollouts d) = Some r \<longrightarrow> \<not> turned_down (ro_state r))"

text \<open>
  \<open>in_play\<close>: while the rollout is not turned down, with what the removal of its split reads;
  \<open>left_clean\<close>: once it is, as the session sees it or as it is saved, no candidate has traffic.
\<close>

definition in_play :: "string \<Rightarrow> string \<Rightarrow> ddb \<Rightarrow> bool" where
  "in_play rid name d \<longleftrightarrow> (\<forall>r. by_key ro_id rid (rollouts d) = Some r \<longrightarrow> \<not> turned_down (ro_state r) \<and> ro_stable r \<noteq> None
     \<and> (\<exists>meta. by_key mm_model (ro_model r) (metas d) = Some meta \<and> mm_name meta = name))"

definition left_clean :: "'w deployer \<Rightarrow> string \<Rightarrow> string \<Rightarrow> 'w sess \<Rightarrow> bool" where
  "left_clean D rid name s \<longleftrightarrow> no_candidate D name (ss_world s) \<or> both (not_down rid) s"

lemma in_play_clean: "both (in_play rid name) s \<Longrightarrow> left_clean D rid name s"
  by (auto simp: both_def in_play_def left_clean_def not_down_def)

subsection \<open>What keeps the rollout as it is\<close>

lemma in_play_write:
  assumes "\<And>d. metas (g d) = metas d"
    and "\<And>d r. by_key ro_id rid (rollouts (g d)) = Some r \<Longrightarrow>
      \<exists>q. by_key ro_id rid (rollouts d) = Some q \<and> ro_stable r = ro_stable q \<and> ro_model r = ro_model q
        \<and> (turned_down (ro_state r) \<longrightarrow> turned_down (ro_state q))"
  shows "keepsR (both (in_play rid name)) (writeD g)"
proof (rule keepsR_writeD)
  fix d assume d: "in_play rid name d"
  show "in_play rid name (g d)"
    unfolding in_play_def
  proof (intro allI impI)
    fix r assume "by_key ro_id rid (rollouts (g d)) = Some r"
    from assms(2)[OF this] d show "\<not> turned_down (ro_state r) \<and> ro_stable r \<noteq> None
        \<and> (\<exists>meta. by_key mm_model (ro_model r) (metas (g d)) = Some meta \<and> mm_name meta = name)"
      by (auto simp: in_play_def assms(1))
  qed
qed

lemma insert_lock_metas [simp]: "metas (insert_lock now m h ttl d) = metas d"
  by (auto simp: insert_lock_def add_lock_def split: option.split)

lemma take_over_metas [simp]: "metas (snd (take_over_expired_lock now mo h ttl d)) = metas d"
  by (simp add: take_over_expired_lock_def Let_def)

lemma note_metas [simp]:
  "metas (record_audit ac actor j m v st d) = metas d" "metas (record_event now se ty su m d) = metas d"
  by (simp_all add: record_audit_def record_event_def Let_def)

lemma keeps_in_play [keeps_intros]:
  "keepsR (both (in_play rid name)) (add_note now rid)"
  "keepsR (both (in_play rid name)) (decide rid actor)"
  "keepsR (both (in_play rid name)) (lock_model C now m holder)"
  "keepsR (both (in_play rid name)) (promote_version R D la a)"
  unfolding add_note_def decide_def set_rollout_def lock_model_def
  by (intro keeps_intros in_play_write; auto simp: by_key_set)+
    (rule keeps_promote, auto simp: beside_moves_def in_play_def)

lemma keeps_in_play_move:
  "\<not> turned_down to \<Longrightarrow> keepsR (both (in_play rid name)) (record_move C now rid to actor percent step deadline)"
  unfolding record_move_def set_rollout_def
  by (intro keeps_intros in_play_write) (auto simp: by_key_set moved_row_def Let_def)

lemma keeps_in_play_clear [keeps_intros]: "keepsR (both (in_play rid name)) (clear_split C now rid)"
  unfolding clear_split_def by (intro keeps_intros)

text \<open>Operations on the tables alone leave the world as it is.\<close>

lemma keeps_world_parts [keeps_intros]:
  "keepsR (\<lambda>s. P (ss_world s)) (get_rollout i)"
  "keepsR (\<lambda>s. P (ss_world s)) (record_move C now rid to actor percent step deadline)"
  "keepsR (\<lambda>s. P (ss_world s)) (unlock_model m holder)"
  "keepsR (\<lambda>s. P (ss_world s)) (add_note now rid)"
  unfolding get_rollout_def record_move_def set_rollout_def unlock_model_def add_note_def by (intro keeps_intros)+

lemma keeps_cleanI:
  assumes "keepsR (\<lambda>s. no_candidate D name (ss_world s)) m" and "keepsR (both (not_down rid)) m"
  shows "keepsR (left_clean D rid name) m"
proof (rule keepsRI)
  fix s assume "left_clean D rid name s"
  then consider "no_candidate D name (ss_world s)" | "both (not_down rid) s" by (auto simp: left_clean_def)
  then show "wlp m (\<lambda>_. left_clean D rid name) s"
    by cases (rule wlp_mono, rule keepsRD[OF assms(1)] keepsRD[OF assms(2)], assumption, simp add: left_clean_def)+
qed

lemma keeps_not_down [keeps_intros]:
  "keepsR (both (not_down rid)) (add_note now rid)" "keepsR (both (not_down rid)) (unlock_model m holder)"
  unfolding add_note_def set_rollout_def unlock_model_def
  by (intro keeps_intros keepsR_writeD; auto simp: not_down_def by_key_set)+

lemma keeps_clean [keeps_intros]:
  "keepsR (left_clean D rid name) (get_rollout i)" "keepsR (left_clean D rid name) (add_note now rid)"
  "keepsR (left_clean D rid name) (unlock_model m holder)" "keepsR (left_clean D rid name) commit"
  "keepsR (left_clean D rid name) rollback"
  by (rule keeps_cleanI; intro keeps_intros)+

subsection \<open>Ending without promotion\<close>

lemma wlp_split_zero:
  assumes "in_play rid name (ss_db s)" "dp_splits (de_port (ct_deployer C))"
  shows "wlp (split_to C rid 0) (\<lambda>q s'. q = Inr () \<longrightarrow> no_candidate (ct_deployer C) name (ss_world s')) s"
  using assms
  by (auto simp: in_play_def split_to_def get_rollout_def model_name_def model_meta_of_def stable_of_def wlp_simps
      split: sum.split option.split intro!: wlp_split no_candidateI)

lemma wlp_undo_traffic:
  assumes "in_play rid name (ss_db s)" "dp_splits (de_port (ct_deployer C))"
  shows "wlp (undo_traffic C rid) (\<lambda>q s'. q = Inr () \<longrightarrow> no_candidate (ct_deployer C) name (ss_world s')) s"
proof (cases "by_key ro_id rid (rollouts (ss_db s))")
  case None
  then show ?thesis by (simp add: undo_traffic_def get_rollout_def wlp_simps)
next
  case (Some r)
  then obtain meta where r: "ro_stable r \<noteq> None" "by_key mm_model (ro_model r) (metas (ss_db s)) = Some meta" "mm_name meta = name"
    using assms by (auto simp: in_play_def)
  have z: "wlp (split_to C rid 0) (\<lambda>q s'. q = Inr () \<longrightarrow> no_candidate (ct_deployer C) name (ss_world s')) s1"
    if "ss_db s1 = ss_db s" for s1
    by (rule wlp_split_zero) (use assms that in simp_all)
  obtain q w where t: "traffic (ct_deployer C) name (ss_world s) = (q, w)" by fastforce
  have "no_candidate (ct_deployer C) name w" if "q = Inr x" "sp_candidate x = None" for x
    using t that assms(2) by (auto simp: no_candidate_def split_back_def traffic_def)
  then show ?thesis
    unfolding undo_traffic_def
    by (simp add: get_rollout_def wlp_thenR[of "thenR m f" for m f] wlp_thenR[of "readD f" for f] wlp_readD wlp_retR Some r assms(2) z
        wlp_thenR[of "model_name x" for x] model_name_def model_meta_of_def wlp_thenR[of "onW m" for m] wlp_onW t
        split: sum.split)
qed

lemma wlp_ending:
  fixes C :: "'w controller" and s :: "'w sess"
  assumes "both (in_play rid name) s" "dp_splits (de_port (ct_deployer C))"
  shows "wlp (end_without_promotion C now rid to actor)
    (\<lambda>q s'. left_clean (ct_deployer C) rid name s' \<and> (q = Inr () \<longrightarrow> no_candidate (ct_deployer C) name (ss_world s'))) s"
  unfolding end_without_promotion_def
proof (rule wlp_then)
  show "wlp (undo_traffic C rid) (\<lambda>q s'. both (in_play rid name) s'
      \<and> (q = Inr () \<longrightarrow> no_candidate (ct_deployer C) name (ss_world s'))) s"
    by (rule wlp_conj[OF keepsRD[OF keeps_undo] wlp_undo_traffic]) (use assms in \<open>simp_all add: both_def\<close>)
next
  fix x and s1 :: "'w sess"
  assume "both (in_play rid name) s1 \<and> (Inr x = Inr () \<longrightarrow> no_candidate (ct_deployer C) name (ss_world s1))"
  then have nc: "no_candidate (ct_deployer C) name (ss_world s1)" by simp
  have k: "keepsR (\<lambda>s. no_candidate (ct_deployer C) name (ss_world s))
      (thenR (record_move C now rid to actor (Some 0) None None) (\<lambda>_. commit))" by (intro keeps_intros)
  show "wlp (thenR (record_move C now rid to actor (Some 0) None None) (\<lambda>_. commit)) (\<lambda>q s'.
      left_clean (ct_deployer C) rid name s' \<and> (q = Inr () \<longrightarrow> no_candidate (ct_deployer C) name (ss_world s'))) s1"
    by (rule wlp_mono[OF keepsRD[OF k]]) (use nc in \<open>simp_all add: left_clean_def\<close>)
qed (simp add: in_play_clean)


subsection \<open>Whole operations\<close>

text \<open>An operation that leaves no candidate on a rollout it turned down, nor when its result is in \<open>T\<close>.\<close>

definition cleared :: "'w deployer \<Rightarrow> string \<Rightarrow> string \<Rightarrow> ('a \<Rightarrow> bool) \<Rightarrow> exn + 'a \<Rightarrow> 'w sess \<Rightarrow> bool" where
  "cleared D rid name T q s \<longleftrightarrow> left_clean D rid name s \<and> (\<forall>x. q = Inr x \<longrightarrow> T x \<longrightarrow> no_candidate D name (ss_world s))"

definition clears :: "'w controller \<Rightarrow> string \<Rightarrow> string \<Rightarrow> ('a \<Rightarrow> bool) \<Rightarrow> ('w sess, 'a) run \<Rightarrow> bool" where
  "clears C rid name T m \<longleftrightarrow> (\<forall>s. both (in_play rid name) s \<longrightarrow> wlp m (cleared (ct_deployer C) rid name T) s)"

abbreviation nothing :: "'a \<Rightarrow> bool" where
  "nothing \<equiv> \<lambda>_. False"

lemma cleared_simps [simp]:
  "cleared D rid name T (Inl e) s \<longleftrightarrow> left_clean D rid name s"
  "cleared D rid name T (Inr x) s \<longleftrightarrow> left_clean D rid name s \<and> (T x \<longrightarrow> no_candidate D name (ss_world s))"
  by (auto simp: cleared_def)

lemma clears_keeps: "keepsR (both (in_play rid name)) m \<Longrightarrow> clears C rid name nothing m"
  unfolding clears_def by (intro allI impI, rule wlp_mono, erule (1) keepsRD) (simp add: cleared_def in_play_clean)

lemma clears_then:
  "keepsR (both (in_play rid name)) m \<Longrightarrow> (\<And>x. clears C rid name T (f x)) \<Longrightarrow> clears C rid name T (thenR m f)"
  unfolding clears_def
  by (intro allI impI, rule wlp_then, erule (1) keepsRD) (auto simp: in_play_clean)

lemma clears_else:
  "keepsR (both (in_play rid name)) m \<Longrightarrow> (\<And>e. clears C rid name T (h e)) \<Longrightarrow> (\<And>x. clears C rid name T (k x))
    \<Longrightarrow> clears C rid name T (elseR m h k)"
  unfolding clears_def
  by (intro allI impI, rule wlp_else, erule (1) keepsRD) auto

lemma clears_last:
  fixes C :: "'w controller"
  shows "clears C rid name nothing m \<Longrightarrow> (\<And>x. keepsR (left_clean (ct_deployer C) rid name) (f x)) \<Longrightarrow> clears C rid name nothing (thenR m f)"
  unfolding clears_def
proof (intro allI impI)
  fix s :: "'w sess" assume m: "\<forall>s. both (in_play rid name) s \<longrightarrow> wlp m (cleared (ct_deployer C) rid name nothing) s"
    and k: "\<And>x. keepsR (left_clean (ct_deployer C) rid name) (f x)" and s: "both (in_play rid name) s"
  have "wlp (f x) (cleared (ct_deployer C) rid name nothing) s'" if "left_clean (ct_deployer C) rid name s'" for x s'
    by (rule wlp_mono[OF keepsRD[OF k that]]) (simp add: cleared_def)
  with m s show "wlp (thenR m f) (cleared (ct_deployer C) rid name nothing) s"
    by (intro wlp_then[of m "cleared (ct_deployer C) rid name nothing"]) simp_all
qed

lemma clears_other: "clears C rid name nothing m \<Longrightarrow> \<not> T x \<Longrightarrow> clears C rid name T (thenR m (\<lambda>_. retR x))"
  unfolding clears_def
  by (intro allI impI, rule wlp_then, erule allE, erule (1) mp) (auto simp: wlp_retR)

lemma clears_leaf: "\<not> T x \<Longrightarrow> clears C rid name T (retR x)" "clears C rid name T (raiseR e)"
  by (simp_all add: clears_def wlp_simps in_play_clean)

lemma clears_if: "(b \<Longrightarrow> clears C rid name T m) \<Longrightarrow> (\<not> b \<Longrightarrow> clears C rid name T n) \<Longrightarrow> clears C rid name T (if b then m else n)"
  by simp

lemma clears_cases:
  "clears C rid name T a \<Longrightarrow> clears C rid name T b \<Longrightarrow> clears C rid name T c
    \<Longrightarrow> clears C rid name T (case x of TO_PROMOTE \<Rightarrow> a | TO_CANARY \<Rightarrow> b | TO_MANUAL \<Rightarrow> c)"
  "clears C rid name T a \<Longrightarrow> clears C rid name T b \<Longrightarrow> clears C rid name T c
    \<Longrightarrow> clears C rid name T (case y of AB_PROMOTE \<Rightarrow> a | AB_ROLLBACK \<Rightarrow> b | AB_MANUAL \<Rightarrow> c)"
  by (cases x; simp) (cases y; simp)

lemma clears_end:
  fixes C :: "'w controller"
  assumes sp: "dp_splits (de_port (ct_deployer C))"
    and f: "\<And>x. keepsR (\<lambda>s. no_candidate (ct_deployer C) name (ss_world s)) (f x)"
  shows "clears C rid name T (thenR (end_without_promotion C now rid to actor) f)"
  unfolding clears_def
proof (intro allI impI)
  fix s :: "'w sess" assume s: "both (in_play rid name) s"
  show "wlp (thenR (end_without_promotion C now rid to actor) f) (cleared (ct_deployer C) rid name T) s"
  proof (rule wlp_then[OF wlp_ending[OF s sp]])
    fix x and s1 :: "'w sess"
    assume "left_clean (ct_deployer C) rid name s1 \<and> (Inr x = Inr () \<longrightarrow> no_candidate (ct_deployer C) name (ss_world s1))"
    then have nc: "no_candidate (ct_deployer C) name (ss_world s1)" by simp
    show "wlp (f x) (cleared (ct_deployer C) rid name T) s1"
      by (rule wlp_mono[OF keepsRD[OF f]]) (use nc in \<open>simp_all add: cleared_def left_clean_def\<close>)
  qed simp
qed

lemma clears_end_only:
  "dp_splits (de_port (ct_deployer C)) \<Longrightarrow> clears C rid name nothing (end_without_promotion C now rid to actor)"
  unfolding clears_def by (intro allI impI, rule wlp_mono, erule (1) wlp_ending) (simp add: cleared_def)

lemma clears_catch:
  "clears C rid name T m \<Longrightarrow> (\<And>e s. left_clean (ct_deployer C) rid name s \<Longrightarrow> wlp (h e) (cleared (ct_deployer C) rid name T) s)
    \<Longrightarrow> clears C rid name T (catchR m c h)"
  unfolding clears_def wlp_catchR by (auto elim!: wlp_mono split: sum.split)

lemma clears_unlock:
  fixes C :: "'w controller"
  assumes "clears C rid name T m"
  shows "clears C rid name T (finallyR m (unlock_model mo h))"
  unfolding clears_def wlp_finallyR
proof (intro allI impI)
  let ?D = "ct_deployer C"
  fix s :: "'w sess" assume "both (in_play rid name) s"
  then have m: "wlp m (cleared ?D rid name T) s" using assms by (simp add: clears_def)
  show "wlp m (\<lambda>r. wlp (unlock_model mo h) (\<lambda>q s'. case q of
      Inl e \<Rightarrow> cleared ?D rid name T (Inl e) s' | Inr _ \<Rightarrow> cleared ?D rid name T r s')) s"
  proof (rule wlp_mono[OF m])
    fix r and s1 :: "'w sess" assume r: "cleared ?D rid name T r s1"
    have "wlp (unlock_model mo h) (\<lambda>_. left_clean ?D rid name) s1"
      by (rule keepsRD[OF keeps_clean(3)]) (use r in \<open>simp add: cleared_def\<close>)
    moreover have "wlp (unlock_model mo h) (\<lambda>_ s. \<forall>x. r = Inr x \<longrightarrow> T x \<longrightarrow> no_candidate ?D name (ss_world s)) s1"
      by (rule keepsRD[OF keeps_world_parts(3)]) (use r in \<open>simp add: cleared_def\<close>)
    ultimately show "wlp (unlock_model mo h) (\<lambda>q s'. case q of
      Inl e \<Rightarrow> cleared ?D rid name T (Inl e) s' | Inr _ \<Rightarrow> cleared ?D rid name T r s') s1"
      by (rule wlp_mono[OF wlp_conj]) (auto simp: cleared_def split: sum.split)
  qed
qed

lemmas clears_intros = clears_then clears_else clears_if clears_cases clears_leaf

lemma down_simps [simp]: "\<not> turned_down CANARY" "\<not> turned_down AWAITING_APPROVAL" "\<not> turned_down PROMOTED" "\<not> turned_down SHADOW" "\<not> turned_down AB"
  by (simp_all add: turned_down_def)

lemma clears_promote:
  assumes sp: "dp_splits (de_port (ct_deployer C))"
  shows "clears C rid name nothing (promote_rollout C now rid actor)" "clears C rid name nothing (enter_canary C now rid actor)"
proof -
  show p: "clears C rid name nothing (promote_rollout C now rid actor)"
    unfolding promote_rollout_def
    by (intro clears_intros clears_end_only[OF sp] clears_keeps keeps_intros keeps_in_play_move) simp_all
  show "clears C rid name nothing (enter_canary C now rid actor)"
    unfolding enter_canary_def Let_def
    by (intro clears_intros p clears_keeps keeps_intros keeps_in_play_move) simp_all
qed

text \<open>What a tick reports when it turned the candidate down.\<close>

definition went_down :: "tick_result \<Rightarrow> bool" where
  "went_down x \<longleftrightarrow> (\<exists>st. x = Went st \<and> turned_down st)"

lemma went_simps [simp]:
  "\<not> went_down Waiting" "\<not> went_down Ended" "\<not> went_down Busy" "\<not> went_down Unavailable"
  "went_down (Went st) \<longleftrightarrow> turned_down st"
  by (simp_all add: went_down_def)

lemma clears_advance:
  assumes sp: "dp_splits (de_port (ct_deployer C))"
  shows "clears C rid name went_down (advance C now rid)"
proof -
  have e: "clears C rid name went_down (end_as C now rid to)" for to
    unfolding end_as_def by (rule clears_end[OF sp]) (rule keeps_intros)
  have p: "clears C rid name went_down (promote_as C now rid)"
    unfolding promote_as_def by (rule clears_other[OF clears_promote(1)[OF sp]]) simp
  have w: "clears C rid name went_down (await_approval C now rid ro)" for ro
    unfolding await_approval_def by (intro clears_then keeps_in_play_move keeps_intros clears_leaf) simp_all
  have sh: "clears C rid name went_down (advance_shadow C now rid ro h)" for ro h
    unfolding advance_shadow_def
    by (intro clears_if clears_cases e p w clears_leaf clears_other[OF clears_promote(2)[OF sp]]) simp_all
  have ca: "clears C rid name went_down (advance_canary C now rid ro h)" for ro h
    unfolding advance_canary_def Let_def
    by (intro clears_if p clears_leaf clears_then keeps_in_play_move keeps_intros) simp_all
  have ab: "clears C rid name went_down (advance_ab C now rid ro x y)" for ro x y
    unfolding advance_ab_def ab_decision_def[symmetric] by (intro clears_if clears_cases e p w clears_leaf) simp
  show ?thesis
    unfolding advance_def Let_def split_beta by (intro clears_then keeps_intros clears_if e sh ca ab clears_leaf) simp
qed

lemma clears_tick:
  assumes sp: "dp_splits (de_port (ct_deployer C))"
  shows "clears C rid name went_down (tick C now rid)"
proof -
  have k: "keepsR (left_clean (ct_deployer C) rid name) (thenR rollback (\<lambda>_. thenR (get_rollout rid) (\<lambda>_. thenR (add_note now rid) (\<lambda>_. commit))))"
    by (intro keeps_intros)
  have u: "wlp (tick_unavailable now rid) (cleared (ct_deployer C) rid name went_down) s"
    if "left_clean (ct_deployer C) rid name s" for s
    unfolding tick_unavailable_def thenR_assoc[symmetric]
    by (rule wlp_then[OF keepsRD[OF k[unfolded thenR_assoc[symmetric]] that]]) (simp_all add: wlp_retR)
  show ?thesis
    unfolding tick_def tick_locked_def
    by (intro clears_then keeps_intros clears_if clears_leaf clears_unlock clears_catch clears_advance[OF sp] u) simp_all
qed

lemma clears_operator:
  assumes sp: "dp_splits (de_port (ct_deployer C))"
  shows "clears C rid name nothing (approve C now rid actor)" "clears C rid name (\<lambda>_. True) (reject C now rid actor)"
proof -
  show "clears C rid name (\<lambda>_. True) (reject C now rid actor)"
    unfolding reject_def locked_action_def
    by (intro clears_then keeps_intros clears_unlock clears_end[OF sp])
  have "clears C rid name nothing (approve_locked C now rid actor ro)" for ro
    unfolding approve_locked_def
    by (intro clears_if clears_leaf clears_end[OF sp] clears_then[OF keeps_in_play(2)] clears_last clears_promote[OF sp] keeps_intros)
  then show "clears C rid name nothing (approve C now rid actor)"
    unfolding approve_def locked_action_def
    by (intro clears_then keeps_intros clears_unlock)
qed

lemma clears_start:
  assumes sp: "dp_splits (de_port (ct_deployer C))"
  shows "clears C rid name nothing (begin_delivery C now rid strat p)"
proof -
  have note_clean: "wlp (thenR (add_note now rid) (\<lambda>_. commit)) (cleared (ct_deployer C) rid name nothing) s"
    if "left_clean (ct_deployer C) rid name s" for s
  proof -
    have "keepsR (left_clean (ct_deployer C) rid name) (thenR (add_note now rid) (\<lambda>_. commit))" by (intro keeps_intros)
    from keepsRD[OF this that] show ?thesis by (rule wlp_mono) (simp add: cleared_def)
  qed
  have f: "clears C rid name nothing (first_split_failed C now rid)"
    unfolding first_split_failed_def
    by (intro clears_last clears_catch clears_end_only[OF sp] note_clean keeps_intros)
  have i: "\<not> turned_down (initial_state strat)" by (cases strat) simp_all
  show ?thesis
    unfolding begin_delivery_def Let_def
    by (intro clears_if clears_else clears_then clears_last clears_promote[OF sp] f clears_leaf clears_keeps keeps_intros
        keeps_in_play_move i)
qed

text \<open>
  One operation on rollout \<open>rid\<close> of model \<open>m\<close>, from session \<open>s\<close> to session \<open>s'\<close>, however it ended.
\<close>

definition one_operation :: "'w controller \<Rightarrow> time \<Rightarrow> string \<Rightarrow> string \<Rightarrow> 'w sess \<Rightarrow> 'w sess \<Rightarrow> bool" where
  "one_operation C now rid m s s' \<longleftrightarrow> (\<exists>res. tick C now rid s = Some (res, s'))
     \<or> (\<exists>actor res. approve C now rid actor s = Some (res, s'))
     \<or> (\<exists>actor res. reject C now rid actor s = Some (res, s'))
     \<or> (\<exists>a res. sa_model a = m \<and> start_rollout C now rid a s = Some (res, s'))"

lemma clears_one_operation:
  fixes s :: "'w sess"
  assumes sp: "dp_splits (de_port (ct_deployer C))" and s: "both (in_play rid name) s"
    and meta: "\<forall>d \<in> {ss_db s, ss_saved s}. map_option mm_name (by_key mm_model m (metas d)) = Some name"
    and run: "one_operation C now rid m s s'"
  shows "left_clean (ct_deployer C) rid name s'"
proof -
  have D: "left_clean (ct_deployer C) rid name s'" if "clears C rid name T op" "op s = Some (res, s')" for T and op :: "('w sess, 'b) run" and res
    using that s wlpD[of op "cleared (ct_deployer C) rid name T" s] by (auto simp: clears_def cleared_def)
  have st: "left_clean (ct_deployer C) rid name s'" if a: "sa_model a = m" "start_rollout C now rid a s = Some (res, s')" for a res
  proof -
    have rest: "clears C rid name nothing (thenR db_io (\<lambda>_. thenR (writeD (record_audit ac u j mo v x)) (\<lambda>_.
        begin_delivery C now rid strat p)))" for ac u j mo v x strat p
      by (intro clears_then clears_start[OF sp] keeps_intros in_play_write) simp_all
    have row: "both (in_play rid name) (s\<lparr>ss_db := ss_db s\<lparr>rollouts := rollouts (ss_db s) @ [new_rollout now rid a strat p]\<rparr>\<rparr>)" for strat p
    proof -
      have "\<not> turned_down (initial_state strat)" by (cases strat) simp_all
      then show ?thesis
        using s meta a(1) by (auto simp: both_def in_play_def by_key_append by_key_single new_rollout_def split: option.splits if_splits)
    qed
    have rest_run: "wlp (thenR db_io (\<lambda>_. thenR (writeD (record_audit ac u j mo v x)) (\<lambda>_. begin_delivery C now rid strat p)))
        (\<lambda>_. left_clean (ct_deployer C) rid name)
        (s\<lparr>ss_db := ss_db s\<lparr>rollouts := rollouts (ss_db s) @ [new_rollout now rid a strat p]\<rparr>\<rparr>)" for ac u j mo v x strat p
      using rest[unfolded clears_def, rule_format, OF row] by (rule wlp_mono) (simp add: cleared_def)
    have "wlp (start_rollout C now rid a) (\<lambda>_. left_clean (ct_deployer C) rid name) s"
      unfolding start_rollout_def Let_def
      by (simp add: wlp_thenR[of "readD f" for f] wlp_thenR[of "writeD g" for g] wlp_readD wlp_writeD wlp_raiseR rest_run
          in_play_clean[OF s] split: option.split)
    from wlpD[OF this a(2)] show ?thesis .
  qed
  from run show ?thesis
    using D[OF clears_tick[OF sp]] D[OF clears_operator(1)[OF sp]] D[OF clears_operator(2)[OF sp]] st
    unfolding one_operation_def by blast
qed


text \<open>C12. A candidate that is turned down gets no traffic, on a serving system that splits it. Take a
  tick, an approval, a rejection or a start of a rollout that is active (with a stable version)
  or is being started: when the saved row is afterwards ROLLED_BACK, EXPIRED or
  REJECTED - whatever the operation returned or raised, and also when it was the promotion or the
  first split that failed, or the approval that came too late - then the last thing the serving
  system said is that no traffic of the model goes to a candidate. The same holds after a tick
  that reports such an end and after a rejection that succeeds.\<close>

theorem turned_down_gets_no_traffic:
  assumes sp: "dp_splits (de_port (ct_deployer C))" and clean: "ss_db s = d" "ss_saved s = d"
    and meta: "by_key mm_model m (metas d) = Some meta"
    and active: "\<forall>r. by_key ro_id rid (rollouts d) = Some r \<longrightarrow> is_active (ro_state r) \<and> ro_stable r \<noteq> None \<and> ro_model r = m"
  shows "(one_operation C now rid m s s1 \<longrightarrow> by_key ro_id rid (rollouts (ss_saved s1)) = Some r' \<longrightarrow> turned_down (ro_state r')
      \<longrightarrow> no_candidate (ct_deployer C) (mm_name meta) (ss_world s1))
    \<and> (tick C now rid s = Some (Inr (Went to), s2) \<longrightarrow> turned_down to
      \<longrightarrow> no_candidate (ct_deployer C) (mm_name meta) (ss_world s2))
    \<and> (reject C now rid actor s = Some (Inr ro, s3) \<longrightarrow> no_candidate (ct_deployer C) (mm_name meta) (ss_world s3))"
proof -
  let ?D = "ct_deployer C" and ?name = "mm_name meta"
  have "in_play rid ?name d"
    using active meta by (auto simp: in_play_def turned_down_def is_active_def active_states_def)
  then have k: "both (in_play rid ?name) s" using clean by (simp add: both_def)
  have "left_clean ?D rid ?name s1" if "one_operation C now rid m s s1"
    by (rule clears_one_operation[OF sp k _ that]) (use clean meta in auto)
  then have "one_operation C now rid m s s1 \<longrightarrow> by_key ro_id rid (rollouts (ss_saved s1)) = Some r' \<longrightarrow> turned_down (ro_state r')
      \<longrightarrow> no_candidate ?D ?name (ss_world s1)"
    by (auto simp: left_clean_def both_def not_down_def)
  moreover have "cleared ?D rid ?name went_down (Inr (Went to)) s2" if "tick C now rid s = Some (Inr (Went to), s2)"
    by (rule wlpD[OF clears_tick[OF sp, unfolded clears_def, rule_format, OF k] that])
  moreover have "cleared ?D rid ?name (\<lambda>_. True) (Inr ro) s3" if "reject C now rid actor s = Some (Inr ro, s3)"
    by (rule wlpD[OF clears_operator(2)[OF sp, unfolded clears_def, rule_format, OF k] that])
  ultimately show ?thesis by simp
qed

end
