(* ===== verification/Rollout_Demo.thy ===== *)
theory Rollout_Demo
  imports Rollout_Props
begin

text \<open>
  Runs of the delivery controller on the filesystem registry and the alias deployment, evaluated:
  the witnesses of the properties, and what the controller does in some corners.
\<close>

section \<open>A canary\<close>

definition demo_controller :: "world controller" where
  "demo_controller = \<lparr>ct_registry = fs_registry demo_artifacts, ct_deployer = demo_deployer, ct_observe = api_observe,
     ct_settings = demo_settings, ct_live_alias = ''live'', ct_policy = demo_policy, ct_welch = (\<lambda>_ _. None)\<rparr>"

definition demo_args :: "string \<Rightarrow> start_args" where
  "demo_args strategy = \<lparr>sa_model = ''m1'', sa_strategy = strategy, sa_stable = ''1'', sa_candidate = ''2'',
     sa_job = None, sa_policy = None\<rparr>"

definition demo_start :: "string \<Rightarrow> bool list \<Rightarrow> (exn + rollout_row) \<times> world sess" where
  "demo_start strategy faults = the (start_rollout demo_controller 0 ''r1'' (demo_args strategy) (demo_sess [] faults))"

text \<open>The session of the next operation, with one observation per arm: error rates 0 and \<open>x\<close>.\<close>

definition seen :: "rat \<Rightarrow> world sess \<Rightarrow> world sess" where
  "seen x s = (let obs = map (\<lambda>(a, y). \<lparr>ob_rollout = ''r1'', ob_arm = a, ob_requests = 10,
         ob_metrics = [(''error_rate'', y)], ob_at = 5\<rparr>) [(Stable_Arm, 0), (Candidate_Arm, x)];
       d = (ss_saved s)\<lparr>observations := obs\<rparr>
     in s\<lparr>ss_db := d, ss_saved := d\<rparr>)"

definition demo_seen :: "rat \<Rightarrow> world sess" where
  "demo_seen x = seen x (snd (demo_start ''canary'' []))"

definition demo_tick :: "rat \<Rightarrow> (exn + tick_result) \<times> world sess" where
  "demo_tick x = the (tick demo_controller 20 ''r1'' (demo_seen x))"

lemma demo_returns: "tick demo_controller now rid s \<noteq> None" "reject demo_controller now rid actor s \<noteq> None"
    "start_rollout demo_controller now rid a s \<noteq> None" "approve demo_controller now rid actor s \<noteq> None"
  using alias_serving.tick_returns[where C = demo_controller and R = "fs_registry demo_artifacts" and pl = 1 and p = demo_artifacts
      and da = "''live''" and canary = "''canary''" and tag = "''pct''" and timeout = 5]
    alias_serving.operator_returns[where C = demo_controller and R = "fs_registry demo_artifacts" and pl = 1 and p = demo_artifacts
      and da = "''live''" and canary = "''canary''" and tag = "''pct''" and timeout = 5]
  by (simp_all add: positive_polling demo_controller_def demo_deployer_def)

lemma demo_start_run: "start_rollout demo_controller 0 ''r1'' (demo_args strategy) (demo_sess [] faults)
    = Some (fst (demo_start strategy faults), snd (demo_start strategy faults))"
  using demo_returns(3)[of 0 "''r1''" "demo_args strategy" "demo_sess [] faults"] by (auto simp: demo_start_def)

lemma demo_tick_run: "tick demo_controller 20 ''r1'' (demo_seen x) = Some (fst (demo_tick x), snd (demo_tick x))"
  using demo_returns(1)[of 20 "''r1''" "demo_seen x"] by (auto simp: demo_tick_def)

lemma delivery_returns_witness: "tick demo_controller 20 ''r1'' (demo_seen 0) \<noteq> None"
  using delivery_returns[of 1 demo_controller demo_artifacts "''live''" "''canary''" "''pct''" 5 20 "''r1''" "demo_seen 0"]
  by (simp add: demo_controller_def demo_deployer_def)

abbreviation demo_d1 :: ddb where "demo_d1 \<equiv> ss_saved (snd (demo_start ''canary'' []))"

abbreviation demo_d2 :: "rat \<Rightarrow> ddb" where "demo_d2 x \<equiv> ss_saved (snd (demo_tick x))"

lemma demo_clean: "ss_db (demo_seen x) = ss_saved (demo_seen x)"
  by (simp add: demo_seen_def seen_def Let_def)

lemma demo_rows:
  "map (\<lambda>r. (ro_id r, ro_model r, ro_state r, ro_percent r, ro_step r)) (rollouts demo_d1) = [(''r1'', ''m1'', CANARY, 5, 0)]"
  "map (\<lambda>r. (ro_id r, ro_model r, ro_state r, ro_percent r, ro_step r)) (rollouts (demo_d2 0)) = [(''r1'', ''m1'', CANARY, 50, 1)]"
  "map (\<lambda>r. (ro_id r, ro_model r, ro_state r, ro_percent r, ro_step r)) (rollouts (demo_d2 1)) = [(''r1'', ''m1'', ROLLED_BACK, 0, 0)]"
  by code_simp+

lemma demo_reach1: "reach no_rollouts (delivery_step demo_controller) demo_d1"
proof (rule reach.more)
  show "reach no_rollouts (delivery_step demo_controller) demo_ddb"
    by (rule reach.start) (simp add: no_rollouts_def demo_ddb_def)
  show "delivery_step demo_controller demo_ddb demo_d1"
    by (rule d_start[OF _ _ _ _ demo_start_run])
      (simp_all add: demo_sess_def demo_ddb_def demo_args_def demo_controller_def demo_policy_valid)
qed

lemma demo_steps: "(delivery_step demo_controller)\<^sup>*\<^sup>* demo_d1 (demo_d2 x)"
proof -
  have "delivery_step demo_controller demo_d1 (ss_saved (demo_seen x))"
    by (rule d_beside) (simp add: demo_seen_def seen_def Let_def)
  moreover have "delivery_step demo_controller (ss_saved (demo_seen x)) (demo_d2 x)"
    by (rule d_tick[OF _ refl demo_tick_run]) (simp add: demo_clean)
  ultimately show ?thesis by simp
qed

lemma demo_reach2: "reach no_rollouts (delivery_step demo_controller) (demo_d2 x)"
  by (rule delivery.reach_later[OF demo_steps demo_reach1])

lemma one_active_rollout_witness:
  "length (filter (\<lambda>r. ro_model r = ''m1'' \<and> is_active (ro_state r)) (rollouts (demo_d2 0))) \<le> 1
    \<and> map (\<lambda>r. (ro_id r, ro_model r, ro_state r, ro_percent r, ro_step r)) (rollouts (demo_d2 0)) = [(''r1'', ''m1'', CANARY, 50, 1)]"
  using one_active_rollout[OF demo_reach2, of "''m1''" 0] demo_rows(2) by simp

lemma demo_row1: "\<exists>r. rollouts demo_d1 = [r] \<and> ro_id r = ''r1'' \<and> ro_model r = ''m1'' \<and> ro_state r = CANARY"
  using demo_rows(1) by (auto simp: map_eq_Cons_conv)

lemma exposure_bounded_witness:
  "\<exists>r. rollouts demo_d1 = [r] \<and> is_active (ro_state r) \<and> ro_percent r < 100"
proof -
  obtain r where r: "rollouts demo_d1 = [r]" "ro_state r = CANARY" using demo_row1 by blast
  moreover have "is_active CANARY" by (simp add: is_active_def active_states_def)
  ultimately show ?thesis using exposure_bounded[OF demo_reach1, of r] by simp
qed

lemma rollout_history_witness:
  "\<exists>r r'. rollouts demo_d1 = [r] \<and> by_key ro_id ''r1'' (rollouts (demo_d2 0)) = Some r' \<and> rollout_move\<^sup>*\<^sup>* r r'"
proof -
  obtain r where r: "rollouts demo_d1 = [r]" "ro_id r = ''r1''" using demo_row1 by blast
  then show ?thesis using rollout_history[OF demo_reach1 demo_steps, of r 0] by auto
qed

lemma demo_row: "\<exists>r. by_key ro_id ''r1'' (rollouts (ss_saved (demo_seen x))) = Some r \<and> ro_model r = ''m1'' \<and> ro_state r = CANARY
    \<and> rollouts (ss_saved (demo_seen x)) = [r]"
proof -
  have "rollouts (ss_saved (demo_seen x)) = rollouts demo_d1" by (simp add: demo_seen_def seen_def Let_def)
  then show ?thesis using demo_row1 by (auto simp: by_key_def)
qed

lemma tick_follows_evidence_witness:
  "\<exists>r r'. by_key ro_id ''r1'' (rollouts (demo_d2 1)) = Some r' \<and> rollout_edge r r' \<and> ro_state r = CANARY \<and> ro_state r' = ROLLED_BACK"
proof -
  obtain r where r: "by_key ro_id ''r1'' (rollouts (ss_saved (demo_seen 1))) = Some r" "ro_state r = CANARY"
    using demo_row by blast
  have api: "ct_observe demo_controller = api_observe" by (simp add: demo_controller_def)
  obtain r' where r': "by_key ro_id ''r1'' (rollouts (demo_d2 1)) = Some r'" "noted r r' \<or> rollout_edge r r'"
    using tick_follows_evidence[OF api demo_clean refl r(1) demo_tick_run] r(2) by auto
  then have st: "ro_state r' = ROLLED_BACK"
    using demo_rows(3) by (auto simp: map_eq_Cons_conv by_key_def split: if_splits)
  then have "\<not> noted r r'" using r(2) by (simp add: noted_def)
  then show ?thesis using r r' st by blast
qed

lemma tick_releases_model_witness: "not_held ''m1'' (rollout_holder ''r1'') (demo_d2 0)"
proof -
  obtain r where r: "by_key ro_id ''r1'' (rollouts (ss_db (demo_seen 0))) = Some r" "ro_model r = ''m1''"
    using demo_row demo_clean by metis
  have f: "ss_faults (demo_seen 0) = []" by code_simp
  have "fst (demo_tick 0) = Inr (Went CANARY)" by code_simp
  then show ?thesis using tick_releases_model[OF f demo_clean r(1) demo_tick_run] r(2) by simp
qed

lemma turned_down_gets_no_traffic_witness:
  "map ro_state (rollouts (demo_d2 1)) = [ROLLED_BACK] \<and> no_candidate demo_deployer ''m'' (ss_world (snd (demo_tick 1)))"
proof -
  obtain r where r: "by_key ro_id ''r1'' (rollouts (ss_saved (demo_seen 1))) = Some r" "ro_model r = ''m1''" "ro_state r = CANARY"
    "rollouts (ss_saved (demo_seen 1)) = [r]" using demo_row by metis
  have "map ro_stable (rollouts (ss_saved (demo_seen 1))) = [Some ''1'']" by code_simp
  then have act: "\<forall>q. by_key ro_id ''r1'' (rollouts (ss_saved (demo_seen 1))) = Some q \<longrightarrow>
      is_active (ro_state q) \<and> ro_stable q \<noteq> None \<and> ro_model q = ''m1''"
    using r by (simp add: is_active_def active_states_def)
  have m: "by_key mm_model ''m1'' (metas (ss_saved (demo_seen 1))) = Some (hd (metas demo_ddb))" by code_simp
  have d: "ct_deployer demo_controller = demo_deployer" "dp_splits (de_port (ct_deployer demo_controller))"
    by (simp_all add: demo_controller_def demo_deployer_def world_deployer_def alias_port_def)
  have op: "one_operation demo_controller 20 ''r1'' ''m1'' (demo_seen 1) (snd (demo_tick 1))"
    unfolding one_operation_def using demo_tick_run by blast
  obtain r' where r': "by_key ro_id ''r1'' (rollouts (demo_d2 1)) = Some r'" "ro_state r' = ROLLED_BACK"
    using demo_rows(3) by (auto simp: map_eq_Cons_conv by_key_def)
  have "map ro_state (rollouts (demo_d2 1)) = [ROLLED_BACK]" by code_simp
  with turned_down_gets_no_traffic[OF d(2) demo_clean refl m act] op r' show ?thesis
    by (auto simp: turned_down_def d(1) demo_ddb_def)
qed

definition demo_target :: target where
  "demo_target = \<lparr>t_model = ''m'', t_version = ''2'', t_source = None, t_artifact = None\<rparr>"

definition demo_rollout :: "(exn + dep_state) \<times> world" where
  "demo_rollout = the (deployer_rollout demo_deployer demo_target None (demo_world []))"

lemma rollout_settles_witness: "read_back demo_deployer ''m'' (Some ''2'') (snd demo_rollout)"
proof -
  have "deployer_rollout demo_deployer demo_target None (demo_world []) = Some (fst demo_rollout, snd demo_rollout)"
    using world_runs_return(1)[of 1 demo_artifacts "''live''" "''canary''" "''pct''" 5 demo_target None "demo_world []"]
    by (auto simp: demo_rollout_def demo_deployer_def)
  note settled = wlpD[OF rollout_settles this]
  have "\<not> isl (fst demo_rollout)" by code_simp
  then obtain st where "fst demo_rollout = Inr st" by (cases "fst demo_rollout") auto
  with settled show ?thesis by (simp add: demo_target_def)
qed

end
