(* ===== verification/Rollout_Findings.thy ===== *)
theory Rollout_Findings
  imports Rollout_Demo
begin

text \<open>
  What the controller does in corners where a comment or its own record says otherwise, each on a
  concrete run.
\<close>

section \<open>A start that fails in the registry\<close>

text \<open>When the registry fails while the first split is read back, the error is not a
  DeploymentError: \<open>start_rollout\<close> raises without committing its row, and the canary alias it has
  set stays. The candidate keeps its share of traffic and no rollout knows of it.\<close>

theorem lost_start_leaves_canary:
  "let (r, s) = demo_start ''canary'' (replicate 17 False @ [True])
   in map_sum e_class (\<lambda>_. ()) r = Inl RegistryUnavailableError \<and> rollouts (ss_saved s) = []
    \<and> fs_live (ss_world s) ''m'' ''canary'' = Some ''2''"
  by code_simp

section \<open>A promotion that fails inside a tick\<close>

definition short_policy :: delivery_policy where
  "short_policy = demo_policy\<lparr>p_canary_steps := [5, 100]\<rparr>"

definition short_start :: "world sess" where
  "short_start = snd (the (start_rollout demo_controller 0 ''r1'' ((demo_args ''canary'')\<lparr>sa_policy := Some short_policy\<rparr>)
     (demo_sess [] [])))"

text \<open>Somebody else promotes version 2 in the meantime.\<close>

definition promoted_meanwhile :: "world sess \<Rightarrow> world sess" where
  "promoted_meanwhile s = s\<lparr>ss_world := snd (fs_set_alias ''m'' ''live'' ''2'' (ss_world s))\<rparr>"

text \<open>A tick whose promotion fails ends the rollout ROLLED_BACK and reports PROMOTED. When the
  failure is that LIVE already names the candidate, LIVE is even moved back to the old version:
  removing the split of the rollout sets the alias to its stable version.\<close>

theorem failed_promotion_reported_as_promoted:
  "let (r, s) = the (tick demo_controller 20 ''r1'' (promoted_meanwhile (seen 0 short_start)))
   in map_sum e_class (\<lambda>x. x) r = Inr (Went PROMOTED) \<and> map ro_state (rollouts (ss_saved s)) = [ROLLED_BACK]
    \<and> fs_live (ss_world s) ''m'' ''live'' = Some ''1''"
  by code_simp

section \<open>A lock that is not checked\<close>

text \<open>The lock of a job that waits in the queue longer than the lock lives.\<close>

definition locked_by_job :: "world sess \<Rightarrow> world sess" where
  "locked_by_job s = (let d = (ss_saved s)\<lparr>locks := [\<lparr>lk_model = ''m1'', lk_job = ''j1'', lk_acquired = 0, lk_expires = 15\<rparr>]\<rparr>
     in s\<lparr>ss_db := d, ss_saved := d\<rparr>)"

text \<open>A tick takes an expired lock over whoever holds it, and then releases it: the lock of a job
  that is still queued is gone after the tick.\<close>

theorem tick_takes_queued_jobs_lock:
  "let (r, s) = the (tick demo_controller 20 ''r1'' (locked_by_job (demo_seen 0)))
   in map_sum e_class (\<lambda>x. x) r = Inr (Went CANARY) \<and> locks (ss_saved s) = []"
  by code_simp

section \<open>A start whose split can be neither made nor undone\<close>

text \<open>A serving system that keeps reporting version 1 without a split.\<close>

definition stuck_port :: "world deploy_port" where
  "stuck_port = \<lparr>dp_status = (\<lambda>m. retA \<lparr>ds_version = Some ''1'', ds_ready = False, ds_failed = True\<rparr>),
     dp_deploy = (\<lambda>t. retA ()), dp_restore = (\<lambda>m t. retA ()), dp_splits = True, dp_set_traffic = (\<lambda>m st c pc. retA ()),
     dp_traffic = (\<lambda>m. retA \<lparr>sp_stable = Some ''1'', sp_candidate = Some ''0'', sp_percent = 1\<rparr>)\<rparr>"

definition stuck_controller :: "world controller" where
  "stuck_controller = demo_controller\<lparr>ct_deployer := demo_deployer\<lparr>de_port := stuck_port\<rparr>\<rparr>"

definition stuck_start :: "(exn + rollout_row) \<times> world sess" where
  "stuck_start = the (start_rollout stuck_controller 0 ''r1'' (demo_args ''ab'') (demo_sess [] []))"

text \<open>When the first split of an A/B rollout fails and cannot be undone either, the rollout stays
  AB, with no traffic and no deadline. The next tick, at once and without a single observation,
  decides the test as inconclusive and, where the policy says so, promotes the candidate.\<close>

theorem unstarted_ab_is_promoted_without_evidence:
  "map (\<lambda>r. (ro_state r, ro_percent r, ro_deadline r)) (rollouts (ss_saved (snd stuck_start))) = [(AB, 0, None)]
   \<and> (let (r, s) = the (tick demo_controller 1 ''r1'' (snd stuck_start))
      in map_sum e_class (\<lambda>x. x) r = Inr (Went PROMOTED) \<and> map ro_state (rollouts (ss_saved s)) = [PROMOTED]
       \<and> observations (ss_saved s) = [] \<and> fs_live (ss_world s) ''m'' ''live'' = Some ''2'')"
  by code_simp

end
