(* ===== verification/Reuse.thy ===== *)
theory Reuse
  imports Deployer Enums
begin

text \<open>
  Judging the drift and the registered versions (Member 1 of the pipeline): whether a feature has
  shifted (\<^verbatim>\<open>analysis/comparison.py\<close>), the drift summary (\<^verbatim>\<open>analysis/summary.py\<close>), the direction of
  a metric (\<^verbatim>\<open>validation/metrics.py\<close>) and the reuse decision (\<^verbatim>\<open>analysis/reuse_decision.py\<close>). The
  statistics of a feature and the scores of the versions are inputs. Numbers are exact rationals;
  reason texts are not kept. A version is the digit string the registry gave it.
\<close>

record member_settings =
  ms_psi_threshold :: rat
  ms_ks_threshold :: rat
  ms_min_psi_rows :: nat
  ms_min_gain :: rat
  ms_min_reduction :: rat
  ms_max_age_days :: "rat option"
  ms_confidence_rows :: nat
  ms_full_retrain_psi :: rat
  ms_min_drifted_rows :: nat
  ms_default_confidence :: rat
  ms_agent_enabled :: bool
  ms_agent_max_steps :: nat

text \<open>The bounds of \<^verbatim>\<open>core/config.py\<close> on these values.\<close>

definition member_settings_ok :: "member_settings \<Rightarrow> bool" where
  "member_settings_ok ms \<longleftrightarrow> 0 \<le> ms_psi_threshold ms \<and> 0 < ms_ks_threshold ms \<and> ms_ks_threshold ms < 1
     \<and> 2 \<le> ms_min_psi_rows ms \<and> 0 \<le> ms_min_gain ms \<and> ms_min_gain ms \<le> 1
     \<and> 0 \<le> ms_min_reduction ms \<and> ms_min_reduction ms < 1
     \<and> (case ms_max_age_days ms of None \<Rightarrow> True | Some a \<Rightarrow> 0 < a)
     \<and> 1 \<le> ms_confidence_rows ms \<and> 0 \<le> ms_full_retrain_psi ms \<and> 1 \<le> ms_min_drifted_rows ms
     \<and> 0 \<le> ms_default_confidence ms \<and> ms_default_confidence ms \<le> 1
     \<and> 1 \<le> ms_agent_max_steps ms \<and> ms_agent_max_steps ms \<le> 20"

section \<open>Shifted features\<close>

record feature_shift =
  fe_name :: string
  fe_ks_pvalue :: rat
  fe_psi :: rat
  fe_n_historical :: nat
  fe_n_drifted :: nat

definition is_shifted :: "member_settings \<Rightarrow> feature_shift \<Rightarrow> bool" where
  "is_shifted ms f = (if fe_ks_pvalue f < ms_ks_threshold ms then True
     else ms_min_psi_rows ms \<le> min (fe_n_historical f) (fe_n_drifted f) \<and> ms_psi_threshold ms \<le> fe_psi f)"

record capabilities =
  cap_fine_tuning :: bool
  cap_full_retraining :: bool
  cap_llm_adapter :: bool

record drift_summary =
  ds_affected :: "string list"
  ds_significant :: "string list"
  ds_drifted_rows :: nat
  ds_sufficient :: bool
  ds_caps :: "capabilities option"

definition summarize_drift :: "member_settings \<Rightarrow> feature_shift list \<Rightarrow> nat \<Rightarrow> capabilities option \<Rightarrow> drift_summary" where
  "summarize_drift ms features drifted caps =
     (let alpha = ms_ks_threshold ms / of_nat (max (length features) 1)
      in \<lparr>ds_affected = map fe_name (filter (is_shifted ms) features),
          ds_significant = map fe_name (filter (\<lambda>f. fe_ks_pvalue f < alpha) features),
          ds_drifted_rows = drifted,
          ds_sufficient = (if features = [] then False else if drifted < ms_min_drifted_rows ms then False else True),
          ds_caps = caps\<rparr>)"

text \<open>Correcting for many tests only ever removes features: significant ones are affected.\<close>

lemma significant_affected:
  assumes "member_settings_ok ms"
  shows "set (ds_significant (summarize_drift ms fs n caps)) \<subseteq> set (ds_affected (summarize_drift ms fs n caps))"
proof -
  have "ms_ks_threshold ms / of_nat (max (length fs) 1) \<le> ms_ks_threshold ms / 1"
    by (rule divide_left_mono) (use assms in \<open>auto simp: member_settings_ok_def max_def\<close>)
  then show ?thesis by (auto simp: summarize_drift_def Let_def is_shifted_def)
qed

section \<open>Metrics\<close>

definition higher_metrics :: "string list" where
  "higher_metrics = [''accuracy'', ''precision'', ''recall'', ''f1'', ''roc_auc'', ''pr_auc'', ''r2'', ''silhouette'']"

definition lower_metrics :: "string list" where
  "lower_metrics = [''mae'', ''mse'', ''rmse'', ''mape'', ''smape'', ''mase'', ''davies_bouldin'']"

text \<open>\<open>None\<close> is the ValueError of an unknown metric.\<close>

definition higher_is_better :: "string \<Rightarrow> bool option" where
  "higher_is_better m = (if m \<in> set higher_metrics then Some True
     else if m \<in> set lower_metrics then Some False else None)"

section \<open>The reuse decision\<close>

record version_eval =
  ve_version :: string
  ve_is_live :: bool
  ve_compatible :: bool
  ve_metric :: "string option"
  ve_value :: "rat option"
  ve_age :: "rat option"
  ve_rows :: nat

record reuse_decision =
  rd_verdict :: reuse_verdict
  rd_selected :: "string option"
  rd_improvement :: "rat option"
  rd_confidence :: rat

definition hint :: "rat \<Rightarrow> member_settings \<Rightarrow> reuse_verdict" where
  "hint max_psi ms = (if ms_full_retrain_psi ms \<le> max_psi then RETRAIN_MODEL else ADAPT_MODEL)"

definition gain :: "bool \<Rightarrow> rat \<Rightarrow> rat \<Rightarrow> rat" where
  "gain higher live_value value = (if higher then value - live_value else live_value - value)"

definition required_gain :: "member_settings \<Rightarrow> bool \<Rightarrow> rat \<Rightarrow> rat" where
  "required_gain ms higher live_value = (if higher then ms_min_gain ms else live_value * ms_min_reduction ms)"

definition reuse_eligible :: "member_settings \<Rightarrow> string \<Rightarrow> bool \<Rightarrow> rat \<Rightarrow> version_eval \<Rightarrow> bool" where
  "reuse_eligible ms metric higher live_value e \<longleftrightarrow> \<not> ve_is_live e \<and> ve_compatible e \<and> ve_metric e = Some metric
     \<and> (case ve_value e of None \<Rightarrow> False | Some v \<Rightarrow>
          (case ms_max_age_days ms of None \<Rightarrow> True
            | Some limit \<Rightarrow> (case ve_age e of None \<Rightarrow> True | Some age \<Rightarrow> age \<le> limit))
          \<and> required_gain ms higher live_value \<le> gain higher live_value v)"

text \<open>Python's \<^verbatim>\<open>max\<close> with a key: the first of the largest.\<close>

fun max_by :: "('a \<Rightarrow> 'a \<Rightarrow> bool) \<Rightarrow> 'a \<Rightarrow> 'a list \<Rightarrow> 'a" where
  "max_by worse best [] = best"
| "max_by worse best (x # xs) = max_by worse (if worse best x then x else best) xs"

definition value_gain :: "bool \<Rightarrow> rat \<Rightarrow> version_eval \<Rightarrow> rat" where
  "value_gain higher live_value e = (case ve_value e of None \<Rightarrow> 0 | Some v \<Rightarrow> gain higher live_value v)"

definition worse_choice :: "bool \<Rightarrow> rat \<Rightarrow> version_eval \<Rightarrow> version_eval \<Rightarrow> bool" where
  "worse_choice higher live_value a b \<longleftrightarrow> value_gain higher live_value a < value_gain higher live_value b
     \<or> value_gain higher live_value a = value_gain higher live_value b
       \<and> parse_digits (ve_version a) < parse_digits (ve_version b)"

definition no_reuse :: "reuse_verdict \<Rightarrow> rat \<Rightarrow> reuse_decision" where
  "no_reuse v c = \<lparr>rd_verdict = v, rd_selected = None, rd_improvement = None, rd_confidence = c\<rparr>"

text \<open>\<open>None\<close> is the ValueError of \<^verbatim>\<open>higher_is_better\<close>.\<close>

definition decide_reuse :: "member_settings \<Rightarrow> rat \<Rightarrow> version_eval list \<Rightarrow> reuse_decision option" where
  "decide_reuse ms max_psi evals =
     (let fallback = hint max_psi ms in
      case find ve_is_live evals of
        None \<Rightarrow> Some (no_reuse fallback 0)
      | Some live \<Rightarrow>
          (case (ve_compatible live, ve_value live, ve_metric live) of
             (True, Some lv, Some metric) \<Rightarrow>
               (case higher_is_better metric of
                  None \<Rightarrow> None
                | Some higher \<Rightarrow>
                    let confidence = min 1 (of_nat (ve_rows live) / of_nat (ms_confidence_rows ms)) in
                    case filter (reuse_eligible ms metric higher lv) evals of
                      [] \<Rightarrow> Some (no_reuse fallback confidence)
                    | e # es \<Rightarrow> let best = max_by (worse_choice higher lv) e es in
                        Some \<lparr>rd_verdict = REUSE_EXISTING_VERSION, rd_selected = Some (ve_version best),
                          rd_improvement = Some (value_gain higher lv best), rd_confidence = confidence\<rparr>)
           | _ \<Rightarrow> Some (no_reuse fallback 0)))"

section \<open>What the decision guarantees\<close>

lemma max_by_in: "max_by worse b xs \<in> set (b # xs)"
proof (induction xs arbitrary: b)
  case (Cons x xs)
  then show ?case using Cons.IH[of "if worse b x then x else b"] by (auto split: if_splits)
qed simp

lemma max_by_top:
  assumes asym: "\<And>x y. worse x y \<Longrightarrow> \<not> worse y x"
    and negtrans: "\<And>x y z. \<not> worse x y \<Longrightarrow> \<not> worse y z \<Longrightarrow> \<not> worse x z"
  shows "x \<in> set (b # xs) \<Longrightarrow> \<not> worse (max_by worse b xs) x"
proof (induction xs arbitrary: b x)
  case Nil
  then show ?case using asym[of b b] by auto
next
  case (Cons y ys)
  let ?b = "if worse b y then y else b" and ?m = "max_by worse b (y # ys)"
  have top: "\<not> worse ?m z" if "z \<in> set (?b # ys)" for z using Cons.IH[OF that] by simp
  have "\<not> worse ?b b" "\<not> worse ?b y" using asym by auto
  then have "\<not> worse ?m b" "\<not> worse ?m y" using negtrans[OF top[of ?b]] by auto
  then show ?case using Cons.prems top by auto
qed

text \<open>With LIVE scored, the decision is that of the eligible versions.\<close>

lemma decide_reuse_scored:
  assumes "find ve_is_live evals = Some live" "ve_compatible live" "ve_value live = Some lv" "ve_metric live = Some metric"
    and "higher_is_better metric = Some higher"
  shows "\<exists>rd. decide_reuse ms max_psi evals = Some rd \<and>
    (case filter (reuse_eligible ms metric higher lv) evals of [] \<Rightarrow> rd_verdict rd = hint max_psi ms \<and> rd_selected rd = None
     | e # es \<Rightarrow> rd_verdict rd = REUSE_EXISTING_VERSION
        \<and> rd_selected rd = Some (ve_version (max_by (worse_choice higher lv) e es)))"
  using assms by (auto simp: decide_reuse_def no_reuse_def Let_def split: list.split)

text \<open>The candidates in the words of the documentation: another version than LIVE, compatible with
  the new data, scored on LIVE's metric, not older than the limit where there is one (a version of
  unknown age is not held back), and better than LIVE by the required margin.\<close>

definition young_enough :: "member_settings \<Rightarrow> version_eval \<Rightarrow> bool" where
  "young_enough ms e \<longleftrightarrow> (\<forall>limit age. ms_max_age_days ms = Some limit \<longrightarrow> ve_age e = Some age \<longrightarrow> age \<le> limit)"

definition margin_met :: "member_settings \<Rightarrow> bool \<Rightarrow> rat \<Rightarrow> rat \<Rightarrow> bool" where
  "margin_met ms higher lv v \<longleftrightarrow> (if higher then lv + ms_min_gain ms \<le> v else v \<le> lv - lv * ms_min_reduction ms)"

definition reuse_candidate :: "member_settings \<Rightarrow> string \<Rightarrow> bool \<Rightarrow> rat \<Rightarrow> version_eval \<Rightarrow> rat \<Rightarrow> bool" where
  "reuse_candidate ms metric higher lv e v \<longleftrightarrow> \<not> ve_is_live e \<and> ve_compatible e \<and> ve_metric e = Some metric
     \<and> ve_value e = Some v \<and> young_enough ms e \<and> margin_met ms higher lv v"

lemma eligible_candidate: "reuse_eligible ms metric higher lv e \<longleftrightarrow> (\<exists>v. reuse_candidate ms metric higher lv e v)"
  by (auto simp: reuse_eligible_def reuse_candidate_def young_enough_def margin_met_def required_gain_def gain_def
      split: option.splits)

text \<open>C19. Reuse picks the best version there is: where LIVE could be scored, a version is reused exactly
  when some other compatible version, scored on the same metric and not older than
  \<^verbatim>\<open>reuse_max_model_age_days\<close>, beats it by the required margin; it is then such a version, and no
  other such version has a larger gain, nor the same gain and a higher version number. LIVE itself
  is never chosen, and a version is never worse than LIVE on the metric it is chosen by.\<close>

theorem reuse_picks_best:
  assumes ok: "member_settings_ok ms" and run: "decide_reuse ms max_psi evals = Some rd"
    and live: "find ve_is_live evals = Some live" "ve_compatible live" "ve_value live = Some lv" "ve_metric live = Some metric"
    and dir: "higher_is_better metric = Some higher" and scale: "higher \<or> 0 \<le> lv"
  shows "if \<exists>e\<in>set evals. \<exists>v. reuse_candidate ms metric higher lv e v
    then rd_verdict rd = REUSE_EXISTING_VERSION \<and> (\<exists>best v. best \<in> set evals \<and> rd_selected rd = Some (ve_version best)
      \<and> reuse_candidate ms metric higher lv best v \<and> (if higher then lv \<le> v else v \<le> lv)
      \<and> (\<forall>e\<in>set evals. \<forall>w. reuse_candidate ms metric higher lv e w \<longrightarrow> (if higher then w < v else v < w)
          \<or> w = v \<and> parse_digits (ve_version e) \<le> parse_digits (ve_version best)))
    else rd_verdict rd = hint max_psi ms \<and> rd_selected rd = None"
proof (cases "filter (reuse_eligible ms metric higher lv) evals")
  case Nil
  then have no: "\<not> (\<exists>e\<in>set evals. \<exists>v. reuse_candidate ms metric higher lv e v)"
    by (simp add: filter_empty_conv eligible_candidate)
  show ?thesis unfolding if_not_P[OF no] using decide_reuse_scored[OF live dir, of ms max_psi] run Nil by auto
next
  case (Cons e es)
  let ?best = "max_by (worse_choice higher lv) e es"
  have set: "set (e # es) = {x \<in> set evals. reuse_eligible ms metric higher lv x}" by (metis Cons set_filter)
  have best: "?best \<in> set evals" "reuse_eligible ms metric higher lv ?best" using max_by_in[of _ e es] set by blast+
  have top: "\<not> worse_choice higher lv ?best x" if "x \<in> set (e # es)" for x
    by (rule max_by_top[OF _ _ that]) (auto simp: worse_choice_def)
  obtain v where v: "reuse_candidate ms metric higher lv ?best v" using best(2) eligible_candidate by blast
  have none: "(if higher then w < v else v < w) \<or> w = v \<and> parse_digits (ve_version e) \<le> parse_digits (ve_version ?best)"
    if "e \<in> set evals" "reuse_candidate ms metric higher lv e w" for e w
  proof -
    have "\<not> worse_choice higher lv ?best e" using top that set eligible_candidate by blast
    then show ?thesis using v that(2) by (auto simp: reuse_candidate_def worse_choice_def value_gain_def gain_def split: if_splits)
  qed
  have "0 \<le> required_gain ms higher lv" using ok scale by (auto simp: required_gain_def member_settings_ok_def)
  then have gains: "if higher then lv \<le> v else v \<le> lv"
    using v by (auto simp: reuse_candidate_def margin_met_def required_gain_def split: if_splits)
  have ex: "\<exists>e\<in>set evals. \<exists>v. reuse_candidate ms metric higher lv e v" using best(1) v by blast
  have "rd_verdict rd = REUSE_EXISTING_VERSION" "rd_selected rd = Some (ve_version ?best)"
    using decide_reuse_scored[OF live dir, of ms max_psi] run Cons by auto
  then show ?thesis unfolding if_P[OF ex] using best(1) v gains none by blast
qed

definition demo_member_settings :: member_settings where
  "demo_member_settings = \<lparr>ms_psi_threshold = 1/10, ms_ks_threshold = 5/100, ms_min_psi_rows = 30, ms_min_gain = 2/100,
     ms_min_reduction = 5/100, ms_max_age_days = Some 30, ms_confidence_rows = 100, ms_full_retrain_psi = 1/2,
     ms_min_drifted_rows = 10, ms_default_confidence = 1/2, ms_agent_enabled = False, ms_agent_max_steps = 6\<rparr>"

definition demo_eval :: "string \<Rightarrow> bool \<Rightarrow> rat \<Rightarrow> version_eval" where
  "demo_eval v live x = \<lparr>ve_version = v, ve_is_live = live, ve_compatible = True, ve_metric = Some ''rmse'',
     ve_value = Some x, ve_age = Some 3, ve_rows = 50\<rparr>"

definition demo_evals :: "version_eval list" where
  "demo_evals = [demo_eval ''1'' False (1/2), demo_eval ''9'' False (1/2), demo_eval ''10'' False (1/2), demo_eval ''11'' True 1]"

definition demo_reuse :: reuse_decision where
  "demo_reuse = \<lparr>rd_verdict = REUSE_EXISTING_VERSION, rd_selected = Some ''10'', rd_improvement = Some (1/2), rd_confidence = 1/2\<rparr>"

lemma demo_settings_fine: "member_settings_ok demo_member_settings"
  by (simp add: member_settings_ok_def demo_member_settings_def)

lemma demo_reuse_run: "decide_reuse demo_member_settings 0 demo_evals = Some demo_reuse"
  by code_simp

lemma reuse_picks_best_witness:
  "rd_verdict demo_reuse = REUSE_EXISTING_VERSION \<and> (\<exists>best v. best \<in> set demo_evals \<and> rd_selected demo_reuse = Some (ve_version best)
     \<and> reuse_candidate demo_member_settings ''rmse'' False 1 best v \<and> v \<le> 1)"
proof -
  have live: "find ve_is_live demo_evals = Some (demo_eval ''11'' True 1)" by code_simp
  have dir: "higher_is_better ''rmse'' = Some False" by code_simp
  have "demo_eval ''10'' False (1/2) \<in> set demo_evals" by (simp add: demo_evals_def)
  moreover have "reuse_candidate demo_member_settings ''rmse'' False 1 (demo_eval ''10'' False (1/2)) (1/2)"
    by (simp add: reuse_candidate_def young_enough_def margin_met_def demo_eval_def demo_member_settings_def)
  ultimately have ex: "\<exists>e\<in>set demo_evals. \<exists>v. reuse_candidate demo_member_settings ''rmse'' False 1 e v" by blast
  show ?thesis
    using reuse_picks_best[OF demo_settings_fine demo_reuse_run live _ _ _ dir, of 1, unfolded if_P[OF ex]]
    by (auto simp: demo_eval_def)
qed

end
