(* ===== verification/Decision_Engine.thy ===== *)
theory Decision_Engine
  imports Reuse Job_Store
begin

text \<open>
  Choosing how to adapt (Member 2): the hard constraints (\<^verbatim>\<open>decision/constraints.py\<close>), the
  deterministic rules (\<^verbatim>\<open>decision/fallback.py\<close>), the LLM's answer and its validation
  (\<^verbatim>\<open>decision/llm_selector.py\<close>), the agent loop (\<^verbatim>\<open>decision/agent.py\<close>), the choice itself
  (\<^verbatim>\<open>decision/engine.py\<close>) and the fallback strategy of its report (\<^verbatim>\<open>decision/report.py\<close>).

  The LLM is a parameter: what it answers to a transcript, or why it could not be asked. So are
  \<open>decode\<close>, the JSON value a reply holds (\<open>None\<close> when it is not JSON), and the text a read-only
  tool shows. Reason texts and the rest of the report are not kept.
\<close>

section \<open>The package and the constraints\<close>

record package =
  pk_framework :: "string option"
  pk_drifted_rows :: "nat option"
  pk_shifts :: "feature_shift list"
  pk_summary :: "drift_summary option"
  pk_max_psi :: rat
  pk_has_performance :: bool
  pk_evals :: "version_eval list"

definition candidates_in_order :: "strategy list" where
  "candidates_in_order = [FULL_RETRAINING, FINE_TUNING, ROLLBACK, NO_ACTION]"

record constraint_result =
  cr_compatible :: "strategy list"
  cr_forced :: "strategy option"
  cr_rejected :: "strategy list"

definition forced :: "strategy \<Rightarrow> constraint_result" where
  "forced s = \<lparr>cr_compatible = [], cr_forced = Some s, cr_rejected = candidates_in_order\<rparr>"

text \<open>\<^verbatim>\<open>_rule_out\<close>: \<^verbatim>\<open>list.remove\<close> of a strategy that is still there.\<close>

definition rule_out :: "bool \<Rightarrow> strategy \<Rightarrow> strategy list \<times> strategy list \<Rightarrow> strategy list \<times> strategy list" where
  "rule_out b s cr = (if b \<and> s \<in> set (fst cr) then (remove1 s (fst cr), snd cr @ [s]) else cr)"

definition rollback_ruled_out :: "package \<Rightarrow> bool" where
  "rollback_ruled_out pk = (if \<not> pk_has_performance pk then True
     else pk_evals pk \<noteq> [] \<and> \<not> list_ex (\<lambda>e. ve_compatible e \<and> \<not> ve_is_live e) (pk_evals pk))"

definition evaluate_constraints :: "member_settings \<Rightarrow> string list \<Rightarrow> package \<Rightarrow> constraint_result" where
  "evaluate_constraints ms supported pk =
     (if (case pk_framework pk of None \<Rightarrow> True | Some f \<Rightarrow> lower f \<notin> set supported) then forced NO_COMPATIBLE_STRATEGY
      else if (case pk_drifted_rows pk of None \<Rightarrow> 0 | Some n \<Rightarrow> n) < ms_min_drifted_rows ms then forced INSUFFICIENT_INFORMATION
      else if pk_shifts pk = [] then forced INSUFFICIENT_INFORMATION
      else if (case pk_summary pk of None \<Rightarrow> False | Some su \<Rightarrow> \<not> ds_sufficient su) then forced INSUFFICIENT_INFORMATION
      else let caps = Option.bind (pk_summary pk) ds_caps;
               without = (\<lambda>f. case caps of None \<Rightarrow> False | Some c \<Rightarrow> \<not> f c \<and> \<not> cap_llm_adapter c);
               cr = rule_out (rollback_ruled_out pk) ROLLBACK
                   (rule_out (without cap_full_retraining) FULL_RETRAINING
                   (rule_out (without cap_fine_tuning) FINE_TUNING
                   (rule_out (ms_full_retrain_psi ms \<le> pk_max_psi pk) FINE_TUNING (candidates_in_order, []))))
           in \<lparr>cr_compatible = fst cr, cr_forced = None, cr_rejected = snd cr\<rparr>)"

definition select_strategy_fallback :: "strategy list \<Rightarrow> strategy" where
  "select_strategy_fallback compatible =
     (if FINE_TUNING \<in> set compatible then FINE_TUNING
      else if FULL_RETRAINING \<in> set compatible then FULL_RETRAINING
      else if ROLLBACK \<in> set compatible then ROLLBACK else NO_ACTION)"

section \<open>The answer of an LLM\<close>

datatype reply_json = RNull | RBool bool | RNum rat | RNot_Finite | RStr string | RList "reply_json list" | RObj "(string \<times> reply_json) list"

definition strategy_names :: "(string \<times> strategy) list" where
  "strategy_names = [(''FINE_TUNING'', FINE_TUNING), (''FULL_RETRAINING'', FULL_RETRAINING), (''ROLLBACK'', ROLLBACK),
     (''NO_ACTION'', NO_ACTION), (''INSUFFICIENT_INFORMATION'', INSUFFICIENT_INFORMATION),
     (''NO_COMPATIBLE_STRATEGY'', NO_COMPATIBLE_STRATEGY)]"

record llm_choice =
  ch_strategy :: strategy
  ch_confidence :: rat
  ch_rationale :: string

text \<open>\<^verbatim>\<open>LlmStrategyChoice.model_validate_json\<close>: exactly the three fields, strictly typed and in range.\<close>

definition parse_choice :: "reply_json \<Rightarrow> llm_choice option" where
  "parse_choice j = (case j of
     RObj d \<Rightarrow>
       if \<not> list_all (\<lambda>k. k \<in> {''strategy'', ''confidence'', ''rationale''}) (map fst d) then None
       else (case (map_of d ''strategy'', map_of d ''confidence'', map_of d ''rationale'') of
          (Some (RStr s), Some (RNum c), Some (RStr why)) \<Rightarrow>
            (case map_of strategy_names s of
               None \<Rightarrow> None
             | Some strat \<Rightarrow>
                 if 0 \<le> c \<and> c \<le> 1 \<and> 1 \<le> length why \<and> length why \<le> 2000
                 then Some \<lparr>ch_strategy = strat, ch_confidence = c, ch_rationale = why\<rparr> else None)
        | _ \<Rightarrow> None)
   | _ \<Rightarrow> None)"

text \<open>A call is answered with text, or refused or failed for a reason (\<^verbatim>\<open>LlmUnavailableError.reason\<close>).\<close>

record llm =
  lm_select :: "string + string"
  lm_step :: "(string \<times> string) list \<Rightarrow> string + string"
  lm_decode :: "string \<Rightarrow> reply_json option"
  lm_tool :: "string \<Rightarrow> ((string \<times> reply_json) list \<Rightarrow> string option) option"

definition select_strategy_checked :: "llm \<Rightarrow> strategy list \<Rightarrow> llm_choice option \<times> string option" where
  "select_strategy_checked lm compatible =
     (if compatible = [] then (None, Some ''outside_compatible_set'')
      else case lm_select lm of
        Inl reason \<Rightarrow> (None, Some reason)
      | Inr raw \<Rightarrow>
          (case Option.bind (lm_decode lm raw) parse_choice of
             None \<Rightarrow> (None, Some ''invalid_output'')
           | Some ch \<Rightarrow> if ch_strategy ch \<notin> set compatible then (None, Some ''outside_compatible_set'')
                        else (Some ch, None)))"

section \<open>The agent loop\<close>

text \<open>What Python takes as false: such an \<^verbatim>\<open>input\<close> counts as the empty one.\<close>

fun falsy :: "reply_json \<Rightarrow> bool" where
  "falsy RNull = True"
| "falsy (RBool b) = (\<not> b)"
| "falsy (RNum x) = (x = 0)"
| "falsy RNot_Finite = False"
| "falsy (RStr s) = (s = '''')"
| "falsy (RList xs) = (xs = [])"
| "falsy (RObj d) = (d = [])"

definition reply_input :: "(string \<times> reply_json) list \<Rightarrow> (string \<times> reply_json) list option" where
  "reply_input d = (case map_of d ''input'' of
     None \<Rightarrow> Some []
   | Some v \<Rightarrow> if falsy v then Some [] else (case v of RObj args \<Rightarrow> Some args | _ \<Rightarrow> None))"

text \<open>One reply: an accepted decision, or the observation shown to the agent.\<close>

definition submit_choice :: "strategy list \<Rightarrow> (string \<times> reply_json) list \<Rightarrow> llm_choice option" where
  "submit_choice compatible args = (case parse_choice (RObj args) of
     None \<Rightarrow> None | Some ch \<Rightarrow> if ch_strategy ch \<in> set compatible then Some ch else None)"

definition agent_reply :: "llm \<Rightarrow> strategy list \<Rightarrow> string \<Rightarrow> llm_choice + string" where
  "agent_reply lm compatible raw =
     (case lm_decode lm raw of
        Some (RObj d) \<Rightarrow>
          (case reply_input d of
             None \<Rightarrow> Inr ''error''
           | Some args \<Rightarrow>
               (case map_of d ''action'' of
                  Some (RStr action) \<Rightarrow>
                    if action = ''submit_decision''
                    then (case submit_choice compatible args of None \<Rightarrow> Inr ''error'' | Some ch \<Rightarrow> Inl ch)
                    else (case lm_tool lm action of
                            None \<Rightarrow> Inr ''error''
                          | Some tool \<Rightarrow> (case tool args of None \<Rightarrow> Inr ''error'' | Some obs \<Rightarrow> Inr obs))
                | _ \<Rightarrow> Inr ''error''))
      | _ \<Rightarrow> Inr ''error'')"

text \<open>The loop over \<^verbatim>\<open>range(1, max_steps + 1)\<close>; the last component counts the steps in the trace.
  A turn is kept up to blanks around the reply.\<close>

fun agent_steps ::
  "llm \<Rightarrow> strategy list \<Rightarrow> nat \<Rightarrow> (string \<times> string) list \<Rightarrow> llm_choice option \<times> string option \<times> nat" where
  "agent_steps lm compatible 0 turns = (None, Some ''agent_step_limit'', length turns)"
| "agent_steps lm compatible (Suc n) turns =
     (case lm_step lm turns of
        Inl reason \<Rightarrow> (None, Some reason, length turns)
      | Inr raw \<Rightarrow>
          (case agent_reply lm compatible raw of
             Inl ch \<Rightarrow> (Some ch, None, length turns + 1)
           | Inr obs \<Rightarrow> agent_steps lm compatible n (turns @ [(take 4000 raw, take 4000 obs)])))"

definition run_agent :: "member_settings \<Rightarrow> llm \<Rightarrow> strategy list \<Rightarrow> llm_choice option \<times> string option \<times> nat" where
  "run_agent ms lm compatible =
     (if compatible = [] then (None, Some ''outside_compatible_set'', 0)
      else agent_steps lm compatible (ms_agent_max_steps ms) [])"

section \<open>The decision\<close>

datatype decision_source = HARD_CONSTRAINT | LLM_SOURCE | FALLBACK_SOURCE

record decision =
  dn_strategy :: strategy
  dn_confidence :: rat
  dn_compatible :: "strategy list"
  dn_rejected :: "strategy list"
  dn_source :: decision_source
  dn_llm_reason :: "string option"
  dn_steps :: nat
  dn_fallback :: "strategy option"

text \<open>\<^verbatim>\<open>round(x, 4)\<close> of an exact value: to the nearest, ties to even.\<close>

definition round4 :: "rat \<Rightarrow> rat" where
  "round4 x = (let n = floor (10000 * x); r = 10000 * x - of_int n in
     of_int (if r < 1/2 \<or> r = 1/2 \<and> even n then n else n + 1) / 10000)"

definition evidence_confidence :: "member_settings \<Rightarrow> package \<Rightarrow> rat option" where
  "evidence_confidence ms pk = (case pk_summary pk of
     None \<Rightarrow> None
   | Some su \<Rightarrow>
       let sample = min 1 (of_nat (ds_drifted_rows su) / of_nat (ms_confidence_rows ms));
           significance = (if ds_significant su \<noteq> [] then 1 else if ds_affected su \<noteq> [] then 7/10 else 4/10)
       in Some (max (1/100) (round4 (sample * significance))))"

text \<open>Who is asked, and what comes back: a choice or the reason there is none, and the steps taken.\<close>

definition ask_client :: "member_settings \<Rightarrow> strategy list \<Rightarrow> llm option \<Rightarrow> llm_choice option \<times> string option \<times> nat" where
  "ask_client ms compatible client = (case client of
     None \<Rightarrow> (None, Some ''disabled'', 0)
   | Some lm \<Rightarrow> if ms_agent_enabled ms then run_agent ms lm compatible
                else (let (c, r) = select_strategy_checked lm compatible in (c, r, 0)))"

definition select_strategy :: "member_settings \<Rightarrow> constraint_result \<Rightarrow> llm option \<Rightarrow> rat option \<Rightarrow> decision" where
  "select_strategy ms cr client conf =
     (case cr_forced cr of
        Some s \<Rightarrow> \<lparr>dn_strategy = s, dn_confidence = 1, dn_compatible = [], dn_rejected = [], dn_source = HARD_CONSTRAINT,
          dn_llm_reason = None, dn_steps = 0, dn_fallback = None\<rparr>
      | None \<Rightarrow>
          let compatible = cr_compatible cr;
              (choice, reason, steps) = ask_client ms compatible client
          in case choice of
               Some ch \<Rightarrow> \<lparr>dn_strategy = ch_strategy ch,
                 dn_confidence = (case conf of None \<Rightarrow> ch_confidence ch | Some c \<Rightarrow> min (ch_confidence ch) c),
                 dn_compatible = compatible, dn_rejected = [], dn_source = LLM_SOURCE, dn_llm_reason = reason,
                 dn_steps = steps, dn_fallback = None\<rparr>
             | None \<Rightarrow> \<lparr>dn_strategy = select_strategy_fallback compatible,
                 dn_confidence = (case conf of None \<Rightarrow> ms_default_confidence ms | Some c \<Rightarrow> c),
                 dn_compatible = compatible, dn_rejected = [], dn_source = FALLBACK_SOURCE, dn_llm_reason = reason,
                 dn_steps = steps, dn_fallback = None\<rparr>)"

definition with_rejections :: "decision \<Rightarrow> strategy list \<Rightarrow> decision" where
  "with_rejections dn ruled_out = dn\<lparr>dn_rejected :=
     filter (\<lambda>s. s \<noteq> dn_strategy dn) (ruled_out @ filter (\<lambda>s. s \<notin> set ruled_out) (dn_compatible dn))\<rparr>"

definition fallback_order :: "strategy list" where
  "fallback_order = [FINE_TUNING, FULL_RETRAINING, ROLLBACK, NO_ACTION]"

definition fallback_of :: "strategy \<Rightarrow> strategy list \<Rightarrow> strategy option" where
  "fallback_of s compatible = (if s \<notin> set fallback_order then None
     else Some (case find (\<lambda>t. t \<in> set compatible) (tl (dropWhile (\<lambda>t. t \<noteq> s) fallback_order)) of
       None \<Rightarrow> NO_ACTION | Some t \<Rightarrow> t))"

definition decide_strategy :: "member_settings \<Rightarrow> string list \<Rightarrow> package \<Rightarrow> llm option \<Rightarrow> decision" where
  "decide_strategy ms supported pk client =
     (let cr = evaluate_constraints ms supported pk;
          dn = with_rejections (select_strategy ms cr client (evidence_confidence ms pk)) (cr_rejected cr)
      in dn\<lparr>dn_fallback := fallback_of (dn_strategy dn) (dn_compatible dn)\<rparr>)"

section \<open>No answer of an LLM leads outside the constraints\<close>

lemma submit_allowed: "submit_choice compatible args = Some ch \<Longrightarrow> ch_strategy ch \<in> set compatible \<and> 0 \<le> ch_confidence ch \<and> ch_confidence ch \<le> 1"
  by (auto simp: submit_choice_def parse_choice_def split: option.splits if_splits reply_json.splits)

lemma parse_choice_range: "parse_choice j = Some ch \<Longrightarrow> 0 \<le> ch_confidence ch \<and> ch_confidence ch \<le> 1"
  by (auto simp: parse_choice_def split: option.splits if_splits reply_json.splits)

lemma agent_reply_accepted: "agent_reply lm compatible raw = Inl ch \<Longrightarrow> \<exists>args. submit_choice compatible args = Some ch"
  by (auto simp: agent_reply_def split: option.splits reply_json.splits if_splits)

lemma agent_steps_allowed:
  "agent_steps lm compatible n turns = (c, r, k) \<Longrightarrow> k \<le> length turns + n
    \<and> (\<forall>ch. c = Some ch \<longrightarrow> ch_strategy ch \<in> set compatible \<and> 0 \<le> ch_confidence ch \<and> ch_confidence ch \<le> 1)"
proof (induction n arbitrary: turns)
  case (Suc n)
  show ?case
  proof (cases "lm_step lm turns")
    case (Inl reason)
    then show ?thesis using Suc.prems by auto
  next
    case (Inr raw)
    show ?thesis
    proof (cases "agent_reply lm compatible raw")
      case (Inl ch)
      then show ?thesis using Suc.prems Inr agent_reply_accepted[OF Inl] submit_allowed by auto
    next
      case (Inr obs)
      then show ?thesis using Suc.prems \<open>lm_step lm turns = Inr raw\<close> Suc.IH[of "turns @ [(take 4000 raw, take 4000 obs)]"] by auto
    qed
  qed
qed auto

lemma selected_allowed:
  "select_strategy_checked lm compatible = (Some ch, r) \<Longrightarrow> ch_strategy ch \<in> set compatible \<and> 0 \<le> ch_confidence ch \<and> ch_confidence ch \<le> 1"
  by (auto simp: select_strategy_checked_def bind_eq_Some_conv dest: parse_choice_range split: if_splits sum.splits option.splits)

lemma agent_allowed:
  "run_agent ms lm compatible = (c, r, k) \<Longrightarrow> k \<le> ms_agent_max_steps ms
    \<and> (\<forall>ch. c = Some ch \<longrightarrow> ch_strategy ch \<in> set compatible \<and> 0 \<le> ch_confidence ch \<and> ch_confidence ch \<le> 1)"
  using agent_steps_allowed[of lm compatible "ms_agent_max_steps ms" "[]" c r k] by (auto simp: run_agent_def split: if_splits)

lemma rule_out_set: "distinct (fst cr) \<Longrightarrow> set (fst (rule_out b s cr)) = {t \<in> set (fst cr). b \<longrightarrow> t \<noteq> s}"
  by (auto simp: rule_out_def set_remove1_eq)

text \<open>Ruling out moves a strategy from one list to the other: none is lost.\<close>

lemma rule_out_partition:
  "distinct (fst cr) \<Longrightarrow> distinct (fst (rule_out b s cr)) \<and>
    set (fst (rule_out b s cr)) \<union> set (snd (rule_out b s cr)) = set (fst cr) \<union> set (snd cr)"
  by (auto simp: rule_out_def distinct_remove1 set_remove1_eq)

definition adaptable :: "member_settings \<Rightarrow> string list \<Rightarrow> package \<Rightarrow> bool" where
  "adaptable ms supported pk \<longleftrightarrow> (\<exists>f. pk_framework pk = Some f \<and> lower f \<in> set supported)
     \<and> (\<exists>n. pk_drifted_rows pk = Some n \<and> ms_min_drifted_rows ms \<le> n) \<and> pk_shifts pk \<noteq> []
     \<and> (case pk_summary pk of None \<Rightarrow> True | Some su \<Rightarrow> ds_sufficient su)"

text \<open>The hard constraints as they are documented, read off the evidence: fine-tuning needs a model
  that can be fine-tuned and drift below its PSI threshold, full retraining a model that can be
  retrained, a rollback another compatible version (or none listed) and a measured performance.
  Doing nothing is always allowed.\<close>

definition trainable :: "package \<Rightarrow> (capabilities \<Rightarrow> bool) \<Rightarrow> bool" where
  "trainable pk can = (case Option.bind (pk_summary pk) ds_caps of None \<Rightarrow> True | Some c \<Rightarrow> can c \<or> cap_llm_adapter c)"

definition strategy_allowed :: "member_settings \<Rightarrow> package \<Rightarrow> strategy \<Rightarrow> bool" where
  "strategy_allowed ms pk s = (case s of
     FULL_RETRAINING \<Rightarrow> trainable pk cap_full_retraining
   | FINE_TUNING \<Rightarrow> trainable pk cap_fine_tuning \<and> pk_max_psi pk < ms_full_retrain_psi ms
   | ROLLBACK \<Rightarrow> pk_has_performance pk \<and> (pk_evals pk = [] \<or> list_ex (\<lambda>e. ve_compatible e \<and> \<not> ve_is_live e) (pk_evals pk))
   | NO_ACTION \<Rightarrow> True
   | _ \<Rightarrow> False)"

text \<open>What the constraints leave: either no adaptation at all, or exactly the allowed strategies.\<close>

lemma constraints_forced:
  assumes "1 \<le> ms_min_drifted_rows ms"
  shows "cr_forced (evaluate_constraints ms supported pk) = None \<longleftrightarrow> adaptable ms supported pk"
  using assms by (auto simp: evaluate_constraints_def adaptable_def forced_def Let_def split: option.splits)

lemma constraints_free:
  assumes "cr_forced (evaluate_constraints ms supported pk) = None"
  shows "let cr = evaluate_constraints ms supported pk in
    set (cr_compatible cr) = {s. strategy_allowed ms pk s}
    \<and> set (cr_compatible cr) \<union> set (cr_rejected cr) = set candidates_in_order"
proof -
  let ?caps = "Option.bind (pk_summary pk) ds_caps"
  let ?without = "\<lambda>f. case ?caps of None \<Rightarrow> False | Some c \<Rightarrow> \<not> f c \<and> \<not> cap_llm_adapter c"
  let ?a = "rule_out (ms_full_retrain_psi ms \<le> pk_max_psi pk) FINE_TUNING (candidates_in_order, [])"
  let ?b = "rule_out (?without cap_fine_tuning) FINE_TUNING ?a"
  let ?c = "rule_out (?without cap_full_retraining) FULL_RETRAINING ?b"
  let ?d = "rule_out (rollback_ruled_out pk) ROLLBACK ?c"
  have cr: "cr_compatible (evaluate_constraints ms supported pk) = fst ?d" "cr_rejected (evaluate_constraints ms supported pk) = snd ?d"
    using assms by (auto simp: evaluate_constraints_def forced_def Let_def split: if_splits)
  have base: "distinct (fst (candidates_in_order, [] :: strategy list))" by (simp add: candidates_in_order_def)
  note a = rule_out_partition[OF base, of "ms_full_retrain_psi ms \<le> pk_max_psi pk" FINE_TUNING]
  note b = rule_out_partition[OF conjunct1[OF a], of "?without cap_fine_tuning" FINE_TUNING]
  note c = rule_out_partition[OF conjunct1[OF b], of "?without cap_full_retraining" FULL_RETRAINING]
  note d = rule_out_partition[OF conjunct1[OF c], of "rollback_ruled_out pk" ROLLBACK]
  have all: "set (fst ?d) \<union> set (snd ?d) = set candidates_in_order" using a b c d by auto
  have out: "set (fst ?d) = {t \<in> set candidates_in_order. (ms_full_retrain_psi ms \<le> pk_max_psi pk \<longrightarrow> t \<noteq> FINE_TUNING)
      \<and> (?without cap_fine_tuning \<longrightarrow> t \<noteq> FINE_TUNING) \<and> (?without cap_full_retraining \<longrightarrow> t \<noteq> FULL_RETRAINING)
      \<and> (rollback_ruled_out pk \<longrightarrow> t \<noteq> ROLLBACK)}"
    by (simp only: rule_out_set[OF base] rule_out_set[OF conjunct1[OF a]] rule_out_set[OF conjunct1[OF b]]
        rule_out_set[OF conjunct1[OF c]] fst_conv) blast
  have train: "\<not> ?without f \<longleftrightarrow> trainable pk f" for f by (simp add: trainable_def split: option.split)
  have roll: "\<not> rollback_ruled_out pk \<longleftrightarrow> strategy_allowed ms pk ROLLBACK" by (auto simp: rollback_ruled_out_def strategy_allowed_def)
  have "t \<in> set (fst ?d) \<longleftrightarrow> strategy_allowed ms pk t" for t
    unfolding out using train[of cap_fine_tuning] train[of cap_full_retraining] roll
    by (cases t) (auto simp: candidates_in_order_def strategy_allowed_def)
  then show ?thesis using all by (auto simp: cr Let_def)
qed

lemma fallback_allowed: "NO_ACTION \<in> set compatible \<Longrightarrow> select_strategy_fallback compatible \<in> set compatible"
  by (simp add: select_strategy_fallback_def)

lemma round4_upper: "x \<le> 1 \<Longrightarrow> round4 x \<le> 1"
proof -
  assume "x \<le> 1"
  then have x: "10000 * x \<le> 10000" by simp
  let ?n = "floor (10000 * x)" and ?r = "10000 * x - of_int (floor (10000 * x))"
  have n: "?n \<le> 10000" using x by linarith
  show ?thesis
  proof (cases "?n = 10000")
    case True
    then have "?r \<le> 0" using x by simp
    then show ?thesis using True by (simp add: round4_def Let_def)
  next
    case False
    then have "?n + 1 \<le> 10000" using n by linarith
    then have "(of_int (?n + 1) :: rat) \<le> 10000" "(of_int ?n :: rat) \<le> 10000" using n by linarith+
    then show ?thesis by (simp add: round4_def Let_def)
  qed
qed

lemma evidence_range:
  assumes "evidence_confidence ms pk = Some c" shows "0 \<le> c \<and> c \<le> 1"
proof -
  obtain su where "pk_summary pk = Some su" using assms by (cases "pk_summary pk") (simp_all add: evidence_confidence_def)
  then have su: "c = max (1/100) (round4 (min 1 (of_nat (ds_drifted_rows su) / of_nat (ms_confidence_rows ms))
      * (if ds_significant su \<noteq> [] then 1 else if ds_affected su \<noteq> [] then 7/10 else 4/10)))"
    using assms by (simp add: evidence_confidence_def Let_def)
  let ?s = "min 1 (of_nat (ds_drifted_rows su) / of_nat (ms_confidence_rows ms) :: rat)"
  have "?s * (if ds_significant su \<noteq> [] then 1 else if ds_affected su \<noteq> [] then 7/10 else 4/10) \<le> 1 * 1"
    by (rule mult_mono) auto
  then show ?thesis using su round4_upper by auto
qed

lemma ask_client_allowed:
  assumes "ask_client ms compatible client = (choice, reason, steps)"
  shows "steps \<le> ms_agent_max_steps ms \<and> (\<forall>ch. choice = Some ch \<longrightarrow> ch_strategy ch \<in> set compatible
      \<and> 0 \<le> ch_confidence ch \<and> ch_confidence ch \<le> 1)"
proof (cases client)
  case None
  then show ?thesis using assms by (simp add: ask_client_def)
next
  case (Some lm)
  show ?thesis
  proof (cases "ms_agent_enabled ms")
    case True
    then show ?thesis using assms Some agent_allowed[of ms lm compatible choice reason steps] by (simp add: ask_client_def)
  next
    case False
    obtain c r where "select_strategy_checked lm compatible = (c, r)" by fastforce
    then show ?thesis using assms Some False selected_allowed[of lm compatible _ r] by (auto simp: ask_client_def)
  qed
qed

text \<open>The step that selects, for whatever client there is.\<close>

lemma selected_within:
  assumes free: "cr_forced cr = None" and no: "NO_ACTION \<in> set (cr_compatible cr)" and ms: "member_settings_ok ms"
    and conf: "\<And>c. conf = Some c \<Longrightarrow> 0 \<le> c \<and> c \<le> 1"
  shows "let dn = select_strategy ms cr client conf in dn_strategy dn \<in> set (cr_compatible cr)
    \<and> dn_compatible dn = cr_compatible cr \<and> dn_source dn \<noteq> HARD_CONSTRAINT \<and> 0 \<le> dn_confidence dn
    \<and> (\<forall>c. conf = Some c \<longrightarrow> dn_confidence dn \<le> c) \<and> dn_confidence dn \<le> 1 \<and> dn_steps dn \<le> ms_agent_max_steps ms"
proof -
  obtain choice reason steps where res: "ask_client ms (cr_compatible cr) client = (choice, reason, steps)" by (metis prod_cases3)
  note asked = ask_client_allowed[OF res]
  have ms': "0 \<le> ms_default_confidence ms \<and> ms_default_confidence ms \<le> 1" using ms by (simp add: member_settings_ok_def)
  show ?thesis
  proof (cases choice)
    case None
    show ?thesis
      by (cases conf) (use None ms' asked conf fallback_allowed[OF no] in \<open>simp_all add: select_strategy_def free res Let_def\<close>)
  next
    case (Some ch)
    show ?thesis
      by (cases conf) (use Some asked conf in \<open>auto simp: select_strategy_def free res min_le_iff_disj Let_def\<close>)
  qed
qed

lemma fallback_of_range:
  "fallback_of s compatible = Some t \<Longrightarrow> t = NO_ACTION \<or> t \<in> set compatible"
  by (auto simp: fallback_of_def find_Some_iff split: if_splits option.splits)

lemma unasked_falls_back:
  "cr_forced cr = None \<Longrightarrow> dn_strategy (select_strategy ms cr None conf) = select_strategy_fallback (cr_compatible cr)"
  by (simp add: select_strategy_def ask_client_def Let_def)

text \<open>C18. Whatever an LLM answers, refuses or keeps asking, the strategy chosen is one the hard
  constraints allow for this evidence (\<open>strategy_allowed\<close>, a function of the inputs): training only for a
  supported framework with enough drifted rows of compared features and a model that can be
  trained that way, fine-tuning only while the largest PSI is below its threshold, a rollback only
  with a measured performance and another compatible version. The strategies offered are exactly
  the allowed ones, so is the fallback strategy named beside the choice, and without an LLM the
  first allowed one of fine-tuning, full retraining, rollback is taken. The confidence is in
  [0, 1] and never above what the evidence supports; the agent takes at most its configured number
  of steps; every strategy not chosen is listed as rejected.\<close>

theorem strategy_is_allowed:
  assumes ms: "member_settings_ok ms" and dn: "dn = decide_strategy ms supported pk client"
  shows "if adaptable ms supported pk
    then strategy_allowed ms pk (dn_strategy dn) \<and> set (dn_compatible dn) = {s. strategy_allowed ms pk s}
      \<and> (client = None \<longrightarrow> dn_strategy dn = (if strategy_allowed ms pk FINE_TUNING then FINE_TUNING
          else if strategy_allowed ms pk FULL_RETRAINING then FULL_RETRAINING else if strategy_allowed ms pk ROLLBACK then ROLLBACK else NO_ACTION))
      \<and> 0 \<le> dn_confidence dn \<and> dn_confidence dn \<le> 1
      \<and> (\<forall>c. evidence_confidence ms pk = Some c \<longrightarrow> dn_confidence dn \<le> c) \<and> dn_steps dn \<le> ms_agent_max_steps ms
      \<and> set (dn_rejected dn) = set candidates_in_order - {dn_strategy dn}
      \<and> (\<forall>t. dn_fallback dn = Some t \<longrightarrow> strategy_allowed ms pk t)
    else dn_strategy dn \<in> {NO_COMPATIBLE_STRATEGY, INSUFFICIENT_INFORMATION} \<and> dn_source dn = HARD_CONSTRAINT
      \<and> set (dn_rejected dn) = set candidates_in_order"
proof (cases "adaptable ms supported pk")
  case True
  let ?cr = "evaluate_constraints ms supported pk"
  let ?dn = "select_strategy ms ?cr client (evidence_confidence ms pk)"
  have free: "cr_forced ?cr = None" using constraints_forced True ms by (simp add: member_settings_ok_def)
  note cr = constraints_free[OF free, unfolded Let_def]
  have comp: "set (cr_compatible ?cr) = {s. strategy_allowed ms pk s}" using cr by blast
  have no: "NO_ACTION \<in> set (cr_compatible ?cr)" unfolding comp by (simp add: strategy_allowed_def)
  have range: "\<And>c. evidence_confidence ms pk = Some c \<Longrightarrow> 0 \<le> c \<and> c \<le> 1" by (rule evidence_range)
  note sel = selected_within[where client = client and conf = "evidence_confidence ms pk", OF free no ms range, unfolded Let_def]
  have dn': "dn_strategy dn = dn_strategy ?dn" "dn_compatible dn = dn_compatible ?dn" "dn_confidence dn = dn_confidence ?dn"
      "dn_steps dn = dn_steps ?dn" "dn_fallback dn = fallback_of (dn_strategy ?dn) (dn_compatible ?dn)"
      "set (dn_rejected dn) = set (cr_rejected ?cr) \<union> set (dn_compatible ?dn) - {dn_strategy ?dn}"
    by (auto simp: dn decide_strategy_def with_rejections_def Let_def)
  have keep: "strategy_allowed ms pk (dn_strategy ?dn)" "dn_compatible ?dn = cr_compatible ?cr" using sel comp by auto
  have all: "set (cr_rejected ?cr) \<union> set (cr_compatible ?cr) = set candidates_in_order" using cr by blast
  have unasked: "client = None \<longrightarrow> dn_strategy ?dn = select_strategy_fallback (cr_compatible ?cr)"
    using unasked_falls_back[OF free] by simp
  have other: "strategy_allowed ms pk t" if "fallback_of (dn_strategy ?dn) (cr_compatible ?cr) = Some t" for t
    using fallback_of_range[OF that] comp by (auto simp: strategy_allowed_def)
  show ?thesis unfolding if_P[OF True] dn' keep(2) all
    using keep(1) unasked[unfolded select_strategy_fallback_def comp mem_Collect_eq] sel comp other by blast
next
  case False
  let ?cr = "evaluate_constraints ms supported pk"
  have "cr_forced ?cr \<noteq> None" using constraints_forced False ms by (simp add: member_settings_ok_def)
  then obtain st where st: "?cr = forced st" "st \<in> {NO_COMPATIBLE_STRATEGY, INSUFFICIENT_INFORMATION}"
    by (auto simp: evaluate_constraints_def Let_def split: if_splits)
  then show ?thesis using False
    by (auto simp: dn decide_strategy_def with_rejections_def select_strategy_def forced_def candidates_in_order_def)
qed

section \<open>An agent that insists\<close>

definition demo_package :: package where
  "demo_package = \<lparr>pk_framework = Some ''Sklearn'', pk_drifted_rows = Some 40,
     pk_shifts = [\<lparr>fe_name = ''x'', fe_ks_pvalue = 1/100, fe_psi = 7/10, fe_n_historical = 50, fe_n_drifted = 40\<rparr>],
     pk_summary = Some \<lparr>ds_affected = [''x''], ds_significant = [''x''], ds_drifted_rows = 40, ds_sufficient = True, ds_caps = None\<rparr>,
     pk_max_psi = 7/10, pk_has_performance = True, pk_evals = []\<rparr>"

text \<open>It submits fine-tuning, which the PSI rules out, then full retraining with full confidence.\<close>

definition demo_llm :: llm where
  "demo_llm = \<lparr>lm_select = Inr ''FINE_TUNING'',
     lm_step = (\<lambda>turns. Inr (if turns = [] then ''FINE_TUNING'' else ''FULL_RETRAINING'')),
     lm_decode = (\<lambda>s. Some (RObj [(''action'', RStr ''submit_decision''),
       (''input'', RObj [(''strategy'', RStr s), (''confidence'', RNum 1), (''rationale'', RStr ''drift'')])])),
     lm_tool = (\<lambda>_. None)\<rparr>"

definition agent_settings :: member_settings where
  "agent_settings = demo_member_settings\<lparr>ms_agent_enabled := True\<rparr>"

lemma strategy_is_allowed_witness:
  "dn_strategy (decide_strategy agent_settings [''sklearn''] demo_package (Some demo_llm)) = FULL_RETRAINING
   \<and> dn_confidence (decide_strategy agent_settings [''sklearn''] demo_package (Some demo_llm)) \<le> 2/5
   \<and> set (dn_rejected (decide_strategy agent_settings [''sklearn''] demo_package (Some demo_llm)))
       = set candidates_in_order - {FULL_RETRAINING}"
proof -
  have ok: "member_settings_ok agent_settings" using demo_settings_fine by (simp add: agent_settings_def member_settings_ok_def)
  have l: "lower ''Sklearn'' = ''sklearn''" by code_simp
  have ad: "adaptable agent_settings [''sklearn''] demo_package"
    by (simp add: adaptable_def demo_package_def agent_settings_def demo_member_settings_def l)
  have ev: "evidence_confidence agent_settings demo_package = Some (2/5)" by code_simp
  have st: "dn_strategy (decide_strategy agent_settings [''sklearn''] demo_package (Some demo_llm)) = FULL_RETRAINING"
    by code_simp
  note all = strategy_is_allowed[OF ok refl, of "[''sklearn'']" demo_package "Some demo_llm", unfolded if_P[OF ad]]
  from all have "\<forall>c. evidence_confidence agent_settings demo_package = Some c \<longrightarrow>
      dn_confidence (decide_strategy agent_settings [''sklearn''] demo_package (Some demo_llm)) \<le> c" by (elim conjE)
  then have "dn_confidence (decide_strategy agent_settings [''sklearn''] demo_package (Some demo_llm)) \<le> 2/5" using ev by blast
  moreover from all have "set (dn_rejected (decide_strategy agent_settings [''sklearn''] demo_package (Some demo_llm)))
       = set candidates_in_order - {dn_strategy (decide_strategy agent_settings [''sklearn''] demo_package (Some demo_llm))}"
    by (elim conjE)
  ultimately show ?thesis unfolding st by blast
qed

end
