(* ===== verification/Circuits.thy ===== *)
theory Circuits
  imports Prelude
begin

text \<open>
  The two circuit breakers: one per notification sink (\<^verbatim>\<open>CircuitBreaker\<close> of
  \<^verbatim>\<open>notifications/dispatcher.py\<close>) and one per LLM provider (\<^verbatim>\<open>CircuitBreaker\<close> of
  \<^verbatim>\<open>llm/guard.py\<close>). They are written differently; the locale \<open>circuit\<close> states the contract
  both keep: a call goes ahead while fewer than \<open>threshold\<close> calls have failed since the last
  success, or as the one trial after the last failure, once \<open>reset\<close> has passed since then.

  A clock reading is an argument. Each operation runs under the breaker's lock, so calls of
  several threads are sequences of whole operations, in any order: a call that was let through may
  end after others have started, failed or succeeded. The gauges are not kept.
\<close>

section \<open>The contract\<close>

text \<open>What the threads do with a breaker: ask to make a call, or report how a call made earlier ended.\<close>

datatype call_event = Asked time | Succeeded | Failed time

text \<open>Read off the events so far, newest first and with the refused calls left out: the failures
  since the last success, the time of the last of them, and whether a call was let through since.\<close>

fun failures_since :: "call_event list \<Rightarrow> nat" where
  "failures_since [] = 0"
| "failures_since (Asked t # h) = failures_since h"
| "failures_since (Succeeded # h) = 0"
| "failures_since (Failed t # h) = Suc (failures_since h)"

fun last_failure :: "call_event list \<Rightarrow> time option" where
  "last_failure [] = None"
| "last_failure (Asked t # h) = last_failure h"
| "last_failure (Succeeded # h) = None"
| "last_failure (Failed t # h) = Some t"

fun call_since :: "call_event list \<Rightarrow> bool" where
  "call_since (Asked t # h) = True"
| "call_since h = False"

definition may_call :: "nat \<Rightarrow> time \<Rightarrow> call_event list \<Rightarrow> time \<Rightarrow> bool" where
  "may_call threshold reset h now \<longleftrightarrow> failures_since h < threshold
     \<or> (case last_failure h of None \<Rightarrow> False | Some t \<Rightarrow> reset \<le> now - t \<and> \<not> call_since h)"

fun reading :: "nat \<Rightarrow> time \<Rightarrow> call_event list \<Rightarrow> call_event list \<Rightarrow> bool list" where
  "reading threshold reset h [] = []"
| "reading threshold reset h (e # es) = (case e of
     Asked now \<Rightarrow> if may_call threshold reset h now then True # reading threshold reset (e # h) es
       else False # reading threshold reset h es
   | _ \<Rightarrow> reading threshold reset (e # h) es)"

text \<open>The answers a breaker gives to the calls asked for.\<close>

fun answers ::
  "(time \<Rightarrow> 'c \<Rightarrow> 'c option) \<Rightarrow> ('c \<Rightarrow> 'c) \<Rightarrow> (time \<Rightarrow> 'c \<Rightarrow> 'c) \<Rightarrow> 'c \<Rightarrow> call_event list \<Rightarrow> bool list" where
  "answers enter succeed fail c [] = []"
| "answers enter succeed fail c (e # es) = (case e of
     Asked now \<Rightarrow> (case enter now c of
         None \<Rightarrow> False # answers enter succeed fail c es
       | Some c' \<Rightarrow> True # answers enter succeed fail c' es)
   | Succeeded \<Rightarrow> answers enter succeed fail (succeed c) es
   | Failed now \<Rightarrow> answers enter succeed fail (fail now c) es)"

text \<open>\<open>agrees c n t trial\<close>: \<open>n\<close> failures since the last success, the last one at \<open>t\<close>, and
  whether a call was let through since.\<close>

locale circuit =
  fixes enter :: "time \<Rightarrow> 'c \<Rightarrow> 'c option"
    and succeed :: "'c \<Rightarrow> 'c"
    and fail :: "time \<Rightarrow> 'c \<Rightarrow> 'c"
    and start :: 'c
    and agrees :: "'c \<Rightarrow> nat \<Rightarrow> time option \<Rightarrow> bool \<Rightarrow> bool"
    and threshold :: nat and reset :: time
  assumes start_agrees: "agrees start 0 None False"
    and enter_iff: "agrees c n t trial \<Longrightarrow> enter now c \<noteq> None
      \<longleftrightarrow> n < threshold \<or> (case t of None \<Rightarrow> False | Some u \<Rightarrow> reset \<le> now - u \<and> \<not> trial)"
    and enter_agrees: "agrees c n t trial \<Longrightarrow> enter now c = Some c' \<Longrightarrow> agrees c' n t True"
    and succeed_agrees: "agrees c n t trial \<Longrightarrow> agrees (succeed c) 0 None False"
    and fail_agrees: "agrees c n t trial \<Longrightarrow> agrees (fail u c) (Suc n) (Some u) False"
begin

lemma answers_reading:
  "agrees c (failures_since h) (last_failure h) (call_since h)
    \<Longrightarrow> answers enter succeed fail c es = reading threshold reset h es"
proof (induction es arbitrary: c h)
  case (Cons e es)
  note now = Cons.prems
  show ?case
  proof (cases e)
    case (Asked u)
    have may: "enter u c \<noteq> None \<longleftrightarrow> may_call threshold reset h u"
      using enter_iff[OF now] by (simp add: may_call_def)
    show ?thesis
    proof (cases "enter u c")
      case None
      then show ?thesis using may Asked Cons.IH[OF now] by simp
    next
      case (Some c')
      then show ?thesis using may Asked Cons.IH[of c' "Asked u # h"] enter_agrees[OF now Some] by simp
    qed
  next
    case Succeeded
    then show ?thesis using Cons.IH[of "succeed c" "Succeeded # h"] succeed_agrees[OF now] by simp
  next
    case (Failed u)
    then show ?thesis using Cons.IH[of "fail u c" "Failed u # h"] fail_agrees[OF now] by simp
  qed
qed simp

text \<open>The breaker answers as the contract reads.\<close>

lemma answers_as_read: "answers enter succeed fail start es = reading threshold reset [] es"
  using answers_reading[of start "[]" es] start_agrees by simp

end

text \<open>What the reading amounts to: with the threshold reached, a second call is let through only
  after the first has ended.\<close>

lemma one_trial:
  "k \<le> failures_since h \<Longrightarrow> call_since h \<Longrightarrow> \<not> may_call k r h now"
  by (cases "last_failure h") (simp_all add: may_call_def)

section \<open>The breaker of a notification sink\<close>

record sink_circuit =
  sc_failures :: nat
  sc_opened_at :: "time option"
  sc_trial :: bool

definition new_sink_circuit :: sink_circuit where
  "new_sink_circuit = \<lparr>sc_failures = 0, sc_opened_at = None, sc_trial = False\<rparr>"

definition is_open :: "time \<Rightarrow> time \<Rightarrow> sink_circuit \<Rightarrow> bool" where
  "is_open reset now c = (case sc_opened_at c of None \<Rightarrow> False | Some t \<Rightarrow> sc_trial c \<or> now - t < reset)"

text \<open>\<^verbatim>\<open>allow\<close>: the circuit to go on with, or \<open>None\<close> for \<^verbatim>\<open>False\<close> (the circuit is unchanged).\<close>

definition allow :: "time \<Rightarrow> time \<Rightarrow> sink_circuit \<Rightarrow> sink_circuit option" where
  "allow reset now c = (case sc_opened_at c of
     None \<Rightarrow> Some c
   | Some t \<Rightarrow> if sc_trial c \<or> now - t < reset then None else Some (c\<lparr>sc_trial := True\<rparr>))"

definition sink_success :: "sink_circuit \<Rightarrow> sink_circuit" where
  "sink_success c = new_sink_circuit"

definition sink_failure :: "nat \<Rightarrow> time \<Rightarrow> sink_circuit \<Rightarrow> sink_circuit" where
  "sink_failure threshold now c =
     (let c' = c\<lparr>sc_failures := sc_failures c + 1\<rparr>
      in if sc_trial c' \<or> threshold \<le> sc_failures c' then c'\<lparr>sc_opened_at := Some now, sc_trial := False\<rparr> else c')"

definition wait_s :: "time \<Rightarrow> time \<Rightarrow> sink_circuit \<Rightarrow> time" where
  "wait_s reset now c = (case sc_opened_at c of
     None \<Rightarrow> 0
   | Some t \<Rightarrow> if sc_trial c then reset else max 0 (t + reset - now))"

definition sink_agrees :: "nat \<Rightarrow> sink_circuit \<Rightarrow> nat \<Rightarrow> time option \<Rightarrow> bool \<Rightarrow> bool" where
  "sink_agrees threshold c n t trial \<longleftrightarrow> sc_failures c = n \<and> (threshold \<le> n \<longrightarrow> t \<noteq> None)
     \<and> sc_opened_at c = (if threshold \<le> n then t else None) \<and> sc_trial c = (threshold \<le> n \<and> trial)"

section \<open>The breaker of an LLM provider\<close>

datatype llm_circuit_state = CLOSED | OPEN | HALF_OPEN

record llm_circuit =
  lc_state :: llm_circuit_state
  lc_failures :: nat
  lc_opened_at :: time

definition new_llm_circuit :: llm_circuit where
  "new_llm_circuit = \<lparr>lc_state = CLOSED, lc_failures = 0, lc_opened_at = 0\<rparr>"

text \<open>\<open>None\<close> is the LlmCircuitOpenError.\<close>

definition acquire :: "time \<Rightarrow> time \<Rightarrow> llm_circuit \<Rightarrow> llm_circuit option" where
  "acquire reset now c =
     (if lc_state c = CLOSED then Some c
      else if lc_state c = OPEN \<and> reset \<le> now - lc_opened_at c then Some (c\<lparr>lc_state := HALF_OPEN\<rparr>)
      else None)"

definition llm_success :: "llm_circuit \<Rightarrow> llm_circuit" where
  "llm_success c = c\<lparr>lc_state := CLOSED, lc_failures := 0\<rparr>"

definition llm_failure :: "nat \<Rightarrow> time \<Rightarrow> llm_circuit \<Rightarrow> llm_circuit" where
  "llm_failure threshold now c =
     (let c' = c\<lparr>lc_failures := lc_failures c + 1\<rparr>
      in if lc_state c' = HALF_OPEN \<or> threshold \<le> lc_failures c' then c'\<lparr>lc_state := OPEN, lc_opened_at := now\<rparr> else c')"

definition llm_agrees :: "nat \<Rightarrow> llm_circuit \<Rightarrow> nat \<Rightarrow> time option \<Rightarrow> bool \<Rightarrow> bool" where
  "llm_agrees threshold c n t trial \<longleftrightarrow> lc_failures c = n
     \<and> (if threshold \<le> n then lc_state c = (if trial then HALF_OPEN else OPEN) \<and> t = Some (lc_opened_at c)
        else lc_state c = CLOSED)"

section \<open>Both keep the contract\<close>

text \<open>The threshold of a configuration is at least 1: it is written \<open>Suc k\<close>.\<close>

interpretation sink: circuit "allow r" sink_success "sink_failure (Suc k)" new_sink_circuit "sink_agrees (Suc k)" "Suc k" r
  for k r
proof
  fix c c' :: sink_circuit and n t trial now u
  show "sink_agrees (Suc k) new_sink_circuit 0 None False" by (simp add: sink_agrees_def new_sink_circuit_def)
  assume i: "sink_agrees (Suc k) c n t trial"
  show "allow r now c \<noteq> None \<longleftrightarrow> n < Suc k \<or> (case t of None \<Rightarrow> False | Some u \<Rightarrow> r \<le> now - u \<and> \<not> trial)"
    using i by (cases t) (auto simp: sink_agrees_def allow_def)
  show "sink_agrees (Suc k) (sink_success c) 0 None False" by (simp add: sink_agrees_def sink_success_def new_sink_circuit_def)
  show "sink_agrees (Suc k) (sink_failure (Suc k) u c) (Suc n) (Some u) False"
    using i by (auto simp: sink_agrees_def sink_failure_def Let_def)
  assume "allow r now c = Some c'"
  then show "sink_agrees (Suc k) c' n t True"
    using i by (cases t) (auto simp: sink_agrees_def allow_def split: if_splits)
qed

interpretation provider: circuit "acquire r" llm_success "llm_failure (Suc k)" new_llm_circuit "llm_agrees (Suc k)" "Suc k" r
  for k r
proof
  fix c c' :: llm_circuit and n t trial now u
  show "llm_agrees (Suc k) new_llm_circuit 0 None False" by (simp add: llm_agrees_def new_llm_circuit_def)
  assume i: "llm_agrees (Suc k) c n t trial"
  show "acquire r now c \<noteq> None \<longleftrightarrow> n < Suc k \<or> (case t of None \<Rightarrow> False | Some u \<Rightarrow> r \<le> now - u \<and> \<not> trial)"
    using i by (cases t) (auto simp: llm_agrees_def acquire_def split: if_splits)
  show "llm_agrees (Suc k) (llm_success c) 0 None False" by (simp add: llm_agrees_def llm_success_def)
  show "llm_agrees (Suc k) (llm_failure (Suc k) u c) (Suc n) (Some u) False"
    using i by (auto simp: llm_agrees_def llm_failure_def Let_def split: if_splits)
  assume "acquire r now c = Some c'"
  then show "llm_agrees (Suc k) c' n t True"
    using i by (auto simp: llm_agrees_def acquire_def split: if_splits)
qed

text \<open>C23. Both circuit breakers answer as the contract reads, for every interleaving of calls: from
  a new breaker and whatever calls are asked for and end in whatever order, a call is let through
  exactly when fewer than the threshold of calls have failed since the last success, or when the
  reset period has passed since the last failure and no call was let through since that failure
  (the one trial: further calls wait for its result).\<close>

theorem breakers_as_read:
  "answers (allow r) sink_success (sink_failure (Suc k)) new_sink_circuit es = reading (Suc k) r [] es
   \<and> answers (acquire r) llm_success (llm_failure (Suc k)) new_llm_circuit es = reading (Suc k) r [] es"
  by (simp only: sink.answers_as_read provider.answers_as_read simp_thms)

text \<open>A sink's circuit says it is open exactly while it lets no call through, and \<open>wait_s\<close> is
  how long that lasts.\<close>

lemma is_open_allow: "is_open r now c \<longleftrightarrow> allow r now c = None"
  by (simp add: is_open_def allow_def split: option.split)

lemma wait_then_allowed:
  "\<not> sc_trial c \<Longrightarrow> now + wait_s r now c \<le> later \<Longrightarrow> allow r later c \<noteq> None"
  by (auto simp: wait_s_def allow_def split: option.split)

lemma wait_bounds: "0 \<le> r \<Longrightarrow> (\<And>t. sc_opened_at c = Some t \<Longrightarrow> t \<le> now) \<Longrightarrow> 0 \<le> wait_s r now c \<and> wait_s r now c \<le> r"
  by (auto simp: wait_s_def split: option.split)

end
