(* ===== verification/Outbox.thy ===== *)
theory Outbox
  imports Circuits Job_Store
begin

text \<open>
  Delivering the notification outbox (\<^verbatim>\<open>notifications/dispatcher.py\<close>) and redriving dead
  deliveries (\<^verbatim>\<open>notifications/service.py\<close>), on the table that \<^verbatim>\<open>notifications/events.py\<close>
  fills.

  A sink is what it answers to a message: \<open>Accepted\<close>, or \<open>Refused retryable\<close> (any other
  exception counts as retryable, as in the code). Clock readings, the random number of the
  backoff and the sink's answers are arguments. The breaker reads the monotonic clock, the rows
  the wall clock. Error texts, headers and bodies, metrics and log lines are not kept.
\<close>

section \<open>Configuration and state\<close>

record notif_settings =
  ns_batch :: nat
  ns_lease_s :: time
  ns_max_attempts :: int
  ns_backoff_initial_s :: time
  ns_backoff_max_s :: time
  ns_backoff_jitter :: rat
  ns_breaker_failures :: nat
  ns_breaker_reset_s :: time

definition notif_settings_ok :: "notif_settings \<Rightarrow> bool" where
  "notif_settings_ok ns \<longleftrightarrow> 1 \<le> ns_batch ns \<and> 0 < ns_lease_s ns \<and> 1 \<le> ns_max_attempts ns
     \<and> 0 < ns_backoff_initial_s ns \<and> 0 < ns_backoff_max_s ns \<and> 0 \<le> ns_backoff_jitter ns \<and> ns_backoff_jitter ns \<le> 1
     \<and> 1 \<le> ns_breaker_failures ns \<and> 0 < ns_breaker_reset_s ns"

datatype sink_reply = Accepted | Refused bool

text \<open>\<^verbatim>\<open>Dispatcher\<close>: its id, its sinks and its breaker, a circuit per sink made on first use.\<close>

record dispatcher =
  dp_id :: string
  dp_sinks :: "string list"
  dp_breaker :: "string \<Rightarrow> sink_circuit"

section \<open>Claiming\<close>

definition due :: "time \<Rightarrow> delivery \<Rightarrow> bool" where
  "due now r \<longleftrightarrow> dl_status r = PENDING \<and> dl_next_attempt r \<le> now"

text \<open>Rows are kept in the order of their id, and the sort is stable.\<close>

definition due_candidates :: "nat \<Rightarrow> time \<Rightarrow> string list \<Rightarrow> delivery list \<Rightarrow> nat list" where
  "due_candidates batch now usable ds =
     map dl_id (take batch (sort_key dl_next_attempt (filter (\<lambda>r. due now r \<and> dl_sink r \<in> set usable) ds)))"

definition lease_to :: "string \<Rightarrow> time \<Rightarrow> delivery \<Rightarrow> delivery" where
  "lease_to w lease_end r = r\<lparr>dl_next_attempt := lease_end, dl_lease_until := Some lease_end,
     dl_leased_by := Some w, dl_attempts := dl_attempts r + 1\<rparr>"

fun claim_each :: "string \<Rightarrow> time \<Rightarrow> time \<Rightarrow> nat list \<Rightarrow> delivery list \<Rightarrow> nat list \<times> delivery list" where
  "claim_each w now lease_end [] ds = ([], ds)"
| "claim_each w now lease_end (i # is) ds =
     (let p = (\<lambda>r. dl_id r = i \<and> due now r);
          (claimed, ds') = claim_each w now lease_end is (update_where p (lease_to w lease_end) ds)
      in (if rowcount p ds = 1 then i # claimed else claimed, ds'))"

definition claim_due :: "notif_settings \<Rightarrow> time \<Rightarrow> time \<Rightarrow> dispatcher \<Rightarrow> 'a db_scheme \<Rightarrow> nat list \<times> 'a db_scheme" where
  "claim_due ns now mclock dp d =
     (let usable = filter (\<lambda>s. \<not> is_open (ns_breaker_reset_s ns) mclock (dp_breaker dp s)) (dp_sinks dp) in
      if usable = [] then ([], d)
      else let (claimed, ds) = claim_each (dp_id dp) now (now + ns_lease_s ns)
                 (due_candidates (ns_batch ns) now usable (deliveries d)) (deliveries d)
           in (claimed, d\<lparr>deliveries := ds\<rparr>))"

text \<open>\<^verbatim>\<open>_release\<close>.\<close>

definition hand_back :: "string \<Rightarrow> nat \<Rightarrow> time \<Rightarrow> 'a db_scheme \<Rightarrow> 'a db_scheme" where
  "hand_back w i again d = d\<lparr>deliveries := update_where (\<lambda>r. dl_id r = i \<and> dl_leased_by r = Some w)
     (\<lambda>r. r\<lparr>dl_next_attempt := again, dl_lease_until := None, dl_leased_by := None,
        dl_attempts := dl_attempts r - 1\<rparr>) (deliveries d)\<rparr>"

section \<open>One delivery\<close>

definition backoff_s :: "notif_settings \<Rightarrow> rat \<Rightarrow> int \<Rightarrow> time" where
  "backoff_s ns rnd attempts =
     (let base = min (ns_backoff_max_s ns) (ns_backoff_initial_s ns * 2 ^ nat (max (attempts - 1) 0))
      in max 0 (base * (1 + ns_backoff_jitter ns * (2 * rnd - 1))))"

text \<open>\<^verbatim>\<open>_finish\<close>: record the outcome if the row is still ours.\<close>

definition finish :: "string \<Rightarrow> nat \<Rightarrow> (delivery \<Rightarrow> delivery) \<Rightarrow> 'a db_scheme \<Rightarrow> bool \<times> 'a db_scheme" where
  "finish w i f d =
     (let p = (\<lambda>r. dl_id r = i \<and> dl_leased_by r = Some w \<and> dl_status r = PENDING)
      in (rowcount p (deliveries d) = 1,
          d\<lparr>deliveries := update_where p (\<lambda>r. f (r\<lparr>dl_lease_until := None, dl_leased_by := None\<rparr>)) (deliveries d)\<rparr>))"

text \<open>The first half of \<^verbatim>\<open>_deliver\<close>: read the message and ask the breaker. \<open>None\<close> is the
  exception of a row that is not there; \<open>Inl\<close> a row handed back; \<open>Inr\<close> a message to send now,
  as its sink and the attempt it says.\<close>

definition start_delivery ::
  "notif_settings \<Rightarrow> time \<Rightarrow> time \<Rightarrow> dispatcher \<Rightarrow> nat \<Rightarrow> 'a db_scheme
    \<Rightarrow> ('a db_scheme + dispatcher \<times> string \<times> int) option" where
  "start_delivery ns now mclock dp i d = (case by_key dl_id i (deliveries d) of
     None \<Rightarrow> None
   | Some r \<Rightarrow>
       (case allow (ns_breaker_reset_s ns) mclock (dp_breaker dp (dl_sink r)) of
          None \<Rightarrow> Some (Inl (hand_back (dp_id dp) i
            (now + wait_s (ns_breaker_reset_s ns) mclock (dp_breaker dp (dl_sink r))) d))
        | Some c \<Rightarrow> Some (Inr (dp\<lparr>dp_breaker := (dp_breaker dp)(dl_sink r := c)\<rparr>, dl_sink r, dl_attempts r))))"

definition told :: "notif_settings \<Rightarrow> time \<Rightarrow> string \<Rightarrow> sink_reply \<Rightarrow> dispatcher \<Rightarrow> dispatcher" where
  "told ns mclock sink reply dp = dp\<lparr>dp_breaker := (dp_breaker dp)(sink :=
     (case reply of Accepted \<Rightarrow> sink_success (dp_breaker dp sink)
      | Refused _ \<Rightarrow> sink_failure (ns_breaker_failures ns) mclock (dp_breaker dp sink)))\<rparr>"

text \<open>The second half: what the answer does to the row.\<close>

definition record_reply ::
  "notif_settings \<Rightarrow> time \<Rightarrow> rat \<Rightarrow> string \<Rightarrow> nat \<Rightarrow> int \<Rightarrow> sink_reply \<Rightarrow> 'a db_scheme \<Rightarrow> 'a db_scheme" where
  "record_reply ns now rnd w i attempt reply d = snd (finish w i
     (case reply of
        Accepted \<Rightarrow> (\<lambda>r. r\<lparr>dl_status := DELIVERED, dl_delivered_at := Some now\<rparr>)
      | Refused retryable \<Rightarrow>
          if retryable \<and> \<not> ns_max_attempts ns \<le> attempt
          then (\<lambda>r. r\<lparr>dl_next_attempt := now + backoff_s ns rnd attempt\<rparr>)
          else (\<lambda>r. r\<lparr>dl_status := DEAD, dl_dead_at := Some now\<rparr>)) d)"

section \<open>The loop\<close>

text \<open>What one delivery of a run meets: the clocks when it starts and when the sink has
  answered, the random number and the answer.\<close>

record pass =
  ps_now :: time
  ps_mono :: time
  ps_end :: time
  ps_mono_end :: time
  ps_rnd :: rat
  ps_reply :: sink_reply

definition deliver :: "notif_settings \<Rightarrow> pass \<Rightarrow> nat \<Rightarrow> dispatcher \<times> 'a db_scheme \<Rightarrow> (dispatcher \<times> 'a db_scheme) option" where
  "deliver ns ps i st = (case start_delivery ns (ps_now ps) (ps_mono ps) (fst st) i (snd st) of
     None \<Rightarrow> None
   | Some (Inl d') \<Rightarrow> Some (fst st, d')
   | Some (Inr (dp', sink, attempt)) \<Rightarrow>
       Some (told ns (ps_mono_end ps) sink (ps_reply ps) dp',
             record_reply ns (ps_end ps) (ps_rnd ps) (dp_id dp') i attempt (ps_reply ps) (snd st)))"

text \<open>The deliveries in turn; one that raises ends the run, with what was committed before it and \<open>False\<close>.\<close>

fun deliver_each ::
  "notif_settings \<Rightarrow> (nat \<Rightarrow> pass) \<Rightarrow> nat list \<Rightarrow> dispatcher \<times> 'a db_scheme \<Rightarrow> bool \<times> dispatcher \<times> 'a db_scheme" where
  "deliver_each ns world [] st = (True, st)"
| "deliver_each ns world (i # is) st = (case deliver ns (world i) i st of
     None \<Rightarrow> (False, st) | Some st' \<Rightarrow> deliver_each ns world is st')"

text \<open>\<^verbatim>\<open>run_once\<close> and \<^verbatim>\<open>drain\<close> with the number of deliveries claimed, or \<open>None\<close> when they raise, and the
  state they leave; \<open>world k i\<close> is what delivery \<open>i\<close> meets in round \<open>k\<close>.\<close>

definition run_once ::
  "notif_settings \<Rightarrow> time \<Rightarrow> time \<Rightarrow> (nat \<Rightarrow> pass) \<Rightarrow> dispatcher \<times> 'a db_scheme \<Rightarrow> nat option \<times> dispatcher \<times> 'a db_scheme" where
  "run_once ns now mclock world st =
     (let (claimed, d) = claim_due ns now mclock (fst st) (snd st);
          (finished, st') = deliver_each ns world claimed (fst st, d)
      in (if finished then Some (length claimed) else None, st'))"

fun drain ::
  "notif_settings \<Rightarrow> (nat \<Rightarrow> time \<times> time \<times> (nat \<Rightarrow> pass)) \<Rightarrow> nat \<Rightarrow> dispatcher \<times> 'a db_scheme
    \<Rightarrow> nat option \<times> dispatcher \<times> 'a db_scheme" where
  "drain ns world 0 st = (Some 0, st)"
| "drain ns world (Suc k) st = (case world k of (now, mclock, passes) \<Rightarrow>
     (case run_once ns now mclock passes st of
        (None, st') \<Rightarrow> (None, st')
      | (Some n, st') \<Rightarrow> if n = 0 then (Some 0, st')
          else (case drain ns world k st' of (m, st'') \<Rightarrow> (map_option (\<lambda>m. n + m) m, st''))))"

section \<open>Redriving\<close>

definition redriven :: "time \<Rightarrow> delivery \<Rightarrow> delivery" where
  "redriven now r = r\<lparr>dl_status := PENDING, dl_attempts := 0, dl_next_attempt := now, dl_lease_until := None,
     dl_leased_by := None, dl_dead_at := None, dl_redrives := dl_redrives r + 1\<rparr>"

fun redrive_each :: "time \<Rightarrow> nat list \<Rightarrow> delivery list \<Rightarrow> nat \<times> delivery list" where
  "redrive_each now [] ds = (0, ds)"
| "redrive_each now (i # is) ds =
     (let p = (\<lambda>r. dl_id r = i \<and> dl_status r = DEAD);
          (moved, ds') = redrive_each now is (update_where p (redriven now) ds)
      in ((if rowcount p ds = 1 then 1 else 0) + moved, ds'))"

text \<open>\<^verbatim>\<open>_redrive_rows\<close>.\<close>

definition redrive_rows :: "time \<Rightarrow> string \<Rightarrow> nat list \<Rightarrow> 'a db_scheme \<Rightarrow> nat \<times> 'a db_scheme" where
  "redrive_rows now actor ids d =
     (let (moved, ds) = redrive_each now ids (deliveries d);
          d' = d\<lparr>deliveries := ds\<rparr>
      in (moved, if moved = 0 then d' else record_audit NOTIFICATION_REDRIVEN actor None None None ''OK'' d'))"

definition redrive :: "time \<Rightarrow> string \<Rightarrow> nat \<Rightarrow> 'a db_scheme \<Rightarrow> exn + 'a db_scheme" where
  "redrive now actor i d = (case by_key dl_id i (deliveries d) of
     None \<Rightarrow> Inl (err DeliveryNotFoundError [])
   | Some r \<Rightarrow>
       if dl_status r \<noteq> DEAD then Inl (err ConflictError [])
       else let (moved, d') = redrive_rows now actor [i] d
            in if moved \<noteq> 1 then Inl (err ConflictError []) else Inr d')"

text \<open>\<^verbatim>\<open>redrive_dead\<close>: the oldest \<open>limit\<close> dead rows that match the filters of the request.\<close>

definition redrive_dead ::
  "time \<Rightarrow> string \<Rightarrow> nat \<Rightarrow> string option \<Rightarrow> (nat \<Rightarrow> bool) \<Rightarrow> 'a db_scheme \<Rightarrow> (nat \<times> nat list) \<times> 'a db_scheme" where
  "redrive_dead now actor limit sink event_matches d =
     (let ids = map dl_id (take limit (filter (\<lambda>r. dl_status r = DEAD
            \<and> (case sink of None \<Rightarrow> True | Some s \<Rightarrow> dl_sink r = s) \<and> event_matches (dl_event r)) (deliveries d)));
          (moved, d') = redrive_rows now actor ids d
      in ((moved, ids), d'))"

end
