(* ===== verification/Outbox_System.thy ===== *)
theory Outbox_System
  imports Outbox
begin

text \<open>
  Any number of dispatchers on one outbox. A dispatcher works through the deliveries it claimed
  one after the other; a claim, a hand-back and a recorded outcome are transactions, and between
  them, in particular while a sink is being called, everything else may happen: new events,
  claims of other dispatchers, redrives, crashes, a database that is down.

  Beside the code's state the system keeps the end of the lease with each claim, the deliveries
  whose message a sink has accepted, and how often each delivery was claimed after a lease ran
  out.
\<close>

section \<open>Rows\<close>

text \<open>Ids are the positions of the rows.\<close>

definition ids_ok :: "delivery list \<Rightarrow> bool" where
  "ids_ok ds \<longleftrightarrow> map dl_id ds = [0..<length ds]"

abbreviation row :: "nat \<Rightarrow> delivery list \<Rightarrow> delivery option" where
  "row i ds \<equiv> by_key dl_id i ds"

lemma ids_distinct: "ids_ok ds \<Longrightarrow> distinct (map dl_id ds)"
  by (metis ids_ok_def distinct_upt)

lemma row_iff: "ids_ok ds \<Longrightarrow> row i ds = Some r \<longleftrightarrow> r \<in> set ds \<and> dl_id r = i"
  using by_key_unique[OF ids_distinct] by blast

lemma row_id: "row i ds = Some r \<Longrightarrow> dl_id r = i"
  using by_key_Some[of dl_id i ds r] by simp

lemma ids_update: "(\<And>r. dl_id (f r) = dl_id r) \<Longrightarrow> ids_ok (update_where p f ds) = ids_ok ds"
  by (simp add: ids_ok_def keys_update)

text \<open>New rows go behind the others.\<close>

lemma ids_append: "ids_ok ds \<Longrightarrow> ids_ok (ds @ [r]) \<longleftrightarrow> dl_id r = length ds"
  by (auto simp: ids_ok_def)

lemma row_fresh: "ids_ok ds \<Longrightarrow> length ds \<le> i \<Longrightarrow> row i ds = None"
proof -
  assume "ids_ok ds" "length ds \<le> i"
  then have "i \<notin> set (map dl_id ds)" by (simp add: ids_ok_def)
  then show ?thesis by (simp add: by_key_None)
qed

lemma add_deliveries_rows:
  "ids_ok ds \<Longrightarrow> ids_ok (add_deliveries now ev sinks ds)
     \<and> (\<forall>i r. row i ds = Some r \<longrightarrow> row i (add_deliveries now ev sinks ds) = Some r)
     \<and> (\<forall>i r. row i (add_deliveries now ev sinks ds) = Some r \<longrightarrow> row i ds = Some r
          \<or> row i ds = None \<and> (\<exists>sink. r = new_delivery now i ev sink))"
proof (induction sinks arbitrary: ds)
  case (Cons s sinks)
  let ?n = "new_delivery now (length ds) ev s"
  have ok: "ids_ok (ds @ [?n])" using Cons.prems by (simp add: ids_append new_delivery_def)
  have old: "row i (ds @ [?n]) = (case row i ds of Some r \<Rightarrow> Some r | None \<Rightarrow> if length ds = i then Some ?n else None)" for i
    by (simp add: by_key_append by_key_single new_delivery_def split: option.split)
  note ih = Cons.IH[OF ok]
  note backwards = ih[THEN conjunct2, THEN conjunct2, rule_format]
  have "row i ds = Some r \<or> row i ds = None \<and> (\<exists>sink. r = new_delivery now i ev sink)"
    if "row i (add_deliveries now ev sinks (ds @ [?n])) = Some r" for i r
  proof -
    note backwards[OF that]
    then show ?thesis
    proof
      assume 1: "row i (ds @ [?n]) = Some r"
      show ?thesis
      proof (cases "row i ds")
        case None
        then have "length ds = i" "r = ?n" using 1 by (simp_all add: old split: if_splits)
        then show ?thesis using None by blast
      qed (use 1 in \<open>simp add: old\<close>)
    next
      assume "row i (ds @ [?n]) = None \<and> (\<exists>sink. r = new_delivery now i ev sink)"
      then show ?thesis by (simp add: old split: option.splits)
    qed
  qed
  moreover have "row i (add_deliveries now ev sinks (ds @ [?n])) = Some r" if "row i ds = Some r" for i r
    using ih that by (simp add: old)
  ultimately show ?case using ih by simp
qed simp

lemma claim_each_eq:
  "distinct is \<Longrightarrow> distinct (map dl_id ds) \<Longrightarrow> claim_each w now e is ds =
     (filter (\<lambda>i. \<exists>r. row i ds = Some r \<and> due now r) is,
      update_where (\<lambda>r. dl_id r \<in> set is \<and> due now r) (lease_to w e) ds)"
proof (induction "is" arbitrary: ds)
  case Nil
  then show ?case by (simp add: update_where_none)
next
  case (Cons i "is")
  let ?p = "\<lambda>r. dl_id r = i \<and> due now r"
  let ?ds = "update_where ?p (lease_to w e) ds"
  have keep: "\<And>r. dl_id (lease_to w e r) = dl_id r" by (simp add: lease_to_def)
  have d: "distinct (map dl_id ?ds)" using Cons.prems(2) by (simp add: keys_update keep)
  have one: "rowcount ?p ds = 1 \<longleftrightarrow> (\<exists>r. row i ds = Some r \<and> due now r)"
    using rowcount_key[OF Cons.prems(2), of ?p i] by (auto split: option.splits dest: row_id)
  have other: "row j ?ds = row j ds" if "j \<noteq> i" for j
    using that by (auto simp: by_key_update keep dest: row_id intro!: option.map_ident_strong split: option.splits)
  have "filter (\<lambda>j. \<exists>r. row j ?ds = Some r \<and> due now r) is = filter (\<lambda>j. \<exists>r. row j ds = Some r \<and> due now r) is"
  proof (rule filter_cong[OF refl])
    fix j assume "j \<in> set is"
    then have "j \<noteq> i" using Cons.prems(1) by auto
    then show "(\<exists>r. row j ?ds = Some r \<and> due now r) = (\<exists>r. row j ds = Some r \<and> due now r)" by (simp add: other)
  qed
  moreover have "update_where (\<lambda>r. dl_id r \<in> set is \<and> due now r) (lease_to w e) ?ds
      = update_where (\<lambda>r. dl_id r \<in> set (i # is) \<and> due now r) (lease_to w e) ds"
    using Cons.prems(1) by (auto simp: update_where_def keep)
  ultimately show ?case using Cons.IH[OF _ d] Cons.prems(1) one by (simp add: Let_def)
qed

lemma redrive_each_eq: "snd (redrive_each now is ds) = update_where (\<lambda>r. dl_id r \<in> set is \<and> dl_status r = DEAD) (redriven now) ds"
proof (induction "is" arbitrary: ds)
  case Nil
  then show ?case by (simp add: update_where_none)
next
  case (Cons i "is")
  then show ?case by (simp add: Let_def split_beta) (auto simp: update_where_def redriven_def)
qed

section \<open>The system\<close>

record osys =
  os_now :: time
  os_mclock :: time
  os_db :: db
  os_disp :: "string \<Rightarrow> dispatcher"
  os_claimed :: "string \<Rightarrow> (nat \<times> time) list"
  os_flight :: "string \<Rightarrow> (string \<times> int) option"
  os_accepted :: "nat list"
  os_lost :: "nat \<Rightarrow> nat"

abbreviation os_rows :: "osys \<Rightarrow> delivery list" where "os_rows s \<equiv> deliveries (os_db s)"

definition new_dispatcher :: "string \<Rightarrow> string list \<Rightarrow> dispatcher" where
  "new_dispatcher w sinks = \<lparr>dp_id = w, dp_sinks = sinks, dp_breaker = (\<lambda>_. new_sink_circuit)\<rparr>"

definition claim_step :: "notif_settings \<Rightarrow> string \<Rightarrow> osys \<Rightarrow> osys" where
  "claim_step ns w s =
     (let (ids, d) = claim_due ns (os_now s) (os_mclock s) (os_disp s w) (os_db s)
      in s\<lparr>os_db := d, os_claimed := (os_claimed s)(w := map (\<lambda>i. (i, os_now s + ns_lease_s ns)) ids),
           os_lost := (\<lambda>i. os_lost s i + (if i \<in> set ids
             \<and> (case row i (os_rows s) of None \<Rightarrow> False | Some r \<Rightarrow> dl_leased_by r \<noteq> None) then 1 else 0))\<rparr>)"

definition dropped :: "string \<Rightarrow> osys \<Rightarrow> osys" where
  "dropped w s = s\<lparr>os_claimed := (os_claimed s)(w := []), os_flight := (os_flight s)(w := None)\<rparr>"

inductive outbox_step :: "notif_settings \<Rightarrow> settings \<Rightarrow> osys \<Rightarrow> osys \<Rightarrow> bool" for ns st where
  time_passes: "os_now s \<le> t \<Longrightarrow> os_mclock s \<le> m \<Longrightarrow> outbox_step ns st s (s\<lparr>os_now := t, os_mclock := m\<rparr>)"
| event_staged: "outbox_step ns st s (s\<lparr>os_db := record_event (os_now s) st ty subject model (os_db s)\<rparr>)"
| polled: "os_claimed s w = [] \<Longrightarrow> outbox_step ns st s (claim_step ns w s)"
| handed_back: "os_claimed s w = (i, e) # rest \<Longrightarrow> os_flight s w = None \<Longrightarrow>
    start_delivery ns (os_now s) (os_mclock s) (os_disp s w) i (os_db s) = Some (Inl d) \<Longrightarrow>
    outbox_step ns st s (s\<lparr>os_db := d, os_claimed := (os_claimed s)(w := rest)\<rparr>)"
| sending: "os_claimed s w = (i, e) # rest \<Longrightarrow> os_flight s w = None \<Longrightarrow>
    start_delivery ns (os_now s) (os_mclock s) (os_disp s w) i (os_db s) = Some (Inr (dp, sink, attempt)) \<Longrightarrow>
    outbox_step ns st s (s\<lparr>os_disp := (os_disp s)(w := dp), os_flight := (os_flight s)(w := Some (sink, attempt))\<rparr>)"
| answered: "os_claimed s w = (i, e) # rest \<Longrightarrow> os_flight s w = Some (sink, attempt) \<Longrightarrow> 0 \<le> rnd \<Longrightarrow> rnd \<le> 1 \<Longrightarrow>
    outbox_step ns st s (s\<lparr>os_db := record_reply ns (os_now s) rnd w i attempt reply (os_db s),
      os_disp := (os_disp s)(w := told ns (os_mclock s) sink reply (os_disp s w)),
      os_claimed := (os_claimed s)(w := rest), os_flight := (os_flight s)(w := None),
      os_accepted := (if reply = Accepted then i # os_accepted s else os_accepted s)\<rparr>)"
| not_recorded: "os_flight s w = Some (sink, attempt) \<Longrightarrow>
    outbox_step ns st s (dropped w (s\<lparr>os_disp := (os_disp s)(w := told ns (os_mclock s) sink reply (os_disp s w))\<rparr>))"
| poll_failed: "os_flight s w = None \<Longrightarrow> outbox_step ns st s (dropped w s)"
| died: "outbox_step ns st s (dropped w (s\<lparr>os_disp := (os_disp s)(w := new_dispatcher w (dp_sinks (os_disp s w)))\<rparr>))"
| redriving: "outbox_step ns st s (s\<lparr>os_db := snd (redrive_rows (os_now s) actor ids (os_db s))\<rparr>)"

definition outbox_start :: "(string \<Rightarrow> string list) \<Rightarrow> osys" where
  "outbox_start sinks = \<lparr>os_now = 0, os_mclock = 0,
     os_db = \<lparr>metas = [], locks = [], notif_events = [], deliveries = [], audits = []\<rparr>,
     os_disp = (\<lambda>w. new_dispatcher w (sinks w)), os_claimed = (\<lambda>_. []), os_flight = (\<lambda>_. None),
     os_accepted = [], os_lost = (\<lambda>_. 0)\<rparr>"

inductive outbox_run :: "notif_settings \<Rightarrow> settings \<Rightarrow> (string \<Rightarrow> string list) \<Rightarrow> osys \<Rightarrow> bool" for ns st sinks where
  outbox_empty: "outbox_run ns st sinks (outbox_start sinks)"
| outbox_next: "outbox_run ns st sinks s \<Longrightarrow> outbox_step ns st s s' \<Longrightarrow> outbox_run ns st sinks s'"

section \<open>What holds of every row\<close>

text \<open>How long a row that waits can be put off: a lease, a circuit's reset or the longest backoff.\<close>

definition horizon :: "notif_settings \<Rightarrow> time" where
  "horizon ns = max (ns_lease_s ns) (max (ns_breaker_reset_s ns) (ns_backoff_max_s ns * (1 + ns_backoff_jitter ns)))"

definition row_ok :: "notif_settings \<Rightarrow> time \<Rightarrow> nat list \<Rightarrow> (nat \<Rightarrow> nat) \<Rightarrow> delivery \<Rightarrow> bool" where
  "row_ok ns now accepted lost r \<longleftrightarrow>
     (dl_leased_by r = None \<longleftrightarrow> dl_lease_until r = None)
     \<and> (dl_leased_by r \<noteq> None \<longrightarrow> dl_status r = PENDING \<and> dl_lease_until r = Some (dl_next_attempt r) \<and> 1 \<le> dl_attempts r)
     \<and> (dl_status r = DELIVERED \<longrightarrow> dl_id r \<in> set accepted)
     \<and> (dl_status r = PENDING \<longrightarrow> dl_next_attempt r \<le> now + horizon ns)
     \<and> 0 \<le> dl_attempts r
     \<and> dl_attempts r + (if dl_status r = PENDING \<and> dl_leased_by r = None then 1 else 0)
         \<le> ns_max_attempts ns + int (lost (dl_id r))"

lemma backoff_bounds:
  assumes "notif_settings_ok ns" "0 \<le> rnd" "rnd \<le> 1"
  shows "0 \<le> backoff_s ns rnd n \<and> backoff_s ns rnd n \<le> horizon ns"
proof -
  let ?b = "min (ns_backoff_max_s ns) (ns_backoff_initial_s ns * 2 ^ nat (max (n - 1) 0))"
  let ?j = "ns_backoff_jitter ns * (2 * rnd - 1)"
  have j: "0 \<le> ns_backoff_jitter ns" "0 < ns_backoff_max_s ns" "0 < ns_backoff_initial_s ns" "0 < ns_lease_s ns"
    using assms(1) by (simp_all add: notif_settings_ok_def)
  have b: "0 \<le> ?b" "?b \<le> ns_backoff_max_s ns" using j by simp_all
  have "?j \<le> ns_backoff_jitter ns * 1" by (rule mult_left_mono) (use j assms in simp_all)
  then have "?b * (1 + ?j) \<le> ?b * (1 + ns_backoff_jitter ns)" using b by (intro mult_left_mono) simp_all
  also have "\<dots> \<le> ns_backoff_max_s ns * (1 + ns_backoff_jitter ns)" using b j by (intro mult_right_mono) simp_all
  finally have "?b * (1 + ?j) \<le> horizon ns" by (simp add: horizon_def)
  moreover have "0 \<le> horizon ns" using j by (simp add: horizon_def)
  ultimately show ?thesis by (simp add: backoff_s_def Let_def)
qed

lemma horizon_lease: "ns_lease_s ns \<le> horizon ns" "ns_breaker_reset_s ns \<le> horizon ns"
  by (simp_all add: horizon_def)

lemma horizon_pos: "notif_settings_ok ns \<Longrightarrow> 0 < horizon ns"
  using horizon_lease(1)[of ns] by (simp add: notif_settings_ok_def)

text \<open>Each of the changes a row goes through.\<close>

lemma row_ok_later:
  "row_ok ns now acc lost r \<Longrightarrow> now \<le> now' \<Longrightarrow> set acc \<subseteq> set acc' \<Longrightarrow> lost (dl_id r) \<le> lost' (dl_id r) \<Longrightarrow> row_ok ns now' acc' lost' r"
  by (auto simp: row_ok_def)

lemma row_ok_new: "notif_settings_ok ns \<Longrightarrow> row_ok ns now acc lost (new_delivery now i ev sink)"
  using horizon_pos[of ns] by (simp add: row_ok_def new_delivery_def notif_settings_ok_def)

lemma row_ok_leased:
  assumes "row_ok ns now acc lost r" "due now r" "lost' (dl_id r) = lost (dl_id r) + (if dl_leased_by r \<noteq> None then 1 else 0)"
  shows "row_ok ns now acc lost' (lease_to w (now + ns_lease_s ns) r)"
  using assms horizon_lease(1)[of ns] by (auto simp: row_ok_def lease_to_def due_def split: if_splits)

lemma row_ok_handed_back:
  assumes "row_ok ns now acc lost r" "dl_leased_by r = Some w" "again \<le> now + horizon ns"
  shows "row_ok ns now acc lost (r\<lparr>dl_next_attempt := again, dl_lease_until := None, dl_leased_by := None,
     dl_attempts := dl_attempts r - 1\<rparr>)"
  using assms by (auto simp: row_ok_def)

lemma row_ok_redriven: "notif_settings_ok ns \<Longrightarrow> row_ok ns now acc lost r \<Longrightarrow> row_ok ns now acc lost (redriven now r)"
  using horizon_pos[of ns] by (auto simp: row_ok_def redriven_def notif_settings_ok_def)

text \<open>The outcome an answer records.\<close>

definition outcome_row :: "notif_settings \<Rightarrow> time \<Rightarrow> rat \<Rightarrow> int \<Rightarrow> sink_reply \<Rightarrow> delivery \<Rightarrow> delivery" where
  "outcome_row ns now rnd attempt reply r0 = (let r = r0\<lparr>dl_lease_until := None, dl_leased_by := None\<rparr> in
     case reply of
       Accepted \<Rightarrow> r\<lparr>dl_status := DELIVERED, dl_delivered_at := Some now\<rparr>
     | Refused retryable \<Rightarrow>
         if retryable \<and> \<not> ns_max_attempts ns \<le> attempt
         then r\<lparr>dl_next_attempt := now + backoff_s ns rnd attempt\<rparr>
         else r\<lparr>dl_status := DEAD, dl_dead_at := Some now\<rparr>)"

lemma record_reply_rows:
  "deliveries (record_reply ns now rnd w i attempt reply d) =
     update_where (\<lambda>r. dl_id r = i \<and> dl_leased_by r = Some w \<and> dl_status r = PENDING)
       (outcome_row ns now rnd attempt reply) (deliveries d)"
  by (cases reply) (auto simp: record_reply_def finish_def outcome_row_def Let_def update_where_def)

lemma outcome_row_id [simp]: "dl_id (outcome_row ns now rnd attempt reply r) = dl_id r"
    "dl_leased_by (outcome_row ns now rnd attempt reply r) = None"
  by (auto simp: outcome_row_def Let_def split: sink_reply.split)

lemma row_ok_outcome:
  assumes "notif_settings_ok ns" "0 \<le> rnd" "rnd \<le> 1" "row_ok ns now acc lost r" "dl_status r = PENDING"
    "dl_leased_by r = Some w" "dl_attempts r = attempt" "reply = Accepted \<Longrightarrow> dl_id r \<in> set acc'" "set acc \<subseteq> set acc'"
  shows "row_ok ns now acc' lost (outcome_row ns now rnd attempt reply r)"
  using assms backoff_bounds[OF assms(1-3), of attempt]
  by (cases reply) (auto simp: row_ok_def outcome_row_def Let_def)

section \<open>What holds of every dispatcher\<close>

definition claims_ok :: "osys \<Rightarrow> string \<Rightarrow> bool" where
  "claims_ok s w \<longleftrightarrow> dp_id (os_disp s w) = w \<and> distinct (map fst (os_claimed s w))
     \<and> (\<forall>i e. (i, e) \<in> set (os_claimed s w) \<and> os_now s < e \<longrightarrow>
          (\<exists>r. row i (os_rows s) = Some r \<and> dl_leased_by r = Some w \<and> dl_lease_until r = Some e))
     \<and> (\<forall>sink attempt. os_flight s w = Some (sink, attempt) \<longrightarrow>
          (\<exists>i e rest r. os_claimed s w = (i, e) # rest \<and> row i (os_rows s) = Some r
             \<and> (dl_leased_by r = Some w \<longrightarrow> dl_attempts r = attempt)))"

lemma claims_held:
  "claims_ok s w \<Longrightarrow> (i, e) \<in> set (os_claimed s w) \<Longrightarrow> os_now s < e \<Longrightarrow>
     \<exists>r. row i (os_rows s) = Some r \<and> dl_leased_by r = Some w \<and> dl_lease_until r = Some e"
  unfolding claims_ok_def by simp

definition circuits_ok :: "osys \<Rightarrow> string \<Rightarrow> bool" where
  "circuits_ok s w \<longleftrightarrow> (\<forall>k t. sc_opened_at (dp_breaker (os_disp s w) k) = Some t \<longrightarrow> t \<le> os_mclock s)"

definition outbox_ok :: "notif_settings \<Rightarrow> osys \<Rightarrow> bool" where
  "outbox_ok ns s \<longleftrightarrow> ids_ok (os_rows s)
     \<and> (\<forall>i r. row i (os_rows s) = Some r \<longrightarrow> row_ok ns (os_now s) (os_accepted s) (os_lost s) r)
     \<and> (\<forall>w. claims_ok s w) \<and> (\<forall>w. circuits_ok s w)"

text \<open>A change of the table spares \<open>w\<close> when it leaves alone the rows \<open>w\<close> holds a lease on that
  still runs, and gives \<open>w\<close> no lease.\<close>

definition spares :: "time \<Rightarrow> string \<Rightarrow> delivery list \<Rightarrow> delivery list \<Rightarrow> bool" where
  "spares now w ds ds' \<longleftrightarrow> (\<forall>i r. row i ds = Some r \<longrightarrow> (\<exists>r'. row i ds' = Some r'
     \<and> (dl_leased_by r' = Some w \<longrightarrow> r' = r) \<and> (dl_leased_by r = Some w \<and> \<not> due now r \<longrightarrow> r' = r)))"

lemma claims_spared:
  assumes ok: "outbox_ok ns s" and spares: "spares (os_now s) w (os_rows s) (os_rows s')"
    and same: "dp_id (os_disp s' w) = w" "os_claimed s' w = os_claimed s w" "os_flight s' w = os_flight s w" "os_now s' = os_now s"
  shows "claims_ok s' w"
proof -
  have c: "claims_ok s w" using ok by (simp add: outbox_ok_def)
  have "\<exists>r. row i (os_rows s') = Some r \<and> dl_leased_by r = Some w \<and> dl_lease_until r = Some e"
    if claim: "(i, e) \<in> set (os_claimed s w)" "os_now s < e" for i e
  proof -
    obtain r where r: "row i (os_rows s) = Some r" "dl_leased_by r = Some w" "dl_lease_until r = Some e"
      using c claim unfolding claims_ok_def by blast
    have "row_ok ns (os_now s) (os_accepted s) (os_lost s) r" using ok r(1) unfolding outbox_ok_def by blast
    then have "\<not> due (os_now s) r" using r claim by (auto simp: row_ok_def due_def)
    then show ?thesis using spares r unfolding spares_def by blast
  qed
  moreover have "\<exists>i e rest r. os_claimed s w = (i, e) # rest \<and> row i (os_rows s') = Some r
      \<and> (dl_leased_by r = Some w \<longrightarrow> dl_attempts r = attempt)" if flight: "os_flight s w = Some (sink, attempt)" for sink attempt
  proof -
    obtain i e rest r where r: "os_claimed s w = (i, e) # rest" "row i (os_rows s) = Some r" "dl_leased_by r = Some w \<longrightarrow> dl_attempts r = attempt"
      using c flight unfolding claims_ok_def by blast
    obtain r' where "row i (os_rows s') = Some r'" "dl_leased_by r' = Some w \<longrightarrow> r' = r" using spares r(2) unfolding spares_def by blast
    then show ?thesis using r by blast
  qed
  ultimately show ?thesis using c by (simp add: claims_ok_def same)
qed

lemma spares_update:
  assumes id: "\<And>r. dl_id (f r) = dl_id r"
    and p: "\<And>i r. row i ds = Some r \<Longrightarrow> p r \<Longrightarrow> dl_leased_by (f r) \<noteq> Some w \<and> (dl_leased_by r = Some w \<longrightarrow> due now r)"
  shows "spares now w ds (update_where p f ds)"
  unfolding spares_def
proof (intro allI impI)
  fix i r assume r: "row i ds = Some r"
  have new: "row i (update_where p f ds) = Some (if p r then f r else r)" by (simp add: by_key_update id r)
  show "\<exists>r'. row i (update_where p f ds) = Some r' \<and> (dl_leased_by r' = Some w \<longrightarrow> r' = r)
      \<and> (dl_leased_by r = Some w \<and> \<not> due now r \<longrightarrow> r' = r)"
    by (rule exI[of _ "if p r then f r else r"]) (use new p[OF r] in auto)
qed

section \<open>Every step keeps it\<close>

lemma due_candidates_distinct: "ids_ok ds \<Longrightarrow> distinct (due_candidates batch now usable ds)"
proof -
  assume "ids_ok ds"
  then have "distinct (map dl_id (filter P ds))" for P using ids_distinct by (blast intro: distinct_map_filter)
  then have "distinct (map dl_id (sort_key dl_next_attempt (filter P ds)))" for P by (simp add: distinct_map)
  then show ?thesis unfolding due_candidates_def by (simp add: take_map[symmetric])
qed

text \<open>What a poll does to the table, and which claims it makes.\<close>

lemma claim_due_eq:
  assumes ids: "ids_ok (deliveries d)"
  obtains ids where "claim_due ns now m dp d =
      (ids, d\<lparr>deliveries := update_where (\<lambda>r. dl_id r \<in> set ids \<and> due now r) (lease_to (dp_id dp) (now + ns_lease_s ns)) (deliveries d)\<rparr>)"
    and "distinct ids" and "\<forall>i\<in>set ids. \<exists>r. row i (deliveries d) = Some r \<and> due now r"
proof -
  let ?usable = "filter (\<lambda>s. \<not> is_open (ns_breaker_reset_s ns) m (dp_breaker dp s)) (dp_sinks dp)"
  let ?cand = "due_candidates (ns_batch ns) now ?usable (deliveries d)"
  let ?ids = "filter (\<lambda>i. \<exists>r. row i (deliveries d) = Some r \<and> due now r) ?cand"
  have "distinct ?cand" by (rule due_candidates_distinct[OF ids])
  note eq = claim_each_eq[OF this ids_distinct[OF ids], of "dp_id dp" now "now + ns_lease_s ns"]
  have all: "update_where (\<lambda>r. dl_id r \<in> set ?cand \<and> due now r) f (deliveries d)
      = update_where (\<lambda>r. dl_id r \<in> set ?ids \<and> due now r) f (deliveries d)" for f
    using row_iff[OF ids] by (auto simp: update_where_def)
  show thesis
  proof (cases "?usable = []")
    case True
    show ?thesis by (rule that[of "[]"]) (use True in \<open>simp_all add: claim_due_def update_where_none\<close>)
  next
    case False
    show ?thesis by (rule that[of ?ids]) (use False eq \<open>distinct ?cand\<close> in \<open>auto simp: claim_due_def Let_def all\<close>)
  qed
qed

lemma ok_rowsI:
  assumes "ids_ok (os_rows s')"
    "\<And>i r. row i (os_rows s') = Some r \<Longrightarrow> row_ok ns (os_now s') (os_accepted s') (os_lost s') r"
    "\<And>w. claims_ok s' w" "\<And>w. circuits_ok s' w"
  shows "outbox_ok ns s'"
  using assms by (simp add: outbox_ok_def)

lemma updated_row:
  "(\<And>r. dl_id (f r) = dl_id r) \<Longrightarrow> row i (update_where p f ds) = Some r' \<Longrightarrow>
     \<exists>r. row i ds = Some r \<and> r' = (if p r then f r else r)"
  by (auto simp: by_key_update)

lemma polled_ok:
  assumes ns: "notif_settings_ok ns" and ok: "outbox_ok ns s" and free: "os_claimed s w = []"
  shows "outbox_ok ns (claim_step ns w s)"
proof -
  have c: "claims_ok s w" and ids: "ids_ok (os_rows s)" using ok by (simp_all add: outbox_ok_def)
  then have w: "dp_id (os_disp s w) = w" by (simp add: claims_ok_def)
  have nof: "os_flight s w = None"
    by (cases "os_flight s w") (use c free in \<open>auto simp: claims_ok_def\<close>)
  let ?lease = "lease_to w (os_now s + ns_lease_s ns)"
  obtain cl where claim0: "claim_due ns (os_now s) (os_mclock s) (os_disp s w) (os_db s) =
        (cl, (os_db s)\<lparr>deliveries := update_where (\<lambda>r. dl_id r \<in> set cl \<and> due (os_now s) r)
          (lease_to (dp_id (os_disp s w)) (os_now s + ns_lease_s ns)) (os_rows s)\<rparr>)"
      and claim23: "distinct cl" "\<forall>i\<in>set cl. \<exists>r. row i (os_rows s) = Some r \<and> due (os_now s) r"
    by (rule claim_due_eq[OF ids, of ns "os_now s" "os_mclock s" "os_disp s w"])
  note claim = claim0[unfolded w] claim23
  let ?p = "\<lambda>r. dl_id r \<in> set cl \<and> due (os_now s) r"
  have keep: "\<And>r. dl_id (?lease r) = dl_id r" by (simp add: lease_to_def)
  let ?s = "claim_step ns w s"
  have rows: "os_rows ?s = update_where ?p ?lease (os_rows s)"
    and mem: "os_claimed ?s = (os_claimed s)(w := map (\<lambda>i. (i, os_now s + ns_lease_s ns)) cl)"
    and lost: "os_lost ?s = (\<lambda>i. os_lost s i + (if i \<in> set cl \<and> (case row i (os_rows s) of None \<Rightarrow> False | Some r \<Rightarrow> dl_leased_by r \<noteq> None) then 1 else 0))"
    and same: "os_disp ?s = os_disp s" "os_flight ?s = os_flight s" "os_now ?s = os_now s" "os_accepted ?s = os_accepted s" "os_mclock ?s = os_mclock s"
    by (simp_all add: claim_step_def claim(1))
  show ?thesis
  proof (rule ok_rowsI)
    show "ids_ok (os_rows ?s)" using ids by (simp add: rows ids_update keep)
    fix i r' assume "row i (os_rows ?s) = Some r'"
    then obtain r where r: "row i (os_rows s) = Some r" "r' = (if ?p r then ?lease r else r)" using updated_row[OF keep] unfolding rows by blast
    have base: "row_ok ns (os_now s) (os_accepted s) (os_lost s) r" using ok r(1) by (simp add: outbox_ok_def)
    show "row_ok ns (os_now ?s) (os_accepted ?s) (os_lost ?s) r'"
    proof (cases "?p r")
      case True
      then show ?thesis using row_ok_leased[OF base, of "os_lost ?s" w] r row_id[OF r(1)] by (simp add: same lost)
    next
      case False
      have "row_ok ns (os_now ?s) (os_accepted ?s) (os_lost ?s) r"
        unfolding same by (rule row_ok_later[OF base order.refl subset_refl]) (simp add: lost)
      then show ?thesis using r(2) False by simp
    qed
  next
    fix v
    show "claims_ok ?s v"
    proof (cases "v = w")
      case False
      have "spares (os_now s) v (os_rows s) (os_rows ?s)"
        unfolding rows by (rule spares_update) (use False in \<open>auto simp: lease_to_def\<close>)
      moreover have "dp_id (os_disp ?s v) = v" using ok by (simp add: same outbox_ok_def claims_ok_def)
      ultimately show ?thesis using claims_spared[OF ok, of v ?s] False by (simp add: same mem)
    next
      case True
      have "\<exists>r. row i (os_rows ?s) = Some r \<and> dl_leased_by r = Some w \<and> dl_lease_until r = Some e"
        if "(i, e) \<in> set (os_claimed ?s w)" for i e
      proof -
        have i: "i \<in> set cl" "e = os_now s + ns_lease_s ns" using that by (auto simp: mem)
        then obtain r where "row i (os_rows s) = Some r" "due (os_now s) r" using claim(3) by blast
        then show ?thesis using i row_id[of i "os_rows s" r] by (simp add: rows by_key_update keep lease_to_def)
      qed
      moreover have "distinct (map fst (os_claimed ?s w))" using claim(2) by (simp add: mem comp_def)
      ultimately show ?thesis unfolding True claims_ok_def by (auto simp: same w nof)
    qed
    show "circuits_ok ?s v" using ok by (simp add: outbox_ok_def circuits_ok_def same)
  qed
qed

text \<open>A dispatcher that is done with its first claim: only that row may have changed.\<close>

lemma claims_tail:
  assumes ok: "claims_ok s w" and c: "os_claimed s w = (i, e) # rest"
    and others: "\<And>j. j \<noteq> i \<Longrightarrow> row j (os_rows s') = row j (os_rows s)"
    and same: "dp_id (os_disp s' w) = w" "os_claimed s' w = rest" "os_flight s' w = None" "os_now s' = os_now s"
  shows "claims_ok s' w"
proof -
  have d: "distinct (map fst ((i, e) # rest))" using ok c by (simp add: claims_ok_def)
  have "row j (os_rows s') = row j (os_rows s)" if "(j, f) \<in> set rest" for j f
    using d that by (intro others) force
  then show ?thesis using ok c d by (auto simp: claims_ok_def same)
qed

lemma row_other: "(\<And>r. dl_id (f r) = dl_id r) \<Longrightarrow> (\<And>r. dl_id r = j \<Longrightarrow> \<not> p r) \<Longrightarrow> row j (update_where p f ds) = row j ds"
  by (auto simp: by_key_update dest: row_id intro!: option.map_ident_strong split: option.splits)

lemma circuit_keeps_time:
  "(\<And>t. sc_opened_at c = Some t \<Longrightarrow> t \<le> m) \<Longrightarrow> allow r m c = Some c' \<Longrightarrow> sc_opened_at c' = Some t \<Longrightarrow> t \<le> m"
  "(\<And>t. sc_opened_at c = Some t \<Longrightarrow> t \<le> m) \<Longrightarrow> sc_opened_at (sink_failure k m c) = Some t \<Longrightarrow> t \<le> m"
  "sc_opened_at (sink_success c) = None"
  by (auto simp: allow_def sink_failure_def Let_def sink_success_def new_sink_circuit_def split: option.splits if_splits)

lemma told_circuits: "circuits_ok s w \<Longrightarrow> sc_opened_at (dp_breaker (told ns (os_mclock s) sink reply (os_disp s w)) k) = Some t \<Longrightarrow> t \<le> os_mclock s"
  using circuit_keeps_time(2)[of "dp_breaker (os_disp s w) k" "os_mclock s"] circuit_keeps_time(3)
  by (auto simp: circuits_ok_def told_def split: if_splits sink_reply.splits)

lemma told_id [simp]: "dp_id (told ns m sink reply dp) = dp_id dp"
  by (simp add: told_def)

text \<open>Losing the claims in memory, for whatever reason, keeps everything.\<close>

lemma dropped_ok:
  assumes ok: "outbox_ok ns s" and d: "\<And>v. v \<noteq> w \<Longrightarrow> disp v = os_disp s v" "dp_id (disp w) = w"
    and c: "\<And>k t. sc_opened_at (dp_breaker (disp w) k) = Some t \<Longrightarrow> t \<le> os_mclock s"
  shows "outbox_ok ns (dropped w (s\<lparr>os_disp := disp\<rparr>))"
proof (rule ok_rowsI)
  fix v
  show "claims_ok (dropped w (s\<lparr>os_disp := disp\<rparr>)) v"
    by (cases "v = w") (use ok d in \<open>auto simp: dropped_def outbox_ok_def claims_ok_def\<close>)
  show "circuits_ok (dropped w (s\<lparr>os_disp := disp\<rparr>)) v"
    by (cases "v = w") (use ok d c in \<open>auto simp: dropped_def outbox_ok_def circuits_ok_def\<close>)
qed (use ok in \<open>auto simp: dropped_def outbox_ok_def\<close>)

lemma time_ok: "outbox_ok ns s \<Longrightarrow> os_now s \<le> t \<Longrightarrow> os_mclock s \<le> m \<Longrightarrow> outbox_ok ns (s\<lparr>os_now := t, os_mclock := m\<rparr>)"
proof (rule ok_rowsI)
  assume ok: "outbox_ok ns s" and le: "os_now s \<le> t" "os_mclock s \<le> m"
  show "ids_ok (os_rows (s\<lparr>os_now := t, os_mclock := m\<rparr>))" using ok by (simp add: outbox_ok_def)
  show "row_ok ns (os_now (s\<lparr>os_now := t, os_mclock := m\<rparr>)) (os_accepted (s\<lparr>os_now := t, os_mclock := m\<rparr>)) (os_lost (s\<lparr>os_now := t, os_mclock := m\<rparr>)) r"
    if "row i (os_rows (s\<lparr>os_now := t, os_mclock := m\<rparr>)) = Some r" for i r
    using ok le that row_ok_later[of ns "os_now s" "os_accepted s" "os_lost s" r t] by (simp add: outbox_ok_def)
  fix v
  have "claims_ok s v" using ok by (simp add: outbox_ok_def)
  moreover have "os_now s < e" if "t < e" for e using le that by simp
  ultimately show "claims_ok (s\<lparr>os_now := t, os_mclock := m\<rparr>) v" by (fastforce simp: claims_ok_def)
  show "circuits_ok (s\<lparr>os_now := t, os_mclock := m\<rparr>) v" using ok le by (fastforce simp: outbox_ok_def circuits_ok_def)
qed

text \<open>A step that only changes the table, in a way that spares everyone.\<close>

lemma table_ok:
  assumes ok: "outbox_ok ns s" and ids: "ids_ok (deliveries d)"
    and rows: "\<And>i r. row i (deliveries d) = Some r \<Longrightarrow> row_ok ns (os_now s) (os_accepted s) (os_lost s) r"
    and spares: "\<And>w. spares (os_now s) w (os_rows s) (deliveries d)"
  shows "outbox_ok ns (s\<lparr>os_db := d\<rparr>)"
proof (rule ok_rowsI)
  fix v
  have "dp_id (os_disp s v) = v" using ok by (simp add: outbox_ok_def claims_ok_def)
  then show "claims_ok (s\<lparr>os_db := d\<rparr>) v" using claims_spared[OF ok, of v "s\<lparr>os_db := d\<rparr>"] spares by simp
  show "circuits_ok (s\<lparr>os_db := d\<rparr>) v" using ok by (simp add: outbox_ok_def circuits_ok_def)
qed (use ids rows in auto)

lemma staged_ok:
  assumes ns: "notif_settings_ok ns" and ok: "outbox_ok ns s"
  shows "outbox_ok ns (s\<lparr>os_db := record_event (os_now s) st ty subject model (os_db s)\<rparr>)"
proof -
  let ?ds = "add_deliveries (os_now s) (length (notif_events (os_db s))) (sinks_for st ty) (os_rows s)"
  have "ids_ok (os_rows s)" using ok by (simp add: outbox_ok_def)
  note new = add_deliveries_rows[OF this, of "os_now s" "length (notif_events (os_db s))" "sinks_for st ty"]
  show ?thesis
  proof (rule table_ok[OF ok])
    show "ids_ok (deliveries (record_event (os_now s) st ty subject model (os_db s)))" using new by (simp add: record_event_def)
    fix i r assume "row i (deliveries (record_event (os_now s) st ty subject model (os_db s))) = Some r"
    then have "row i (os_rows s) = Some r \<or> row i (os_rows s) = None \<and> (\<exists>sink. r = new_delivery (os_now s) i (length (notif_events (os_db s))) sink)"
      using new by (simp add: record_event_def)
    then show "row_ok ns (os_now s) (os_accepted s) (os_lost s) r" using ok row_ok_new[OF ns] by (auto simp: outbox_ok_def)
  next
    show "spares (os_now s) w (os_rows s) (deliveries (record_event (os_now s) st ty subject model (os_db s)))" for w
      using new unfolding spares_def by (simp add: record_event_def)
  qed
qed

lemma redriven_ok:
  assumes ns: "notif_settings_ok ns" and ok: "outbox_ok ns s"
  shows "outbox_ok ns (s\<lparr>os_db := snd (redrive_rows (os_now s) actor ids (os_db s))\<rparr>)"
proof -
  let ?p = "\<lambda>r. dl_id r \<in> set ids \<and> dl_status r = DEAD"
  have keep: "\<And>r. dl_id (redriven (os_now s) r) = dl_id r" by (simp add: redriven_def)
  have rows: "deliveries (snd (redrive_rows (os_now s) actor ids (os_db s))) = update_where ?p (redriven (os_now s)) (os_rows s)"
    by (simp add: redrive_rows_def Let_def split_beta redrive_each_eq)
  have base: "row_ok ns (os_now s) (os_accepted s) (os_lost s) r" if "row i (os_rows s) = Some r" for i r
    using ok that by (simp add: outbox_ok_def)
  show ?thesis
  proof (rule table_ok[OF ok])
    show "ids_ok (deliveries (snd (redrive_rows (os_now s) actor ids (os_db s))))"
      using ok by (simp add: rows ids_update keep outbox_ok_def)
    fix i r' assume "row i (deliveries (snd (redrive_rows (os_now s) actor ids (os_db s)))) = Some r'"
    then obtain r where "row i (os_rows s) = Some r" "r' = (if ?p r then redriven (os_now s) r else r)"
      using updated_row[OF keep] unfolding rows by blast
    then show "row_ok ns (os_now s) (os_accepted s) (os_lost s) r'" using base row_ok_redriven[OF ns] by simp
  next
    show "spares (os_now s) w (os_rows s) (deliveries (snd (redrive_rows (os_now s) actor ids (os_db s))))" for w
      unfolding rows by (rule spares_update) (use base keep in \<open>auto simp: row_ok_def redriven_def\<close>)
  qed
qed

text \<open>The steps of one delivery.\<close>

lemma row_steps:
  assumes ok: "outbox_ok ns s" and c: "os_claimed s w = (i, e) # rest"
    and id: "\<And>r. dl_id (f r) = dl_id r" "\<And>r. p r \<Longrightarrow> dl_id r = i \<and> dl_leased_by r = Some w" "\<And>r. dl_leased_by (f r) = None"
    and rows: "os_rows s' = update_where p f (os_rows s)"
    and new: "\<And>r. row i (os_rows s) = Some r \<Longrightarrow> p r \<Longrightarrow> row_ok ns (os_now s) (os_accepted s') (os_lost s) (f r)"
    and same: "os_claimed s' = (os_claimed s)(w := rest)" "os_flight s' = (os_flight s)(w := None)" "os_now s' = os_now s"
      "os_lost s' = os_lost s" "set (os_accepted s) \<subseteq> set (os_accepted s')" "\<And>v. dp_id (os_disp s' v) = v" "\<And>v. circuits_ok s' v"
  shows "outbox_ok ns s'"
proof (rule ok_rowsI)
  show "ids_ok (os_rows s')" using ok by (simp add: rows ids_update id outbox_ok_def)
  fix j r' assume "row j (os_rows s') = Some r'"
  then obtain r where r: "row j (os_rows s) = Some r" "r' = (if p r then f r else r)" using updated_row[OF id(1)] unfolding rows by blast
  have base: "row_ok ns (os_now s) (os_accepted s) (os_lost s) r" using ok r(1) by (simp add: outbox_ok_def)
  show "row_ok ns (os_now s') (os_accepted s') (os_lost s') r'"
  proof (cases "p r")
    case True
    then have "j = i" using id(2) row_id[OF r(1)] by simp
    then show ?thesis using new r True by (simp add: same)
  next
    case False
    have "row_ok ns (os_now s') (os_accepted s') (os_lost s') r"
      unfolding same(3,4) by (rule row_ok_later[OF base]) (simp_all add: same(5))
    then show ?thesis using r False by simp
  qed
next
  fix v
  show "claims_ok s' v"
  proof (cases "v = w")
    case True
    have "claims_ok s w" using ok by (simp add: outbox_ok_def)
    moreover have "row j (os_rows s') = row j (os_rows s)" if "j \<noteq> i" for j
      unfolding rows by (rule row_other) (use id that in auto)
    ultimately show ?thesis unfolding True by (rule claims_tail[OF _ c]) (simp_all add: same)
  next
    case False
    have "spares (os_now s) v (os_rows s) (os_rows s')"
      unfolding rows by (rule spares_update[OF id(1)]) (use id False in auto)
    then show ?thesis by (rule claims_spared[OF ok]) (use False in \<open>simp_all add: same\<close>)
  qed
  show "circuits_ok s' v" by (rule same)
qed

lemma handed_back_ok:
  assumes ns: "notif_settings_ok ns" and ok: "outbox_ok ns s" and c: "os_claimed s w = (i, e) # rest" and nof: "os_flight s w = None"
    and start: "start_delivery ns (os_now s) (os_mclock s) (os_disp s w) i (os_db s) = Some (Inl d)"
  shows "outbox_ok ns (s\<lparr>os_db := d, os_claimed := (os_claimed s)(w := rest)\<rparr>)"
proof -
  have w: "dp_id (os_disp s v) = v" and circ: "circuits_ok s v" for v using ok by (simp_all add: outbox_ok_def claims_ok_def)
  obtain r where r: "row i (os_rows s) = Some r"
      "d = hand_back w i (os_now s + wait_s (ns_breaker_reset_s ns) (os_mclock s) (dp_breaker (os_disp s w) (dl_sink r))) (os_db s)"
    using start by (auto simp: start_delivery_def w split: option.splits)
  let ?again = "os_now s + wait_s (ns_breaker_reset_s ns) (os_mclock s) (dp_breaker (os_disp s w) (dl_sink r))"
  have "0 \<le> ns_breaker_reset_s ns" using ns by (simp add: notif_settings_ok_def)
  then have "wait_s (ns_breaker_reset_s ns) (os_mclock s) (dp_breaker (os_disp s w) (dl_sink r)) \<le> ns_breaker_reset_s ns"
    using wait_bounds[of "ns_breaker_reset_s ns" "dp_breaker (os_disp s w) (dl_sink r)" "os_mclock s"] circ[of w] by (auto simp: circuits_ok_def)
  then have again: "?again \<le> os_now s + horizon ns" using horizon_lease(2)[of ns] by simp
  have base: "row_ok ns (os_now s) (os_accepted s) (os_lost s) q" if "row i (os_rows s) = Some q" for q
    using ok that by (simp add: outbox_ok_def)
  show ?thesis
    by (rule row_steps[OF ok c, where p = "\<lambda>q. dl_id q = i \<and> dl_leased_by q = Some w"
        and f = "\<lambda>q. q\<lparr>dl_next_attempt := ?again, dl_lease_until := None, dl_leased_by := None, dl_attempts := dl_attempts q - 1\<rparr>"])
      (use base row_ok_handed_back[OF _ _ again] r w circ nof in \<open>auto simp: hand_back_def circuits_ok_def fun_upd_idem\<close>)
qed

lemma answered_ok:
  assumes ns: "notif_settings_ok ns" and ok: "outbox_ok ns s" and c: "os_claimed s w = (i, e) # rest"
    and flight: "os_flight s w = Some (sink, attempt)" and rnd: "0 \<le> rnd" "rnd \<le> 1"
  shows "outbox_ok ns (s\<lparr>os_db := record_reply ns (os_now s) rnd w i attempt reply (os_db s),
      os_disp := (os_disp s)(w := told ns (os_mclock s) sink reply (os_disp s w)),
      os_claimed := (os_claimed s)(w := rest), os_flight := (os_flight s)(w := None),
      os_accepted := (if reply = Accepted then i # os_accepted s else os_accepted s)\<rparr>)" (is "outbox_ok ns ?s'")
proof -
  have w: "dp_id (os_disp s v) = v" and circ: "circuits_ok s v" and cl: "claims_ok s v" for v using ok by (simp_all add: outbox_ok_def claims_ok_def)
  have att: "dl_attempts q = attempt" if "row i (os_rows s) = Some q" "dl_leased_by q = Some w" for q
    using cl[of w] flight c that by (auto simp: claims_ok_def)
  have base: "row_ok ns (os_now s) (os_accepted s) (os_lost s) q" if "row i (os_rows s) = Some q" for q
    using ok that by (simp add: outbox_ok_def)
  have new: "row_ok ns (os_now s) (os_accepted ?s') (os_lost s) (outcome_row ns (os_now s) rnd attempt reply q)"
    if "row i (os_rows s) = Some q" "dl_id q = i \<and> dl_leased_by q = Some w \<and> dl_status q = PENDING" for q
    by (rule row_ok_outcome[OF ns rnd base[OF that(1)]]) (use that att in auto)
  have circ': "circuits_ok ?s' v" for v
  proof (cases "v = w")
    case True
    show ?thesis using told_circuits[OF circ[of w]] by (auto simp: circuits_ok_def True)
  next
    case False
    then show ?thesis using circ[of v] by (simp add: circuits_ok_def)
  qed
  show ?thesis
    by (rule row_steps[OF ok c, where p = "\<lambda>q. dl_id q = i \<and> dl_leased_by q = Some w \<and> dl_status q = PENDING"
        and f = "outcome_row ns (os_now s) rnd attempt reply"])
      (use new w circ' in \<open>auto simp: record_reply_rows\<close>)
qed

lemma sending_ok:
  assumes ok: "outbox_ok ns s" and c: "os_claimed s w = (i, e) # rest"
    and start: "start_delivery ns (os_now s) (os_mclock s) (os_disp s w) i (os_db s) = Some (Inr (dp, sink, attempt))"
  shows "outbox_ok ns (s\<lparr>os_disp := (os_disp s)(w := dp), os_flight := (os_flight s)(w := Some (sink, attempt))\<rparr>)" (is "outbox_ok ns ?s'")
proof -
  obtain r c' where r: "row i (os_rows s) = Some r" "attempt = dl_attempts r"
      "allow (ns_breaker_reset_s ns) (os_mclock s) (dp_breaker (os_disp s w) (dl_sink r)) = Some c'"
      "dp = (os_disp s w)\<lparr>dp_breaker := (dp_breaker (os_disp s w))(dl_sink r := c')\<rparr>"
    using start by (auto simp: start_delivery_def split: option.splits)
  have cw: "claims_ok s v" "circuits_ok s v" for v using ok by (simp_all add: outbox_ok_def)
  show ?thesis
  proof (rule ok_rowsI)
    fix v
    show "claims_ok ?s' v"
      using cw(1)[of v] by (cases "v = w") (auto simp: claims_ok_def c r)
    show "circuits_ok ?s' v"
      using cw(2)[of v] circuit_keeps_time(1)[OF _ r(3)] by (cases "v = w") (auto simp: circuits_ok_def r(4))
  qed (use ok in \<open>simp_all add: outbox_ok_def\<close>)
qed

lemma step_keeps_ok: "outbox_step ns st s s' \<Longrightarrow> notif_settings_ok ns \<Longrightarrow> outbox_ok ns s \<Longrightarrow> outbox_ok ns s'"
proof (induction rule: outbox_step.induct)
  case (time_passes s t m)
  then show ?case using time_ok by blast
next
  case (not_recorded s w sink attempt reply)
  then have "circuits_ok s w" "dp_id (os_disp s w) = w" by (simp_all add: outbox_ok_def claims_ok_def)
  then show ?case by (intro dropped_ok[OF not_recorded(3)]) (use told_circuits in auto)
next
  case (poll_failed s w)
  then show ?case using dropped_ok[OF poll_failed(3), of w "os_disp s"] by (simp add: outbox_ok_def claims_ok_def circuits_ok_def)
next
  case (died s w)
  then show ?case by (intro dropped_ok[OF died(2)]) (auto simp: new_dispatcher_def new_sink_circuit_def)
qed (simp_all add: staged_ok polled_ok handed_back_ok answered_ok redriven_ok sending_ok)

lemma start_ok: "outbox_ok ns (outbox_start sinks)"
  by (rule ok_rowsI) (simp_all add: outbox_start_def ids_ok_def by_key_def claims_ok_def circuits_ok_def new_dispatcher_def new_sink_circuit_def)

lemma run_ok: "outbox_run ns st sinks s \<Longrightarrow> notif_settings_ok ns \<Longrightarrow> outbox_ok ns s"
  by (induction rule: outbox_run.induct) (simp_all add: start_ok step_keeps_ok)

end
