(* ===== verification/Outbox_Props.thy ===== *)
theory Outbox_Props
  imports Outbox_System
begin

text \<open>
  What the outbox promises, for any number of dispatchers and any interleaving of their steps:
  claims exclude each other while their leases run, a row only goes through the moves of the
  abstract machine \<open>row_move\<close>, and a pending row is always claimed again. At the end, a
  delivery whose dispatcher dies with it each time, which is claimed without end.
\<close>

section \<open>A recorded run\<close>

definition outbox_settings :: settings where
  "outbox_settings = \<lparr>job_lease_ttl_s = 30, job_max_retries = 2, job_retry_backoff_s = 1,
     job_poison_threshold = 3, job_timeout_s = 600, job_deadline_s = None,
     job_republish_after_s = 60, job_claim_candidates = 10, job_worker_classes = [''default''],
     job_default_class = ''default'', job_class_by_framework = [], job_default_priority = 0,
     job_priority_by_severity = [], job_default_tenant = ''default'', job_tenant_by_principal = [],
     job_tenant_concurrency = 2, job_tenant_limits = [], job_drain_timeout_s = 30,
     job_poll_interval_s = 1, model_lock_ttl_s = 3600, notification_sinks = [''log''],
     notification_sink_events = []\<rparr>"

definition demo_ns :: notif_settings where
  "demo_ns = \<lparr>ns_batch = 50, ns_lease_s = 60, ns_max_attempts = 8, ns_backoff_initial_s = 2, ns_backoff_max_s = 600,
     ns_backoff_jitter = 1/5, ns_breaker_failures = 5, ns_breaker_reset_s = 60\<rparr>"

lemma demo_ns_ok: "notif_settings_ok demo_ns"
  by (simp add: notif_settings_ok_def demo_ns_def)

lemma demo_reset: "ns_breaker_reset_s demo_ns = 60"
  by (simp add: demo_ns_def)

abbreviation demo_sinks :: "string \<Rightarrow> string list" where "demo_sinks \<equiv> \<lambda>_. [''log'']"

text \<open>An event is staged, dispatcher a claims its delivery and starts sending it.\<close>

definition ox1 :: osys where
  "ox1 = (outbox_start demo_sinks)\<lparr>os_db := record_event 0 outbox_settings ''t'' ''x'' None (os_db (outbox_start demo_sinks))\<rparr>"
definition ox2 :: osys where "ox2 = claim_step demo_ns ''a'' ox1"
definition ox3 :: osys where
  "ox3 = ox2\<lparr>os_disp := (os_disp ox2)(''a'' := fst (projr (the (start_delivery demo_ns 0 0 (os_disp ox2 ''a'') 0 (os_db ox2))))),
     os_flight := (os_flight ox2)(''a'' := Some (''log'', 1))\<rparr>"
definition ox4 :: osys where
  "ox4 = ox3\<lparr>os_db := record_reply demo_ns 0 0 ''a'' 0 1 (Refused True) (os_db ox3),
      os_disp := (os_disp ox3)(''a'' := told demo_ns 0 ''log'' (Refused True) (os_disp ox3 ''a'')),
      os_claimed := (os_claimed ox3)(''a'' := []), os_flight := (os_flight ox3)(''a'' := None)\<rparr>"

lemma ox1_run: "outbox_run demo_ns outbox_settings demo_sinks ox1"
  using outbox_next[OF outbox_empty event_staged[of demo_ns outbox_settings "outbox_start demo_sinks" "''t''" "''x''" None]]
  by (simp add: ox1_def outbox_start_def)

lemma ox2_run: "outbox_run demo_ns outbox_settings demo_sinks ox2"
  unfolding ox2_def by (rule outbox_next[OF ox1_run polled]) code_simp

lemma ox2_claim: "os_claimed ox2 ''a'' = [(0, 60)]" "os_now ox2 = 0" "os_mclock ox2 = 0"
    "start_delivery demo_ns 0 0 (os_disp ox2 ''a'') 0 (os_db ox2) \<noteq> None"
    "isl (the (start_delivery demo_ns 0 0 (os_disp ox2 ''a'') 0 (os_db ox2))) = False"
    "snd (projr (the (start_delivery demo_ns 0 0 (os_disp ox2 ''a'') 0 (os_db ox2)))) = (''log'', 1)"
  by code_simp+

lemma ox3_run: "outbox_run demo_ns outbox_settings demo_sinks ox3"
proof -
  obtain p where p: "start_delivery demo_ns 0 0 (os_disp ox2 ''a'') 0 (os_db ox2) = Some p" using ox2_claim(4) by blast
  then obtain dp sink attempt where dp: "p = Inr (dp, sink, attempt)" using ox2_claim(5) by (cases p) auto
  have sa: "sink = ''log''" "attempt = 1" using ox2_claim(6) by (simp_all add: p dp)
  have nof: "os_flight ox2 ''a'' = None" by code_simp
  have "start_delivery demo_ns (os_now ox2) (os_mclock ox2) (os_disp ox2 ''a'') 0 (os_db ox2) = Some (Inr (dp, ''log'', 1))"
    using p by (simp add: ox2_claim(2,3) dp sa)
  from outbox_next[OF ox2_run sending[OF ox2_claim(1) nof this]] show ?thesis by (simp add: ox3_def p dp)
qed

lemma ox4_run: "outbox_run demo_ns outbox_settings demo_sinks ox4"
proof -
  have m: "os_claimed ox3 ''a'' = [(0, 60)]" "os_flight ox3 ''a'' = Some (''log'', 1)" "os_now ox3 = 0" "os_mclock ox3 = 0" by code_simp+
  from outbox_next[OF ox3_run answered[OF m(1,2), of 0 demo_ns outbox_settings "Refused True"]] show ?thesis
    by (simp add: ox4_def m(3,4))
qed

section \<open>Claims\<close>

text \<open>C20. Two dispatchers never hold a delivery at the same time: of two claims of one delivery at
  least one has a lease that ran out. While its lease runs, the holder records the answer it
  gets, whatever the others did in the meantime.\<close>

theorem claims_exclusive:
  assumes ns: "notif_settings_ok ns" and run: "outbox_run ns st sinks s"
    and claim: "(i, e) \<in> set (os_claimed s w)" "os_now s < e"
  shows "(\<forall>v f. (i, f) \<in> set (os_claimed s v) \<and> os_now s < f \<longrightarrow> v = w \<and> f = e) \<and> fst (finish w i g (os_db s))"
proof -
  have ok: "outbox_ok ns s" using run_ok[OF run ns] .
  then have c: "claims_ok s v" for v by (simp add: outbox_ok_def)
  obtain r where r: "row i (os_rows s) = Some r" "dl_leased_by r = Some w" "dl_lease_until r = Some e"
    using claims_held[OF c claim] by blast
  have "v = w \<and> f = e" if "(i, f) \<in> set (os_claimed s v)" "os_now s < f" for v f
    using claims_held[OF c that] r by auto
  moreover have "row_ok ns (os_now s) (os_accepted s) (os_lost s) r" using ok r(1) by (simp add: outbox_ok_def)
  then have "dl_status r = PENDING" using r by (simp add: row_ok_def)
  then have "fst (finish w i g (os_db s))"
    using rowcount_key[of dl_id "os_rows s" "\<lambda>r. dl_id r = i \<and> dl_leased_by r = Some w \<and> dl_status r = PENDING" i]
      ids_distinct ok r row_id[OF r(1)] by (simp add: finish_def Let_def outbox_ok_def)
  ultimately show ?thesis by blast
qed

lemma claims_exclusive_witness:
  "os_claimed ox3 ''a'' = [(0, 60)] \<and> fst (finish ''a'' 0 (\<lambda>r. r) (os_db ox3))"
proof -
  have c: "(0, 60) \<in> set (os_claimed ox3 ''a'')" "os_now ox3 < 60" "os_claimed ox3 ''a'' = [(0, 60)]" by code_simp+
  show ?thesis using claims_exclusive[OF demo_ns_ok ox3_run c(1,2), of "\<lambda>r. r"] c(3) by blast
qed

section \<open>Rows\<close>

text \<open>The life of a delivery.\<close>

inductive row_move :: "notif_settings \<Rightarrow> time \<Rightarrow> delivery \<Rightarrow> delivery \<Rightarrow> bool" for ns now where
  leased: "due now r \<Longrightarrow> row_move ns now r (lease_to w (now + ns_lease_s ns) r)"
| unsent: "dl_status r = PENDING \<Longrightarrow> dl_leased_by r \<noteq> None \<Longrightarrow> now \<le> again \<Longrightarrow> again \<le> now + ns_breaker_reset_s ns \<Longrightarrow>
    row_move ns now r (r\<lparr>dl_next_attempt := again, dl_lease_until := None, dl_leased_by := None, dl_attempts := dl_attempts r - 1\<rparr>)"
| retried: "dl_status r = PENDING \<Longrightarrow> dl_leased_by r \<noteq> None \<Longrightarrow> dl_attempts r < ns_max_attempts ns \<Longrightarrow>
    now \<le> again \<Longrightarrow> again \<le> now + horizon ns \<Longrightarrow>
    row_move ns now r (r\<lparr>dl_lease_until := None, dl_leased_by := None, dl_next_attempt := again\<rparr>)"
| delivered: "dl_status r = PENDING \<Longrightarrow> dl_leased_by r \<noteq> None \<Longrightarrow>
    row_move ns now r (r\<lparr>dl_lease_until := None, dl_leased_by := None, dl_status := DELIVERED, dl_delivered_at := Some now\<rparr>)"
| given_up: "dl_status r = PENDING \<Longrightarrow> dl_leased_by r \<noteq> None \<Longrightarrow>
    row_move ns now r (r\<lparr>dl_lease_until := None, dl_leased_by := None, dl_status := DEAD, dl_dead_at := Some now\<rparr>)"
| redriven: "dl_status r = DEAD \<Longrightarrow> row_move ns now r (redriven now r)"

lemma outcome_move:
  assumes "notif_settings_ok ns" "0 \<le> rnd" "rnd \<le> 1" "dl_status r = PENDING" "dl_leased_by r \<noteq> None" "dl_attempts r = attempt"
  shows "row_move ns now r (outcome_row ns now rnd attempt reply r)"
proof (cases reply)
  case Accepted
  then show ?thesis using delivered[OF assms(4,5), of ns now] by (simp add: outcome_row_def)
next
  case (Refused b)
  then show ?thesis
    using retried[OF assms(4,5), of ns now "now + backoff_s ns rnd attempt"] given_up[OF assms(4,5), of ns now]
      backoff_bounds[OF assms(1-3), of attempt] assms(6) by (auto simp: outcome_row_def Let_def)
qed

lemma update_moves:
  assumes id: "\<And>r. dl_id (f r) = dl_id r" and p: "\<And>r. row i ds = Some r \<Longrightarrow> p r \<Longrightarrow> row_move ns now r (f r)"
    and r: "row i ds = Some r"
  shows "\<exists>r'. row i (update_where p f ds) = Some r' \<and> (r' = r \<or> row_move ns now r r')"
  by (rule exI[of _ "if p r then f r else r"]) (use p[OF r] r in \<open>simp add: by_key_update id\<close>)

lemma step_moves:
  "outbox_step ns st s s' \<Longrightarrow> notif_settings_ok ns \<Longrightarrow> outbox_ok ns s \<Longrightarrow> row i (os_rows s) = Some r \<Longrightarrow>
     \<exists>r'. row i (os_rows s') = Some r' \<and> (r' = r \<or> row_move ns (os_now s) r r')"
proof (induction rule: outbox_step.induct)
  case (event_staged s ty subject model)
  then show ?case using add_deliveries_rows[of "os_rows s"] by (simp add: record_event_def outbox_ok_def)
next
  case (polled s w)
  then have ids: "ids_ok (os_rows s)" by (simp add: outbox_ok_def)
  obtain cl where "claim_due ns (os_now s) (os_mclock s) (os_disp s w) (os_db s) =
      (cl, (os_db s)\<lparr>deliveries := update_where (\<lambda>r. dl_id r \<in> set cl \<and> due (os_now s) r)
          (lease_to (dp_id (os_disp s w)) (os_now s + ns_lease_s ns)) (os_rows s)\<rparr>)"
    using claim_due_eq[OF ids] by metis
  then have rows: "os_rows (claim_step ns w s) = update_where (\<lambda>r. dl_id r \<in> set cl \<and> due (os_now s) r)
          (lease_to (dp_id (os_disp s w)) (os_now s + ns_lease_s ns)) (os_rows s)" by (simp add: claim_step_def)
  show ?case unfolding rows
    by (rule update_moves[OF _ _ polled(4)]) (auto intro: leased simp: lease_to_def[of _ _ r for r, THEN arg_cong[where f = dl_id]])
next
  case (handed_back s w j e rest d)
  have w: "dp_id (os_disp s w) = w" and circ: "circuits_ok s w" using handed_back(5) by (simp_all add: outbox_ok_def claims_ok_def)
  obtain q where q: "row j (os_rows s) = Some q" "d = hand_back w j (os_now s
      + wait_s (ns_breaker_reset_s ns) (os_mclock s) (dp_breaker (os_disp s w) (dl_sink q))) (os_db s)"
    using handed_back(3) by (auto simp: start_delivery_def w split: option.splits)
  have "0 \<le> ns_breaker_reset_s ns" using handed_back(4) by (simp add: notif_settings_ok_def)
  then have wait: "0 \<le> wait_s (ns_breaker_reset_s ns) (os_mclock s) (dp_breaker (os_disp s w) (dl_sink q))
      \<and> wait_s (ns_breaker_reset_s ns) (os_mclock s) (dp_breaker (os_disp s w) (dl_sink q)) \<le> ns_breaker_reset_s ns"
    using wait_bounds[of "ns_breaker_reset_s ns" "dp_breaker (os_disp s w) (dl_sink q)" "os_mclock s"] circ by (auto simp: circuits_ok_def)
  have handed: "row_move ns (os_now s) x (x\<lparr>dl_next_attempt := os_now s + wait_s (ns_breaker_reset_s ns) (os_mclock s) (dp_breaker (os_disp s w) (dl_sink q)),
      dl_lease_until := None, dl_leased_by := None, dl_attempts := dl_attempts x - 1\<rparr>)"
    if "row i (os_rows s) = Some x" "dl_leased_by x = Some w" for x
  proof -
    have "row_ok ns (os_now s) (os_accepted s) (os_lost s) x" using handed_back(5) that by (simp add: outbox_ok_def)
    then show ?thesis using that wait by (intro unsent) (simp_all add: row_ok_def)
  qed
  have rows: "os_rows (s\<lparr>os_db := d, os_claimed := (os_claimed s)(w := rest)\<rparr>) = update_where (\<lambda>r. dl_id r = j \<and> dl_leased_by r = Some w)
     (\<lambda>r. r\<lparr>dl_next_attempt := os_now s + wait_s (ns_breaker_reset_s ns) (os_mclock s) (dp_breaker (os_disp s w) (dl_sink q)),
        dl_lease_until := None, dl_leased_by := None, dl_attempts := dl_attempts r - 1\<rparr>) (os_rows s)"
    by (simp add: q hand_back_def)
  show ?case unfolding rows by (rule update_moves[OF _ _ handed_back(6)]) (use handed in auto)
next
  case (answered s w j e rest sink attempt rnd reply)
  have "claims_ok s w" using answered(6) by (simp add: outbox_ok_def)
  then have move: "row_move ns (os_now s) x (outcome_row ns (os_now s) rnd attempt reply x)"
    if "row i (os_rows s) = Some x" "dl_id x = j \<and> dl_leased_by x = Some w \<and> dl_status x = PENDING" for x
    using that answered row_id[OF that(1)] by (intro outcome_move) (auto simp: claims_ok_def)
  have rows: "os_rows (s\<lparr>os_db := record_reply ns (os_now s) rnd w j attempt reply (os_db s),
      os_disp := (os_disp s)(w := told ns (os_mclock s) sink reply (os_disp s w)),
      os_claimed := (os_claimed s)(w := rest), os_flight := (os_flight s)(w := None),
      os_accepted := (if reply = Accepted then j # os_accepted s else os_accepted s)\<rparr>)
    = update_where (\<lambda>r. dl_id r = j \<and> dl_leased_by r = Some w \<and> dl_status r = PENDING)
       (outcome_row ns (os_now s) rnd attempt reply) (os_rows s)" by (simp add: record_reply_rows)
  show ?case unfolding rows by (rule update_moves[OF _ _ answered(7)]) (use move in auto)
next
  case (redriving s actor ids)
  have rows: "os_rows (s\<lparr>os_db := snd (redrive_rows (os_now s) actor ids (os_db s))\<rparr>)
      = update_where (\<lambda>r. dl_id r \<in> set ids \<and> dl_status r = DEAD) (Outbox.redriven (os_now s)) (os_rows s)"
    by (simp add: redrive_rows_def Let_def split_beta redrive_each_eq)
  show ?case unfolding rows by (rule update_moves[OF _ _ redriving(3)]) (simp add: redriven_def, simp add: redriven)
qed (auto simp: dropped_def)

text \<open>C21. The dispatchers refine the life of a delivery: whatever step any of them takes, or an
  operator or a crash, no row is lost and each stays or makes one move of \<open>row_move\<close>. So a row
  is retried only with attempts left, and a delivered row never changes again. It is delivered
  only when its sink accepted the message, and its attempts stay within the maximum plus one for
  each lease that ran out.\<close>

theorem deliveries_refine:
  assumes ns: "notif_settings_ok ns" and run: "outbox_run ns st sinks s" and step: "outbox_step ns st s s'"
    and r: "row i (os_rows s) = Some r"
  shows "\<exists>r'. row i (os_rows s') = Some r' \<and> (r' = r \<or> row_move ns (os_now s) r r')
    \<and> (dl_status r = DELIVERED \<longrightarrow> r' = r) \<and> (dl_status r' = DELIVERED \<longrightarrow> i \<in> set (os_accepted s'))
    \<and> 0 \<le> dl_attempts r' \<and> dl_attempts r' \<le> ns_max_attempts ns + int (os_lost s' i)"
proof -
  have ok: "outbox_ok ns s" by (rule run_ok[OF run ns])
  obtain r' where r': "row i (os_rows s') = Some r'" "r' = r \<or> row_move ns (os_now s) r r'"
    using step_moves[OF step ns ok r] by blast
  have "row_ok ns (os_now s) (os_accepted s) (os_lost s) r" using ok r by (simp add: outbox_ok_def)
  then have final: "r' = r" if "dl_status r = DELIVERED" using r'(2) that by (auto elim!: row_move.cases simp: due_def)
  have "outbox_ok ns s'" by (rule step_keeps_ok[OF step ns ok])
  then have "row_ok ns (os_now s') (os_accepted s') (os_lost s') r'" using r'(1) by (simp add: outbox_ok_def)
  then show ?thesis using r' final row_id[OF r'(1)] by (auto simp: row_ok_def split: if_splits)
qed

lemma deliveries_refine_witness:
  "\<exists>r'. row 0 (os_rows ox4) = Some r' \<and> dl_attempts r' = 1 \<and> dl_attempts r' \<le> 8 \<and> dl_next_attempt r' = 8/5"
proof -
  have m: "os_claimed ox3 ''a'' = [(0, 60)]" "os_flight ox3 ''a'' = Some (''log'', 1)" "os_now ox3 = 0" "os_mclock ox3 = 0" by code_simp+
  have step: "outbox_step demo_ns outbox_settings ox3 ox4"
    using answered[OF m(1,2), of 0 demo_ns outbox_settings "Refused True"] by (simp add: ox4_def m(3,4))
  have "map_option dl_id (row 0 (os_rows ox3)) = Some 0" by code_simp
  then obtain r where r: "row 0 (os_rows ox3) = Some r" by blast
  have lost: "os_lost ox4 0 = 0" "ns_max_attempts demo_ns = 8" by code_simp+
  have "map_option (\<lambda>r. (dl_attempts r, dl_next_attempt r)) (row 0 (os_rows ox4)) = Some (1, 8/5)" by code_simp
  then show ?thesis using deliveries_refine[OF demo_ns_ok ox3_run step r] lost by auto
qed

section \<open>Nothing is forgotten\<close>

lemma take_of_sorted:
  assumes "sorted (map key xs)" "x \<in> set xs" "length (filter (\<lambda>y. key y \<le> key x) xs) \<le> n"
  shows "x \<in> set (take n xs)"
proof (rule ccontr)
  assume no: "x \<notin> set (take n xs)"
  then have x: "x \<in> set (drop n xs)" using assms(2) by (metis Un_iff append_take_drop_id set_append)
  have "key y \<le> key x" if "y \<in> set (take n xs)" for y
  proof -
    have "sorted (map key (take n xs) @ map key (drop n xs))" using assms(1) by (simp flip: map_append)
    then show ?thesis using x that by (simp add: sorted_append)
  qed
  then have "filter (\<lambda>y. key y \<le> key x) (take n xs) = take n xs" by (simp add: filter_id_conv)
  moreover have "filter (\<lambda>y. key y \<le> key x) xs
      = filter (\<lambda>y. key y \<le> key x) (take n xs) @ filter (\<lambda>y. key y \<le> key x) (drop n xs)"
    by (metis append_take_drop_id filter_append)
  moreover have "filter (\<lambda>y. key y \<le> key x) (drop n xs) \<noteq> []" using x by (auto simp: filter_empty_conv)
  moreover have "n < length xs" using x by (metis drop_all empty_iff empty_set not_le)
  ultimately show False using assms(3) by (simp add: min_def)
qed

lemma length_filter_imp: "(\<And>x. P x \<Longrightarrow> Q x) \<Longrightarrow> length (filter P xs) \<le> length (filter Q xs)"
  by (induction xs) auto

lemma length_filter_sort: "length (filter P (sort_key k xs)) = length (filter P xs)"
  by (metis filter_sort length_sort)

text \<open>C22. A pending delivery is never forgotten: in every reachable state it is due again within a
  fixed time, and the next poll of a dispatcher whose circuit to its sink is not open then
  claims it, as long as at most a batch of deliveries is due before it.\<close>

theorem pending_claimed_again:
  assumes ns: "notif_settings_ok ns" and run: "outbox_run ns st sinks s" and run': "outbox_run ns st sinks s'"
    and r: "row i (os_rows s) = Some r" "dl_status r = PENDING" and still: "row i (os_rows s') = Some r"
    and later: "os_now s + horizon ns \<le> os_now s'"
    and usable: "dl_sink r \<in> set (dp_sinks (os_disp s' w))"
      "\<not> is_open (ns_breaker_reset_s ns) (os_mclock s') (dp_breaker (os_disp s' w) (dl_sink r))"
    and turn: "length (filter (\<lambda>q. due (os_now s') q \<and> dl_next_attempt q \<le> dl_next_attempt r) (os_rows s')) \<le> ns_batch ns"
  shows "(i, os_now s' + ns_lease_s ns) \<in> set (os_claimed (claim_step ns w s') w)"
proof -
  have ok: "outbox_ok ns s" "outbox_ok ns s'" by (rule run_ok[OF run ns], rule run_ok[OF run' ns])
  then have ids: "ids_ok (os_rows s')" by (simp add: outbox_ok_def)
  have "row_ok ns (os_now s) (os_accepted s) (os_lost s) r" using ok(1) r(1) by (simp add: outbox_ok_def)
  then have due: "due (os_now s') r" using r(2) later by (simp add: row_ok_def due_def)
  have mem: "r \<in> set (os_rows s')" "dl_id r = i" using still row_iff[OF ids] by blast+
  let ?usable = "filter (\<lambda>k. \<not> is_open (ns_breaker_reset_s ns) (os_mclock s') (dp_breaker (os_disp s' w) k)) (dp_sinks (os_disp s' w))"
  let ?due = "filter (\<lambda>q. due (os_now s') q \<and> dl_sink q \<in> set ?usable) (os_rows s')"
  have u: "dl_sink r \<in> set ?usable" using usable by simp
  have "length (filter (\<lambda>q. dl_next_attempt q \<le> dl_next_attempt r) ?due)
      \<le> length (filter (\<lambda>q. due (os_now s') q \<and> dl_next_attempt q \<le> dl_next_attempt r) (os_rows s'))"
    unfolding filter_filter by (rule length_filter_imp) simp
  then have "r \<in> set (take (ns_batch ns) (sort_key dl_next_attempt ?due))"
    using turn mem due u by (intro take_of_sorted[where key = dl_next_attempt]) (simp_all add: length_filter_sort)
  then have cand: "i \<in> set (due_candidates (ns_batch ns) (os_now s') ?usable (os_rows s'))"
    using mem(2) unfolding due_candidates_def by force
  have d: "distinct (due_candidates (ns_batch ns) (os_now s') ?usable (os_rows s'))" by (rule due_candidates_distinct[OF ids])
  have "i \<in> set (fst (claim_due ns (os_now s') (os_mclock s') (os_disp s' w) (os_db s')))"
  proof -
    have "?usable \<noteq> []" using u by (metis empty_iff list.set(1))
    moreover have "fst (claim_each (dp_id (os_disp s' w)) (os_now s') (os_now s' + ns_lease_s ns)
        (due_candidates (ns_batch ns) (os_now s') ?usable (os_rows s')) (os_rows s'))
      = filter (\<lambda>i. \<exists>r. row i (os_rows s') = Some r \<and> due (os_now s') r) (due_candidates (ns_batch ns) (os_now s') ?usable (os_rows s'))"
      using claim_each_eq[OF d ids_distinct[OF ids]] by simp
    ultimately show ?thesis using cand still due by (simp add: claim_due_def Let_def split_beta)
  qed
  then show ?thesis by (auto simp: claim_step_def split: prod.split)
qed

lemma pending_claimed_again_witness: "(0, 1500) \<in> set (os_claimed (claim_step demo_ns ''b'' (ox4\<lparr>os_now := 1440, os_mclock := 1440\<rparr>)) ''b'')"
proof -
  have now: "os_now ox4 = 0" "os_mclock ox4 = 0" by code_simp+
  have run: "outbox_run demo_ns outbox_settings demo_sinks (ox4\<lparr>os_now := 1440, os_mclock := 1440\<rparr>)"
    by (rule outbox_next[OF ox4_run time_passes]) (simp_all add: now)
  have f: "map_option (\<lambda>r. (dl_status r, dl_sink r)) (row 0 (os_rows ox4)) = Some (PENDING, ''log'')" by code_simp
  then obtain r where r: "row 0 (os_rows ox4) = Some r" by blast
  have l: "horizon demo_ns = 720" "dp_sinks (os_disp ox4 ''b'') = [''log'']" "ns_batch demo_ns = 50" "length (os_rows ox4) = 1"
      "is_open (ns_breaker_reset_s demo_ns) 1440 (dp_breaker (os_disp ox4 ''b'') ''log'') = False" "ns_lease_s demo_ns = 60" by code_simp+
  have "length (filter P (os_rows ox4)) \<le> 50" for P using length_filter_le[of P "os_rows ox4"] l(4) by simp
  then show ?thesis
    using pending_claimed_again[OF demo_ns_ok ox4_run run r, of "''b''"] f r now l by simp
qed

section \<open>The loop of a dispatcher takes these steps\<close>

text \<open>The clocks a run meets do not go back, and the random numbers are in [0, 1].\<close>

fun timely :: "time \<Rightarrow> time \<Rightarrow> (nat \<Rightarrow> pass) \<Rightarrow> nat list \<Rightarrow> bool" where
  "timely t m world [] = True"
| "timely t m world (i # is) = (t \<le> ps_now (world i) \<and> ps_now (world i) \<le> ps_end (world i)
     \<and> m \<le> ps_mono (world i) \<and> ps_mono (world i) \<le> ps_mono_end (world i)
     \<and> 0 \<le> ps_rnd (world i) \<and> ps_rnd (world i) \<le> 1 \<and> timely (ps_end (world i)) (ps_mono_end (world i)) world is)"

definition reaches :: "notif_settings \<Rightarrow> settings \<Rightarrow> (string \<Rightarrow> string list) \<Rightarrow> string \<Rightarrow> time \<Rightarrow> time
    \<Rightarrow> (nat \<times> time) list \<Rightarrow> dispatcher \<Rightarrow> db \<Rightarrow> bool" where
  "reaches ns st sinks w t m rest dp d \<longleftrightarrow> (\<exists>s. outbox_run ns st sinks s \<and> os_now s \<le> t \<and> os_mclock s \<le> m
     \<and> os_claimed s w = rest \<and> os_flight s w = None \<and> os_disp s w = dp \<and> os_db s = d)"

lemma reachesI:
  "outbox_run ns st sinks s \<Longrightarrow> os_now s \<le> t \<Longrightarrow> os_mclock s \<le> m \<Longrightarrow> os_claimed s w = rest \<Longrightarrow> os_flight s w = None
    \<Longrightarrow> os_disp s w = dp \<Longrightarrow> os_db s = d \<Longrightarrow> reaches ns st sinks w t m rest dp d"
  unfolding reaches_def by blast

lemma deliver_reaches:
  assumes begun: "reaches ns st sinks w t m ((i, e) # rest) dp d" and ns: "notif_settings_ok ns" and t: "timely t m world [i]"
    and deliver: "deliver ns (world i) i (dp, d) = Some (dp', d')"
  shows "reaches ns st sinks w (ps_end (world i)) (ps_mono_end (world i)) rest dp' d'"
proof -
  let ?p = "world i"
  obtain s0 where s0: "outbox_run ns st sinks s0" "os_now s0 \<le> t" "os_mclock s0 \<le> m" "os_claimed s0 w = (i, e) # rest"
      "os_flight s0 w = None" "os_disp s0 w = dp" "os_db s0 = d" using begun by (auto simp: reaches_def)
  let ?s = "s0\<lparr>os_now := ps_now ?p, os_mclock := ps_mono ?p\<rparr>"
  have run: "outbox_run ns st sinks ?s" by (rule outbox_next[OF s0(1) time_passes]) (use s0 t in auto)
  have c: "os_claimed ?s w = (i, e) # rest" "os_flight ?s w = None" using s0 by simp_all
  have id: "dp_id dp = w" using run_ok[OF s0(1) ns] s0(6) by (auto simp: outbox_ok_def claims_ok_def)
  show ?thesis
  proof (cases "start_delivery ns (ps_now ?p) (ps_mono ?p) dp i d")
    case None
    then show ?thesis using deliver by (simp add: deliver_def)
  next
    case (Some st0)
    show ?thesis
    proof (cases st0)
      case (Inl d1)
      then have out: "d' = d1" "dp' = dp" using Some deliver by (simp_all add: deliver_def)
      have handed: "start_delivery ns (os_now ?s) (os_mclock ?s) (os_disp ?s w) i (os_db ?s) = Some (Inl d1)" using Some Inl s0 by simp
      show ?thesis by (rule reachesI[OF outbox_next[OF run handed_back[OF c handed]]]) (use out s0 t in simp_all)
    next
      case (Inr q)
      obtain dp1 sink attempt where q: "q = (dp1, sink, attempt)" by (cases q)
      have start: "start_delivery ns (os_now ?s) (os_mclock ?s) (os_disp ?s w) i (os_db ?s) = Some (Inr (dp1, sink, attempt))"
        using Some Inr q s0 by simp
      let ?s1 = "?s\<lparr>os_disp := (os_disp ?s)(w := dp1), os_flight := (os_flight ?s)(w := Some (sink, attempt))\<rparr>"
      let ?s2 = "?s1\<lparr>os_now := ps_end ?p, os_mclock := ps_mono_end ?p\<rparr>"
      have "outbox_run ns st sinks ?s1" by (rule outbox_next[OF run sending[OF c start]])
      then have run2: "outbox_run ns st sinks ?s2" by (rule outbox_next[OF _ time_passes]) (use t in auto)
      have id1: "dp_id dp1 = w" using Some Inr q id by (auto simp: start_delivery_def split: option.splits)
      have out: "dp' = told ns (ps_mono_end ?p) sink (ps_reply ?p) dp1"
          "d' = record_reply ns (ps_end ?p) (ps_rnd ?p) w i attempt (ps_reply ?p) d"
        using deliver Some Inr q id1 by (simp_all add: deliver_def)
      have c2: "os_claimed ?s2 w = (i, e) # rest" "os_flight ?s2 w = Some (sink, attempt)" using s0 by simp_all
      have "0 \<le> ps_rnd ?p" "ps_rnd ?p \<le> 1" using t by simp_all
      from outbox_next[OF run2 answered[OF c2 this, where reply = "ps_reply ?p"]] show ?thesis
        by (rule reachesI) (use out s0 in simp_all)
    qed
  qed
qed

lemma deliver_each_reaches:
  assumes ns: "notif_settings_ok ns"
  shows "reaches ns st sinks w t m (map (\<lambda>i. (i, e)) is) dp d \<Longrightarrow> timely t m world is \<Longrightarrow>
    deliver_each ns world is (dp, d) = (finished, dp', d') \<Longrightarrow>
    \<exists>t' m' rest. reaches ns st sinks w t' m' rest dp' d' \<and> (finished \<longrightarrow> rest = [])"
proof (induction "is" arbitrary: t m dp d)
  case (Cons i "is")
  show ?case
  proof (cases "deliver ns (world i) i (dp, d)")
    case None
    then show ?thesis using Cons.prems by auto
  next
    case (Some p)
    obtain dp1 d1 where one: "deliver ns (world i) i (dp, d) = Some (dp1, d1)" "deliver_each ns world is (dp1, d1) = (finished, dp', d')"
      using Cons.prems(3) Some by (cases p) auto
    have "reaches ns st sinks w (ps_end (world i)) (ps_mono_end (world i)) (map (\<lambda>i. (i, e)) is) dp1 d1"
      by (rule deliver_reaches[where world = world and i = i and e = e and dp = dp and d = d and t = t and m = m]) (use Cons.prems ns one(1) in auto)
    then show ?thesis by (rule Cons.IH[OF _ _ one(2)]) (use Cons.prems(2) in simp)
  qed
qed auto

text \<open>What \<open>run_once\<close> does from a state the system can be in, the system can do; when a delivery raises, with
  the rows it had claimed and not yet delivered.\<close>

lemma run_once_reaches:
  assumes ns: "notif_settings_ok ns" and begun: "reaches ns st sinks w t m [] dp d"
    and t: "t \<le> now" "m \<le> mclock" "timely now mclock world (fst (claim_due ns now mclock dp d))"
    and once: "run_once ns now mclock world (dp, d) = (n, dp', d')"
  shows "\<exists>t' m' rest. reaches ns st sinks w t' m' rest dp' d' \<and> (n \<noteq> None \<longrightarrow> rest = [])"
proof -
  obtain s0 where s0: "outbox_run ns st sinks s0" "os_now s0 \<le> t" "os_mclock s0 \<le> m" "os_claimed s0 w = []"
      "os_flight s0 w = None" "os_disp s0 w = dp" "os_db s0 = d" using begun by (auto simp: reaches_def)
  let ?s = "s0\<lparr>os_now := now, os_mclock := mclock\<rparr>"
  have run: "outbox_run ns st sinks ?s" by (rule outbox_next[OF s0(1) time_passes]) (use s0 t in auto)
  obtain cl d1 where claim: "claim_due ns now mclock dp d = (cl, d1)" by fastforce
  have tm: "timely now mclock world cl" using t(3) by (simp add: claim)
  have "outbox_run ns st sinks (claim_step ns w ?s)" by (rule outbox_next[OF run polled]) (use s0 in simp)
  then have "reaches ns st sinks w now mclock (map (\<lambda>i. (i, now + ns_lease_s ns)) cl) dp d1"
    by (rule reachesI) (use s0 claim in \<open>simp_all add: claim_step_def\<close>)
  moreover have "deliver_each ns world cl (dp, d1) = (n \<noteq> None, dp', d')"
    using once claim by (auto simp: run_once_def split: prod.splits if_splits)
  ultimately show ?thesis using deliver_each_reaches[OF ns] tm by blast
qed

section \<open>A message that kills its dispatcher\<close>

text \<open>
  \<^verbatim>\<open>dispatcher.py\<close> says that the attempt is counted at the claim so that a message that
  crashes its dispatcher still runs out of attempts. But a claim does not look at the attempts,
  and only an answer of the sink makes a row DEAD: the row is claimed again after each lease,
  without end.
\<close>

definition one_due :: "nat \<Rightarrow> osys \<Rightarrow> bool" where
  "one_due n s \<longleftrightarrow> os_claimed s ''a'' = [] \<and> os_flight s ''a'' = None
     \<and> os_disp s ''a'' = new_dispatcher ''a'' [''log'']
     \<and> (\<exists>r. os_rows s = [r] \<and> dl_id r = 0 \<and> dl_sink r = ''log'' \<and> due (os_now s) r \<and> dl_attempts r = int n)"

lemma crash_round:
  assumes run: "outbox_run demo_ns outbox_settings demo_sinks s" and one: "one_due n s"
  shows "\<exists>s'. outbox_run demo_ns outbox_settings demo_sinks s' \<and> one_due (Suc n) s'"
proof -
  obtain r where r: "os_rows s = [r]" "dl_id r = 0" "dl_sink r = ''log''" "due (os_now s) r" "dl_attempts r = int n"
    using one by (auto simp: one_due_def)
  let ?t = "os_now s + 60" and ?r = "lease_to ''a'' (os_now s + 60) r"
  let ?s1 = "claim_step demo_ns ''a'' s"
  have closed: "is_open 60 m new_sink_circuit = False" "allow 60 m new_sink_circuit = Some new_sink_circuit" for m
    by (simp_all add: is_open_def allow_def new_sink_circuit_def)
  have disp: "os_disp s ''a'' = new_dispatcher ''a'' [''log'']" using one by (simp add: one_due_def)
  have cand: "due_candidates 50 (os_now s) [''log''] [r] = [0]" using r by (simp add: due_candidates_def)
  have "claim_due demo_ns (os_now s) (os_mclock s) (new_dispatcher ''a'' [''log'']) (os_db s) = ([0], (os_db s)\<lparr>deliveries := [?r]\<rparr>)"
    using r cand by (simp add: claim_due_def new_dispatcher_def demo_ns_def closed Let_def rowcount_def lease_to_def)
  then have s1: "os_rows ?s1 = [?r]" "os_claimed ?s1 ''a'' = [(0, ?t)]" "os_flight ?s1 ''a'' = None" "os_now ?s1 = os_now s"
      "os_mclock ?s1 = os_mclock s" "os_disp ?s1 = os_disp s"
    using one by (simp_all add: claim_step_def disp demo_ns_def one_due_def)
  have start: "start_delivery demo_ns (os_now ?s1) (os_mclock ?s1) (os_disp ?s1 ''a'') 0 (os_db ?s1)
      = Some (Inr (new_dispatcher ''a'' [''log''], ''log'', int n + 1))"
    using r by (simp add: start_delivery_def s1 disp by_key_single lease_to_def new_dispatcher_def demo_reset closed fun_upd_idem)
  let ?s2 = "?s1\<lparr>os_disp := (os_disp ?s1)(''a'' := new_dispatcher ''a'' [''log'']), os_flight := (os_flight ?s1)(''a'' := Some (''log'', int n + 1))\<rparr>"
  let ?s3 = "dropped ''a'' (?s2\<lparr>os_disp := (os_disp ?s2)(''a'' := new_dispatcher ''a'' (dp_sinks (os_disp ?s2 ''a'')))\<rparr>)"
  let ?s4 = "?s3\<lparr>os_now := ?t, os_mclock := os_mclock s + 60\<rparr>"
  have "outbox_run demo_ns outbox_settings demo_sinks ?s1"
    by (rule outbox_next[OF run polled]) (use one in \<open>simp add: one_due_def\<close>)
  then have "outbox_run demo_ns outbox_settings demo_sinks ?s2" by (rule outbox_next[OF _ sending[OF s1(2,3) start]])
  then have "outbox_run demo_ns outbox_settings demo_sinks ?s3" by (rule outbox_next[OF _ died])
  then have "outbox_run demo_ns outbox_settings demo_sinks ?s4"
    by (rule outbox_next[OF _ time_passes]) (simp_all add: dropped_def s1)
  moreover have "one_due (Suc n) ?s4" using r by (simp add: one_due_def dropped_def s1 due_def lease_to_def new_dispatcher_def)
  ultimately show ?thesis by blast
qed

theorem crashing_delivery_never_dies:
  "\<exists>s r. outbox_run demo_ns outbox_settings demo_sinks s \<and> row 0 (os_rows s) = Some r \<and> dl_status r = PENDING \<and> dl_attempts r = int n"
proof -
  have "\<exists>s. outbox_run demo_ns outbox_settings demo_sinks s \<and> one_due n s"
  proof (induction n)
    case 0
    have d: "map (\<lambda>r. (dl_id r, dl_sink r, dl_status r, dl_next_attempt r, dl_attempts r)) (os_rows ox1) = [(0, ''log'', PENDING, 0, 0)]"
        "os_now ox1 = 0" "os_claimed ox1 ''a'' = []" "os_flight ox1 ''a'' = None" by code_simp+
    have "os_disp ox1 ''a'' = new_dispatcher ''a'' [''log'']" by (simp add: ox1_def outbox_start_def)
    then have "one_due 0 ox1" using d by (auto simp: one_due_def due_def)
    then show ?case using ox1_run by blast
  next
    case (Suc n)
    then show ?case using crash_round by blast
  qed
  then show ?thesis by (auto simp: one_due_def due_def by_key_single)
qed

end
