(* ===== verification/Training.thy ===== *)
theory Training
  imports Effects Enums
begin

text \<open>
  What a candidate is trained on and how it is produced (Member 3): the held-out rows
  (\<^verbatim>\<open>adaptation/data.py\<close> and the split of \<^verbatim>\<open>orchestrator/pipeline.py\<close>), the leakage checks
  (\<^verbatim>\<open>adaptation/leakage.py\<close>), what an artifact can be adapted to do
  (\<^verbatim>\<open>adaptation/capability.py\<close>) and the fallbacks of \<^verbatim>\<open>_produce_candidate\<close>.

  A row is its id, the data version it belongs to, when it was observed and the JSON text of
  each of its columns (a dict). The numeric test for target leakage (numpy, pandas) and the engines are
  parameters. The report of the leakage checks is not kept.
\<close>

section \<open>Rows held out\<close>

record data_row =
  dr_id :: nat
  dr_version :: nat
  dr_observed :: time
  dr_payload :: "(string \<times> string) list"

text \<open>\<open>max(0, min(max(ceil(n * fraction), min_rows), n - 1))\<close>.\<close>

definition holdout_size :: "nat \<Rightarrow> rat \<Rightarrow> nat \<Rightarrow> nat" where
  "holdout_size n fraction min_rows =
     nat (max 0 (min (max \<lceil>of_nat n * fraction\<rceil> (int min_rows)) (int n - 1)))"

definition pool_rows :: "nat option \<Rightarrow> data_row list \<Rightarrow> data_row list" where
  "pool_rows pool rows = filter (\<lambda>r. case pool of None \<Rightarrow> True | Some v \<Rightarrow> dr_version r = v) rows"

definition held_out :: "nat option \<Rightarrow> rat \<Rightarrow> nat \<Rightarrow> data_row list \<Rightarrow> data_row list" where
  "held_out pool fraction min_rows rows = (let p = pool_rows pool rows
     in drop (length p - holdout_size (length p) fraction min_rows) p)"

definition train_rows :: "data_row list \<Rightarrow> data_row list \<Rightarrow> data_row list" where
  "train_rows rows holdout = filter (\<lambda>r. dr_id r \<notin> dr_id ` set holdout) rows"

section \<open>Leakage checks\<close>

record leakage_settings =
  lk_enabled :: bool
  lk_allow_future_rows :: bool

text \<open>\<^verbatim>\<open>_row_key\<close>: \<^verbatim>\<open>json.dumps\<close> of the columns, determined by the JSON text of each; a
  column the row has not is null.\<close>

definition row_key :: "string list \<Rightarrow> data_row \<Rightarrow> string list" where
  "row_key columns r = map (\<lambda>c. case map_of (dr_payload r) c of None \<Rightarrow> ''null'' | Some t \<Rightarrow> t) columns"

definition newer_than_holdout :: "data_row list \<Rightarrow> data_row \<Rightarrow> bool" where
  "newer_than_holdout holdout r \<longleftrightarrow> holdout \<noteq> [] \<and> Min (dr_observed ` set holdout) < dr_observed r"

definition check_leakage ::
  "leakage_settings \<Rightarrow> (data_row list \<Rightarrow> bool) \<Rightarrow> string list \<Rightarrow> data_row list \<Rightarrow> data_row list \<Rightarrow> exn + data_row list" where
  "check_leakage lk target_leaks columns train holdout =
     (if \<not> lk_enabled lk then Inr train
      else let kept1 = filter (\<lambda>r. dr_id r \<notin> dr_id ` set holdout) train;
               kept2 = filter (\<lambda>r. row_key columns r \<notin> row_key columns ` set holdout) kept1;
               kept = (if lk_allow_future_rows lk then kept2 else filter (\<lambda>r. \<not> newer_than_holdout holdout r) kept2)
           in if target_leaks kept then Inl (err DataLeakageError [])
              else if kept = [] then Inl (err DataLeakageError []) else Inr kept)"

lemma held_out_sub: "set (held_out pool f m rows) \<subseteq> set rows"
  using set_drop_subset[of "length (pool_rows pool rows) - holdout_size (length (pool_rows pool rows)) f m" "pool_rows pool rows"]
  by (auto simp: held_out_def Let_def pool_rows_def)

lemma holdout_size_bounds: "holdout_size n f m \<le> n - 1 \<and> (m < n \<longrightarrow> m \<le> holdout_size n f m)"
  by (auto simp: holdout_size_def)

lemma held_out_length: "length (held_out pool f m rows) = holdout_size (length (pool_rows pool rows)) f m"
proof -
  have "holdout_size (length (pool_rows pool rows)) f m \<le> length (pool_rows pool rows)"
    using holdout_size_bounds[of "length (pool_rows pool rows)" f m] by linarith
  then show ?thesis by (simp add: held_out_def Let_def)
qed

lemma held_out_newest:
  assumes "sorted (map dr_observed rows)" "h \<in> set (held_out pool f m rows)" "r \<in> set (pool_rows pool rows)"
    "r \<notin> set (held_out pool f m rows)"
  shows "dr_observed r \<le> dr_observed h"
proof -
  let ?p = "pool_rows pool rows" and ?k = "length (pool_rows pool rows) - holdout_size (length (pool_rows pool rows)) f m"
  have "sorted (map dr_observed ?p)" unfolding pool_rows_def by (rule sorted_filter[OF assms(1)])
  then have "sorted (map dr_observed (take ?k ?p) @ map dr_observed (drop ?k ?p))" by (simp flip: map_append)
  moreover have "r \<in> set (take ?k ?p)"
    using assms(3,4) unfolding held_out_def Let_def by (metis Un_iff append_take_drop_id set_append)
  moreover have "h \<in> set (drop ?k ?p)" using assms(2) by (simp add: held_out_def Let_def)
  ultimately show ?thesis by (simp add: sorted_append)
qed

lemma check_leakage_sound:
  assumes "check_leakage lk leaks cols train holdout = Inr kept"
  shows "set kept \<subseteq> set train \<and> (lk_enabled lk \<longrightarrow> kept \<noteq> []
    \<and> (\<forall>r\<in>set kept. \<forall>h\<in>set holdout. dr_id r \<noteq> dr_id h \<and> row_key cols r \<noteq> row_key cols h
         \<and> (lk_allow_future_rows lk \<or> dr_observed r \<le> dr_observed h)))"
proof -
  have "dr_observed r \<le> dr_observed h" if "\<not> newer_than_holdout holdout r" "h \<in> set holdout" for r h
  proof -
    have "Min (dr_observed ` set holdout) \<le> dr_observed h" using that by simp
    moreover have "dr_observed r \<le> Min (dr_observed ` set holdout)" using that by (auto simp: newer_than_holdout_def)
    ultimately show ?thesis by simp
  qed
  moreover have "row_key cols r \<noteq> row_key cols h" if "row_key cols r \<notin> row_key cols ` set holdout" "h \<in> set holdout" for r h
    using that by (metis imageI)
  ultimately show ?thesis using assms by (auto simp: check_leakage_def Let_def split: if_splits)
qed

section \<open>What an artifact can be adapted to do\<close>

record inspection =
  in_partial_fit :: bool
  in_warm_start :: bool
  in_input_dim :: "nat option"
  in_feature_names :: "string list option"

definition feature_list :: "inspection \<Rightarrow> string list" where
  "feature_list ins = (case in_feature_names ins of None \<Rightarrow> [] | Some fs \<Rightarrow> fs)"

definition schema_compatible :: "inspection \<Rightarrow> string list \<Rightarrow> bool" where
  "schema_compatible ins features =
     (if feature_list ins = [] \<and> in_input_dim ins \<noteq> None then in_input_dim ins = Some (length features)
      else if feature_list ins = [] then True
      else set (feature_list ins) - set features = {})"

record capability =
  cb_fine_tuning :: bool
  cb_full_retraining :: bool

definition assess_capability :: "inspection \<Rightarrow> string list \<Rightarrow> capability" where
  "assess_capability ins features = \<lparr>
     cb_fine_tuning = (in_partial_fit ins \<or> in_warm_start ins) \<and> schema_compatible ins features,
     cb_full_retraining = schema_compatible ins features\<rparr>"

section \<open>Producing a candidate\<close>

record candidate =
  cd_llm_engine :: bool
  cd_applied :: "strategy option"

text \<open>\<^verbatim>\<open>_applied\<close>.\<close>

definition applied :: "strategy \<Rightarrow> candidate \<Rightarrow> candidate" where
  "applied s c = c\<lparr>cd_applied := Some s\<rparr>"

definition adapter_failure :: "exn \<Rightarrow> bool" where
  "adapter_failure e \<longleftrightarrow> kind LlmUnavailableError e \<or> kind UnsafeCodeError e \<or> kind SandboxExecutionError e"

text \<open>
  \<^verbatim>\<open>_produce_candidate\<close>: \<open>native\<close> is the model type plugin, \<open>generate\<close> the LLM adapter (\<open>None\<close>
  without an LLM) and \<open>on_failure\<close> the callback told of its failure.
\<close>

definition produce_candidate ::
  "capability \<Rightarrow> (strategy \<Rightarrow> ('w, candidate) run) \<Rightarrow> ('w, candidate) run option \<Rightarrow> (exn \<Rightarrow> ('w, unit) run)
    \<Rightarrow> strategy \<Rightarrow> ('w, candidate) run" where
  "produce_candidate cap native generate on_failure wanted =
     (let chosen = (if wanted = FINE_TUNING \<and> \<not> cb_fine_tuning cap \<and> cb_full_retraining cap then FULL_RETRAINING else wanted);
          run = (\<lambda>s. thenR (native s) (\<lambda>c. retR (applied s c)));
          retrain_instead = (chosen = FINE_TUNING \<and> cb_full_retraining cap)
      in catchR (run chosen) (kind UnsupportedAdaptationError) (\<lambda>unsupported.
           case generate of
             None \<Rightarrow> if retrain_instead then run FULL_RETRAINING else raiseR unsupported
           | Some gen \<Rightarrow>
               thenR (catchR (thenR gen (\<lambda>c. retR (Some c))) adapter_failure
                 (\<lambda>e. thenR (on_failure e) (\<lambda>_. if \<not> retrain_instead then raiseR unsupported else retR None)))
               (\<lambda>made. case made of Some c \<Rightarrow> retR (applied chosen c) | None \<Rightarrow> run FULL_RETRAINING)))"

definition applied_right :: "capability \<Rightarrow> strategy \<Rightarrow> exn + candidate \<Rightarrow> bool" where
  "applied_right cap wanted r \<longleftrightarrow> (\<forall>c. r = Inr c \<longrightarrow> cd_applied c = Some wanted
     \<or> wanted = FINE_TUNING \<and> cb_full_retraining cap \<and> cd_applied c = Some FULL_RETRAINING)"

text \<open>What is carried out is what was decided, or a full retrain in the place of a fine-tuning.\<close>

lemma wlp_run_applied: "applied_right cap wanted (Inr (c\<lparr>cd_applied := Some s\<rparr>)) \<Longrightarrow> wlp (thenR m (\<lambda>c. retR (applied s c))) (\<lambda>r _. applied_right cap wanted r) w"
  by (rule wlp_then[where P = "\<lambda>_ _. True"]) (auto simp: applied_right_def applied_def wlp_retR)

lemma produce_applies:
  "wlp (produce_candidate cap native generate on_failure wanted) (\<lambda>r _. applied_right cap wanted r) w"
proof -
  define chosen where "chosen = (if wanted = FINE_TUNING \<and> \<not> cb_fine_tuning cap \<and> cb_full_retraining cap then FULL_RETRAINING else wanted)"
  define instead where "instead \<longleftrightarrow> chosen = FINE_TUNING \<and> cb_full_retraining cap"
  let ?run = "\<lambda>s. thenR (native s) (\<lambda>c. retR (applied s c))" and ?Q = "\<lambda>r _. applied_right cap wanted r"
  have right: "applied_right cap wanted (Inr (applied chosen c))" for c
    by (auto simp: chosen_def applied_right_def applied_def)
  have retrain: "wlp (?run FULL_RETRAINING) ?Q v" if instead for v
    by (rule wlp_run_applied) (use that in \<open>auto simp: instead_def chosen_def applied_right_def split: if_splits\<close>)
  have raised: "wlp (raiseR e) ?Q v" for e v by (simp add: wlp_raiseR applied_right_def)
  have gen: "wlp (thenR (catchR (thenR gen (\<lambda>c. retR (Some c))) adapter_failure
        (\<lambda>e. thenR (on_failure e) (\<lambda>_. if \<not> instead then raiseR u else retR None)))
      (\<lambda>made. case made of Some c \<Rightarrow> retR (applied chosen c) | None \<Rightarrow> ?run FULL_RETRAINING)) ?Q v" for gen u v
  proof (rule wlp_then[where P = "\<lambda>r _. r = Inr None \<longrightarrow> instead"])
    show "wlp (catchR (thenR gen (\<lambda>c. retR (Some c))) adapter_failure
        (\<lambda>e. thenR (on_failure e) (\<lambda>_. if \<not> instead then raiseR u else retR None))) (\<lambda>r _. r = Inr None \<longrightarrow> instead) v"
      unfolding wlp_catchR wlp_thenR wlp_retR
      by (rule wlp_mono[OF wlp_True]) (auto simp: wlp_thenR wlp_raiseR wlp_retR split: sum.split intro!: wlp_mono[OF wlp_True])
  next
    fix made :: "candidate option" and v'
    assume md: "Inr made = (Inr None :: exn + candidate option) \<longrightarrow> instead"
    show "wlp (case made of Some c \<Rightarrow> retR (applied chosen c) | None \<Rightarrow> ?run FULL_RETRAINING) ?Q v'"
      by (cases made) (use md retrain right in \<open>simp_all add: wlp_retR\<close>)
  qed (simp add: applied_right_def)
  have handler: "wlp (case generate of None \<Rightarrow> if instead then ?run FULL_RETRAINING else raiseR u
      | Some gen \<Rightarrow> thenR (catchR (thenR gen (\<lambda>c. retR (Some c))) adapter_failure
          (\<lambda>e. thenR (on_failure e) (\<lambda>_. if \<not> instead then raiseR u else retR None)))
        (\<lambda>made. case made of Some c \<Rightarrow> retR (applied chosen c) | None \<Rightarrow> ?run FULL_RETRAINING)) ?Q v" for u v
    by (cases generate) (simp_all add: gen retrain raised)
  have first: "wlp (?run chosen) ?Q v" for v
    by (rule wlp_run_applied) (use right in \<open>simp add: applied_def\<close>)
  show ?thesis
    unfolding produce_candidate_def Let_def chosen_def[symmetric] instead_def[symmetric] wlp_catchR
  proof (rule wlp_mono[OF first])
    fix r :: "exn + candidate" and v assume r: "applied_right cap wanted r"
    show "case r of Inl e \<Rightarrow> if kind UnsupportedAdaptationError e then wlp (case generate of
          None \<Rightarrow> if instead then ?run FULL_RETRAINING else raiseR e
        | Some gen \<Rightarrow> thenR (catchR (thenR gen (\<lambda>c. retR (Some c))) adapter_failure
            (\<lambda>e'. thenR (on_failure e') (\<lambda>_. if \<not> instead then raiseR e else retR None)))
            (\<lambda>made. case made of None \<Rightarrow> ?run FULL_RETRAINING | Some c \<Rightarrow> retR (applied chosen c))) ?Q v
        else ?Q (Inl e) v | Inr x \<Rightarrow> ?Q (Inr x) v"
      using r handler by (cases r) (simp_all only: sum.case split: if_splits, auto simp: applied_right_def)
  qed
qed

end
