(* ===== verification/Pipeline.thy ===== *)
theory Pipeline
  imports Decision_Engine Training Rollout Jobs
begin

text \<open>
  One drift event through all four members (\<^verbatim>\<open>orchestrator/pipeline.py\<close>): stop early, reuse a
  registered version, or decide, adapt, validate, register and deliver. The reuse decision, the
  decision engine, the training split and its leakage checks, the fallbacks of
  \<^verbatim>\<open>_produce_candidate\<close>, promotion and the rollout controller are the models of the other
  theories. What works on data frames and model objects (reading and cleaning rows, scoring
  versions, loading a model, the engines, the validation gate's numbers, serializing a model)
  is a field of \<open>pipeline\<close>: any behaviour, unless a property says otherwise.

  \<open>pi_asked\<close> lists the stages reported so far; \<open>on_stage\<close> says whether reporting one raises
  (the job was cancelled, timed out or lost its lease). Reasons, metrics, spans and the stamping
  of LLM calls are not kept; of the tables the pipeline writes, the audit trail is.
\<close>

section \<open>State and parameters\<close>

record 'w pipe =
  pi_sess :: "'w sess"
  pi_asked :: "job_status list"

definition onS :: "('w sess, 'a) run \<Rightarrow> ('w pipe, 'a) run" where
  "onS m s = map_option (\<lambda>(r, ss). (r, s\<lparr>pi_sess := ss\<rparr>)) (m (pi_sess s))"

datatype analysis = Stopped | Packaged package

record gate_report =
  rp_passed :: bool
  rp_gate :: "bool option"

record 'w pipeline =
  pl_controller :: "'w controller"
  pl_candidate_alias :: string
  pl_reuse_enabled :: bool
  pl_min_rows :: nat
  pl_fraction :: rat
  pl_delivery :: string
  pl_member_settings :: member_settings
  pl_leakage :: leakage_settings
  pl_supported :: "string list"
  pl_client :: "llm option"
  pl_analyze :: "string option \<Rightarrow> ('w sess, analysis) run"
  pl_rows :: "package \<Rightarrow> ('w sess, data_row list) run"
  pl_pool :: "package \<Rightarrow> nat option"
  pl_persist :: "data_row list \<Rightarrow> ('w sess, unit) run"
  pl_columns :: "data_row list \<Rightarrow> string list"
  pl_evaluate :: "string \<Rightarrow> data_row list \<Rightarrow> ('w sess, version_eval list) run"
  pl_load :: "artifact \<Rightarrow> string \<Rightarrow> ('w sess, inspection) run"
  pl_target_leaks :: "string list \<Rightarrow> data_row list \<Rightarrow> bool"
  pl_native :: "strategy \<Rightarrow> string list \<Rightarrow> data_row list \<Rightarrow> ('w sess, candidate) run"
  pl_generate :: "string list \<Rightarrow> data_row list \<Rightarrow> ('w sess, candidate) run"
  pl_file :: "('w sess, artifact) run"
  pl_validate :: "candidate \<Rightarrow> data_row list \<Rightarrow> ('w sess, gate_report) run"
  pl_register :: "candidate \<Rightarrow> ('w sess, string) run"
  pl_snapshot :: "string \<Rightarrow> ('w sess, (string \<times> string) list) run"

text \<open>What holds for one job: the event, its job id (\<open>None\<close> outside the job wrapper), the fresh id
  of a rollout and the clock.\<close>

record job_ctx =
  jc_event :: drift_event
  jc_job :: "string option"
  jc_rollout_id :: string
  jc_now :: time

record job_report =
  jr_outcome :: outcome
  jr_live :: "string option"
  jr_previous :: "string option"
  jr_registered :: "string option"
  jr_strategy :: "strategy option"

type_synonym on_stage = "job_status list \<Rightarrow> job_status \<Rightarrow> exn option"

section \<open>Small steps\<close>

text \<open>\<^verbatim>\<open>_stage\<close>: commit, then report the stage.\<close>

definition report_stage :: "on_stage \<Rightarrow> job_status \<Rightarrow> ('w pipe, unit) run" where
  "report_stage J st s = (let s' = s\<lparr>pi_asked := pi_asked s @ [st]\<rparr>
     in Some (case J (pi_asked s) st of None \<Rightarrow> Inr () | Some e \<Rightarrow> Inl e, s'))"

definition enter_stage :: "on_stage \<Rightarrow> job_status \<Rightarrow> ('w pipe, unit) run" where
  "enter_stage J st = thenR (onS commit) (\<lambda>_. report_stage J st)"

definition pipe_audit :: "job_ctx \<Rightarrow> audit_action \<Rightarrow> string option \<Rightarrow> string \<Rightarrow> ('w sess, unit) run" where
  "pipe_audit x action version status = writeD (record_audit action ''system'' (jc_job x)
     (Some (ev_model_id (jc_event x))) version status)"

abbreviation (input) pl_registry :: "'w pipeline \<Rightarrow> 'w registry" where "pl_registry P \<equiv> ct_registry (pl_controller P)"
abbreviation (input) pl_live_alias :: "'w pipeline \<Rightarrow> string" where "pl_live_alias P \<equiv> ct_live_alias (pl_controller P)"

definition promotion_key :: "job_ctx \<Rightarrow> string \<Rightarrow> string option" where
  "promotion_key x suffix = (case jc_job x of None \<Rightarrow> None
     | Some j \<Rightarrow> if j = '''' then None else Some (j @ '':'' @ suffix))"

definition record_evaluations :: "job_ctx \<Rightarrow> version_eval list \<Rightarrow> ('w sess, unit) run" where
  "record_evaluations x evals = thenR (writeD (\<lambda>d. fold (\<lambda>e. record_audit MODEL_VERSION_EVALUATED ''system'' (jc_job x)
     (Some (ev_model_id (jc_event x))) (Some (ve_version e)) ''OK'') evals d)) (\<lambda>_. db_io)"

definition record_gate :: "job_ctx \<Rightarrow> string \<Rightarrow> gate_report \<Rightarrow> ('w sess, unit) run" where
  "record_gate x live rep = (case rp_gate rep of None \<Rightarrow> retR ()
     | Some _ \<Rightarrow> thenR db_io (\<lambda>_. pipe_audit x GATE_DECIDED (Some live) ''OK''))"

definition stop_with :: "outcome \<Rightarrow> strategy option \<Rightarrow> string option \<Rightarrow> job_report" where
  "stop_with oc strat live = \<lparr>jr_outcome = oc, jr_live = live, jr_previous = None, jr_registered = None, jr_strategy = strat\<rparr>"

text \<open>\<^verbatim>\<open>record_artifact_checksum\<close>.\<close>

definition record_artifact_checksum :: "'w registry \<Rightarrow> string \<Rightarrow> string \<Rightarrow> ('w, string) act" where
  "record_artifact_checksum R name v = thenA (rg_download R name v) (\<lambda>a.
     thenA (rg_set_tags R name v [(ap_checksum_tag (rg_policy R), ar_sha a)]) (\<lambda>_. retA (ar_sha a)))"

text \<open>The candidate's file, still the one that was hashed.\<close>

definition recheck_file :: "'w pipeline \<Rightarrow> string \<Rightarrow> ('w sess, unit) run" where
  "recheck_file P sha = thenR (pl_file P) (\<lambda>a. onW (verify_checksum a sha))"

definition columns_missing :: "'w pipeline \<Rightarrow> string list \<Rightarrow> data_row list \<Rightarrow> bool" where
  "columns_missing P needed rows \<longleftrightarrow> \<not> list_all (\<lambda>c. c \<in> set (pl_columns P rows)) needed"

section \<open>Delivery\<close>

definition start_delivery_rollout ::
  "'w pipeline \<Rightarrow> on_stage \<Rightarrow> job_ctx \<Rightarrow> strategy \<Rightarrow> string \<Rightarrow> string \<Rightarrow> ('w pipe, job_report) run" where
  "start_delivery_rollout P J x strat live new =
     thenR (enter_stage J PROMOTING) (\<lambda>_.
     thenR (onS (start_rollout (pl_controller P) (jc_now x) (jc_rollout_id x) \<lparr>sa_model = ev_model_id (jc_event x),
       sa_strategy = pl_delivery P, sa_stable = live, sa_candidate = new, sa_job = jc_job x, sa_policy = None\<rparr>)) (\<lambda>ro.
       let rep = (stop_with O_DELIVERING (Some strat) (Some live))\<lparr>jr_registered := Some new\<rparr> in
       if ro_state ro = PROMOTED then retR (rep\<lparr>jr_outcome := O_REGISTERED, jr_live := Some new, jr_previous := Some live\<rparr>)
       else if ro_state ro = roll_state.ROLLED_BACK then retR (rep\<lparr>jr_outcome := O_ROLLED_BACK\<rparr>)
       else retR rep))"

text \<open>The default, \<^verbatim>\<open>blue_green\<close>: LIVE moves at once.\<close>

definition promote_now ::
  "'w pipeline \<Rightarrow> on_stage \<Rightarrow> job_ctx \<Rightarrow> strategy \<Rightarrow> string \<Rightarrow> string \<Rightarrow> ('w pipe, job_report) run" where
  "promote_now P J x strat live new =
     thenR (enter_stage J PROMOTING) (\<lambda>_.
       let rep = \<lparr>jr_outcome = O_REGISTERED, jr_live = Some new, jr_previous = Some live, jr_registered = Some new,
             jr_strategy = Some strat\<rparr> in
       catchR (thenR (onS (promote_version (pl_registry P) (ct_deployer (pl_controller P)) (pl_live_alias P)
           \<lparr>pa_model = ev_model_id (jc_event x), pa_version = new, pa_kind = PROMOTE_CANDIDATE, pa_actor = ''system'',
             pa_job = jc_job x, pa_expected = Some live, pa_key = promotion_key x ''promote''\<rparr>)) (\<lambda>_. retR rep))
         (kind PromotionError)
         (\<lambda>_. retR (rep\<lparr>jr_outcome := O_ROLLED_BACK, jr_live := Some live, jr_previous := None\<rparr>)))"

section \<open>Registration\<close>

definition register_and_deliver ::
  "'w pipeline \<Rightarrow> on_stage \<Rightarrow> job_ctx \<Rightarrow> string \<Rightarrow> strategy \<Rightarrow> string \<Rightarrow> string \<Rightarrow> candidate \<Rightarrow> ('w pipe, job_report) run" where
  "register_and_deliver P J x name strat live sha c =
     thenR (enter_stage J REGISTERING) (\<lambda>_.
     thenR (onS (recheck_file P sha)) (\<lambda>_.
     thenR (onS (pl_register P c)) (\<lambda>new.
     thenR (onS (onW (record_artifact_checksum (pl_registry P) name new))) (\<lambda>_.
     thenR (onS (pipe_audit x MODEL_REGISTERED (Some new) ''OK'')) (\<lambda>_.
     thenR (onS (onW (rg_set_alias (pl_registry P) name (pl_candidate_alias P) new))) (\<lambda>_.
     thenR (onS (pl_snapshot P new)) (\<lambda>tags.
     thenR (onS (onW (rg_set_tags (pl_registry P) name new tags))) (\<lambda>_.
       if pl_delivery P \<noteq> ''blue_green'' then start_delivery_rollout P J x strat live new
       else promote_now P J x strat live new))))))))"

section \<open>Validation\<close>

definition validate_and_register ::
  "'w pipeline \<Rightarrow> on_stage \<Rightarrow> job_ctx \<Rightarrow> string \<Rightarrow> string list \<Rightarrow> strategy \<Rightarrow> string \<Rightarrow> data_row list \<Rightarrow> string \<Rightarrow> candidate
    \<Rightarrow> ('w pipe, job_report) run" where
  "validate_and_register P J x name needed strat live holdout sha c =
     thenR (enter_stage J VALIDATING_CANDIDATE) (\<lambda>_.
     thenR (onS (recheck_file P sha)) (\<lambda>_.
     if holdout \<noteq> [] \<and> columns_missing P needed holdout then raiseR (err ArtifactError [])
     else
     thenR (onS (pipe_audit x VALIDATION_STARTED (Some live) ''OK'')) (\<lambda>_.
     thenR (onS (pl_validate P c holdout)) (\<lambda>rep.
     thenR (onS (record_gate x live rep)) (\<lambda>_.
     thenR (onS (pipe_audit x (if rp_passed rep then VALIDATION_PASSED else VALIDATION_FAILED) (Some live) ''OK'')) (\<lambda>_.
       if \<not> rp_passed rep then retR (stop_with O_REJECTED (Some strat) (Some live))
       else register_and_deliver P J x name strat live sha c))))))"

section \<open>Adaptation\<close>

text \<open>\<^verbatim>\<open>_llm_failed\<close>: the audit rows are committed at once.\<close>

definition llm_failed :: "job_ctx \<Rightarrow> string \<Rightarrow> exn \<Rightarrow> ('w sess, unit) run" where
  "llm_failed x live e =
     thenR (pipe_audit x ADAPTER_GENERATED (Some live) (if kind SandboxExecutionError e then ''OK'' else ''FAILED'')) (\<lambda>_.
     thenR (if kind SandboxExecutionError e then pipe_audit x SANDBOX_EXECUTED (Some live) ''FAILED'' else retR ()) (\<lambda>_.
       commit))"

definition audit_llm_engine :: "job_ctx \<Rightarrow> string \<Rightarrow> candidate \<Rightarrow> ('w sess, unit) run" where
  "audit_llm_engine x live c = (if cd_llm_engine c
     then thenR (pipe_audit x ADAPTER_GENERATED (Some live) ''OK'') (\<lambda>_. pipe_audit x SANDBOX_EXECUTED (Some live) ''OK'')
     else retR ())"

text \<open>From the loaded LIVE model to a candidate whose file is hashed. The features are the
  model's own or, when it names none, the columns of the training rows but the target.\<close>

definition features_of :: "'w pipeline \<Rightarrow> string \<Rightarrow> inspection \<Rightarrow> data_row list \<Rightarrow> string list" where
  "features_of P target ins train = (if feature_list ins \<noteq> [] then feature_list ins
     else filter (\<lambda>c. c \<noteq> target) (pl_columns P train))"

definition make_candidate ::
  "'w pipeline \<Rightarrow> job_ctx \<Rightarrow> string \<Rightarrow> string list \<Rightarrow> inspection \<Rightarrow> strategy \<Rightarrow> string \<Rightarrow> data_row list
    \<Rightarrow> ('w sess, candidate \<times> string) run" where
  "make_candidate P x target features ins strat live kept =
     (if columns_missing P (features @ [target]) kept then raiseR (err ArtifactError [])
      else
      thenR (produce_candidate (assess_capability ins features) (\<lambda>s. pl_native P s features kept)
        (map_option (\<lambda>_. pl_generate P features kept) (pl_client P)) (llm_failed x live) strat) (\<lambda>c.
      thenR (pl_file P) (\<lambda>a.
      thenR (onW (check_size a (ap_max_bytes (rg_policy (pl_registry P))))) (\<lambda>_.
      thenR (audit_llm_engine x live c) (\<lambda>_. retR (c, ar_sha a))))))"

definition adapt_live ::
  "'w pipeline \<Rightarrow> on_stage \<Rightarrow> job_ctx \<Rightarrow> model_meta \<Rightarrow> string \<Rightarrow> strategy \<Rightarrow> string \<Rightarrow> data_row list \<Rightarrow> data_row list
    \<Rightarrow> ('w pipe, job_report) run" where
  "adapt_live P J x meta target strat live rows holdout =
     thenR (onS (pipe_audit x (if strat = FINE_TUNING then FINE_TUNE_STARTED else RETRAIN_STARTED) (Some live) ''OK'')) (\<lambda>_.
     thenR (enter_stage J ADAPTING) (\<lambda>_.
     thenR (onS (onW (verify_version_artifact (pl_registry P) (mm_name meta) live))) (\<lambda>(a, _).
     case mm_framework meta of None \<Rightarrow> raiseR (err ArtifactError [])
     | Some fw \<Rightarrow>
       thenR (onS (pl_load P a fw)) (\<lambda>ins.
         let train = train_rows rows holdout; features = features_of P target ins train in
         case check_leakage (pl_leakage P) (pl_target_leaks P features) (features @ [target]) train holdout of
           Inl e \<Rightarrow> raiseR e
         | Inr kept \<Rightarrow>
             thenR (onS (make_candidate P x target features ins strat live kept)) (\<lambda>(c, sha).
               validate_and_register P J x (mm_name meta) (features @ [target]) strat live holdout sha c)))))"

section \<open>Deciding\<close>

definition decide_and_adapt ::
  "'w pipeline \<Rightarrow> on_stage \<Rightarrow> job_ctx \<Rightarrow> model_meta \<Rightarrow> string option \<Rightarrow> package \<Rightarrow> data_row list \<Rightarrow> data_row list
    \<Rightarrow> ('w pipe, job_report) run" where
  "decide_and_adapt P J x meta live pk rows holdout =
     thenR (enter_stage J DECISION_PENDING) (\<lambda>_.
       let dn = decide_strategy (pl_member_settings P) (pl_supported P) pk (pl_client P) in
       thenR (onS (pipe_audit x ADAPTATION_DECISION_CREATED live ''OK'')) (\<lambda>_.
         if dn_strategy dn \<notin> {FINE_TUNING, FULL_RETRAINING} then retR (stop_with O_NO_ACTION (Some (dn_strategy dn)) live)
         else if str_or (mm_target meta) [] = [] then raiseR (err ArtifactError [])
         else thenR (case live of Some v \<Rightarrow> retR v
               | None \<Rightarrow> onS (onW (rg_get_alias (pl_registry P) (mm_name meta) (pl_live_alias P)))) (\<lambda>v.
              adapt_live P J x meta (str_or (mm_target meta) []) (dn_strategy dn) v rows holdout)))"

definition reuse_version ::
  "'w pipeline \<Rightarrow> on_stage \<Rightarrow> job_ctx \<Rightarrow> string option \<Rightarrow> string \<Rightarrow> ('w pipe, job_report) run" where
  "reuse_version P J x live v =
     thenR (onS (pipe_audit x MODEL_REUSE_SELECTED (Some v) ''OK'')) (\<lambda>_.
     thenR (enter_stage J PROMOTING) (\<lambda>_.
     thenR (onS (promote_version (pl_registry P) (ct_deployer (pl_controller P)) (pl_live_alias P)
       \<lparr>pa_model = ev_model_id (jc_event x), pa_version = v, pa_kind = REUSE, pa_actor = ''system'',
         pa_job = jc_job x, pa_expected = live, pa_key = promotion_key x ''reuse''\<rparr>)) (\<lambda>_.
       retR \<lparr>jr_outcome = O_REUSED, jr_live = Some v, jr_previous = live, jr_registered = None, jr_strategy = None\<rparr>)))"

definition reusable :: "'w pipeline \<Rightarrow> model_meta \<Rightarrow> string option \<Rightarrow> data_row list \<Rightarrow> bool" where
  "reusable P meta live holdout \<longleftrightarrow> pl_reuse_enabled P \<and> live \<noteq> None \<and> mm_framework meta \<noteq> None
     \<and> pl_min_rows P \<le> length holdout
     \<and> (case mm_target meta of None \<Rightarrow> False | Some t \<Rightarrow> t \<in> set (pl_columns P holdout))"

text \<open>A \<open>None\<close> of \<open>decide_reuse\<close> is the ValueError of a metric LIVE cannot have been scored with.\<close>

definition evaluate_and_decide ::
  "'w pipeline \<Rightarrow> on_stage \<Rightarrow> job_ctx \<Rightarrow> model_meta \<Rightarrow> string option \<Rightarrow> package \<Rightarrow> data_row list \<Rightarrow> data_row list
    \<Rightarrow> ('w pipe, job_report) run" where
  "evaluate_and_decide P J x meta live pk rows holdout =
     thenR (enter_stage J EVALUATING_VERSIONS) (\<lambda>_.
     thenR (onS (pl_evaluate P (str_or live []) holdout)) (\<lambda>evals.
     case decide_reuse (pl_member_settings P) (pk_max_psi pk) evals of
       None \<Rightarrow> raiseR (err AdaptationError [])
     | Some rd \<Rightarrow>
         thenR (onS (record_evaluations x evals)) (\<lambda>_.
         thenR (enter_stage J REUSE_DECISION) (\<lambda>_.
           case (if rd_verdict rd = REUSE_EXISTING_VERSION then rd_selected rd else None) of
             Some v \<Rightarrow> reuse_version P J x live v
           | None \<Rightarrow> decide_and_adapt P J x meta live (pk\<lparr>pk_evals := evals\<rparr>) rows holdout))))"

definition with_package ::
  "'w pipeline \<Rightarrow> on_stage \<Rightarrow> job_ctx \<Rightarrow> model_meta \<Rightarrow> string option \<Rightarrow> package \<Rightarrow> ('w pipe, job_report) run" where
  "with_package P J x meta live pk =
     thenR (onS (pl_rows P pk)) (\<lambda>rows.
       if rows = [] then raiseR (err ArtifactError [])
       else let holdout = held_out (pl_pool P pk) (pl_fraction P) (pl_min_rows P) rows in
       thenR (onS (pl_persist P holdout)) (\<lambda>_.
       thenR (onS (pipe_audit x CURRENT_DATA_CREATED live ''OK'')) (\<lambda>_.
         if reusable P meta live holdout then evaluate_and_decide P J x meta live pk rows holdout
         else decide_and_adapt P J x meta live (pk\<lparr>pk_evals := []\<rparr>) rows holdout)))"

text \<open>\<^verbatim>\<open>_run_adaptation_job\<close>. Of an unregistered model \<^verbatim>\<open>analyze\<close> raises; an exception stands for
  the assertion after it.\<close>

definition run_pipeline :: "'w pipeline \<Rightarrow> on_stage \<Rightarrow> job_ctx \<Rightarrow> ('w pipe, job_report) run" where
  "run_pipeline P J x =
     thenR (onS (readD (\<lambda>d. by_key mm_model (ev_model_id (jc_event x)) (metas d)))) (\<lambda>found.
     thenR (case found of None \<Rightarrow> retR None
        | Some meta \<Rightarrow> onS (onW (current_live (pl_registry P) (mm_name meta) (pl_live_alias P)))) (\<lambda>live.
       if ev_model_version (jc_event x) \<noteq> None \<and> live \<noteq> None \<and> ev_model_version (jc_event x) \<noteq> live
       then retR (stop_with O_NO_ACTION None live)
       else thenR (onS (readD (\<lambda>d. if found = None then None else active_rollout (ev_model_id (jc_event x)) d))) (\<lambda>flight.
         if flight \<noteq> None then retR (stop_with O_ROLLOUT_IN_PROGRESS None live)
         else thenR (onS (pl_analyze P live)) (\<lambda>an.
           case found of None \<Rightarrow> raiseR (err ModelNotFoundError [])
           | Some meta \<Rightarrow> (case an of Stopped \<Rightarrow> retR (stop_with O_NO_ACTION None live)
               | Packaged pk \<Rightarrow> with_package P J x meta live pk)))))"

text \<open>What the job wrapper keeps of a report (\<^verbatim>\<open>JobResult\<close>).\<close>

definition job_result_of :: "job_report \<Rightarrow> job_result" where
  "job_result_of rep = \<lparr>r_outcome = jr_outcome rep, r_strategy = jr_strategy rep\<rparr>"

end
