(* ===== verification/Pipeline_Props.thy ===== *)
theory Pipeline_Props
  imports Pipeline Promotion_Props Worker
begin

text \<open>
  The pipeline and the state machine of jobs: the stages it reports, whatever its members and
  the job wrapper do, are a path of the machine, and the status its outcome ends in is allowed
  from the last of them.
\<close>

section \<open>What is asked of the job wrapper\<close>

text \<open>\<open>asks xs m Q\<close>: run with the stages \<open>xs\<close> reported, \<open>m\<close> ends in a result and reported stages
  that satisfy \<open>Q\<close>, if it ends.\<close>

definition asks :: "job_status list \<Rightarrow> ('w pipe, 'a) run \<Rightarrow> (exn + 'a \<Rightarrow> job_status list \<Rightarrow> bool) \<Rightarrow> bool" where
  "asks xs m Q \<longleftrightarrow> (\<forall>s. pi_asked s = xs \<longrightarrow> wlp m (\<lambda>r s'. Q r (pi_asked s')) s)"

named_theorems asks_intros "stages reported by a composition"

definition quiet :: "('w pipe, 'a) run \<Rightarrow> bool" where
  "quiet m \<longleftrightarrow> (\<forall>xs. asks xs m (\<lambda>_ ys. ys = xs))"

lemma quietD: "quiet m \<Longrightarrow> pi_asked s = xs \<Longrightarrow> wlp m (\<lambda>_ s'. pi_asked s' = xs) s"
  unfolding quiet_def asks_def by blast

lemma quiet_onS: "quiet (onS m)"
  by (auto simp: quiet_def asks_def wlp_def onS_def split: option.split)

lemma quiet_ret: "quiet (retR x)"
  by (simp add: quiet_def asks_def wlp_retR)

lemma quiet_option: "quiet m \<Longrightarrow> (\<And>x. quiet (f x)) \<Longrightarrow> quiet (case z of None \<Rightarrow> m | Some x \<Rightarrow> f x)"
  by (cases z) auto

lemma asks_then:
  fixes m :: "('w pipe, 'b) run"
  assumes m: "quiet m" and fails: "\<And>e. Q (Inl e) xs" and f: "\<And>x. asks xs (f x) Q"
  shows "asks xs (thenR m f) Q"
  unfolding asks_def
proof (intro allI impI)
  fix s :: "'w pipe" assume s: "pi_asked s = xs"
  from quietD[OF m s] show "wlp (thenR m f) (\<lambda>r s'. Q r (pi_asked s')) s"
    by (rule wlp_then) (use fails f in \<open>simp_all add: asks_def\<close>)
qed

lemmas asks_thenS [asks_intros] = asks_then[OF quiet_onS]
  asks_then[OF quiet_option[OF quiet_ret quiet_onS]] asks_then[OF quiet_option[OF quiet_onS quiet_ret]]

lemma asks_stage [asks_intros]:
  fixes f :: "unit \<Rightarrow> ('w pipe, 'b) run"
  assumes fails: "\<And>e. Q (Inl e) xs" "\<And>e. Q (Inl e) (xs @ [st])" and f: "asks (xs @ [st]) (f ()) Q"
  shows "asks xs (thenR (enter_stage J st) f) Q"
  unfolding asks_def
proof (intro allI impI)
  fix s :: "'w pipe" assume s: "pi_asked s = xs"
  have commit: "wlp (onS commit) (\<lambda>_ s'. pi_asked s' = xs) s" by (rule quietD[OF quiet_onS s])
  have "wlp (enter_stage J st) (\<lambda>r s'. (case r of Inl e \<Rightarrow> pi_asked s' \<in> {xs, xs @ [st]} | Inr _ \<Rightarrow> pi_asked s' = xs @ [st])) s"
    unfolding enter_stage_def
    by (rule wlp_then[OF commit]) (auto simp: report_stage_def wlp_def split: option.split)
  then show "wlp (thenR (enter_stage J st) f) (\<lambda>r s'. Q r (pi_asked s')) s"
    by (rule wlp_then) (use fails f in \<open>auto simp: asks_def\<close>)
qed

lemma asks_leaf [asks_intros]: "Q (Inr x) xs \<Longrightarrow> asks xs (retR x) Q" "Q (Inl e) xs \<Longrightarrow> asks xs (raiseR e) Q"
  by (simp_all add: asks_def wlp_retR wlp_raiseR)

lemma asks_if [asks_intros]: "(b \<Longrightarrow> asks xs m Q) \<Longrightarrow> (\<not> b \<Longrightarrow> asks xs n Q) \<Longrightarrow> asks xs (if b then m else n) Q"
  by simp

lemma asks_option [asks_intros]: "asks xs m Q \<Longrightarrow> (\<And>x. asks xs (f x) Q) \<Longrightarrow> asks xs (case z of None \<Rightarrow> m | Some x \<Rightarrow> f x) Q"
  by (cases z) auto

lemma asks_sum [asks_intros]: "(\<And>e. asks xs (g e) Q) \<Longrightarrow> (\<And>x. asks xs (f x) Q) \<Longrightarrow> asks xs (case z of Inl e \<Rightarrow> g e | Inr x \<Rightarrow> f x) Q"
  by (cases z) auto

lemma asks_pair [asks_intros]: "(\<And>x y. asks xs (f x y) Q) \<Longrightarrow> asks xs (case z of (x, y) \<Rightarrow> f x y) Q"
  by (cases z) auto

lemma asks_let [asks_intros]: "asks xs (f z) Q \<Longrightarrow> asks xs (let x = z in f x) Q"
  by simp

lemma asks_catch [asks_intros]:
  fixes m :: "('w pipe, 'b) run"
  assumes m: "asks xs m (\<lambda>r ys. ys = xs \<and> (\<forall>x. r = Inr x \<longrightarrow> Q (Inr x) xs))" and fails: "\<And>e. Q (Inl e) xs" and h: "\<And>e. asks xs (h e) Q"
  shows "asks xs (catchR m c h) Q"
  unfolding asks_def wlp_catchR
proof (intro allI impI)
  fix s :: "'w pipe" assume s: "pi_asked s = xs"
  show "wlp m (\<lambda>r w'. case r of Inl e \<Rightarrow> if c e then wlp (h e) (\<lambda>r s'. Q r (pi_asked s')) w' else Q (Inl e) (pi_asked w')
      | Inr x \<Rightarrow> Q (Inr x) (pi_asked w')) s"
    by (rule wlp_mono[OF m[unfolded asks_def, rule_format, OF s]]) (use fails h in \<open>auto simp: asks_def split: sum.split\<close>)
qed

lemma asks_analysis [asks_intros]:
  "asks xs m Q \<Longrightarrow> (\<And>x. asks xs (f x) Q) \<Longrightarrow> asks xs (case z of Stopped \<Rightarrow> m | Packaged x \<Rightarrow> f x) Q"
  by (cases z) auto

section \<open>A path of the state machine\<close>

fun stage_path :: "job_status \<Rightarrow> job_status list \<Rightarrow> bool" where
  "stage_path s [] = True"
| "stage_path s (t # ts) = (t \<in> set (allowed s) \<and> stage_path t ts)"

text \<open>An attempt starts in DATA_PREPARING.\<close>

definition follows :: "exn + job_report \<Rightarrow> job_status list \<Rightarrow> bool" where
  "follows r xs \<longleftrightarrow> stage_path DATA_PREPARING xs
     \<and> (\<forall>rep. r = Inr rep \<longrightarrow> outcome_status (job_result_of rep) \<in> set (allowed (last (DATA_PREPARING # xs))))"

lemma follows_Inl: "follows (Inl e) xs \<longleftrightarrow> stage_path DATA_PREPARING xs"
  by (simp add: follows_def)

lemma follows_Inr: "follows (Inr rep) xs \<longleftrightarrow> stage_path DATA_PREPARING xs
    \<and> outcome_status (job_result_of rep) \<in> set (allowed (last (DATA_PREPARING # xs)))"
  by (simp add: follows_def)

lemmas path_simps = follows_Inl follows_Inr outcome_status_def job_result_of_def stop_with_def

definition before_decision :: "job_status list set" where
  "before_decision = {[], [EVALUATING_VERSIONS, REUSE_DECISION]}"

lemma before_path:
  "xs \<in> before_decision \<Longrightarrow> stage_path DATA_PREPARING xs"
  "xs \<in> before_decision \<Longrightarrow> stage_path DATA_PREPARING (xs @ DECISION_PENDING # ys) \<longleftrightarrow> stage_path DECISION_PENDING ys"
  by (auto simp: before_decision_def)

lemma register_follows:
  assumes "xs \<in> before_decision"
  shows "asks (xs @ [DECISION_PENDING, ADAPTING, VALIDATING_CANDIDATE]) (register_and_deliver P J x name strat live sha c) follows"
  unfolding register_and_deliver_def start_delivery_rollout_def promote_now_def
  by (intro asks_intros; simp add: path_simps before_path[OF assms])

lemma validate_follows:
  assumes "xs \<in> before_decision"
  shows "asks (xs @ [DECISION_PENDING, ADAPTING]) (validate_and_register P J x name needed strat live holdout sha c) follows"
  using register_follows[OF assms] unfolding validate_and_register_def
  by (intro asks_intros; simp add: path_simps before_path[OF assms])

lemma adapt_follows:
  assumes "xs \<in> before_decision"
  shows "asks (xs @ [DECISION_PENDING]) (adapt_live P J x meta target strat live rows holdout) follows"
  using validate_follows[OF assms] unfolding adapt_live_def
  by (intro asks_intros; simp add: path_simps before_path[OF assms])

lemma decide_follows:
  assumes "xs \<in> before_decision"
  shows "asks xs (decide_and_adapt P J x meta live pk rows holdout) follows"
  using adapt_follows[OF assms] unfolding decide_and_adapt_def
  by (intro asks_intros; simp add: path_simps before_path[OF assms])

lemma reuse_follows: "asks [EVALUATING_VERSIONS, REUSE_DECISION] (reuse_version P J x live v) follows"
  unfolding reuse_version_def by (intro asks_intros; simp add: path_simps)

lemma evaluate_follows: "asks [] (evaluate_and_decide P J x meta live pk rows holdout) follows"
proof -
  have "[EVALUATING_VERSIONS, REUSE_DECISION] \<in> before_decision" by (simp add: before_decision_def)
  note decide_follows[OF this] reuse_follows
  then show ?thesis unfolding evaluate_and_decide_def by (intro asks_intros; simp add: path_simps)
qed

lemma package_follows: "asks [] (with_package P J x meta live pk) follows"
proof -
  have "[] \<in> before_decision" by (simp add: before_decision_def)
  note decide_follows[OF this] evaluate_follows
  then show ?thesis unfolding with_package_def by (intro asks_intros; simp add: path_simps)
qed

lemma pipeline_follows: "asks [] (run_pipeline P J x) follows"
  unfolding run_pipeline_def by (intro asks_intros package_follows; simp add: path_simps)

text \<open>C2. The pipeline and the state machine of jobs agree: whatever the members return or raise,
  whatever the database does and whether reporting a stage raises, the stages an attempt reports
  are a path of allowed transitions from DATA_PREPARING, and when it returns an outcome, the
  status that outcome ends the job in is allowed after the last of them.\<close>

theorem stages_follow_machine:
  assumes "run_pipeline P J x s = Some (r, s')" and "pi_asked s = []"
  shows "stage_path DATA_PREPARING (pi_asked s')
    \<and> (case r of Inl e \<Rightarrow> True
       | Inr rep \<Rightarrow> outcome_status (job_result_of rep) \<in> set (allowed (last (DATA_PREPARING # pi_asked s'))))"
proof -
  have "wlp (run_pipeline P J x) (\<lambda>r s'. follows r (pi_asked s')) s"
    using pipeline_follows[of P J x] assms(2) by (simp add: asks_def)
  from wlpD[OF this assms(1)] show ?thesis by (cases r) (simp_all add: follows_def)
qed

end
