(* ===== verification/Pipeline_Live.thy ===== *)
theory Pipeline_Live
  imports Pipeline_Props
begin

text \<open>
  What the pipeline says of LIVE and where LIVE is: on the filesystem registry and the alias
  deployment, with the inline promotion of \<^verbatim>\<open>blue_green\<close>, whatever fails.
\<close>

section \<open>Until LIVE moves\<close>

text \<open>\<open>untouched h nm la L ps ms\<close>: the alias \<open>la\<close> of \<open>nm\<close> is \<open>L\<close>, the promotions are \<open>ps\<close>, the models \<open>ms\<close>;
  the alias requests made begin with \<open>h\<close>.\<close>

definition untouched ::
  "alias_request list \<Rightarrow> string \<Rightarrow> string \<Rightarrow> string option \<Rightarrow> promo_row list \<Rightarrow> model_meta list \<Rightarrow> 'a world_scheme sess \<Rightarrow> bool" where
  "untouched h nm la L ps ms s \<longleftrightarrow> both (\<lambda>d. promos d = ps \<and> metas d = ms) s \<and> fs_live (ss_world s) nm la = L
     \<and> (\<exists>more. w_asked (ss_world s) = h @ more)"

definition beside_live :: "('a world_scheme sess, 'b) run \<Rightarrow> bool" where
  "beside_live m \<longleftrightarrow> (\<forall>h nm la L ps ms. keepsR (untouched h nm la L ps ms) m)"

text \<open>The members that are parameters: they move no alias and write no promotion and no model.\<close>

definition members_beside_live :: "'a world_scheme pipeline \<Rightarrow> bool" where
  "members_beside_live P \<longleftrightarrow> (\<forall>v. beside_live (pl_analyze P v)) \<and> (\<forall>k. beside_live (pl_rows P k))
     \<and> (\<forall>rows. beside_live (pl_persist P rows)) \<and> (\<forall>v rows. beside_live (pl_evaluate P v rows))
     \<and> (\<forall>a fw. beside_live (pl_load P a fw)) \<and> (\<forall>st fs rows. beside_live (pl_native P st fs rows))
     \<and> (\<forall>fs rows. beside_live (pl_generate P fs rows)) \<and> beside_live (pl_file P)
     \<and> (\<forall>c rows. beside_live (pl_validate P c rows)) \<and> (\<forall>c. beside_live (pl_register P c))
     \<and> (\<forall>v. beside_live (pl_snapshot P v))"

named_theorems beside_intros "operations that leave LIVE alone"

lemma untouched_faults [simp]: "untouched h nm la L ps ms (s\<lparr>ss_faults := fs\<rparr>) = untouched h nm la L ps ms s"
  by (simp add: untouched_def both_def)

lemma beside_db [beside_intros]: "beside_live db_io" "beside_live (readD f)" "beside_live commit"
proof -
  show "beside_live commit" unfolding beside_live_def
    by (intro allI keepsRI wlp_commitI) (simp_all add: untouched_def both_def)
qed (auto simp: beside_live_def keepsR_def wlp_simps split: list.split bool.split)

lemma beside_audit [beside_intros]: "beside_live (pipe_audit x action v status)"
  by (auto simp: beside_live_def keepsR_def wlp_simps pipe_audit_def untouched_def both_def record_audit_def)

lemma beside_world: "(\<And>w nm. fs_live (snd (m w)) nm la = fs_live w nm la \<and> (\<exists>more. w_asked (snd (m w)) = w_asked w @ more))
    \<Longrightarrow> keepsR (untouched h nm la L ps ms) (onW m)"
  unfolding keepsR_def wlp_onW untouched_def both_def by simp (metis append.assoc)

lemma beside_act [beside_intros]: "keepsA fs_live m \<Longrightarrow> keepsA w_asked m \<Longrightarrow> beside_live (onW m)"
  unfolding beside_live_def by (intro allI beside_world) (simp add: keepsA_def)

lemma beside_then [beside_intros]: "beside_live m \<Longrightarrow> (\<And>x. beside_live (f x)) \<Longrightarrow> beside_live (thenR m f)"
  unfolding beside_live_def by (intro allI keepsR_then) auto

lemma beside_catch [beside_intros]: "beside_live m \<Longrightarrow> (\<And>e. beside_live (h e)) \<Longrightarrow> beside_live (catchR m c h)"
  unfolding beside_live_def by (intro allI keepsR_catch) auto

lemma beside_leaf [beside_intros]: "beside_live (retR x)" "beside_live (raiseR e)"
  by (simp_all add: beside_live_def keepsR_leaf)

lemma beside_cases [beside_intros]:
  "(b \<Longrightarrow> beside_live m) \<Longrightarrow> (\<not> b \<Longrightarrow> beside_live n) \<Longrightarrow> beside_live (if b then m else n)"
  "beside_live m \<Longrightarrow> (\<And>x. z = Some x \<Longrightarrow> beside_live (f x)) \<Longrightarrow> beside_live (case z of None \<Rightarrow> m | Some x \<Rightarrow> f x)"
  by (cases z; simp)+

lemma beside_record_evaluations [beside_intros]: "beside_live (record_evaluations x evals)"
proof -
  have kept: "promos (fold (\<lambda>e. record_audit a b j m (v e) st) es d) = promos d \<and> metas (fold (\<lambda>e. record_audit a b j m (v e) st) es d) = metas d"
    for a b j m v st and es :: "version_eval list" and d :: ddb
    by (induction es arbitrary: d) (auto simp: record_audit_def)
  show ?thesis unfolding record_evaluations_def
    by (intro beside_intros) (simp add: beside_live_def keepsR_def wlp_simps untouched_def both_def kept)
qed

lemma beside_gate [beside_intros]: "beside_live (record_gate x live rep)"
  unfolding record_gate_def by (intro beside_intros)

lemma beside_checks [beside_intros]: "keepsA fs_live (verify_checksum a sha)" "keepsA fs_live (check_size a n)"
  "keepsA w_asked (verify_checksum a sha)" "keepsA w_asked (check_size a n)"
  by (simp_all add: keepsA_def verify_checksum_def check_size_def retA_def raiseA_def)

lemma beside_reads [beside_intros]: "keepsA fs_live (current_live (fs_registry p) n a)" "keepsA fs_live (verify_version_artifact (fs_registry p) n v)"
  "keepsA fs_live (rg_get_alias (fs_registry p) n a)" "keepsA fs_live (rg_set_tags (fs_registry p) n v tags)"
  "keepsA w_asked (current_live (fs_registry p) n a)" "keepsA w_asked (verify_version_artifact (fs_registry p) n v)"
  "keepsA w_asked (rg_get_alias (fs_registry p) n a)" "keepsA w_asked (rg_set_tags (fs_registry p) n v tags)"
  by (rule fs_delivery.keeps_live_reads fs_delivery.keeps_live fs_delivery.keeps_asked_reads fs_delivery.keeps_asked)+

lemma beside_checksum [beside_intros]: "keepsA fs_live (record_artifact_checksum (fs_registry p) n v)"
  "keepsA w_asked (record_artifact_checksum (fs_registry p) n v)"
proof -
  have "keepsA fs_live (rg_download (fs_registry p) n v)" "keepsA w_asked (rg_download (fs_registry p) n v)"
    by (rule fs_delivery.keeps_live fs_delivery.keeps_asked)+
  then show "keepsA fs_live (record_artifact_checksum (fs_registry p) n v)" "keepsA w_asked (record_artifact_checksum (fs_registry p) n v)"
    unfolding record_artifact_checksum_def by (intro keeps_intros beside_reads; assumption?)+
qed

lemma beside_llm [beside_intros]: "beside_live (llm_failed x live e)" "beside_live (audit_llm_engine x live c)"
  unfolding llm_failed_def audit_llm_engine_def by (intro beside_intros)+

lemma beside_produce:
  assumes "\<And>st. beside_live (native st)" "\<And>g. gen = Some g \<Longrightarrow> beside_live g" "\<And>e. beside_live (h e)"
  shows "beside_live (produce_candidate cap native gen h wanted)"
  unfolding produce_candidate_def Let_def by (intro beside_intros assms)

lemma beside_make:
  assumes "members_beside_live P"
  shows "beside_live (make_candidate P x target features ins strat live kept)" "beside_live (recheck_file P sha)"
  using assms unfolding make_candidate_def recheck_file_def members_beside_live_def
  by (intro beside_intros beside_produce; auto)+

lemma beside_candidate_alias:
  assumes "a \<noteq> la"
  shows "keepsR (untouched h nm la L ps ms) (onW (rg_set_alias (fs_registry p) n a v))"
proof (rule beside_world)
  fix w :: "'a world_scheme" and nm
  obtain r w' where run: "rg_set_alias (fs_registry p) n a v w = (r, w')" by fastforce
  show "fs_live (snd (rg_set_alias (fs_registry p) n a v w)) nm la = fs_live w nm la
    \<and> (\<exists>more. w_asked (snd (rg_set_alias (fs_registry p) n a v w)) = w_asked w @ more)"
  proof (cases r)
    case (Inl e)
    then show ?thesis using run fs_alias.set_fails[of p n a v w e w'] fs_alias.set_asks[OF run] by simp
  next
    case (Inr u)
    then show ?thesis using run fs_alias.set_sets[of p n a v w u w'] fs_alias.set_asks[OF run] assms by (simp add: set_live_def)
  qed
qed

section \<open>What a run tells\<close>

text \<open>\<open>tells U Q m\<close>: from a session with \<open>U\<close>, \<open>m\<close> ends in a result and a session with \<open>Q\<close>, if it ends.\<close>

definition tells :: "('w sess \<Rightarrow> bool) \<Rightarrow> (exn + 'b \<Rightarrow> 'w sess \<Rightarrow> bool) \<Rightarrow> ('w pipe, 'b) run \<Rightarrow> bool" where
  "tells U Q m \<longleftrightarrow> (\<forall>s. U (pi_sess s) \<longrightarrow> wlp m (\<lambda>r s'. Q r (pi_sess s')) s)"

named_theorems tells_intros "what a composition tells"

lemma wlp_onS: "wlp (onS m) Q s = wlp m (\<lambda>r ss. Q r (s\<lparr>pi_sess := ss\<rparr>)) (pi_sess s)"
  by (auto simp: wlp_def onS_def split: option.split)

lemma tells_thenS:
  assumes "\<And>s. U s \<Longrightarrow> wlp m (\<lambda>r s'. U s' \<and> (\<forall>x. r = Inr x \<longrightarrow> R x)) s" "\<And>e s. U s \<Longrightarrow> Q (Inl e) s" "\<And>x. R x \<Longrightarrow> tells U Q (f x)"
  shows "tells U Q (thenR (onS m) f)"
  unfolding tells_def
proof (intro allI impI)
  fix s :: "'a pipe" assume "U (pi_sess s)"
  then have "wlp (onS m) (\<lambda>r s'. U (pi_sess s') \<and> (\<forall>x. r = Inr x \<longrightarrow> R x)) s" using assms(1) by (simp add: wlp_onS)
  then show "wlp (thenR (onS m) f) (\<lambda>r s'. Q r (pi_sess s')) s"
    by (rule wlp_then) (use assms(2,3) in \<open>auto simp: tells_def\<close>)
qed

lemma tells_keeps:
  "keepsR U m \<Longrightarrow> (\<And>e s. U s \<Longrightarrow> Q (Inl e) s) \<Longrightarrow> (\<And>x. tells U Q (f x)) \<Longrightarrow> tells U Q (thenR (onS m) f)"
  by (rule tells_thenS[where R = "\<lambda>_. True"]) (auto simp: keepsR_def)

lemma tells_stage:
  assumes "keepsR U commit" "\<And>e s. U s \<Longrightarrow> Q (Inl e) s" "tells U Q (f ())"
  shows "tells U Q (thenR (enter_stage J st) f)"
  unfolding tells_def
proof (intro allI impI)
  fix s :: "'a pipe" assume u: "U (pi_sess s)"
  have "wlp (onS commit) (\<lambda>_ s'. U (pi_sess s')) s" using keepsRD[OF assms(1) u] by (simp add: wlp_onS)
  then have "wlp (enter_stage J st) (\<lambda>_ s'. U (pi_sess s')) s" unfolding enter_stage_def
    by (rule wlp_then) (auto simp: report_stage_def wlp_def)
  then show "wlp (thenR (enter_stage J st) f) (\<lambda>r s'. Q r (pi_sess s')) s"
    by (rule wlp_then) (use assms(2,3) in \<open>auto simp: tells_def\<close>)
qed

lemma tells_leaf [tells_intros]: "(\<And>s. U s \<Longrightarrow> Q (Inr x) s) \<Longrightarrow> tells U Q (retR x)"
  "(\<And>s. U s \<Longrightarrow> Q (Inl e) s) \<Longrightarrow> tells U Q (raiseR e)"
  by (simp_all add: tells_def wlp_simps)

lemma tells_cases [tells_intros]:
  "(b \<Longrightarrow> tells U Q m) \<Longrightarrow> (\<not> b \<Longrightarrow> tells U Q n) \<Longrightarrow> tells U Q (if b then m else n)"
  "(z = None \<Longrightarrow> tells U Q m) \<Longrightarrow> (\<And>x. z = Some x \<Longrightarrow> tells U Q (f x)) \<Longrightarrow> tells U Q (case z of None \<Rightarrow> m | Some x \<Rightarrow> f x)"
  "(\<And>e. tells U Q (g e)) \<Longrightarrow> (\<And>x. tells U Q (h x)) \<Longrightarrow> tells U Q (case q of Inl e \<Rightarrow> g e | Inr x \<Rightarrow> h x)"
  "(\<And>x y. tells U Q (k x y)) \<Longrightarrow> tells U Q (case p of (x, y) \<Rightarrow> k x y)"
  "tells U Q (l v) \<Longrightarrow> tells U Q (let x = v in l x)"
  "tells U Q m \<Longrightarrow> (\<And>pk. tells U Q (i pk)) \<Longrightarrow> tells U Q (case an of Stopped \<Rightarrow> m | Packaged pk \<Rightarrow> i pk)"
  by (cases z; cases q; cases p; cases an; simp)+

section \<open>The report and the alias\<close>

text \<open>With LIVE at \<open>L\<close> before: a report says where LIVE is, an error leaves it at \<open>L\<close>, unless the
  registry refused to put a version back that a failed promotion had moved LIVE from.\<close>

definition reports_live ::
  "alias_request list \<Rightarrow> string \<Rightarrow> string \<Rightarrow> string option \<Rightarrow> exn + job_report \<Rightarrow> 'a world_scheme sess \<Rightarrow> bool" where
  "reports_live h nm la L r s' \<longleftrightarrow> (case r of
     Inl e \<Rightarrow> fs_live (ss_world s') nm la = L \<or> restore_refused h nm la L (ss_world s')
   | Inr rep \<Rightarrow> fs_live (ss_world s') nm la = jr_live rep
       \<or> jr_outcome rep = O_ROLLED_BACK \<and> jr_live rep = L \<and> restore_refused h nm la L (ss_world s'))"

lemma untouched_reports:
  "untouched h nm la L ps ms s \<Longrightarrow> reports_live h nm la L (Inl e) s"
  "untouched h nm la L ps ms s \<Longrightarrow> jr_live rep = L \<Longrightarrow> reports_live h nm la L (Inr rep) s"
  by (simp_all add: untouched_def reports_live_def)

text \<open>A pipeline over the filesystem registry that promotes inline, and a job that has not promoted yet.\<close>

definition inline_pipeline :: "artifact_policy \<Rightarrow> string \<Rightarrow> string \<Rightarrow> 'a world_scheme pipeline \<Rightarrow> bool" where
  "inline_pipeline p da la P \<longleftrightarrow> ct_registry (pl_controller P) = fs_registry p
     \<and> (\<exists>canary tag timeout pl. ct_deployer (pl_controller P) = world_deployer p da canary tag timeout pl)
     \<and> ct_live_alias (pl_controller P) = la \<and> pl_candidate_alias P \<noteq> la \<and> pl_delivery P = ''blue_green'' \<and> members_beside_live P"

definition not_promoted :: "job_ctx \<Rightarrow> promo_row list \<Rightarrow> bool" where
  "not_promoted x ps \<longleftrightarrow> list_all (\<lambda>r. pm_key r = None \<or> pm_key r \<noteq> promotion_key x ''promote'' \<and> pm_key r \<noteq> promotion_key x ''reuse'') ps"

lemma no_earlier:
  assumes "not_promoted x (promos d)" "suffix \<in> {''promote'', ''reuse''}"
  shows "earlier_promotion (promotion_key x suffix) d = None"
  using assms by (auto simp: not_promoted_def earlier_promotion_def by_key_def list_all_iff find_None_iff split: option.split)


lemma promote_tells:
  fixes s :: "'a world_scheme sess"
  assumes u: "untouched h nm la L ps ms s" and meta: "by_key mm_model (pa_model a) ms = Some meta" "mm_name meta = nm"
    and fresh: "\<And>d. promos d = ps \<Longrightarrow> earlier_promotion (pa_key a) d = None" and P: "inline_pipeline p da la P"
    and v: "pa_version a = v"
  shows "wlp (promote_version (ct_registry (pl_controller P)) (ct_deployer (pl_controller P)) (ct_live_alias (pl_controller P)) a)
    (\<lambda>r s'. case r of Inl e \<Rightarrow> fs_live (ss_world s') nm la = L \<or> restore_refused h nm la L (ss_world s')
      | Inr row \<Rightarrow> fs_live (ss_world s') nm la = Some v) s"
proof -
  obtain canary tag timeout pl where D: "ct_deployer (pl_controller P) = world_deployer p da canary tag timeout pl"
    using P by (auto simp: inline_pipeline_def)
  have P': "ct_registry (pl_controller P) = fs_registry p" "ct_live_alias (pl_controller P) = la" using P by (simp_all add: inline_pipeline_def)
  have s: "promos (ss_saved s) = promos (ss_db s)" "metas (ss_db s) = ms" "promos (ss_db s) = ps" "fs_live (ss_world s) nm la = L"
    and h: "\<exists>more. w_asked (ss_world s) = h @ more"
    using u by (simp_all add: untouched_def both_def)
  show ?thesis unfolding D P'
    by (rule wlp_mono[OF fs_delivery.wlp_promote_error[OF s(1), of a meta]])
      (use fresh s meta v h in \<open>auto simp: fs_delivery.promote_post_def fs_delivery.put_back_refused_def restore_refused_def Let_def
        split: sum.splits\<close>)
qed

lemma commit_keeps: "keepsR (untouched h nm la L ps ms) commit"
  by (rule beside_db(3)[unfolded beside_live_def, rule_format])

lemma keeps_of: "beside_live m \<Longrightarrow> keepsR (untouched h nm la L ps ms) m"
  by (simp add: beside_live_def)

lemma promote_now_tells:
  assumes P: "inline_pipeline p da la P" and new: "not_promoted x ps"
    and meta: "by_key mm_model (ev_model_id (jc_event x)) ms = Some meta" "mm_name meta = nm"
  shows "tells (untouched h nm la (Some live) ps ms) (reports_live h nm la (Some live)) (promote_now P J x strat live new')"
  unfolding promote_now_def
proof (rule tells_stage[OF commit_keeps])
  show "reports_live h nm la (Some live) (Inl e) s" if "untouched h nm la (Some live) ps ms s" for e s
    using that by (rule untouched_reports(1))
  let ?a = "\<lparr>pa_model = ev_model_id (jc_event x), pa_version = new', pa_kind = PROMOTE_CANDIDATE, pa_actor = ''system'',
    pa_job = jc_job x, pa_expected = Some live, pa_key = promotion_key x ''promote''\<rparr>"
  have fresh: "earlier_promotion (pa_key ?a) d = None" if "promos d = ps" for d
    using no_earlier[of x d "''promote''"] new that by simp
  have model: "by_key mm_model (pa_model ?a) ms = Some meta" "pa_version ?a = new'" using meta(1) by simp_all
  note run = promote_tells[OF _ model(1) meta(2) fresh P model(2)]
  show "tells (untouched h nm la (Some live) ps ms) (reports_live h nm la (Some live)) (let rep = \<lparr>jr_outcome = O_REGISTERED,
      jr_live = Some new', jr_previous = Some live, jr_registered = Some new', jr_strategy = Some strat\<rparr> in
    catchR (thenR (onS (promote_version (ct_registry (pl_controller P)) (ct_deployer (pl_controller P)) (ct_live_alias (pl_controller P)) ?a))
      (\<lambda>_. retR rep)) (kind PromotionError)
      (\<lambda>_. retR (rep\<lparr>jr_outcome := O_ROLLED_BACK, jr_live := Some live, jr_previous := None\<rparr>)))"
    by (auto simp: tells_def Let_def wlp_catchR wlp_thenR wlp_retR wlp_onS reports_live_def elim!: wlp_mono[OF run] split: sum.splits)
qed

lemma register_tells:
  assumes P: "inline_pipeline p da la P" and new: "not_promoted x ps"
    and meta: "by_key mm_model (ev_model_id (jc_event x)) ms = Some meta" "mm_name meta = nm"
  shows "tells (untouched h nm la (Some live) ps ms) (reports_live h nm la (Some live)) (register_and_deliver P J x nm strat live sha c)"
proof -
  have R: "ct_registry (pl_controller P) = fs_registry p" and bg: "pl_delivery P = ''blue_green''" and cand: "pl_candidate_alias P \<noteq> la"
    and M: "members_beside_live P" using P by (simp_all add: inline_pipeline_def)
  have m: "beside_live (pl_register P c)" "\<And>v. beside_live (pl_snapshot P v)" using M by (simp_all add: members_beside_live_def)
  show ?thesis unfolding register_and_deliver_def R
    by (intro tells_stage[OF commit_keeps] tells_keeps[OF keeps_of] tells_keeps[OF beside_candidate_alias[OF cand]] beside_make[OF M] m
        beside_intros untouched_reports(1) tells_cases promote_now_tells[OF P new meta]; (assumption | simp add: bg))
qed

lemma validate_tells:
  assumes P: "inline_pipeline p da la P" and new: "not_promoted x ps"
    and meta: "by_key mm_model (ev_model_id (jc_event x)) ms = Some meta" "mm_name meta = nm"
  shows "tells (untouched h nm la (Some live) ps ms) (reports_live h nm la (Some live))
    (validate_and_register P J x nm needed strat live holdout sha c)"
proof -
  have M: "members_beside_live P" using P by (simp add: inline_pipeline_def)
  have m: "beside_live (pl_validate P c holdout)" using M by (simp add: members_beside_live_def)
  show ?thesis unfolding validate_and_register_def
    by (intro tells_stage[OF commit_keeps] tells_keeps[OF keeps_of] beside_make[OF M] m beside_intros untouched_reports
        tells_intros register_tells[OF P new meta]; (assumption | simp add: stop_with_def))
qed

lemma adapt_tells:
  assumes P: "inline_pipeline p da la P" and new: "not_promoted x ps"
    and meta: "by_key mm_model (ev_model_id (jc_event x)) ms = Some meta" "mm_name meta = nm"
  shows "tells (untouched h nm la (Some live) ps ms) (reports_live h nm la (Some live)) (adapt_live P J x meta target strat live rows holdout)"
proof -
  have R: "ct_registry (pl_controller P) = fs_registry p" and M: "members_beside_live P" using P by (simp_all add: inline_pipeline_def)
  have m: "\<And>a fw. beside_live (pl_load P a fw)" using M by (simp add: members_beside_live_def)
  show ?thesis unfolding adapt_live_def R meta(2) Let_def
    by (intro tells_stage[OF commit_keeps] tells_keeps[OF keeps_of] beside_make[OF M] m beside_intros untouched_reports
        tells_intros validate_tells[OF P new meta]; assumption)
qed

lemma then_ret: "thenR (retR v) f = f v"
  by (simp add: fun_eq_iff thenR_def retR_def)

lemma decide_tells:
  assumes P: "inline_pipeline p da la P" and new: "not_promoted x ps"
    and meta: "by_key mm_model (ev_model_id (jc_event x)) ms = Some meta" "mm_name meta = nm"
  shows "tells (untouched h nm la live ps ms) (reports_live h nm la live) (decide_and_adapt P J x meta live pk rows holdout)"
proof -
  have R: "ct_registry (pl_controller P) = fs_registry p" and la: "ct_live_alias (pl_controller P) = la" using P by (simp_all add: inline_pipeline_def)
  have adapt: "tells (untouched h nm la live ps ms) (reports_live h nm la live)
      (thenR (case live of Some v \<Rightarrow> retR v | None \<Rightarrow> onS (onW (rg_get_alias (fs_registry p) nm la)))
        (\<lambda>v. adapt_live P J x meta t st v rows holdout))" for t st
  proof (cases live)
    case None
    have "tells (untouched h nm la live ps ms) (reports_live h nm la live)
        (thenR (onS (onW (rg_get_alias (fs_registry p) nm la))) (\<lambda>v. adapt_live P J x meta t st v rows holdout))"
    proof (rule tells_thenS[where R = "\<lambda>_. False"])
      fix s :: "'a world_scheme sess" assume u: "untouched h nm la live ps ms s"
      obtain r w where g: "rg_get_alias (fs_registry p) nm la (ss_world s) = (r, w)" by fastforce
      have "r \<noteq> Inr v" for v using g fs_alias.get_reports[of p nm la "ss_world s" v w] u None by (auto simp: untouched_def)
      moreover have "untouched h nm la live ps ms (s\<lparr>ss_world := w\<rparr>)"
        using fs_alias.get_keeps[OF g] keepsAD[OF beside_reads(7) g] u by (simp add: untouched_def both_def)
      ultimately show "wlp (onW (rg_get_alias (fs_registry p) nm la)) (\<lambda>r s'. untouched h nm la live ps ms s' \<and> (\<forall>x. r = Inr x \<longrightarrow> False)) s"
        by (simp add: wlp_onW g)
    qed (auto intro: untouched_reports)
    then show ?thesis using None by simp
  next
    case (Some v)
    then show ?thesis using adapt_tells[OF P new meta] by (simp add: then_ret)
  qed
  show ?thesis unfolding decide_and_adapt_def R la meta(2) Let_def
    by (intro tells_stage[OF commit_keeps] tells_keeps[OF keeps_of] beside_intros untouched_reports tells_intros adapt;
        (assumption | simp add: stop_with_def))
qed

lemma reuse_tells:
  assumes P: "inline_pipeline p da la P" and new: "not_promoted x ps"
    and meta: "by_key mm_model (ev_model_id (jc_event x)) ms = Some meta" "mm_name meta = nm"
  shows "tells (untouched h nm la live ps ms) (reports_live h nm la live) (reuse_version P J x live v)"
proof -
  let ?a = "\<lparr>pa_model = ev_model_id (jc_event x), pa_version = v, pa_kind = REUSE, pa_actor = ''system'',
    pa_job = jc_job x, pa_expected = live, pa_key = promotion_key x ''reuse''\<rparr>"
  have fresh: "earlier_promotion (pa_key ?a) d = None" if "promos d = ps" for d
    using no_earlier[of x d "''reuse''"] new that by simp
  have model: "by_key mm_model (pa_model ?a) ms = Some meta" "pa_version ?a = v" using meta(1) by simp_all
  note run = promote_tells[OF _ model(1) meta(2) fresh P model(2)]
  have moved: "tells (untouched h nm la live ps ms) (reports_live h nm la live)
      (thenR (onS (promote_version (ct_registry (pl_controller P)) (ct_deployer (pl_controller P)) (ct_live_alias (pl_controller P)) ?a))
        (\<lambda>_. retR \<lparr>jr_outcome = O_REUSED, jr_live = Some v, jr_previous = live, jr_registered = None, jr_strategy = None\<rparr>))"
    by (auto simp: tells_def wlp_thenR wlp_retR wlp_onS reports_live_def elim!: wlp_mono[OF run] split: sum.splits)
  show ?thesis unfolding reuse_version_def
    by (intro tells_stage[OF commit_keeps] tells_keeps[OF keeps_of] beside_intros untouched_reports moved; assumption)
qed

lemma package_tells:
  assumes P: "inline_pipeline p da la P" and new: "not_promoted x ps"
    and meta: "by_key mm_model (ev_model_id (jc_event x)) ms = Some meta" "mm_name meta = nm"
  shows "tells (untouched h nm la live ps ms) (reports_live h nm la live) (with_package P J x meta live pk)"
proof -
  have M: "members_beside_live P" using P by (simp add: inline_pipeline_def)
  have m: "beside_live (pl_rows P pk)" "\<And>rows. beside_live (pl_persist P rows)" "\<And>v rows. beside_live (pl_evaluate P v rows)"
    using M by (simp_all add: members_beside_live_def)
  show ?thesis unfolding with_package_def evaluate_and_decide_def Let_def
    by (intro tells_stage[OF commit_keeps] tells_keeps[OF keeps_of] m beside_intros untouched_reports tells_intros
        decide_tells[OF P new meta] reuse_tells[OF P new meta]; assumption)
qed

lemma pipeline_tells:
  assumes P: "inline_pipeline p da la P" and new: "not_promoted x ps"
    and meta: "by_key mm_model (ev_model_id (jc_event x)) ms = Some meta" "mm_name meta = nm"
  shows "tells (untouched h nm la L ps ms) (reports_live h nm la L) (run_pipeline P J x)"
proof -
  have R: "ct_registry (pl_controller P) = fs_registry p" "ct_live_alias (pl_controller P) = la" and M: "members_beside_live P"
    using P by (simp_all add: inline_pipeline_def)
  have m: "\<And>v. beside_live (pl_analyze P v)" using M by (simp add: members_beside_live_def)
  show ?thesis unfolding run_pipeline_def R
  proof (rule tells_thenS[where R = "\<lambda>f. f = Some meta"])
    fix s :: "'a world_scheme sess" assume u: "untouched h nm la L ps ms s"
    then show "wlp (readD (\<lambda>d. by_key mm_model (ev_model_id (jc_event x)) (metas d)))
        (\<lambda>r s'. untouched h nm la L ps ms s' \<and> (\<forall>f. r = Inr f \<longrightarrow> f = Some meta)) s"
      using meta(1) by (simp add: wlp_simps untouched_def both_def)
  next
    fix f assume f: "f = Some meta"
    let ?k = "\<lambda>live. if ev_model_version (jc_event x) \<noteq> None \<and> live \<noteq> None \<and> ev_model_version (jc_event x) \<noteq> live
       then retR (stop_with O_NO_ACTION None live)
       else thenR (onS (readD (\<lambda>d. if f = None then None else active_rollout (ev_model_id (jc_event x)) d))) (\<lambda>flight.
         if flight \<noteq> None then retR (stop_with O_ROLLOUT_IN_PROGRESS None live)
         else thenR (onS (pl_analyze P live)) (\<lambda>an.
           case f of None \<Rightarrow> raiseR (err ModelNotFoundError [])
           | Some meta \<Rightarrow> (case an of Stopped \<Rightarrow> retR (stop_with O_NO_ACTION None live)
               | Packaged pk \<Rightarrow> with_package P J x meta live pk)))"
    have k: "tells (untouched h nm la L ps ms) (reports_live h nm la L) (?k L)" unfolding f option.case
      by (intro tells_keeps[OF keeps_of] m beside_intros untouched_reports tells_intros package_tells[OF P new meta];
          (assumption | simp add: stop_with_def))
    have "tells (untouched h nm la L ps ms) (reports_live h nm la L) (thenR (onS (onW (current_live (fs_registry p) nm la))) ?k)"
    proof (rule tells_thenS[where R = "\<lambda>v. v = L"])
      fix s :: "'a world_scheme sess" assume u: "untouched h nm la L ps ms s"
      obtain r w where c: "current_live (fs_registry p) nm la (ss_world s) = (r, w)" by fastforce
      have "v = L" if "r = Inr v" for v using fs_delivery.current_live_reports c that u by (fastforce simp: untouched_def)
      moreover have "untouched h nm la L ps ms (s\<lparr>ss_world := w\<rparr>)"
        using keepsAD[OF beside_reads(1) c] keepsAD[OF beside_reads(5) c] u by (simp add: untouched_def both_def)
      ultimately show "wlp (onW (current_live (fs_registry p) nm la)) (\<lambda>r s'. untouched h nm la L ps ms s' \<and> (\<forall>v. r = Inr v \<longrightarrow> v = L)) s"
        by (simp add: wlp_onW c)
    qed (use k untouched_reports in blast)+
    then show "tells (untouched h nm la L ps ms) (reports_live h nm la L)
       (thenR (case f of None \<Rightarrow> retR None | Some meta \<Rightarrow> onS (onW (current_live (fs_registry p) (mm_name meta) la))) ?k)"
      by (simp add: f meta(2))
  qed (rule untouched_reports)
qed

text \<open>C1. The report of a run tells the truth about LIVE. Over the filesystem registry and the alias
  deployment, promoting inline, with a candidate alias of its own and members that move no alias,
  and for a job none of whose attempts has committed a promotion before (a retry after that may
  misreport: \<open>retried_job_misreports_live\<close>): whatever registry access, database write, rollout or
  stage report fails, a report's live version is the version the live alias names when the run
  returns, and an error leaves the alias where it was. The only exception is that the last alias
  request of the run was to put LIVE back to where it had been, after a failed promotion, and the
  registry refused it; the report then says ROLLED_BACK. (As in \<open>promotion_all_or_nothing\<close>, lock
  files of the registry can be removed.)\<close>

theorem reported_live_is_live:
  assumes P: "inline_pipeline p da la P" and new: "not_promoted x (promos (ss_db (pi_sess s)))"
    and meta: "by_key mm_model (ev_model_id (jc_event x)) (metas (ss_db (pi_sess s))) = Some meta"
    and clean: "promos (ss_saved (pi_sess s)) = promos (ss_db (pi_sess s))" "metas (ss_saved (pi_sess s)) = metas (ss_db (pi_sess s))"
    and run: "run_pipeline P J x s = Some (r, s')"
  shows "let live = fs_live (ss_world (pi_sess s')) (mm_name meta) la; before = fs_live (ss_world (pi_sess s)) (mm_name meta) la;
      stuck = restore_refused (w_asked (ss_world (pi_sess s))) (mm_name meta) la before (ss_world (pi_sess s'))
    in case r of Inl e \<Rightarrow> live = before \<or> stuck
       | Inr rep \<Rightarrow> live = jr_live rep \<or> jr_outcome rep = O_ROLLED_BACK \<and> jr_live rep = before \<and> stuck"
proof -
  let ?n = "mm_name meta" and ?h = "w_asked (ss_world (pi_sess s))"
  have "untouched ?h ?n la (fs_live (ss_world (pi_sess s)) ?n la) (promos (ss_db (pi_sess s))) (metas (ss_db (pi_sess s))) (pi_sess s)"
    using clean by (simp add: untouched_def both_def)
  then have "wlp (run_pipeline P J x) (\<lambda>r s'. reports_live ?h ?n la (fs_live (ss_world (pi_sess s)) ?n la) r (pi_sess s')) s"
    using pipeline_tells[OF P new meta refl] by (simp add: tells_def)
  from wlpD[OF this run] show ?thesis by (auto simp: reports_live_def Let_def split: sum.splits)
qed

end
