(* ===== verification/Pipeline_Demo.thy ===== *)
theory Pipeline_Demo
  imports Pipeline_Live Rollout_Demo
begin

text \<open>
  A drift event run through the pipeline on the filesystem registry and the alias deployment,
  evaluated: the witnesses of the properties of the pipeline.
\<close>

definition demo_meta :: model_meta where
  "demo_meta = \<lparr>mm_model = ''m1'', mm_name = ''m'', mm_framework = Some ''sklearn'', mm_target = Some ''y''\<rparr>"

definition pipe_ddb :: ddb where
  "pipe_ddb = demo_ddb\<lparr>metas := [demo_meta]\<rparr>"

definition pipe_sess :: "world pipe" where
  "pipe_sess = \<lparr>pi_sess = \<lparr>ss_db = pipe_ddb, ss_saved = pipe_ddb, ss_faults = [], ss_world = demo_world []\<rparr>, pi_asked = []\<rparr>"

definition demo_data :: "data_row list" where
  "demo_data = map (\<lambda>i. \<lparr>dr_id = i, dr_version = 1, dr_observed = of_nat i, dr_payload = [(''x'', show_nat i), (''y'', ''1'')]\<rparr>) [1, 2, 3]"

text \<open>Registering the candidate adds version 2, which the world of the run already holds.\<close>

definition demo_pipeline :: "rat \<Rightarrow> bool \<Rightarrow> world pipeline" where
  "demo_pipeline value_of_1 gate = \<lparr>pl_controller = demo_controller, pl_candidate_alias = ''candidate'', pl_reuse_enabled = True,
     pl_min_rows = 1, pl_fraction = 1/5, pl_delivery = ''blue_green'', pl_member_settings = demo_member_settings,
     pl_leakage = \<lparr>lk_enabled = True, lk_allow_future_rows = False\<rparr>, pl_supported = [''sklearn''], pl_client = None,
     pl_analyze = (\<lambda>_. retR (Packaged demo_package)), pl_rows = (\<lambda>_. retR demo_data), pl_pool = (\<lambda>_. None),
     pl_persist = (\<lambda>_. retR ()), pl_columns = (\<lambda>_. [''x'', ''y'']),
     pl_evaluate = (\<lambda>_ _. retR [demo_eval ''1'' True 1, demo_eval ''2'' False value_of_1]),
     pl_load = (\<lambda>_ _. retR \<lparr>in_partial_fit = False, in_warm_start = False, in_input_dim = Some 1, in_feature_names = None\<rparr>),
     pl_target_leaks = (\<lambda>_ _. False), pl_native = (\<lambda>_ _ _. retR \<lparr>cd_llm_engine = False, cd_applied = None\<rparr>),
     pl_generate = (\<lambda>_ _. raiseR (err LlmUnavailableError [])), pl_file = retR \<lparr>ar_size = 30, ar_sha = ''cc''\<rparr>,
     pl_validate = (\<lambda>_ _. retR \<lparr>rp_passed = gate, rp_gate = Some gate\<rparr>),
     pl_register = (\<lambda>_. retR ''2''),
     pl_snapshot = (\<lambda>_. retR [])\<rparr>"

definition demo_ctx :: job_ctx where
  "demo_ctx = \<lparr>jc_event = \<lparr>ev_model_id = ''m1'', ev_event_id = None, ev_severity = None, ev_model_version = None,
     ev_data_start = None, ev_data_end = None, ev_body = []\<rparr>, jc_job = Some ''j1'', jc_rollout_id = ''r1'', jc_now = 0\<rparr>"

abbreviation demo_pipe_run :: "rat \<Rightarrow> bool \<Rightarrow> ((exn + job_report) \<times> world pipe) option" where
  "demo_pipe_run x gate \<equiv> run_pipeline (demo_pipeline x gate) (\<lambda>_ _. None) demo_ctx pipe_sess"

text \<open>Version 2 is no better than LIVE: a candidate is trained, passes the gate and goes LIVE.\<close>

lemma demo_adapts: "map_option (\<lambda>(r, s'). (r, pi_asked s', fs_live (ss_world (pi_sess s')) ''m'' ''live'')) (demo_pipe_run 1 True)
    = Some (Inr \<lparr>jr_outcome = O_REGISTERED, jr_live = Some ''2'', jr_previous = Some ''1'', jr_registered = Some ''2'',
          jr_strategy = Some FULL_RETRAINING\<rparr>,
        [EVALUATING_VERSIONS, REUSE_DECISION, DECISION_PENDING, ADAPTING, VALIDATING_CANDIDATE, REGISTERING, PROMOTING], Some ''2'')"
  by code_simp

lemma stages_follow_machine_witness:
  "\<exists>s'. snd (the (demo_pipe_run 1 True)) = s' \<and> length (pi_asked s') = 7 \<and> stage_path DATA_PREPARING (pi_asked s')"
proof -
  obtain r s' where run: "demo_pipe_run 1 True = Some (r, s')" "length (pi_asked s') = 7"
    using demo_adapts by (auto simp: map_option_eq_Some)
  moreover have "pi_asked pipe_sess = []" by (simp add: pipe_sess_def)
  ultimately show ?thesis using stages_follow_machine[OF run(1)] by simp
qed

lemma demo_inline: "inline_pipeline demo_artifacts ''live'' ''live'' (demo_pipeline x gate)"
proof -
  have "members_beside_live (demo_pipeline x gate)"
    by (simp add: members_beside_live_def demo_pipeline_def beside_leaf)
  moreover have "\<exists>canary tag timeout pl. demo_deployer = world_deployer demo_artifacts ''live'' canary tag timeout pl"
    unfolding demo_deployer_def by blast
  ultimately show ?thesis by (simp add: inline_pipeline_def demo_pipeline_def demo_controller_def)
qed

lemma demo_new: "not_promoted demo_ctx (promos (ss_db (pi_sess pipe_sess)))"
  "by_key mm_model (ev_model_id (jc_event demo_ctx)) (metas (ss_db (pi_sess pipe_sess))) = Some demo_meta"
  "promos (ss_saved (pi_sess pipe_sess)) = promos (ss_db (pi_sess pipe_sess))"
  "metas (ss_saved (pi_sess pipe_sess)) = metas (ss_db (pi_sess pipe_sess))" "mm_name demo_meta = ''m''"
  by (simp_all add: not_promoted_def pipe_sess_def pipe_ddb_def demo_ddb_def demo_ctx_def demo_meta_def by_key_def)

lemma reported_live_is_live_witness:
  "\<exists>rep s'. demo_pipe_run 1 True = Some (Inr rep, s') \<and> jr_live rep = Some ''2'' \<and> fs_live (ss_world (pi_sess s')) ''m'' ''live'' = jr_live rep"
proof -
  obtain rep s' where run: "demo_pipe_run 1 True = Some (Inr rep, s')" "jr_outcome rep = O_REGISTERED" "jr_live rep = Some ''2''"
    using demo_adapts by (auto simp: map_option_eq_Some)
  then show ?thesis
    using reported_live_is_live[OF demo_inline demo_new(1,2,3,4) run(1)] by (simp add: Let_def demo_new(5))
qed

section \<open>A job that is run again\<close>

text \<open>A first attempt of job j1 has promoted version 1 and was requeued before it ended (its worker
  was drained, say, or its last commit failed after the move). The second attempt registers
  version 2; \<^verbatim>\<open>promote_version\<close> finds the promotion of the first under the same key \<^verbatim>\<open>j1:promote\<close>
  and returns it. The report says that version 2 is live, LIVE names version 1.\<close>

definition retried_sess :: "world pipe" where
  "retried_sess = (let d = pipe_ddb\<lparr>promos := [\<lparr>pm_model = ''m1'', pm_kind = PROMOTE_CANDIDATE, pm_from = Some ''0'', pm_to = ''1'',
       pm_status = APPLIED,
       pm_actor = ''system'', pm_job = Some ''j1'', pm_key = Some ''j1:promote'', pm_sha = Some ''aa''\<rparr>]\<rparr> in pipe_sess\<lparr>pi_sess := (pi_sess pipe_sess)\<lparr>ss_db := d, ss_saved := d\<rparr>\<rparr>)"

theorem retried_job_misreports_live:
  "map_option (\<lambda>(r, s'). (map_sum id (\<lambda>rep. (jr_outcome rep, jr_live rep)) r, fs_live (ss_world (pi_sess s')) ''m'' ''live''))
     (run_pipeline (demo_pipeline 1 True) (\<lambda>_ _. None) demo_ctx retried_sess)
   = Some (Inr (O_REGISTERED, Some ''2''), Some ''1'')"
  by code_simp

end
