(* ===== verification/Gate.thy ===== *)
theory Gate
  imports Reuse "HOL-Library.Char_ord" "HOL-Library.List_Lexorder"
begin

text \<open>
  The validation gate (Member 4, \<^verbatim>\<open>validation/gate.py\<close> with \<^verbatim>\<open>GatePolicy\<close> of
  \<^verbatim>\<open>core/policies.py\<close>): a paired bootstrap on the primary metric of the task, and the guardrails.

  Numbers are exact rationals. What numpy and scikit-learn compute beyond arithmetic is a field
  of \<open>numpy\<close>: the random generator, the quantile, the square root, the bin of a probability and
  the silhouette of rows. The time of a prediction and the serialized size of a model are fields
  of \<open>scored\<close>. A result \<open>None\<close> is an exception (an unknown metric, labels that are missing or
  are no numbers). Reasons, rounded values and the hash of the policy are not kept.
\<close>

section \<open>Arrays\<close>

text \<open>The element types that the code tells apart. Text that spells a number is not modelled.\<close>

datatype arr = Bools "bool list" | Numbers "rat list" | Labels "string list"

datatype cell = N rat | S string

fun cells :: "arr \<Rightarrow> cell list" where
  "cells (Bools bs) = map (\<lambda>b. N (of_bool b)) bs"
| "cells (Numbers xs) = map N xs"
| "cells (Labels ls) = map S ls"

fun to_float :: "arr \<Rightarrow> rat list option" where
  "to_float (Bools bs) = Some (map of_bool bs)"
| "to_float (Numbers xs) = Some xs"
| "to_float (Labels ls) = (if ls = [] then Some [] else None)"

text \<open>\<^verbatim>\<open>anomaly_flags\<close>.\<close>

fun anomaly_flags :: "arr \<Rightarrow> bool list" where
  "anomaly_flags (Bools bs) = bs"
| "anomaly_flags (Numbers xs) = (if set xs \<subseteq> {-1, 1} then map (\<lambda>x. x = -1) xs else map (\<lambda>x. x = 1) xs)"
| "anomaly_flags (Labels ls) = map (\<lambda>_. False) ls"

section \<open>Policy and models\<close>

record slice_guard =
  sg_columns :: "string list"
  sg_max_drop :: rat
  sg_relative :: bool
  sg_min_rows :: nat
  sg_require_columns :: bool

record calibration_guard =
  cg_enabled :: bool
  cg_bins :: nat
  cg_max_increase :: rat
  cg_max_ece :: "rat option"

record latency_guard =
  lg_enabled :: bool
  lg_max_ratio :: rat
  lg_floor_ms :: rat
  lg_repeats :: nat
  lg_max_rows :: nat

record size_guard =
  zg_enabled :: bool
  zg_max_ratio :: rat
  zg_floor_bytes :: nat
  zg_max_bytes :: "nat option"

record gate_policy =
  gp_superiority :: bool
  gp_margin :: rat
  gp_margin_relative :: bool
  gp_confidence :: rat
  gp_resamples :: nat
  gp_seed :: int
  gp_max_rows :: nat
  gp_batch :: nat
  gp_pairwise_max_rows :: nat
  gp_slices :: slice_guard
  gp_calibration :: calibration_guard
  gp_latency :: latency_guard
  gp_size :: size_guard
  gp_metric_guards :: "(string \<times> rat) list"

text \<open>The constraints of the fields, and \<^verbatim>\<open>_non_negative\<close>.\<close>

definition gate_policy_ok :: "gate_policy \<Rightarrow> bool" where
  "gate_policy_ok p \<longleftrightarrow> 0 \<le> gp_margin p \<and> 1/2 < gp_confidence p \<and> gp_confidence p < 1 \<and> 100 \<le> gp_resamples p
     \<and> 10 \<le> gp_max_rows p \<and> 1 \<le> gp_batch p \<and> 10 \<le> gp_pairwise_max_rows p
     \<and> 0 \<le> sg_max_drop (gp_slices p) \<and> 1 \<le> sg_min_rows (gp_slices p)
     \<and> 2 \<le> cg_bins (gp_calibration p) \<and> 0 \<le> cg_max_increase (gp_calibration p)
     \<and> (case cg_max_ece (gp_calibration p) of None \<Rightarrow> True | Some m \<Rightarrow> 0 \<le> m \<and> m \<le> 1)
     \<and> 0 < lg_max_ratio (gp_latency p) \<and> 0 \<le> lg_floor_ms (gp_latency p) \<and> 1 \<le> lg_repeats (gp_latency p)
     \<and> 1 \<le> lg_max_rows (gp_latency p) \<and> 0 < zg_max_ratio (gp_size p)
     \<and> (case zg_max_bytes (gp_size p) of None \<Rightarrow> True | Some m \<Rightarrow> 1 \<le> m)
     \<and> list_all (\<lambda>(_, v). 0 \<le> v) (gp_metric_guards p)"

record 'g numpy =
  np_rng :: "int \<Rightarrow> 'g"
  np_choice :: "nat \<Rightarrow> nat \<Rightarrow> 'g \<Rightarrow> nat list \<times> 'g"
  np_integers :: "nat \<Rightarrow> nat \<Rightarrow> 'g \<Rightarrow> nat list list \<times> 'g"
  np_quantile :: "rat list \<Rightarrow> rat \<Rightarrow> rat"
  np_sqrt :: "rat \<Rightarrow> rat"
  np_bin :: "nat \<Rightarrow> rat \<Rightarrow> nat"
  sk_silhouette :: "nat list \<Rightarrow> arr \<Rightarrow> rat list"

record scored =
  sc_predictions :: arr
  sc_score :: "rat list option"
  sc_metrics :: "(string \<times> rat) list"
  sc_classes :: "cell list"
  sc_ms :: "nat \<Rightarrow> nat \<Rightarrow> rat"
  sc_bytes :: "nat option"

section \<open>Rows of a metric\<close>

type_synonym stat = "rat list \<Rightarrow> rat"

definition mean_stat :: stat where "mean_stat m = m ! 0"

definition root_mean :: "'g numpy \<Rightarrow> stat" where "root_mean np m = np_sqrt np (m ! 0)"

definition f1_stat :: stat where
  "f1_stat m = (let d = 2 * m ! 0 + m ! 1 + m ! 2 in if 0 < d then 2 * m ! 0 / d else 0)"

text \<open>\<^verbatim>\<open>_rows\<close>; \<open>y\<close> and the predictions have one value per held-out row.\<close>

definition metric_rows :: "'g numpy \<Rightarrow> string \<Rightarrow> arr option \<Rightarrow> arr \<Rightarrow> nat list \<Rightarrow> (rat list list \<times> stat) option" where
  "metric_rows np metric y pred sample =
     (if metric = ''accuracy'' then
        map_option (\<lambda>t. (map2 (\<lambda>a b. [of_bool (a = b)]) (cells t) (cells pred), mean_stat)) y
      else if metric = ''rmse'' then
        Option.bind y (\<lambda>t. Option.bind (to_float t) (\<lambda>ts. Option.bind (to_float pred) (\<lambda>ps.
          Some (map2 (\<lambda>a b. [(a - b)\<^sup>2]) ts ps, root_mean np))))
      else if metric = ''f1'' then
        map_option (\<lambda>t. (map2 (\<lambda>a b. [of_bool (a \<and> b), of_bool (\<not> a \<and> b), of_bool (a \<and> \<not> b)])
          (anomaly_flags t) (anomaly_flags pred), f1_stat)) y
      else if metric = ''silhouette'' then Some (map (\<lambda>v. [v]) (sk_silhouette np sample pred), mean_stat)
      else None)"

text \<open>The mean of every column.\<close>

definition col_means :: "rat list list \<Rightarrow> rat list" where
  "col_means rows = map (\<lambda>j. sum_list (map (\<lambda>r. r ! j) rows) / of_nat (length rows)) [0..<length (hd rows)]"

definition point :: "rat list list \<Rightarrow> stat \<Rightarrow> rat" where
  "point rows stat = stat (col_means rows)"

definition pick :: "'a list \<Rightarrow> nat list \<Rightarrow> 'a list" where
  "pick rows idx = map (\<lambda>i. rows ! i) idx"

text \<open>The draws of the loop of \<^verbatim>\<open>_bootstrap\<close>, \<open>left\<close> resamples to go, and its differences.\<close>

function draws :: "'g numpy \<Rightarrow> nat \<Rightarrow> nat \<Rightarrow> nat \<Rightarrow> 'g \<Rightarrow> nat list list" where
  "draws np n batch left g = (if left = 0 \<or> batch = 0 then []
     else let (idx, g') = np_integers np n (min batch left) g in idx @ draws np n batch (left - batch) g')"
  by pat_completeness auto
termination by (relation "measure (\<lambda>(_, _, _, left, _). left)") auto

declare draws.simps [simp del]

definition difference :: "stat \<Rightarrow> rat \<Rightarrow> rat list list \<Rightarrow> rat list list \<Rightarrow> nat list \<Rightarrow> rat" where
  "difference stat sign cur cand idx = sign * (point (pick cand idx) stat - point (pick cur idx) stat)"

definition bootstrap :: "'g numpy \<Rightarrow> gate_policy \<Rightarrow> rat list list \<Rightarrow> rat list list \<Rightarrow> stat \<Rightarrow> rat \<Rightarrow> 'g \<Rightarrow> rat list" where
  "bootstrap np p cur cand stat sign g =
     map (difference stat sign cur cand) (draws np (length cur) (gp_batch p) (gp_resamples p) g)"

section \<open>Guardrails\<close>

record guardrail =
  gr_name :: string
  gr_passed :: bool
  gr_evaluated :: bool

definition not_evaluated :: "string \<Rightarrow> bool \<Rightarrow> guardrail" where
  "not_evaluated name passed = \<lparr>gr_name = name, gr_passed = passed, gr_evaluated = False\<rparr>"

definition evaluated :: "string \<Rightarrow> bool \<Rightarrow> guardrail" where
  "evaluated name passed = \<lparr>gr_name = name, gr_passed = passed, gr_evaluated = True\<rparr>"

text \<open>The frame of the held-out rows: its columns. A \<open>None\<close> is not a number: equal to nothing.\<close>

type_synonym frame = "(string \<times> cell option list) list"

definition in_slice :: "cell option \<Rightarrow> cell option \<Rightarrow> bool" where
  "in_slice v x \<longleftrightarrow> v \<noteq> None \<and> x = v"

definition slice_rows :: "cell option list \<Rightarrow> cell option \<Rightarrow> rat list list \<Rightarrow> rat list list" where
  "slice_rows vs v rows = map snd (filter (\<lambda>(x, _). in_slice v x) (zip vs rows))"

definition slice_ok :: "slice_guard \<Rightarrow> stat \<Rightarrow> rat \<Rightarrow> rat list list \<Rightarrow> rat list list \<Rightarrow> bool" where
  "slice_ok guard stat sign cur cand = (let cur_v = point cur stat; cand_v = point cand stat
     in sign * (cur_v - cand_v) \<le> sg_max_drop guard * (if sg_relative guard then \<bar>cur_v\<bar> else 1))"

definition check_column ::
  "slice_guard \<Rightarrow> frame option \<Rightarrow> rat list list \<Rightarrow> rat list list \<Rightarrow> stat \<Rightarrow> rat \<Rightarrow> bool \<Rightarrow> string \<Rightarrow> guardrail" where
  "check_column guard context cur cand stat sign per_row column = (let name = ''slice:'' @ column in
     if \<not> per_row then not_evaluated name True
     else case Option.bind context (\<lambda>frame. map_of frame column) of
       None \<Rightarrow> not_evaluated name (\<not> sg_require_columns guard)
     | Some vs \<Rightarrow>
         let checked = filter (\<lambda>v. sg_min_rows guard \<le> length (filter (in_slice v) vs)) (remdups vs) in
         if checked = [] then not_evaluated name True
         else evaluated name (list_all (\<lambda>v. slice_ok guard stat sign (slice_rows vs v cur) (slice_rows vs v cand)) checked))"

definition check_slices ::
  "slice_guard \<Rightarrow> frame option \<Rightarrow> rat list list \<Rightarrow> rat list list \<Rightarrow> stat \<Rightarrow> rat \<Rightarrow> bool \<Rightarrow> guardrail list" where
  "check_slices guard context cur cand stat sign per_row =
     map (check_column guard context cur cand stat sign per_row) (sg_columns guard)"

text \<open>\<^verbatim>\<open>_ece\<close>: the bin of every probability, and the weighted gaps of the bins that are not empty.\<close>

definition bin_gap :: "(nat \<times> bool \<times> rat) list \<Rightarrow> nat \<Rightarrow> rat" where
  "bin_gap xs b = (let m = filter (\<lambda>(k, _). k = b) xs; n = of_nat (length m)
     in if m = [] then 0
        else \<bar>sum_list (map (\<lambda>(_, t, _). of_bool t) m) / n - sum_list (map (\<lambda>(_, _, p). p) m) / n\<bar> * (n / of_nat (length xs)))"

definition ece :: "'g numpy \<Rightarrow> bool list \<Rightarrow> rat list \<Rightarrow> nat \<Rightarrow> rat" where
  "ece np truth prob bins = sum_list (map (bin_gap (map2 (\<lambda>t p. (np_bin np bins p, t, p)) truth prob)) [0..<bins])"

definition positive :: "scored \<Rightarrow> cell option" where
  "positive s = (case sc_classes s of [_, c] \<Rightarrow> Some c | _ \<Rightarrow> None)"

definition ece_of :: "'g numpy \<Rightarrow> calibration_guard \<Rightarrow> arr \<Rightarrow> scored \<Rightarrow> rat list \<Rightarrow> rat" where
  "ece_of np guard y s score = ece np (map (\<lambda>c. positive s = Some c) (cells y)) score (cg_bins guard)"

definition check_calibration ::
  "'g numpy \<Rightarrow> calibration_guard \<Rightarrow> bool \<Rightarrow> arr option \<Rightarrow> scored \<Rightarrow> scored \<Rightarrow> guardrail list" where
  "check_calibration np guard classification y cur cand =
     (if \<not> cg_enabled guard then []
      else case (y, sc_score cur, sc_score cand) of
        (Some t, Some a, Some b) \<Rightarrow>
          if \<not> classification then [not_evaluated ''calibration'' True]
          else let ca = ece_of np guard t cur a; cb = ece_of np guard t cand b in
            [evaluated ''calibration'' (cb - ca \<le> cg_max_increase guard
               \<and> (case cg_max_ece guard of None \<Rightarrow> True | Some m \<Rightarrow> cb \<le> m))]
      | _ \<Rightarrow> [not_evaluated ''calibration'' True])"

text \<open>\<^verbatim>\<open>statistics.median\<close>.\<close>

definition median :: "rat list \<Rightarrow> rat" where
  "median xs = (let s = sort xs; n = length xs in
     if odd n then s ! (n div 2) else (s ! (n div 2 - 1) + s ! (n div 2)) / 2)"

definition median_ms :: "scored \<Rightarrow> nat \<Rightarrow> nat \<Rightarrow> rat" where
  "median_ms s rows repeats = median (map (sc_ms s rows) [0..<repeats])"

definition check_latency :: "latency_guard \<Rightarrow> nat \<Rightarrow> scored \<Rightarrow> scored \<Rightarrow> guardrail list" where
  "check_latency guard n cur cand =
     (if \<not> lg_enabled guard then []
      else let rows = min n (lg_max_rows guard);
               c = median_ms cur rows (lg_repeats guard); d = median_ms cand rows (lg_repeats guard)
           in [evaluated ''latency'' (d \<le> lg_max_ratio guard * max c (lg_floor_ms guard))])"

definition check_model_size :: "size_guard \<Rightarrow> scored \<Rightarrow> scored \<Rightarrow> guardrail list" where
  "check_model_size guard cur cand =
     (if \<not> zg_enabled guard then []
      else case (sc_bytes cur, sc_bytes cand) of
        (Some c, Some d) \<Rightarrow>
          let grown = zg_max_ratio guard * of_nat (max c (zg_floor_bytes guard));
              limit = (case zg_max_bytes guard of None \<Rightarrow> grown | Some m \<Rightarrow> min grown (of_nat m))
          in [evaluated ''size'' (of_nat d \<le> limit)]
      | _ \<Rightarrow> [not_evaluated ''size'' True])"

definition check_metric :: "scored \<Rightarrow> scored \<Rightarrow> string \<times> rat \<Rightarrow> guardrail" where
  "check_metric cur cand = (\<lambda>(metric, max_drop). let name = ''metric:'' @ metric in
     case higher_is_better metric of
       None \<Rightarrow> not_evaluated name False
     | Some higher \<Rightarrow>
         (case (map_of (sc_metrics cur) metric, map_of (sc_metrics cand) metric) of
            (Some c, Some d) \<Rightarrow> evaluated name ((if higher then 1 else -1) * (c - d) \<le> max_drop)
          | _ \<Rightarrow> not_evaluated name True))"

definition check_metrics :: "gate_policy \<Rightarrow> scored \<Rightarrow> scored \<Rightarrow> guardrail list" where
  "check_metrics p cur cand = map (check_metric cur cand) (sort_key fst (gp_metric_guards p))"

section \<open>The decision\<close>

record gate_decision =
  gd_accept :: bool
  gd_higher :: bool
  gd_current :: rat
  gd_candidate :: rat
  gd_delta :: rat
  gd_low :: rat
  gd_high :: rat
  gd_threshold :: rat
  gd_rows :: nat
  gd_guardrails :: "guardrail list"

text \<open>The rows the bootstrap samples from, the same of both models.\<close>

definition boot_rows :: "'g numpy \<Rightarrow> gate_policy \<Rightarrow> rat list list \<Rightarrow> rat list list \<Rightarrow> 'g \<Rightarrow> (rat list list \<times> rat list list) \<times> 'g" where
  "boot_rows np p cur cand g = (if gp_max_rows p < length cur
     then let (idx, g') = np_choice np (length cur) (gp_max_rows p) g in ((pick cur idx, pick cand idx), g')
     else ((cur, cand), g))"

definition pair_sample :: "'g numpy \<Rightarrow> gate_policy \<Rightarrow> string \<Rightarrow> nat \<Rightarrow> 'g \<Rightarrow> nat list \<times> 'g" where
  "pair_sample np p metric n g = (let limit = (if metric = ''silhouette'' then gp_pairwise_max_rows p else n) in
     if limit < n then let (idx, g') = np_choice np n limit g in (sort idx, g') else ([0..<n], g))"

definition all_guardrails ::
  "'g numpy \<Rightarrow> gate_policy \<Rightarrow> bool \<Rightarrow> string \<Rightarrow> nat \<Rightarrow> arr option \<Rightarrow> scored \<Rightarrow> scored \<Rightarrow> frame option
    \<Rightarrow> rat list list \<Rightarrow> rat list list \<Rightarrow> stat \<Rightarrow> rat \<Rightarrow> guardrail list" where
  "all_guardrails np p classification metric n y cur cand context rows_cur rows_cand stat sign =
     check_slices (gp_slices p) context rows_cur rows_cand stat sign (metric \<noteq> ''silhouette'')
     @ check_calibration np (gp_calibration p) classification y cur cand
     @ check_latency (gp_latency p) n cur cand @ check_model_size (gp_size p) cur cand @ check_metrics p cur cand"

text \<open>\<^verbatim>\<open>decide\<close>, on the rows of the metric: the interval, the threshold, the guardrails.\<close>

definition decide_on_rows ::
  "'g numpy \<Rightarrow> gate_policy \<Rightarrow> bool \<Rightarrow> string \<Rightarrow> nat \<Rightarrow> arr option \<Rightarrow> scored \<Rightarrow> scored \<Rightarrow> frame option \<Rightarrow> bool
    \<Rightarrow> rat list list \<Rightarrow> rat list list \<Rightarrow> stat \<Rightarrow> 'g \<Rightarrow> gate_decision" where
  "decide_on_rows np p classification metric n y cur cand context higher rows_cur rows_cand stat g =
     (let sign = (if higher then 1 else -1);
          ((boot_cur, boot_cand), g') = boot_rows np p rows_cur rows_cand g;
          diffs = bootstrap np p boot_cur boot_cand stat sign g';
          alpha = 1 - gp_confidence p;
          low = np_quantile np diffs (alpha / 2); high = np_quantile np diffs (1 - alpha / 2);
          value = (\<lambda>s rows. case map_of (sc_metrics s) metric of Some v \<Rightarrow> v | None \<Rightarrow> point rows stat);
          base = gp_margin p * (if gp_margin_relative p then \<bar>value cur rows_cur\<bar> else 1);
          threshold = (if gp_superiority p then base else - base);
          primary_ok = (if gp_superiority p then threshold < low else threshold \<le> low);
          guards = all_guardrails np p classification metric n y cur cand context rows_cur rows_cand stat sign
      in \<lparr>gd_accept = primary_ok \<and> list_all gr_passed guards, gd_higher = higher,
          gd_current = value cur rows_cur, gd_candidate = value cand rows_cand,
          gd_delta = sign * (value cand rows_cand - value cur rows_cur), gd_low = low, gd_high = high,
          gd_threshold = threshold, gd_rows = n, gd_guardrails = guards\<rparr>)"

text \<open>Without rows the generator raises: there is nothing to draw.\<close>

definition gate_decide ::
  "'g numpy \<Rightarrow> gate_policy \<Rightarrow> bool \<Rightarrow> string \<Rightarrow> nat \<Rightarrow> arr option \<Rightarrow> scored \<Rightarrow> scored \<Rightarrow> frame option \<Rightarrow> gate_decision option" where
  "gate_decide np p classification metric n y cur cand context =
     Option.bind (higher_is_better metric) (\<lambda>higher.
       let (sample, g) = pair_sample np p metric n (np_rng np (gp_seed p)) in
       Option.bind (metric_rows np metric y (sc_predictions cur) sample) (\<lambda>(rows_cur, stat).
       Option.bind (metric_rows np metric y (sc_predictions cand) sample) (\<lambda>(rows_cand, _).
         if rows_cur = [] then None
         else Some (decide_on_rows np p classification metric n y cur cand context higher rows_cur rows_cand stat g))))"

end
