(* ===== verification/Gate_Props.thy ===== *)
theory Gate_Props
  imports Gate
begin

text \<open>
  What the verdict of the validation gate depends on: it follows the held-out rows. A candidate
  that is right on no row where the incumbent is not cannot win a superiority test, one that is
  never worse passes every test of its scores, and of two models at most one replaces the other.
\<close>

section \<open>What the arrays promise\<close>

text \<open>Documented behaviour of numpy: draws are in range and as many as asked for, a quantile lies
  within its sample, grows with its order and mirrors with the sample, roots are monotone.\<close>

definition draws_in_range :: "'g numpy \<Rightarrow> bool" where
  "draws_in_range np \<longleftrightarrow> (\<forall>n size g. length (fst (np_choice np n size g)) = size \<and> (size \<le> n \<longrightarrow> set (fst (np_choice np n size g)) \<subseteq> {..<n}))
     \<and> (\<forall>n size g. length (fst (np_integers np n size g)) = size
          \<and> (0 < n \<longrightarrow> (\<forall>idx\<in>set (fst (np_integers np n size g)). length idx = n \<and> set idx \<subseteq> {..<n})))"

definition quantile_ok :: "(rat list \<Rightarrow> rat \<Rightarrow> rat) \<Rightarrow> bool" where
  "quantile_ok quantile \<longleftrightarrow> (\<forall>xs q. xs \<noteq> [] \<and> 0 \<le> q \<and> q \<le> 1 \<longrightarrow> Min (set xs) \<le> quantile xs q \<and> quantile xs q \<le> Max (set xs)
     \<and> quantile (map uminus xs) q = - quantile xs (1 - q) \<and> (\<forall>r. q \<le> r \<and> r \<le> 1 \<longrightarrow> quantile xs q \<le> quantile xs r))"

definition numpy_ok :: "'g numpy \<Rightarrow> bool" where
  "numpy_ok np \<longleftrightarrow> draws_in_range np \<and> quantile_ok (np_quantile np)
     \<and> (\<forall>a b. 0 \<le> a \<and> a \<le> b \<longrightarrow> np_sqrt np a \<le> np_sqrt np b)"

section \<open>Rows and their means\<close>

definition width :: "string \<Rightarrow> nat" where
  "width metric = (if metric = ''f1'' then 3 else 1)"

definition stat_of :: "'g numpy \<Rightarrow> string \<Rightarrow> stat" where
  "stat_of np metric = (if metric = ''rmse'' then root_mean np else if metric = ''f1'' then f1_stat else mean_stat)"

definition well_shaped :: "string \<Rightarrow> rat list \<Rightarrow> bool" where
  "well_shaped metric r \<longleftrightarrow> length r = width metric \<and> (metric \<noteq> ''silhouette'' \<longrightarrow> (\<forall>x\<in>set r. 0 \<le> x))"

text \<open>\<open>no_worse_row metric r r'\<close>: the row \<open>r'\<close> of a model counts for no less than the row \<open>r\<close> of another.\<close>

definition no_worse_row :: "string \<Rightarrow> rat list \<Rightarrow> rat list \<Rightarrow> bool" where
  "no_worse_row metric r r' \<longleftrightarrow> (if metric = ''rmse'' then r' ! 0 \<le> r ! 0
     else if metric = ''f1'' then r ! 0 \<le> r' ! 0 \<and> r' ! 1 \<le> r ! 1 \<and> r' ! 2 \<le> r ! 2
     else r ! 0 \<le> r' ! 0)"

lemma metric_rows_shape:
  assumes "metric_rows np metric y pred sample = Some (rows, stat)"
  shows "stat = stat_of np metric \<and> (\<forall>r\<in>set rows. well_shaped metric r)"
  using assms
  by (auto simp: metric_rows_def stat_of_def well_shaped_def width_def in_set_zip bind_eq_Some_conv split: if_splits)

lemma f1_grows:
  assumes "0 \<le> tp" "tp \<le> tp'" "0 \<le> fp'" "fp' \<le> fp" "0 \<le> fn'" "fn' \<le> fn"
  shows "f1_stat [tp, fp, fn] \<le> f1_stat [tp', fp', fn']"
proof (cases "0 < 2 * tp + fp + fn")
  case False
  then have "f1_stat [tp, fp, fn] = 0" by (simp add: f1_stat_def numeral_2_eq_2)
  moreover have "0 \<le> f1_stat [tp', fp', fn']" using assms by (simp add: f1_stat_def Let_def numeral_2_eq_2)
  ultimately show ?thesis by simp
next
  case d: True
  show ?thesis
  proof (cases "0 < tp")
    case False
    then have "tp = 0" using assms by simp
    then show ?thesis using assms by (simp add: f1_stat_def Let_def numeral_2_eq_2)
  next
    case True
    then have d': "0 < 2 * tp' + fp' + fn'" using assms by simp
    have "tp * (fp' + fn') \<le> tp' * (fp + fn)" using assms by (intro mult_mono) auto
    then have "2 * tp * (2 * tp' + fp' + fn') \<le> 2 * tp' * (2 * tp + fp + fn)" by (simp add: algebra_simps)
    then have "2 * tp / (2 * tp + fp + fn) \<le> 2 * tp' / (2 * tp' + fp' + fn')"
      using d d' by (simp add: field_simps)
    then show ?thesis using d d' by (simp add: f1_stat_def Let_def numeral_2_eq_2)
  qed
qed

definition metric_sign :: "string \<Rightarrow> rat" where
  "metric_sign metric = (if higher_is_better metric = Some True then 1 else -1)"

lemma stat_follows:
  assumes np: "numpy_ok np" and m: "well_shaped metric m" "well_shaped metric m'" and le: "no_worse_row metric m m'"
    and known: "metric \<in> {''accuracy'', ''rmse'', ''f1'', ''silhouette''}"
  shows "0 \<le> metric_sign metric * (stat_of np metric m' - stat_of np metric m)"
proof -
  have sqrt: "np_sqrt np a \<le> np_sqrt np b" if "0 \<le> a" "a \<le> b" for a b using np that by (simp add: numpy_ok_def)
  consider "metric = ''rmse''" | "metric = ''f1''" | "metric = ''accuracy'' \<or> metric = ''silhouette''" using known by auto
  then show ?thesis
  proof cases
    case 1
    then show ?thesis using m le sqrt[of "m' ! 0" "m ! 0"]
      by (auto simp: well_shaped_def width_def no_worse_row_def metric_sign_def stat_of_def root_mean_def higher_is_better_def
          higher_metrics_def lower_metrics_def)
  next
    case 2
    obtain a b c where abc: "m = [a, b, c]" using m(1) 2 by (auto simp: well_shaped_def width_def length_Suc_conv eval_nat_numeral)
    obtain a' b' c' where abc': "m' = [a', b', c']" using m(2) 2 by (auto simp: well_shaped_def width_def length_Suc_conv eval_nat_numeral)
    show ?thesis using f1_grows[of a a' b' b c' c] m le 2
      by (auto simp: abc abc' well_shaped_def no_worse_row_def metric_sign_def stat_of_def higher_is_better_def higher_metrics_def numeral_2_eq_2)
  next
    case 3
    then show ?thesis using le
      by (auto simp: no_worse_row_def metric_sign_def stat_of_def mean_stat_def higher_is_better_def higher_metrics_def)
  qed
qed

lemma sum_list_all2:
  fixes f :: "'a \<Rightarrow> rat"
  assumes "list_all2 (\<lambda>x y. f x \<le> g y) xs ys"
  shows "sum_list (map f xs) \<le> sum_list (map g ys)"
  using assms by induction (auto intro: add_mono)

lemma col_means_nth:
  assumes "rows \<noteq> []" "\<forall>r\<in>set rows. well_shaped metric r" "j < width metric"
  shows "col_means rows ! j = sum_list (map (\<lambda>r. r ! j) rows) / of_nat (length rows)"
  using assms by (auto simp: col_means_def well_shaped_def neq_Nil_conv)

lemma col_means_shaped:
  assumes "rows \<noteq> []" "\<forall>r\<in>set rows. well_shaped metric r"
  shows "well_shaped metric (col_means rows)"
proof -
  have len: "length (col_means rows) = width metric" using assms by (auto simp: col_means_def well_shaped_def neq_Nil_conv)
  moreover have "0 \<le> x" if "metric \<noteq> ''silhouette''" and x: "x \<in> set (col_means rows)" for x
  proof -
    obtain j where j: "j < width metric" "x = col_means rows ! j" using x len by (auto simp: in_set_conv_nth)
    have "0 \<le> sum_list (map (\<lambda>r. r ! j) rows)"
      by (rule sum_list_nonneg) (use assms(2) that(1) j(1) in \<open>auto simp: well_shaped_def\<close>)
    then show ?thesis using col_means_nth[OF assms j(1)] j(2) by simp
  qed
  ultimately show ?thesis by (auto simp: well_shaped_def)
qed

lemma mean_le:
  assumes "length xs = length ys" "sum_list (map f xs) \<le> (sum_list (map g ys) :: rat)"
  shows "sum_list (map f xs) / of_nat (length xs) \<le> sum_list (map g ys) / of_nat (length ys)"
  using assms by (simp add: divide_right_mono)

lemma point_follows:
  assumes np: "numpy_ok np" and ne: "rows \<noteq> []" and le: "list_all2 (no_worse_row metric) rows rows'"
    and shape: "\<forall>r\<in>set rows. well_shaped metric r" "\<forall>r\<in>set rows'. well_shaped metric r"
    and known: "metric \<in> {''accuracy'', ''rmse'', ''f1'', ''silhouette''}"
  shows "0 \<le> metric_sign metric * (point rows' (stat_of np metric) - point rows (stat_of np metric))"
proof -
  have len: "length rows = length rows'" using le by (rule list_all2_lengthD)
  then have ne': "rows' \<noteq> []" using ne by auto
  note nth = col_means_nth[OF ne shape(1)] col_means_nth[OF ne' shape(2)]
  have up: "sum_list (map (\<lambda>r. r ! j) rows) / of_nat (length rows) \<le> sum_list (map (\<lambda>r. r ! j) rows') / of_nat (length rows')"
    if "\<And>r r'. no_worse_row metric r r' \<Longrightarrow> r ! j \<le> r' ! j" for j
    by (rule mean_le[OF len]) (rule sum_list_all2, rule list_all2_mono[OF le], rule that)
  have down: "sum_list (map (\<lambda>r. r ! j) rows') / of_nat (length rows') \<le> sum_list (map (\<lambda>r. r ! j) rows) / of_nat (length rows)"
    if "\<And>r r'. no_worse_row metric r r' \<Longrightarrow> r' ! j \<le> r ! j" for j
  proof (rule mean_le[OF len[symmetric]], rule sum_list_all2)
    show "list_all2 (\<lambda>x y. x ! j \<le> y ! j) rows' rows"
      using list_all2_mono[OF le, of "\<lambda>r r'. r' ! j \<le> r ! j"] that by (simp add: list_all2_conv_all_nth)
  qed
  have "no_worse_row metric (col_means rows) (col_means rows')"
    using known nth up[of 0] down[of 0] down[of 1] down[of 2]
    by (auto simp: no_worse_row_def width_def)
  from stat_follows[OF np col_means_shaped[OF ne shape(1)] col_means_shaped[OF ne' shape(2)] this known]
  show ?thesis by (simp add: point_def)
qed

lemma pick_all2:
  assumes "list_all2 P xs ys" "set idx \<subseteq> {..<length xs}"
  shows "list_all2 P (pick xs idx) (pick ys idx)"
proof -
  have "P (xs ! i) (ys ! i)" if "i \<in> set idx" for i using assms that by (auto dest: list_all2_nthD)
  then show ?thesis by (simp add: pick_def list_all2_map1 list_all2_map2 list_all2_same)
qed

lemma pick_in: "set idx \<subseteq> {..<length xs} \<Longrightarrow> set (pick xs idx) \<subseteq> set xs"
  by (auto simp: pick_def)

section \<open>The bootstrap and the slices\<close>

lemma draws_ok:
  assumes "idx \<in> set (draws np n batch left g)" "draws_in_range np" "0 < n"
  shows "length idx = n \<and> set idx \<subseteq> {..<n}"
  using assms
proof (induction np n batch left g rule: draws.induct)
  case (1 np n batch left g)
  obtain ids g' where ids: "np_integers np n (min batch left) g = (ids, g')" by force
  have go: "\<not> (left = 0 \<or> batch = 0)" using 1(2) by (subst (asm) draws.simps) (auto split: if_splits)
  then have "idx \<in> set ids \<or> idx \<in> set (draws np n batch (left - batch) g')"
    using 1(2) by (subst (asm) draws.simps) (simp add: ids)
  moreover have "\<forall>idx\<in>set ids. length idx = n \<and> set idx \<subseteq> {..<n}"
    using 1(3,4) ids unfolding draws_in_range_def by (metis fst_conv)
  ultimately show ?case using 1(1)[OF go ids[symmetric] refl _ 1(3,4)] by blast
qed

lemma draws_some:
  assumes "draws_in_range np" "0 < batch" "0 < left"
  shows "draws np n batch left g \<noteq> []"
proof -
  have "length (fst (np_integers np n (min batch left) g)) = min batch left" using assms by (simp add: draws_in_range_def)
  then have "fst (np_integers np n (min batch left) g) \<noteq> []" using assms by auto
  then show ?thesis using assms by (subst draws.simps) (auto split: prod.split)
qed

lemma boot_rows_all2:
  assumes "draws_in_range np" "rows \<noteq> []" "list_all2 P rows rows'" "0 < gp_max_rows p"
    and "boot_rows np p rows rows' g = ((b, b'), g')"
  shows "list_all2 P b b' \<and> b \<noteq> [] \<and> set b \<subseteq> set rows \<and> set b' \<subseteq> set rows'"
proof (cases "gp_max_rows p < length rows")
  case True
  define idx where "idx = fst (np_choice np (length rows) (gp_max_rows p) g)"
  have idx: "length idx = gp_max_rows p" "set idx \<subseteq> {..<length rows}"
    using assms(1) True by (simp_all add: draws_in_range_def idx_def)
  have len: "length rows = length rows'" using assms(3) by (rule list_all2_lengthD)
  have "b = pick rows idx" "b' = pick rows' idx"
    using assms(5) True by (auto simp: boot_rows_def idx_def split: prod.splits)
  then show ?thesis
    using pick_all2[OF assms(3) idx(2)] pick_in[OF idx(2)] pick_in[of idx rows'] idx assms(4) len by (auto simp: pick_def)
next
  case False
  then show ?thesis using assms by (auto simp: boot_rows_def)
qed

lemma difference_follows:
  assumes np: "numpy_ok np" and ne: "rows \<noteq> []" and le: "list_all2 (no_worse_row metric) rows rows'"
    and shape: "\<forall>r\<in>set rows. well_shaped metric r" "\<forall>r\<in>set rows'. well_shaped metric r"
    and known: "metric \<in> {''accuracy'', ''rmse'', ''f1'', ''silhouette''}"
    and idx: "idx \<in> set (draws np (length rows) batch left g)"
  shows "0 \<le> difference (stat_of np metric) (metric_sign metric) rows rows' idx"
proof -
  have len: "length rows = length rows'" using le by (rule list_all2_lengthD)
  have i: "length idx = length rows" "set idx \<subseteq> {..<length rows}"
    using draws_ok[OF idx] np ne by (auto simp: numpy_ok_def)
  have "pick rows idx \<noteq> []" using i(1) ne by (auto simp: pick_def)
  moreover have "\<forall>r\<in>set (pick rows idx). well_shaped metric r" "\<forall>r\<in>set (pick rows' idx). well_shaped metric r"
    using pick_in[OF i(2)] pick_in[of idx rows'] i(2) len shape by auto
  ultimately show ?thesis
    using point_follows[OF np _ pick_all2[OF le i(2)] _ _ known] by (simp add: difference_def)
qed

lemma difference_mirrors: "difference stat sign a b idx = - difference stat sign b a idx"
  by (simp add: difference_def algebra_simps)

lemma quantile_bounds:
  assumes "numpy_ok np" "xs \<noteq> []" "0 \<le> q" "q \<le> 1"
  shows "(\<forall>x\<in>set xs. 0 \<le> x) \<Longrightarrow> 0 \<le> np_quantile np xs q" "(\<forall>x\<in>set xs. x \<le> 0) \<Longrightarrow> np_quantile np xs q \<le> 0"
proof -
  have b: "Min (set xs) \<le> np_quantile np xs q" "np_quantile np xs q \<le> Max (set xs)"
    using assms by (auto simp: numpy_ok_def quantile_ok_def)
  have "Min (set xs) \<in> set xs" "Max (set xs) \<in> set xs" using assms(2) by simp_all
  then show "(\<forall>x\<in>set xs. 0 \<le> x) \<Longrightarrow> 0 \<le> np_quantile np xs q" "(\<forall>x\<in>set xs. x \<le> 0) \<Longrightarrow> np_quantile np xs q \<le> 0"
    using b by fastforce+
qed

lemma slice_rows_all2: "list_all2 P rows rows' \<Longrightarrow> list_all2 P (slice_rows vs v rows) (slice_rows vs v rows')"
  unfolding slice_rows_def
proof (induction arbitrary: vs rule: list_all2_induct)
  case (Cons x xs y ys)
  then show ?case by (cases vs) auto
qed simp

lemma slice_rows_in: "set (slice_rows vs v rows) \<subseteq> set rows"
  by (auto simp: slice_rows_def dest: set_zip_rightD)

lemma slice_rows_length:
  "length vs \<le> length rows \<Longrightarrow> length (slice_rows vs v rows) = length (filter (in_slice v) vs)"
proof (induction vs arbitrary: rows)
  case (Cons x vs)
  then show ?case by (cases rows) (auto simp: slice_rows_def)
qed (simp add: slice_rows_def)

definition aligned :: "frame option \<Rightarrow> nat \<Rightarrow> bool" where
  "aligned ctx n \<longleftrightarrow> (case ctx of None \<Rightarrow> True | Some f \<Rightarrow> list_all (\<lambda>(_, vs). length vs = n) f)"

lemma slice_passes:
  assumes np: "numpy_ok np" and le: "list_all2 (no_worse_row metric) rows rows'"
    and shape: "\<forall>r\<in>set rows. well_shaped metric r" "\<forall>r\<in>set rows'. well_shaped metric r"
    and known: "metric \<in> {''accuracy'', ''rmse'', ''f1'', ''silhouette''}"
    and guard: "0 \<le> sg_max_drop guard" and some: "slice_rows vs v rows \<noteq> []"
  shows "slice_ok guard (stat_of np metric) (metric_sign metric) (slice_rows vs v rows) (slice_rows vs v rows')"
proof -
  have "0 \<le> metric_sign metric * (point (slice_rows vs v rows') (stat_of np metric) - point (slice_rows vs v rows) (stat_of np metric))"
    using point_follows[OF np some slice_rows_all2[OF le] _ _ known] shape slice_rows_in by blast
  then have "metric_sign metric * (point (slice_rows vs v rows) (stat_of np metric) - point (slice_rows vs v rows') (stat_of np metric)) \<le> 0"
    by (simp add: algebra_simps)
  also have "0 \<le> sg_max_drop guard * (if sg_relative guard then \<bar>point (slice_rows vs v rows) (stat_of np metric)\<bar> else 1)"
    using guard by simp
  finally show ?thesis by (simp add: slice_ok_def Let_def)
qed

lemma column_passes:
  assumes np: "numpy_ok np" and le: "list_all2 (no_worse_row metric) rows rows'"
    and shape: "\<forall>r\<in>set rows. well_shaped metric r" "\<forall>r\<in>set rows'. well_shaped metric r"
    and known: "metric \<in> {''accuracy'', ''rmse'', ''f1'', ''silhouette''}"
    and guard: "0 \<le> sg_max_drop guard" "1 \<le> sg_min_rows guard" and ctx: "aligned ctx (length rows)"
    and ev: "gr_evaluated (check_column guard ctx rows rows' (stat_of np metric) (metric_sign metric) per_row c)"
  shows "gr_passed (check_column guard ctx rows rows' (stat_of np metric) (metric_sign metric) per_row c)"
proof -
  have "slice_ok guard (stat_of np metric) (metric_sign metric) (slice_rows vs v rows) (slice_rows vs v rows')"
    if "Option.bind ctx (\<lambda>f. map_of f c) = Some vs" "sg_min_rows guard \<le> length (filter (in_slice v) vs)" for vs v
  proof (rule slice_passes[OF np le shape known guard(1)])
    from that(1) obtain f where f: "ctx = Some f" "map_of f c = Some vs" by (auto simp: bind_eq_Some_conv)
    then have "length vs = length rows" using ctx map_of_SomeD[OF f(2)] by (auto simp: aligned_def list_all_iff)
    then have "length (slice_rows vs v rows) = length (filter (in_slice v) vs)" by (simp add: slice_rows_length)
    then show "slice_rows vs v rows \<noteq> []" using that(2) guard(2) by auto
  qed
  then show ?thesis using ev
    by (auto simp: check_column_def not_evaluated_def evaluated_def Let_def list_all_iff split: if_splits option.splits)
qed

section \<open>The verdict\<close>

lemma decided:
  assumes "gate_decide np p classification metric n y cur cand ctx = Some d"
    and "metric_rows np metric y (sc_predictions cur) (fst (pair_sample np p metric n (np_rng np (gp_seed p)))) = Some (rows, st)"
    and "metric_rows np metric y (sc_predictions cand) (fst (pair_sample np p metric n (np_rng np (gp_seed p)))) = Some (rows', st')"
  obtains higher g where "higher_is_better metric = Some higher" "g = snd (pair_sample np p metric n (np_rng np (gp_seed p)))" "rows \<noteq> []"
    "d = decide_on_rows np p classification metric n y cur cand ctx higher rows rows' (stat_of np metric) g"
proof -
  obtain sample g where ps: "pair_sample np p metric n (np_rng np (gp_seed p)) = (sample, g)" by fastforce
  have st: "st = stat_of np metric" using metric_rows_shape[OF assms(2)] by simp
  obtain higher where "higher_is_better metric = Some higher" "rows \<noteq> []"
    "d = decide_on_rows np p classification metric n y cur cand ctx higher rows rows' (stat_of np metric) g"
    using assms ps st by (auto simp: gate_decide_def bind_eq_Some_conv split: if_splits)
  then show thesis using that ps by simp
qed

lemma known_metric: "metric_rows np metric y pred sample = Some x \<Longrightarrow> metric \<in> {''accuracy'', ''rmse'', ''f1'', ''silhouette''}"
  by (auto simp: metric_rows_def split: if_splits)

text \<open>What a decision says of its test and its slices.\<close>

lemma decision_parts:
  fixes p :: gate_policy and stat :: stat and cur cand :: scored and classification :: bool and ctx :: "frame option"
    and y :: "arr option" and n :: nat
  assumes "higher_is_better metric = Some higher" "boot_rows np p rows rows' g = ((b, b'), g')"
  defines "gains \<equiv> bootstrap np p b b' stat (metric_sign metric) g'"
    and "d \<equiv> decide_on_rows np p classification metric n y cur cand ctx higher rows rows' stat g"
  shows "gd_low d = np_quantile np gains ((1 - gp_confidence p) / 2)"
    and "gd_high d = np_quantile np gains (1 - (1 - gp_confidence p) / 2)"
    and "gd_accept d \<Longrightarrow> (if gp_superiority p then gd_threshold d < gd_low d else gd_threshold d \<le> gd_low d)"
    and "gd_threshold d = (if gp_superiority p then 1 else -1) * (gp_margin p * (if gp_margin_relative p then \<bar>gd_current d\<bar> else 1))"
    and "take (length (sg_columns (gp_slices p))) (gd_guardrails d)
      = check_slices (gp_slices p) ctx rows rows' stat (metric_sign metric) (metric \<noteq> ''silhouette'')"
proof -
  have sign: "(if higher then 1 else - 1) = metric_sign metric" using assms(1) by (simp add: metric_sign_def)
  note defs = d_def gains_def decide_on_rows_def sign assms(2) Let_def all_guardrails_def check_slices_def
  show "gd_low d = np_quantile np gains ((1 - gp_confidence p) / 2)"
    "gd_high d = np_quantile np gains (1 - (1 - gp_confidence p) / 2)" by (simp_all add: defs)
  show "gd_accept d \<Longrightarrow> (if gp_superiority p then gd_threshold d < gd_low d else gd_threshold d \<le> gd_low d)"
    by (cases "gp_superiority p") (simp_all add: defs)
  show "gd_threshold d = (if gp_superiority p then 1 else -1) * (gp_margin p * (if gp_margin_relative p then \<bar>gd_current d\<bar> else 1))"
    by (cases "gp_superiority p") (simp_all add: defs)
  show "take (length (sg_columns (gp_slices p))) (gd_guardrails d)
      = check_slices (gp_slices p) ctx rows rows' stat (metric_sign metric) (metric \<noteq> ''silhouette'')" by (simp add: defs)
qed

lemma bootstrap_some:
  assumes "numpy_ok np" "gate_policy_ok p"
  shows "bootstrap np p b b' stat sign g \<noteq> []"
  using draws_some[of np "gp_batch p" "gp_resamples p"] assms by (auto simp: bootstrap_def numpy_ok_def gate_policy_ok_def)

lemma bootstrap_mirrors: "length b = length b' \<Longrightarrow> bootstrap np p b' b stat sign g = map uminus (bootstrap np p b b' stat sign g)"
  by (simp add: bootstrap_def difference_def algebra_simps)

lemma alpha_range: "gate_policy_ok p \<Longrightarrow> 0 \<le> (1 - gp_confidence p) / 2 \<and> (1 - gp_confidence p) / 2 \<le> 1 - (1 - gp_confidence p) / 2
    \<and> 1 - (1 - gp_confidence p) / 2 \<le> 1"
  by (simp add: gate_policy_ok_def field_simps)

lemma gains_follow:
  assumes np: "numpy_ok np" and p: "gate_policy_ok p" and ne: "rows \<noteq> []"
    and shape: "\<forall>r\<in>set rows. well_shaped metric r" "\<forall>r\<in>set rows'. well_shaped metric r"
    and known: "metric \<in> {''accuracy'', ''rmse'', ''f1'', ''silhouette''}"
    and boot: "boot_rows np p rows rows' g = ((b, b'), g')"
  shows "list_all2 (no_worse_row metric) rows rows' \<Longrightarrow>
      \<forall>x\<in>set (bootstrap np p b b' (stat_of np metric) (metric_sign metric) g'). 0 \<le> x"
    and "list_all2 (no_worse_row metric) rows' rows \<Longrightarrow>
      \<forall>x\<in>set (bootstrap np p b b' (stat_of np metric) (metric_sign metric) g'). x \<le> 0"
proof -
  have pos: "draws_in_range np" "0 < gp_max_rows p" using np p by (auto simp: numpy_ok_def gate_policy_ok_def)
  show "\<forall>x\<in>set (bootstrap np p b b' (stat_of np metric) (metric_sign metric) g'). 0 \<le> x"
    if le: "list_all2 (no_worse_row metric) rows rows'"
  proof -
    note b = boot_rows_all2[OF pos(1) ne le pos(2) boot]
    then show ?thesis using difference_follows[OF np _ _ _ _ known] shape by (fastforce simp: bootstrap_def)
  qed
  show "\<forall>x\<in>set (bootstrap np p b b' (stat_of np metric) (metric_sign metric) g'). x \<le> 0"
    if le: "list_all2 (no_worse_row metric) rows' rows"
  proof -
    have "list_all2 (\<lambda>r r'. no_worse_row metric r' r) rows rows'" using le by (simp add: list_all2_conv_all_nth)
    from boot_rows_all2[OF pos(1) ne this pos(2) boot]
    have b: "list_all2 (no_worse_row metric) b' b" "b' \<noteq> []" "set b \<subseteq> set rows" "set b' \<subseteq> set rows'" "length b = length b'"
      by (auto simp: list_all2_conv_all_nth)
    have "0 \<le> difference (stat_of np metric) (metric_sign metric) b' b idx"
      if "idx \<in> set (draws np (length b') (gp_batch p) (gp_resamples p) g')" for idx
      using difference_follows[OF np b(2,1) _ _ known that] shape b(3,4) by blast
    then show ?thesis using b(5) by (auto simp: bootstrap_def difference_mirrors[of _ _ b b'])
  qed
qed

text \<open>C16. The gate follows the held-out rows, whatever rows it draws. When the candidate is better
  on no row (for accuracy: right on no row the incumbent gets wrong), a superiority test rejects
  it, whatever else is measured of it. When it is worse on no row, it passes the primary test of a
  non-inferiority policy and every slice guardrail that is evaluated.\<close>

theorem gate_respects_dominance:
  assumes np: "numpy_ok np" and p: "gate_policy_ok p"
    and run: "gate_decide np p classification metric n y cur cand ctx = Some d"
    and rows: "metric_rows np metric y (sc_predictions cur) (fst (pair_sample np p metric n (np_rng np (gp_seed p)))) = Some (rows, st)"
      "metric_rows np metric y (sc_predictions cand) (fst (pair_sample np p metric n (np_rng np (gp_seed p)))) = Some (rows', st')"
    and ctx: "aligned ctx (length rows)"
  shows "(gp_superiority p \<and> list_all2 (no_worse_row metric) rows' rows \<longrightarrow> \<not> gd_accept d)
    \<and> (list_all2 (no_worse_row metric) rows rows' \<longrightarrow> (\<not> gp_superiority p \<longrightarrow> gd_threshold d \<le> gd_low d)
        \<and> (\<forall>g\<in>set (take (length (sg_columns (gp_slices p))) (gd_guardrails d)). gr_evaluated g \<longrightarrow> gr_passed g))"
proof -
  obtain higher g where h: "higher_is_better metric = Some higher" "rows \<noteq> []"
    and d: "d = decide_on_rows np p classification metric n y cur cand ctx higher rows rows' (stat_of np metric) g"
    using decided[OF run rows] by metis
  obtain b b' g' where boot: "boot_rows np p rows rows' g = ((b, b'), g')" by (metis prod.exhaust)
  have shape: "\<forall>r\<in>set rows. well_shaped metric r" "\<forall>r\<in>set rows'. well_shaped metric r"
    using metric_rows_shape[OF rows(1)] metric_rows_shape[OF rows(2)] by auto
  note known = known_metric[OF rows(1)] and parts = decision_parts[OF h(1) boot, where stat = "stat_of np metric" and cur = cur and cand = cand
      and classification = classification and ctx = ctx and y = y and n = n, folded d]
  note follow = gains_follow[OF np p h(2) shape known boot]
  note within = quantile_bounds[OF np bootstrap_some[OF np p] alpha_range[OF p, THEN conjunct1]]
  have a: "(1 - gp_confidence p) / 2 \<le> 1" and margin: "0 \<le> gp_margin p" and guard: "0 \<le> sg_max_drop (gp_slices p)" "1 \<le> sg_min_rows (gp_slices p)"
    using p by (simp_all add: gate_policy_ok_def)
  have th: "gp_superiority p \<Longrightarrow> 0 \<le> gd_threshold d" "\<not> gp_superiority p \<Longrightarrow> gd_threshold d \<le> 0"
    using parts(4) margin by simp_all
  show ?thesis
  proof (intro conjI impI ballI)
    assume "gp_superiority p \<and> list_all2 (no_worse_row metric) rows' rows"
    then show "\<not> gd_accept d" using within(2)[OF a] follow(2) parts(1,3) th(1) by fastforce
  next
    assume le: "list_all2 (no_worse_row metric) rows rows'"
    show "gd_threshold d \<le> gd_low d" if "\<not> gp_superiority p"
      using within(1)[OF a follow(1)[OF le]] parts(1) th(2)[OF that] by simp
    show "gr_passed r" if "r \<in> set (take (length (sg_columns (gp_slices p))) (gd_guardrails d))" "gr_evaluated r" for r
      using that column_passes[OF np le shape known guard ctx] parts(5) by (auto simp: check_slices_def)
  qed
qed

lemma boot_rows_swap:
  "length rows = length rows' \<Longrightarrow> boot_rows np p rows rows' g = ((b, b'), g') \<Longrightarrow> boot_rows np p rows' rows g = ((b', b), g') \<and> length b = length b'"
  by (auto simp: boot_rows_def pick_def split: if_splits prod.splits)

text \<open>C17. Under a superiority policy two models never replace each other: on the same held-out rows,
  whatever their other measurements, the gate that accepts a candidate in the place of the incumbent
  rejects the incumbent in the place of that candidate.\<close>

theorem gate_never_flips:
  assumes np: "numpy_ok np" and p: "gate_policy_ok p" and sup: "gp_superiority p"
    and there: "gate_decide np p classification metric n y cur cand ctx = Some d"
    and again: "gate_decide np p classification metric n y cand cur ctx' = Some d'"
    and rows: "metric_rows np metric y (sc_predictions cur) (fst (pair_sample np p metric n (np_rng np (gp_seed p)))) = Some (rows, st)"
      "metric_rows np metric y (sc_predictions cand) (fst (pair_sample np p metric n (np_rng np (gp_seed p)))) = Some (rows', st')"
      "length rows = length rows'"
    and accepted: "gd_accept d"
  shows "\<not> gd_accept d' \<and> gd_low d' = - gd_high d"
proof -
  obtain higher g where h: "higher_is_better metric = Some higher" "g = snd (pair_sample np p metric n (np_rng np (gp_seed p)))"
    and d: "d = decide_on_rows np p classification metric n y cur cand ctx higher rows rows' (stat_of np metric) g"
    using decided[OF there rows(1,2)] by metis
  have d': "d' = decide_on_rows np p classification metric n y cand cur ctx' higher rows' rows (stat_of np metric) g"
    using decided[OF again rows(2,1)] h by (metis option.inject)
  obtain b b' g' where boot: "boot_rows np p rows rows' g = ((b, b'), g')" by (metis prod.exhaust)
  note swap = boot_rows_swap[OF rows(3) boot]
  note parts = decision_parts[OF h(1) boot, where stat = "stat_of np metric" and cur = cur and cand = cand
      and classification = classification and ctx = ctx and y = y and n = n, folded d]
    and parts' = decision_parts[OF h(1) swap[THEN conjunct1], where stat = "stat_of np metric" and cur = cand and cand = cur
      and classification = classification and ctx = ctx' and y = y and n = n, folded d']
  define gains where "gains = bootstrap np p b b' (stat_of np metric) (metric_sign metric) g'"
  define a where "a = (1 - gp_confidence p) / 2"
  have a: "0 \<le> a" "a \<le> 1 - a" "1 - a \<le> 1" using alpha_range[OF p] by (simp_all add: a_def)
  have "gains \<noteq> []" using bootstrap_some[OF np p] by (simp add: gains_def)
  then have q: "np_quantile np (map uminus gains) a = - np_quantile np gains (1 - a)" "np_quantile np gains a \<le> np_quantile np gains (1 - a)"
    using np a by (simp_all add: numpy_ok_def quantile_ok_def)
  have low: "gd_low d = np_quantile np gains a" "gd_high d = np_quantile np gains (1 - a)"
    using parts(1,2) by (simp_all add: gains_def a_def)
  moreover have "gd_low d' = np_quantile np (map uminus gains) a"
    using parts'(1) bootstrap_mirrors[OF swap[THEN conjunct2], of np p "stat_of np metric" "metric_sign metric" g'] by (simp add: gains_def a_def)
  ultimately have mirror: "gd_low d' = - gd_high d" "gd_low d \<le> gd_high d" using q by simp_all
  have "0 \<le> gp_margin p" using p by (simp add: gate_policy_ok_def)
  then have "0 \<le> gd_threshold d" "0 \<le> gd_threshold d'" using parts(4) parts'(4) sup by simp_all
  moreover have "gd_threshold d < gd_low d" using parts(3) accepted sup by simp
  moreover have "gd_accept d' \<Longrightarrow> gd_threshold d' < gd_low d'" using parts'(3) sup by simp
  ultimately show ?thesis using mirror by fastforce
qed

section \<open>A held-out set\<close>

definition demo_numpy :: "nat numpy" where
  "demo_numpy = \<lparr>np_rng = nat, np_choice = (\<lambda>n size g. ([0..<size], g)),
     np_integers = (\<lambda>n size g. (map (\<lambda>k. map (\<lambda>i. (k * i + g) mod n) [0..<n]) [0..<size], g + 1)),
     np_quantile = (\<lambda>xs q. Min (set xs) + q * (Max (set xs) - Min (set xs))), np_sqrt = (\<lambda>x. x),
     np_bin = (\<lambda>bins p. nat \<lfloor>p * of_nat bins\<rfloor>), sk_silhouette = (\<lambda>s _. map (\<lambda>_. 0) s)\<rparr>"

lemma demo_numpy_ok: "numpy_ok demo_numpy"
proof -
  have neg: "Min (uminus ` A) = - Max A" "Max (uminus ` A) = - Min A" if "finite A" "A \<noteq> {}" for A :: "rat set"
    using that minus_Max_eq_Min[of A] minus_Min_eq_Max[of A] by auto
  have le: "Min (set xs) \<le> Max (set xs)" if "xs \<noteq> []" for xs :: "rat list" using that by simp
  have scale: "0 \<le> q * (Max (set xs) - Min (set xs)) \<and> q * (Max (set xs) - Min (set xs)) \<le> Max (set xs) - Min (set xs)"
    if "xs \<noteq> []" "0 \<le> q" "q \<le> 1" for xs and q :: rat
    using le[OF that(1)] that by (simp add: mult_left_le_one_le)
  have "quantile_ok (\<lambda>xs q. Min (set xs) + q * (Max (set xs) - Min (set xs)))"
    unfolding quantile_ok_def
  proof (intro allI impI conjI; elim conjE)
    fix xs :: "rat list" and q :: rat assume a: "xs \<noteq> []" "0 \<le> q" "q \<le> 1"
    show "Min (set xs) \<le> Min (set xs) + q * (Max (set xs) - Min (set xs))"
      "Min (set xs) + q * (Max (set xs) - Min (set xs)) \<le> Max (set xs)" using scale[OF a] by auto
    define lo hi where "lo = Min (set xs)" and "hi = Max (set xs)"
    have "Min (set (map uminus xs)) = - hi" "Max (set (map uminus xs)) = - lo"
      using neg[of "set xs"] a(1) by (simp_all add: lo_def hi_def)
    then show "Min (set (map uminus xs)) + q * (Max (set (map uminus xs)) - Min (set (map uminus xs)))
        = - (Min (set xs) + (1 - q) * (Max (set xs) - Min (set xs)))"
      by (simp flip: lo_def hi_def) (simp add: algebra_simps)
    show "Min (set xs) + q * (Max (set xs) - Min (set xs)) \<le> Min (set xs) + r * (Max (set xs) - Min (set xs))"
      if "q \<le> r" "r \<le> 1" for r
      using mult_right_mono[OF that(1), of "Max (set xs) - Min (set xs)"] le[OF a(1)] by simp
  qed
  then show ?thesis by (auto simp: numpy_ok_def draws_in_range_def demo_numpy_def)
qed

definition demo_gate_policy :: "bool \<Rightarrow> gate_policy" where
  "demo_gate_policy superiority = \<lparr>gp_superiority = superiority, gp_margin = 0, gp_margin_relative = False, gp_confidence = 95/100,
     gp_resamples = 100, gp_seed = 1, gp_max_rows = 10, gp_batch = 50, gp_pairwise_max_rows = 10,
     gp_slices = \<lparr>sg_columns = [''cell''], sg_max_drop = 0, sg_relative = False, sg_min_rows = 1, sg_require_columns = True\<rparr>,
     gp_calibration = \<lparr>cg_enabled = False, cg_bins = 10, cg_max_increase = 1/20, cg_max_ece = None\<rparr>,
     gp_latency = \<lparr>lg_enabled = True, lg_max_ratio = 3, lg_floor_ms = 10, lg_repeats = 3, lg_max_rows = 20\<rparr>,
     gp_size = \<lparr>zg_enabled = True, zg_max_ratio = 5, zg_floor_bytes = 10, zg_max_bytes = None\<rparr>,
     gp_metric_guards = [(''recall'', 1/10)]\<rparr>"

definition demo_scored :: "string \<Rightarrow> scored" where
  "demo_scored label = \<lparr>sc_predictions = Labels [label], sc_score = None, sc_metrics = [], sc_classes = [S ''a'', S ''b''],
     sc_ms = (\<lambda>_ i. of_nat i), sc_bytes = Some 100\<rparr>"

definition demo_frame :: frame where "demo_frame = [(''cell'', [Some (S ''north'')])]"

text \<open>One row, with the label a.\<close>

definition demo_gate :: "bool \<Rightarrow> string \<Rightarrow> string \<Rightarrow> gate_decision" where
  "demo_gate superiority cur cand = the (gate_decide demo_numpy (demo_gate_policy superiority) True ''accuracy'' 1
     (Some (Labels [''a''])) (demo_scored cur) (demo_scored cand) (Some demo_frame))"

definition right :: "string \<Rightarrow> rat list list" where "right label = [[of_bool (''a'' = label)]]"

lemma right_rows: "metric_rows demo_numpy ''accuracy'' (Some (Labels [''a''])) (sc_predictions (demo_scored l)) sample = Some (right l, mean_stat)"
  by (simp add: metric_rows_def demo_scored_def right_def)

lemma demo_gate_run: "gate_decide demo_numpy (demo_gate_policy b) True ''accuracy'' 1 (Some (Labels [''a''])) (demo_scored l) (demo_scored l')
    (Some demo_frame) = Some (demo_gate b l l')"
proof -
  obtain sample g where ps: "pair_sample demo_numpy (demo_gate_policy b) ''accuracy'' 1 (np_rng demo_numpy (gp_seed (demo_gate_policy b))) = (sample, g)"
    by fastforce
  have "gate_decide demo_numpy (demo_gate_policy b) True ''accuracy'' 1 (Some (Labels [''a''])) (demo_scored l) (demo_scored l')
      (Some demo_frame) \<noteq> None"
    unfolding gate_decide_def ps
    by (simp add: right_rows higher_is_better_def higher_metrics_def) (simp add: right_def)
  then show ?thesis by (auto simp: demo_gate_def)
qed

lemma demo_policy_ok: "gate_policy_ok (demo_gate_policy b)"
  by (simp add: gate_policy_ok_def demo_gate_policy_def)

lemma demo_aligned: "aligned (Some demo_frame) (length (right l))"
  by (simp add: aligned_def demo_frame_def right_def)

lemma gate_respects_dominance_witness:
  "\<not> gd_accept (demo_gate True ''a'' ''a'') \<and> gd_threshold (demo_gate False ''b'' ''a'') \<le> gd_low (demo_gate False ''b'' ''a'')
    \<and> list_all2 (no_worse_row ''accuracy'') (right ''b'') (right ''a'')"
proof -
  have row: "list_all2 (no_worse_row ''accuracy'') (right ''a'') (right ''a'')" "list_all2 (no_worse_row ''accuracy'') (right ''b'') (right ''a'')"
    by (simp_all add: right_def no_worse_row_def)
  have sup: "gp_superiority (demo_gate_policy b) = b" for b by (simp add: demo_gate_policy_def)
  have "gp_superiority (demo_gate_policy True) \<and> list_all2 (no_worse_row ''accuracy'') (right ''a'') (right ''a'')
      \<longrightarrow> \<not> gd_accept (demo_gate True ''a'' ''a'')"
    by (rule gate_respects_dominance[OF demo_numpy_ok demo_policy_ok demo_gate_run right_rows right_rows demo_aligned, THEN conjunct1])
  moreover have "list_all2 (no_worse_row ''accuracy'') (right ''b'') (right ''a'') \<longrightarrow>
      (\<not> gp_superiority (demo_gate_policy False) \<longrightarrow> gd_threshold (demo_gate False ''b'' ''a'') \<le> gd_low (demo_gate False ''b'' ''a''))"
    using gate_respects_dominance[OF demo_numpy_ok demo_policy_ok demo_gate_run right_rows right_rows demo_aligned,
        of False "''a''" "''b''", THEN conjunct2] by simp
  ultimately show ?thesis using row sup by simp
qed

lemma demo_accepted: "gd_accept (demo_gate True ''b'' ''a'')"
proof -
  let ?p = "demo_gate_policy True"
  obtain higher g where h: "higher_is_better ''accuracy'' = Some higher"
    and d: "demo_gate True ''b'' ''a'' = decide_on_rows demo_numpy ?p True ''accuracy'' 1 (Some (Labels [''a''])) (demo_scored ''b'')
      (demo_scored ''a'') (Some demo_frame) higher (right ''b'') (right ''a'') (stat_of demo_numpy ''accuracy'') g"
    using decided[OF demo_gate_run right_rows right_rows, of True "''b''" "''a''"] by metis
  have h1: "higher" using h by (simp add: higher_is_better_def higher_metrics_def)
  have st: "stat_of demo_numpy ''accuracy'' = mean_stat" by (simp add: stat_of_def)
  have boot: "boot_rows demo_numpy ?p (right ''b'') (right ''a'') g = ((right ''b'', right ''a''), g)"
    by (simp add: boot_rows_def right_def demo_gate_policy_def)
  have "difference mean_stat 1 (right ''b'') (right ''a'') idx = 1" if "idx \<in> set (draws demo_numpy 1 batch left g)" for idx batch left
  proof -
    have "length idx = 1" "set idx \<subseteq> {..<1}" using draws_ok[OF that] demo_numpy_ok by (simp_all add: numpy_ok_def)
    then have "idx = [0]" by (cases idx) auto
    then show ?thesis by (simp add: difference_def point_def pick_def right_def col_means_def mean_stat_def)
  qed
  then have "bootstrap demo_numpy ?p (right ''b'') (right ''a'') mean_stat 1 g
      = map (\<lambda>_. 1) (draws demo_numpy (length (right ''b'')) (gp_batch ?p) (gp_resamples ?p) g)"
    by (simp add: bootstrap_def right_def)
  moreover have "bootstrap demo_numpy ?p (right ''b'') (right ''a'') mean_stat 1 g \<noteq> []"
    by (rule bootstrap_some[OF demo_numpy_ok demo_policy_ok])
  ultimately have "set (bootstrap demo_numpy ?p (right ''b'') (right ''a'') mean_stat 1 g) = {1}" by (simp add: image_constant_conv)
  then have low: "np_quantile demo_numpy (bootstrap demo_numpy ?p (right ''b'') (right ''a'') mean_stat 1 g) q = 1" for q
    by (simp add: demo_numpy_def)
  have guards: "list_all gr_passed (all_guardrails demo_numpy ?p True ''accuracy'' 1 (Some (Labels [''a''])) (demo_scored ''b'')
      (demo_scored ''a'') (Some demo_frame) (right ''b'') (right ''a'') mean_stat 1)" by code_simp
  have p: "gp_superiority ?p" "gp_margin ?p = 0" by (simp_all add: demo_gate_policy_def)
  show ?thesis unfolding d decide_on_rows_def st boot using guards by (simp add: h1 low p Let_def)
qed

lemma gate_never_flips_witness: "gd_accept (demo_gate True ''b'' ''a'') \<and> \<not> gd_accept (demo_gate True ''a'' ''b'')"
proof -
  have "gp_superiority (demo_gate_policy True)" "length (right ''b'') = length (right ''a'')" by (simp_all add: demo_gate_policy_def right_def)
  with gate_never_flips[OF demo_numpy_ok demo_policy_ok _ demo_gate_run demo_gate_run right_rows right_rows _ demo_accepted] demo_accepted
  show ?thesis by blast
qed

end
