(* ===== verification/Validation.thy ===== *)
theory Validation
  imports Gate_Props Training Job_Store
begin

text \<open>
  What the gate is asked (Member 4: \<^verbatim>\<open>validation/engine.py\<close>, and of \<^verbatim>\<open>validation/metrics.py\<close>
  and \<^verbatim>\<open>validation/evaluate.py\<close> the choice of the task and of its metric set). A model's answers
  (\<open>model_call\<close>: its predictions or the typed error, the metrics computed of them, Evidently's
  value, its times and its size) are parameters.
\<close>

section \<open>The task of a model\<close>

datatype task_type = CLASSIFICATION | REGRESSION | FORECASTING | CLUSTERING | ANOMALY_DETECTION

fun primary_metric :: "task_type \<Rightarrow> string" where
  "primary_metric CLASSIFICATION = ''accuracy''"
| "primary_metric REGRESSION = ''rmse''"
| "primary_metric FORECASTING = ''rmse''"
| "primary_metric CLUSTERING = ''silhouette''"
| "primary_metric ANOMALY_DETECTION = ''f1''"

definition task_aliases :: "(string \<times> task_type) list" where
  "task_aliases = [(''classification'', CLASSIFICATION), (''classifier'', CLASSIFICATION), (''regression'', REGRESSION),
     (''regressor'', REGRESSION), (''forecasting'', FORECASTING), (''forecast'', FORECASTING), (''time_series'', FORECASTING),
     (''timeseries'', FORECASTING), (''clustering'', CLUSTERING), (''clusterer'', CLUSTERING),
     (''anomaly_detection'', ANOMALY_DETECTION), (''anomaly'', ANOMALY_DETECTION),
     (''outlier_detector'', ANOMALY_DETECTION), (''outlier_detection'', ANOMALY_DETECTION)]"

fun estimator_for_task :: "task_type \<Rightarrow> string" where
  "estimator_for_task CLASSIFICATION = ''classifier''"
| "estimator_for_task REGRESSION = ''regressor''"
| "estimator_for_task FORECASTING = ''regressor''"
| "estimator_for_task CLUSTERING = ''clusterer''"
| "estimator_for_task ANOMALY_DETECTION = ''outlier_detector''"

definition is_space :: "char \<Rightarrow> bool" where
  "is_space c \<longleftrightarrow> (of_char c :: nat) \<in> {9, 10, 11, 12, 13, 28, 29, 30, 31, 32}"

definition strip :: "string \<Rightarrow> string" where
  "strip s = rev (dropWhile is_space (rev (dropWhile is_space s)))"

definition task_key :: "string \<Rightarrow> string" where
  "task_key s = map (\<lambda>c. if c = CHR ''-'' \<or> c = CHR '' '' then CHR ''_'' else c) (lower (strip s))"

text \<open>\<^verbatim>\<open>resolve_task\<close>; \<open>None\<close> is its ValueError.\<close>

definition resolve_task :: "string option \<Rightarrow> string \<Rightarrow> task_type option" where
  "resolve_task task_type estimator =
     (case map_of task_aliases (task_key (case task_type of None \<Rightarrow> [] | Some t \<Rightarrow> t)) of
        Some t \<Rightarrow> if estimator_for_task t = estimator then Some t else map_of task_aliases estimator
      | None \<Rightarrow> map_of task_aliases estimator)"

definition task_of :: "string option \<Rightarrow> string \<Rightarrow> exn + task_type" where
  "task_of task_type estimator = (case resolve_task task_type estimator of
     None \<Rightarrow> Inl (err ValidationFailedError []) | Some t \<Rightarrow> Inr t)"

section \<open>Scoring\<close>

record model_call =
  mc_predicted :: "exn + arr \<times> rat list option"
  mc_computed :: "(string \<times> rat) list"
  mc_evidently :: rat
  mc_classes :: "cell list"
  mc_ms :: "nat \<Rightarrow> nat \<Rightarrow> rat"
  mc_bytes :: "nat option"

text \<open>\<^verbatim>\<open>score_predictions\<close>: Evidently's value wins, and the primary metric comes first.\<close>

definition primary_first :: "string \<Rightarrow> (string \<times> rat) list \<Rightarrow> exn + (string \<times> rat) list" where
  "primary_first primary scores = (case map_of scores primary of None \<Rightarrow> Inl (err ValidationFailedError [])
     | Some v \<Rightarrow> Inr ((primary, v) # filter (\<lambda>(k, _). k \<noteq> primary) scores))"

definition score_predictions :: "task_type \<Rightarrow> string \<Rightarrow> (string \<times> rat) list \<Rightarrow> rat \<Rightarrow> exn + (string \<times> rat) list" where
  "score_predictions task estimator computed evidently =
     (let name = (if estimator = ''classifier'' then ''accuracy'' else ''rmse'');
          scores = (if task \<in> {CLASSIFICATION, REGRESSION, FORECASTING} then (name, evidently) # filter (\<lambda>(k, _). k \<noteq> name) computed
             else computed)
      in primary_first (primary_metric task) scores)"

definition scored_model :: "task_type \<Rightarrow> string \<Rightarrow> model_call \<Rightarrow> exn + scored" where
  "scored_model task estimator m = (case mc_predicted m of Inl e \<Rightarrow> Inl e
     | Inr (pred, score) \<Rightarrow>
         (case score_predictions task estimator (mc_computed m) (mc_evidently m) of Inl e \<Rightarrow> Inl e
          | Inr ms \<Rightarrow> Inr \<lparr>sc_predictions = pred, sc_score = score, sc_metrics = ms, sc_classes = mc_classes m,
              sc_ms = mc_ms m, sc_bytes = mc_bytes m\<rparr>))"

section \<open>The validation of a candidate\<close>

record validation_report =
  vr_metric :: string
  vr_passed :: bool
  vr_rows :: nat
  vr_gate :: gate_decision

text \<open>\<open>loaded\<close> says whether the candidate's file can be loaded. An exception of the gate that is
  not one of the program's own is an \<open>AdaptationError\<close> here.\<close>

definition validate_candidate ::
  "'g numpy \<Rightarrow> gate_policy \<Rightarrow> nat \<Rightarrow> bool \<Rightarrow> string option \<Rightarrow> string \<Rightarrow> nat \<Rightarrow> arr \<Rightarrow> model_call \<Rightarrow> model_call \<Rightarrow> frame option
    \<Rightarrow> exn + validation_report" where
  "validate_candidate np p min_rows loaded task_type estimator n y cur cand context =
     (if n < min_rows then Inl (err ValidationFailedError [])
      else if \<not> loaded then Inl (err ArtifactError [])
      else case task_of task_type estimator of Inl e \<Rightarrow> Inl e
      | Inr task \<Rightarrow>
          (case scored_model task estimator cur of Inl e \<Rightarrow> Inl e
           | Inr current \<Rightarrow>
               (case scored_model task estimator cand of Inl e \<Rightarrow> Inl e
                | Inr challenger \<Rightarrow>
                    (case gate_decide np p (task = CLASSIFICATION) (primary_metric task) n (Some y) current challenger context of
                       None \<Rightarrow> Inl (err AdaptationError [])
                     | Some d \<Rightarrow> Inr \<lparr>vr_metric = primary_metric task, vr_passed = gd_accept d, vr_rows = n, vr_gate = d\<rparr>))))"

lemma primary_known: "higher_is_better (primary_metric task) \<noteq> None \<and> primary_metric task \<in> {''accuracy'', ''rmse'', ''f1'', ''silhouette''}"
  by (cases task) (simp_all add: higher_is_better_def higher_metrics_def lower_metrics_def)

text \<open>The estimator type decides when the recorded task does not fit it.\<close>

lemma resolved_fits:
  assumes "resolve_task task_type estimator = Some t" "estimator \<in> {''classifier'', ''regressor'', ''clusterer'', ''outlier_detector''}"
  shows "estimator_for_task t = estimator"
proof -
  have "map_of task_aliases estimator = Some t \<or> estimator_for_task t = estimator"
    using assms(1) by (auto simp: resolve_task_def split: option.splits if_splits)
  then show ?thesis using assms(2) by (elim disjE insertE) (simp_all add: task_aliases_def)
qed

text \<open>The gate compares the models on a number that both have for certain: the score that the report
  gives the primary metric.\<close>

lemma validated_value:
  assumes "scored_model task estimator m = Inr s"
  shows "\<exists>v. map_of (sc_metrics s) (primary_metric task) = Some v"
proof -
  obtain scores where "primary_first (primary_metric task) scores = Inr (sc_metrics s)"
    using assms by (auto simp: scored_model_def score_predictions_def Let_def split: sum.splits)
  then show ?thesis by (fastforce simp: primary_first_def split: option.splits dest: sym)
qed

end
