(* ===== verification/Data_Store.thy ===== *)
theory Data_Store
  imports Deployer "HOL-Library.AList" "HOL-Library.Char_ord" "HOL-Library.List_Lexorder" "HOL-Library.Product_Lexorder"
begin

text \<open>
  The data store (\<^verbatim>\<open>datastore/versioning.py\<close>, \<^verbatim>\<open>access.py\<close>, \<^verbatim>\<open>current_data.py\<close>): datasets,
  immutable content-addressed data versions, the rows of a version wherever they live, the
  lineage of versions and the cleaning of rows into CurrentData.

  A dict of JSON values is an association list (\<open>AList.update\<close> is \<open>d[k] = v\<close>). A string is a
  \<open>JText\<close> when it is itself the JSON text of a value, a \<open>JTime\<close> when it is the ISO text of an
  instant, and a \<open>JStr\<close> otherwise, so that \<open>json.dumps\<close>, \<open>json.loads\<close>, \<open>isoformat\<close> are
  constructors. A data frame is its columns and its rows as dicts. \<open>data_env\<close> holds the
  parameters: SHA-256 of what is hashed, pandas' conversion of a value to an instant and the
  clock, which is read anew by every operation: a \<open>data_env\<close> is what one operation sees of it, and
  operations at different times have environments that differ in \<open>de_now\<close>. Rows of derived
  versions are read to any depth: Python's recursion limit is not modelled. The types of columns and their hash, texts, metrics and the audit row's details are left out. An
  operation that raises leaves no new state: its caller rolls the session back.
\<close>

section \<open>Values, frames and hashes\<close>

datatype json =
  JNull | JBool bool | JNum rat | JStr string | JText json | JTime time
| JList "json list" | JObj "(string \<times> json) list"

type_synonym dict = "(string \<times> json) list"

text \<open>\<open>json.dumps(v, sort_keys=True)\<close>, determined by the value with the keys of every object sorted.\<close>

primrec canon :: "json \<Rightarrow> json" where
  "canon JNull = JNull"
| "canon (JBool b) = JBool b"
| "canon (JNum q) = JNum q"
| "canon (JStr s) = JStr s"
| "canon (JText j) = JText j"
| "canon (JTime t) = JTime t"
| "canon (JList xs) = JList (map canon xs)"
| "canon (JObj d) = JObj (sort_key fst (map (map_prod id canon) d))"

definition dget :: "dict \<Rightarrow> string \<Rightarrow> json" where "dget d c = get_or d c JNull"

text \<open>\<open>{**d, **e}\<close>.\<close>

definition dmerge :: "dict \<Rightarrow> dict \<Rightarrow> dict" where
  "dmerge d e = fold (\<lambda>(k, v) d. AList.update k v d) e d"

datatype fault = Raised exn | Python_Error string

definition raised :: "err_class \<Rightarrow> fault + 'a" where "raised c = Inl (Raised (err c []))"

record frame =
  fr_columns :: "string list"
  fr_rows :: "dict list"

text \<open>\<open>pd.DataFrame(rows)\<close>: the columns in the order they first appear.\<close>

definition frame_of :: "dict list \<Rightarrow> frame" where
  "frame_of ds = \<lparr>fr_columns = rev (remdups (rev (map fst (concat ds)))), fr_rows = ds\<rparr>"

text \<open>\<open>frame[c] = values\<close> and \<open>frame.drop(columns=[c])\<close>.\<close>

definition with_column :: "string \<Rightarrow> json list \<Rightarrow> frame \<Rightarrow> frame" where
  "with_column c vs f = \<lparr>fr_columns = (if c \<in> set (fr_columns f) then fr_columns f else fr_columns f @ [c]),
     fr_rows = map2 (AList.update c) vs (fr_rows f)\<rparr>"

definition drop_column :: "string \<Rightarrow> frame \<Rightarrow> frame" where
  "drop_column c f = \<lparr>fr_columns = filter (\<lambda>x. x \<noteq> c) (fr_columns f),
     fr_rows = map (filter (\<lambda>(k, _). k \<noteq> c)) (fr_rows f)\<rparr>"

definition frame_empty :: "frame \<Rightarrow> bool" where
  "frame_empty f \<longleftrightarrow> fr_columns f = [] \<or> fr_rows f = []"

text \<open>\<open>json.loads(frame.to_json(orient="records"))\<close>: every row has every column, null where it has none.\<close>

definition json_rows :: "frame \<Rightarrow> dict list" where
  "json_rows f = map (\<lambda>r. map (\<lambda>c. (c, dget r c)) (fr_columns f)) (fr_rows f)"

datatype hashed =
  Hashed_Rows "json list"
| Hashed_Keyed string "string option list option" "string list"
| Hashed_Event "string list"

record data_env =
  de_hash :: "hashed \<Rightarrow> string"
  de_stamp :: "json \<Rightarrow> fault + time"
  de_now :: time

definition hashed_row :: "time \<Rightarrow> dict \<Rightarrow> json" where
  "hashed_row t d = canon (JObj (dmerge [(''observed_at'', JTime t)] d))"

definition rows_hash :: "data_env \<Rightarrow> time list \<Rightarrow> dict list \<Rightarrow> string" where
  "rows_hash E ts ds = de_hash E (Hashed_Rows (map2 hashed_row ts ds))"

definition content_hash :: "data_env \<Rightarrow> frame \<Rightarrow> time list \<Rightarrow> string" where
  "content_hash E f ts = rows_hash E ts (json_rows f)"

text \<open>No deleted keys and an empty list of them are the same to the code.\<close>

definition keyed_hash :: "data_env \<Rightarrow> string \<Rightarrow> string option list option \<Rightarrow> string list \<Rightarrow> string" where
  "keyed_hash E digest keys deleted =
     (if keys = None \<and> deleted = [] then digest else de_hash E (Hashed_Keyed digest keys (sort deleted)))"

datatype stamps = Stamp_Column string | Stamp_Start "time option" time

primrec try_each :: "('a \<Rightarrow> fault + 'b) \<Rightarrow> 'a list \<Rightarrow> fault + 'b list" where
  "try_each f [] = Inr []"
| "try_each f (x # xs) = bindR (f x) (\<lambda>y. bindR (try_each f xs) (\<lambda>ys. Inr (y # ys)))"

fun timestamps :: "data_env \<Rightarrow> frame \<Rightarrow> stamps \<Rightarrow> fault + frame \<times> time list" where
  "timestamps E f (Stamp_Column c) =
     (if c \<notin> set (fr_columns f) then raised ArtifactError
      else bindR (try_each (\<lambda>r. de_stamp E (dget r c)) (fr_rows f)) (\<lambda>ts. Inr (drop_column c f, ts)))"
| "timestamps E f (Stamp_Start start spacing) =
     (let base = (case start of Some t \<Rightarrow> t | None \<Rightarrow> de_now E)
      in Inr (f, map (\<lambda>i. base + of_nat i * spacing) [0..<length (fr_rows f)]))"

section \<open>Tables\<close>

datatype data_kind = HISTORICAL | DRIFTED | CDC | CURRENT
datatype association_role = TRAINING | VALIDATION | DRIFT_OBSERVED

text \<open>Where the rows of a version live; a derived version names its sources and the excluded rows.\<close>

datatype storage = Stored_Rows | Stored_Reference dict | Stored_Derived "nat list" "int list"

record cdc_range =
  cr_source :: string
  cr_table :: string
  cr_offsets :: "string \<times> string"
  cr_events :: "string \<times> string"
  cr_count :: nat
  cr_changed :: "time \<times> time"

record dataset_row =
  ds_id :: nat
  ds_name :: string

record version_row =
  dv_id :: nat
  dv_dataset :: nat
  dv_version :: string
  dv_kind :: data_kind
  dv_parent :: "nat option"
  dv_start :: "time option"
  dv_end :: "time option"
  dv_count :: nat
  dv_hash :: string
  dv_storage :: storage
  dv_deleted :: "string list"
  dv_range :: "cdc_range option"
  dv_tx :: "string list option"

record stored_row =
  sr_id :: int
  sr_version :: nat
  sr_observed :: time
  sr_payload :: dict
  sr_key :: "string option"

record link_row =
  ln_model :: string
  ln_model_version :: string
  ln_data :: nat
  ln_role :: association_role

record current_row =
  cu_id :: string
  cu_data :: nat
  cu_model :: string
  cu_job :: "string option"
  cu_sources :: "nat list"
  cu_start :: time
  cu_end :: time
  cu_count :: nat
  cu_hash :: string

record data_db =
  dd_datasets :: "dataset_row list"
  dd_versions :: "version_row list"
  dd_records :: "stored_row list"
  dd_links :: "link_row list"
  dd_models :: "string list"
  dd_current :: "current_row list"
  dd_audited :: "nat list"

text \<open>The key the database gives to the next row: above every key in the table.\<close>

definition next_id :: "nat list \<Rightarrow> nat" where "next_id ids = Suc (fold max ids 0)"

definition new_version_id :: "data_db \<Rightarrow> nat" where
  "new_version_id db = next_id (map dv_id (dd_versions db))"

definition new_record_id :: "data_db \<Rightarrow> nat" where
  "new_record_id db = next_id (map (nat \<circ> sr_id) (dd_records db))"

definition get_dataset :: "string \<Rightarrow> data_db \<Rightarrow> fault + dataset_row" where
  "get_dataset name db = (case by_key ds_name name (dd_datasets db) of
     None \<Rightarrow> raised DatasetNotFoundError | Some d \<Rightarrow> Inr d)"

definition get_or_create_dataset :: "string \<Rightarrow> data_db \<Rightarrow> dataset_row \<times> data_db" where
  "get_or_create_dataset name db = (case by_key ds_name name (dd_datasets db) of
     Some d \<Rightarrow> (d, db)
   | None \<Rightarrow> let d = \<lparr>ds_id = next_id (map ds_id (dd_datasets db)), ds_name = name\<rparr>
       in (d, db\<lparr>dd_datasets := dd_datasets db @ [d]\<rparr>))"

definition find_version :: "data_db \<Rightarrow> nat \<Rightarrow> string \<Rightarrow> version_row option" where
  "find_version db ds name = find (\<lambda>v. dv_dataset v = ds \<and> dv_version v = name) (dd_versions db)"

definition version_by_id :: "data_db \<Rightarrow> nat \<Rightarrow> version_row option" where
  "version_by_id db i = by_key dv_id i (dd_versions db)"

definition get_version_row :: "string \<Rightarrow> string \<Rightarrow> data_db \<Rightarrow> fault + version_row" where
  "get_version_row dataset version db = bindR (get_dataset dataset db) (\<lambda>d.
     case find_version db (ds_id d) version of None \<Rightarrow> raised DatasetNotFoundError | Some v \<Rightarrow> Inr v)"

definition list_versions :: "string \<Rightarrow> data_db \<Rightarrow> fault + version_row list" where
  "list_versions dataset db = bindR (get_dataset dataset db) (\<lambda>d.
     Inr (sort_key dv_id (filter (\<lambda>v. dv_dataset v = ds_id d) (dd_versions db))))"

section \<open>Storing versions\<close>

type_synonym link_arg = "(string \<times> string \<times> association_role) option"

definition link_model_data ::
  "string \<Rightarrow> string \<Rightarrow> nat \<Rightarrow> association_role \<Rightarrow> data_db \<Rightarrow> fault + data_db" where
  "link_model_data model version data role db =
     (let l = \<lparr>ln_model = model, ln_model_version = version, ln_data = data, ln_role = role\<rparr>
      in if model \<notin> set (dd_models db) then raised ModelNotFoundError
         else if l \<in> set (dd_links db) then Inr db
         else Inr (db\<lparr>dd_links := dd_links db @ [l]\<rparr>))"

definition link_given :: "link_arg \<Rightarrow> nat \<Rightarrow> data_db \<Rightarrow> fault + data_db" where
  "link_given link data db = (case link of
     None \<Rightarrow> Inr db | Some (model, version, role) \<Rightarrow> link_model_data model version data role db)"

definition existing_version ::
  "data_db \<Rightarrow> nat \<Rightarrow> string \<Rightarrow> string \<Rightarrow> link_arg \<Rightarrow> fault + (version_row \<times> data_db) option" where
  "existing_version db ds version digest link = (case find_version db ds version of
     None \<Rightarrow> Inr None
   | Some v \<Rightarrow> if dv_hash v \<noteq> digest then raised DataVersionConflictError
       else bindR (link_given link (dv_id v) db) (\<lambda>db. Inr (Some (v, db))))"

definition parent_id :: "data_db \<Rightarrow> nat \<Rightarrow> string option \<Rightarrow> fault + nat option" where
  "parent_id db ds par = (if par = None \<or> par = Some [] then Inr None
     else case find_version db ds (the par) of
       None \<Rightarrow> raised DatasetNotFoundError | Some v \<Rightarrow> Inr (Some (dv_id v)))"

definition audit_created :: "nat \<Rightarrow> data_db \<Rightarrow> data_db" where
  "audit_created i db = db\<lparr>dd_audited := dd_audited db @ [i]\<rparr>"

text \<open>A version is added with its link and its audit row; the answer says whether it is new.\<close>

definition add_version ::
  "version_row \<Rightarrow> stored_row list \<Rightarrow> link_arg \<Rightarrow> data_db \<Rightarrow> fault + version_row \<times> bool \<times> data_db" where
  "add_version v rows link db =
     bindR (link_given link (dv_id v) (db\<lparr>dd_versions := dd_versions db @ [v], dd_records := dd_records db @ rows\<rparr>))
       (\<lambda>db. Inr (v, True, audit_created (dv_id v) db))"

record ingest =
  in_dataset :: string
  in_version :: string
  in_frame :: frame
  in_kind :: data_kind
  in_stamps :: stamps
  in_parent :: "string option"
  in_link :: link_arg
  in_keys :: "string option list option"
  in_deleted :: "string list"
  in_range :: "cdc_range option"
  in_tx :: "string list option"

definition min_time :: "time list \<Rightarrow> time option" where
  "min_time ts = (if ts = [] then None else Some (Min (set ts)))"

definition max_time :: "time list \<Rightarrow> time option" where
  "max_time ts = (if ts = [] then None else Some (Max (set ts)))"

definition new_rows :: "nat \<Rightarrow> nat \<Rightarrow> time list \<Rightarrow> dict list \<Rightarrow> string option list \<Rightarrow> stored_row list" where
  "new_rows first v ts ds keys = map (\<lambda>(i, t, d, k).
     \<lparr>sr_id = int i, sr_version = v, sr_observed = t, sr_payload = d, sr_key = k\<rparr>) (enumerate first (zip ts (zip ds keys)))"

definition ingest_keys :: "ingest \<Rightarrow> nat \<Rightarrow> string option list" where
  "ingest_keys a n = (case in_keys a of Some ks \<Rightarrow> ks | None \<Rightarrow> replicate n None)"

definition ingested_row :: "ingest \<Rightarrow> dataset_row \<Rightarrow> string \<Rightarrow> time list \<Rightarrow> nat \<Rightarrow> nat option \<Rightarrow> version_row" where
  "ingested_row a d digest ts i par = \<lparr>dv_id = i, dv_dataset = ds_id d, dv_version = in_version a, dv_kind = in_kind a,
     dv_parent = par, dv_start = min_time ts, dv_end = max_time ts, dv_count = length ts, dv_hash = digest,
     dv_storage = Stored_Rows, dv_deleted = sort (in_deleted a), dv_range = in_range a, dv_tx = in_tx a\<rparr>"

text \<open>
  What both ways of storing a version share: the version of that name, or a new one made from
  its id, its parent and the first id of its rows.
\<close>

definition store_version ::
  "dataset_row \<Rightarrow> string \<Rightarrow> string \<Rightarrow> string option \<Rightarrow> link_arg \<Rightarrow> (nat \<Rightarrow> nat option \<Rightarrow> nat \<Rightarrow> version_row \<times> stored_row list)
     \<Rightarrow> data_db \<Rightarrow> fault + version_row \<times> bool \<times> data_db" where
  "store_version d name digest par link build db =
     bindR (existing_version db (ds_id d) name digest link) (\<lambda>known. case known of
       Some (v, db) \<Rightarrow> Inr (v, False, db)
     | None \<Rightarrow> bindR (parent_id db (ds_id d) par) (\<lambda>p.
         let (v, rows) = build (new_version_id db) p (new_record_id db) in add_version v rows link db))"

definition ingest_digest :: "data_env \<Rightarrow> ingest \<Rightarrow> frame \<Rightarrow> time list \<Rightarrow> string" where
  "ingest_digest E a features ts = keyed_hash E (content_hash E features ts) (in_keys a) (in_deleted a)"

definition ingest_version :: "data_env \<Rightarrow> ingest \<Rightarrow> data_db \<Rightarrow> fault + version_row \<times> bool \<times> data_db" where
  "ingest_version E a db =
     (if frame_empty (in_frame a) \<and> in_deleted a = [] then raised ArtifactError
      else if in_keys a \<noteq> None \<and> length (the (in_keys a)) \<noteq> length (fr_rows (in_frame a)) then raised ArtifactError
      else let (d, db) = get_or_create_dataset (in_dataset a) db in
        bindR (timestamps E (in_frame a) (in_stamps a)) (\<lambda>(features, ts).
          let digest = ingest_digest E a features ts; ds = json_rows features in
          store_version d (in_version a) digest (in_parent a) (in_link a)
            (\<lambda>i par first. (ingested_row a d digest ts i par, new_rows first i ts ds (ingest_keys a (length ds)))) db))"

record described =
  sc_digest :: string
  sc_count :: nat
  sc_start :: "time option"
  sc_end :: "time option"

definition create_stored_version ::
  "string \<Rightarrow> string \<Rightarrow> described \<Rightarrow> data_kind \<Rightarrow> storage \<Rightarrow> string option \<Rightarrow> link_arg
     \<Rightarrow> data_db \<Rightarrow> fault + version_row \<times> bool \<times> data_db" where
  "create_stored_version dataset version s k storage par link db =
     (let (d, db) = get_or_create_dataset dataset db in
      store_version d version (sc_digest s) par link (\<lambda>i p first.
        (\<lparr>dv_id = i, dv_dataset = ds_id d, dv_version = version, dv_kind = k,
           dv_parent = p, dv_start = sc_start s, dv_end = sc_end s, dv_count = sc_count s, dv_hash = sc_digest s,
           dv_storage = storage, dv_deleted = [], dv_range = None, dv_tx = None\<rparr>, [])) db)"

section \<open>Lineage\<close>

definition unseen :: "data_db \<Rightarrow> nat list \<Rightarrow> nat" where
  "unseen db seen = card (dv_id ` set (dd_versions db) - set seen)"

lemma unseen_decreases: "version_by_id db i = Some v \<Longrightarrow> i \<notin> set seen \<Longrightarrow> unseen db (i # seen) < unseen db seen"
  unfolding unseen_def version_by_id_def
  by (rule psubset_card_mono) (auto dest!: by_key_Some)

text \<open>The chain from a version to its ancestors, nearest first; \<open>seen\<close> ends a chain that would return.\<close>

function lineage_chain :: "data_db \<Rightarrow> nat list \<Rightarrow> nat \<Rightarrow> version_row list" where
  "lineage_chain db seen i = (case version_by_id db i of
     None \<Rightarrow> []
   | Some v \<Rightarrow> if i \<in> set seen then []
       else v # (case dv_parent v of None \<Rightarrow> [] | Some p \<Rightarrow> lineage_chain db (i # seen) p))"
  by pat_completeness auto

termination
  by (relation "measure (\<lambda>(db, seen, _). unseen db seen)") (auto intro: unseen_decreases)

declare lineage_chain.simps [simp del]

definition lineage :: "string \<Rightarrow> string \<Rightarrow> data_db \<Rightarrow> fault + version_row list \<times> link_row list" where
  "lineage dataset version db = bindR (get_version_row dataset version db) (\<lambda>v.
     let chain = lineage_chain db [] (dv_id v)
     in Inr (chain, filter (\<lambda>l. ln_data l \<in> dv_id ` set chain) (dd_links db)))"

section \<open>Reading rows\<close>

text \<open>
  \<^verbatim>\<open>DataAccess\<close>: \<open>read\<close>, a parameter, gives the rows of a referenced object in its own order, \<open>max_rows\<close>
  is \<^verbatim>\<open>DATASET_MAX_ROWS\<close>. A derived version reads its sources, which may be derived; the
  \<open>fuel\<close> bounds how deep, and \<open>None\<close> is a recursion that is deeper.
\<close>

definition external_row_id :: "nat \<Rightarrow> nat \<Rightarrow> int" where
  "external_row_id v index = - int (v * 2 ^ 40 + index + 1)"

definition reference_rows :: "nat \<Rightarrow> (time \<times> dict) list \<Rightarrow> stored_row list" where
  "reference_rows v rows = map (\<lambda>(i, t, d).
     \<lparr>sr_id = external_row_id v i, sr_version = v, sr_observed = t, sr_payload = d, sr_key = None\<rparr>) (enumerate 0 rows)"

definition derived_rows :: "nat \<Rightarrow> int list \<Rightarrow> stored_row list \<Rightarrow> stored_row list" where
  "derived_rows v excluded rows = map (\<lambda>(i, r). r\<lparr>sr_id := external_row_id v i, sr_version := v\<rparr>)
     (enumerate 0 (filter (\<lambda>r. sr_id r \<notin> set excluded) rows))"

definition in_time_order :: "stored_row list \<Rightarrow> stored_row list" where
  "in_time_order = sort_key (\<lambda>r. (sr_observed r, sr_id r))"

definition version_rows :: "data_db \<Rightarrow> nat \<Rightarrow> stored_row list" where
  "version_rows db i = filter (\<lambda>r. sr_version r = i) (dd_records db)"

type_synonym reader = "version_row \<Rightarrow> fault + (time \<times> dict) list"

definition find_versions :: "data_db \<Rightarrow> nat list \<Rightarrow> fault + version_row list" where
  "find_versions db = try_each (\<lambda>i. case version_by_id db i of None \<Rightarrow> raised DatasetNotFoundError | Some v \<Rightarrow> Inr v)"

definition check_ceiling :: "nat \<Rightarrow> version_row list \<Rightarrow> fault + unit" where
  "check_ceiling max_rows vs = (if max_rows < sum_list (map dv_count vs) then raised DataTooLargeError else Inr ())"

text \<open>Reading several versions in turn: the first that raises ends the reading.\<close>

primrec read_each :: "(version_row \<Rightarrow> (fault + stored_row list) option) \<Rightarrow> version_row list \<Rightarrow> (fault + stored_row list) option" where
  "read_each f [] = Some (Inr [])"
| "read_each f (v # vs) = (case f v of
     None \<Rightarrow> None
   | Some (Inl e) \<Rightarrow> Some (Inl e)
   | Some (Inr rows) \<Rightarrow> map_option (\<lambda>r. bindR r (\<lambda>more. Inr (rows @ more))) (read_each f vs))"

definition checked_versions :: "nat \<Rightarrow> data_db \<Rightarrow> nat list \<Rightarrow> fault + version_row list" where
  "checked_versions max_rows db ids = bindR (find_versions db ids) (\<lambda>vs. bindR (check_ceiling max_rows vs) (\<lambda>_. Inr vs))"

fun load_records :: "nat \<Rightarrow> reader \<Rightarrow> nat \<Rightarrow> data_db \<Rightarrow> nat list \<Rightarrow> bool \<Rightarrow> (fault + stored_row list) option" where
  "load_records 0 read max_rows db ids required = None"
| "load_records (Suc fuel) read max_rows db ids required =
     (case checked_versions max_rows db ids of
        Inl e \<Rightarrow> Some (Inl e)
      | Inr vs \<Rightarrow> map_option (\<lambda>r. bindR r (\<lambda>rows.
            if required \<and> rows = [] then raised ArtifactError else Inr (in_time_order rows)))
          (read_each (\<lambda>v. case dv_storage v of
             Stored_Rows \<Rightarrow> Some (Inr (in_time_order (version_rows db (dv_id v))))
           | Stored_Reference _ \<Rightarrow> Some (bindR (read v) (\<lambda>rows. Inr (reference_rows (dv_id v) rows)))
           | Stored_Derived sources excluded \<Rightarrow> map_option (\<lambda>r. bindR r (\<lambda>rows.
               Inr (derived_rows (dv_id v) excluded rows))) (load_records fuel read max_rows db sources False)) vs))"

text \<open>The rows a version is hashed over when it is verified: as they were sent, which is id order.\<close>

definition verify_rows :: "data_env \<Rightarrow> data_db \<Rightarrow> version_row \<Rightarrow> string" where
  "verify_rows E db v = (let rows = sort_key sr_id (version_rows db (dv_id v)); keys = map sr_key rows
     in keyed_hash E (rows_hash E (map sr_observed rows) (map sr_payload rows))
          (if list_ex (\<lambda>k. k \<noteq> None) keys then Some keys else None) (dv_deleted v))"

definition verify_matches :: "data_env \<Rightarrow> data_db \<Rightarrow> version_row \<Rightarrow> bool" where
  "verify_matches E db v \<longleftrightarrow> verify_rows E db v = dv_hash v"

section \<open>CurrentData\<close>

definition deleted_in :: "version_row list \<Rightarrow> string \<Rightarrow> nat" where
  "deleted_in vs k = fold (\<lambda>v n. if k \<in> set (dv_deleted v) then max n (dv_id v) else n) vs 0"

definition rank :: "stored_row \<Rightarrow> nat \<times> time \<times> int" where
  "rank r = (sr_version r, sr_observed r, sr_id r)"

text \<open>The newest row of a key with its place in the list; a row replaces an earlier one only if it ranks above it.\<close>

definition newest :: "(nat \<times> stored_row) list \<Rightarrow> string \<Rightarrow> (nat \<times> stored_row) option" where
  "newest rows k = fold (\<lambda>(i, r) cur. if sr_key r \<noteq> Some k then cur else case cur of
     None \<Rightarrow> Some (i, r) | Some (_, c) \<Rightarrow> if rank c < rank r then Some (i, r) else cur) rows None"

datatype cleaning = Kept | Conflict | Deleted | Duplicate | Rejected

definition signature :: "stored_row \<Rightarrow> time \<times> json" where
  "signature r = (sr_observed r, canon (JObj (sr_payload r)))"

definition clean_step ::
  "(nat \<times> stored_row) list \<Rightarrow> (string \<Rightarrow> nat) \<Rightarrow> string list \<Rightarrow> (time \<times> json) list \<Rightarrow> nat \<times> stored_row \<Rightarrow> cleaning" where
  "clean_step all deleted required seen ir = (let (i, r) = ir in
     if (case sr_key r of None \<Rightarrow> False | Some k \<Rightarrow> map_option fst (newest all k) \<noteq> Some i) then Conflict
     else if (case sr_key r of None \<Rightarrow> False | Some k \<Rightarrow> sr_version r < deleted k) then Deleted
     else if signature r \<in> set seen then Duplicate
     else if list_ex (\<lambda>c. dget (sr_payload r) c = JNull) required then Rejected
     else Kept)"

text \<open>What becomes of every row, in order; rows kept or rejected are remembered as seen.\<close>

fun clean_each ::
  "(nat \<times> stored_row) list \<Rightarrow> (string \<Rightarrow> nat) \<Rightarrow> string list \<Rightarrow> (time \<times> json) list
     \<Rightarrow> (nat \<times> stored_row) list \<Rightarrow> (stored_row \<times> cleaning) list" where
  "clean_each all deleted required seen [] = []"
| "clean_each all deleted required seen ((i, r) # rows) =
     (let c = clean_step all deleted required seen (i, r)
      in (r, c) # clean_each all deleted required (if c \<in> {Kept, Rejected} then signature r # seen else seen) rows)"

record quality =
  qu_input :: nat
  qu_conflicts :: nat
  qu_deleted :: nat
  qu_duplicates :: nat
  qu_rejected :: nat
  qu_output :: nat

definition counted :: "cleaning \<Rightarrow> (stored_row \<times> cleaning) list \<Rightarrow> nat" where
  "counted c cs = length (filter (\<lambda>p. snd p = c) cs)"

definition clean_records :: "data_db \<Rightarrow> string list \<Rightarrow> stored_row list \<Rightarrow> stored_row list \<times> quality" where
  "clean_records db required rows =
     (let versions = filter (\<lambda>v. dv_id v \<in> sr_version ` set rows) (dd_versions db);
          all = enumerate 0 rows;
          cleaned = clean_each all (deleted_in versions) required [] all;
          kept = in_time_order (map fst (filter (\<lambda>p. snd p = Kept) cleaned))
      in (kept, \<lparr>qu_input = length rows, qu_conflicts = counted Conflict cleaned, qu_deleted = counted Deleted cleaned,
           qu_duplicates = counted Duplicate cleaned, qu_rejected = counted Rejected cleaned, qu_output = length kept\<rparr>))"

text \<open>Freezing the evaluation window; \<open>uuid\<close> is the fresh identifier of the row.\<close>

definition current_ingest :: "data_env \<Rightarrow> dataset_row \<Rightarrow> stored_row list \<Rightarrow> ingest" where
  "current_ingest E d rows = (let f = frame_of (map sr_payload rows); ts = map sr_observed rows; keys = map sr_key rows in
     \<lparr>in_dataset = ds_name d, in_version = ''current-'' @ take 16 (content_hash E f ts),
      in_frame = with_column ''__observed_at'' (map JTime ts) f, in_kind = CURRENT,
      in_stamps = Stamp_Column ''__observed_at'', in_parent = None, in_link = None,
      in_keys = (if list_ex (\<lambda>k. k \<noteq> None) keys then Some keys else None), in_deleted = [], in_range = None, in_tx = None\<rparr>)"

definition window_row ::
  "string \<Rightarrow> string \<Rightarrow> string option \<Rightarrow> stored_row list \<Rightarrow> version_row list \<Rightarrow> version_row \<Rightarrow> current_row" where
  "window_row uuid model job rows sources v = (let ts = set (map sr_observed rows) in
     \<lparr>cu_id = uuid, cu_data = dv_id v, cu_model = model, cu_job = job, cu_sources = map dv_id sources,
      cu_start = Min ts, cu_end = Max ts, cu_count = length rows, cu_hash = dv_hash v\<rparr>)"

definition persist_current_data ::
  "data_env \<Rightarrow> string \<Rightarrow> string \<Rightarrow> string option \<Rightarrow> stored_row list \<Rightarrow> nat list \<Rightarrow> data_db \<Rightarrow> fault + current_row option \<times> data_db" where
  "persist_current_data E uuid model job rows source_ids db =
     (if rows = [] then Inr (None, db)
      else let sources = List.map_filter (version_by_id db) source_ids in
        case sources of [] \<Rightarrow> Inl (Python_Error ''IndexError'')
        | s # _ \<Rightarrow> (case by_key ds_id (dv_dataset s) (dd_datasets db) of
            None \<Rightarrow> Inl (Python_Error ''NoResultFound'')
          | Some d \<Rightarrow> bindR (ingest_version E (current_ingest E d rows) db) (\<lambda>(v, _, db).
              let row = window_row uuid model job rows sources v
              in Inr (Some row, db\<lparr>dd_current := dd_current db @ [row]\<rparr>))))"

section \<open>Training snapshots\<close>

definition snapshot_name :: "string \<Rightarrow> string \<Rightarrow> string" where
  "snapshot_name model version = ''train-'' @ model @ ''-v'' @ version"

definition stored_here :: "version_row \<Rightarrow> bool" where "stored_here v \<longleftrightarrow> dv_storage v = Stored_Rows"

definition kept_rows :: "int list \<Rightarrow> stored_row list \<Rightarrow> stored_row list" where
  "kept_rows excluded rows = filter (\<lambda>r. sr_id r \<notin> set excluded) rows"

definition first_last :: "stored_row list \<Rightarrow> time option \<times> time option" where
  "first_last rows = (if rows = [] then (None, None) else (Some (sr_observed (hd rows)), Some (sr_observed (last rows))))"

text \<open>\<open>load\<close> is \<^verbatim>\<open>access.load_records\<close> of the sources.\<close>

definition snapshot_training_data ::
  "data_env \<Rightarrow> (data_db \<Rightarrow> nat list \<Rightarrow> fault + stored_row list) option \<Rightarrow> string \<Rightarrow> string \<Rightarrow> nat list \<Rightarrow> nat option
     \<Rightarrow> int list \<Rightarrow> data_db \<Rightarrow> fault + version_row \<times> bool \<times> data_db" where
  "snapshot_training_data E load model version source_ids par excluded db =
     (let sources = List.map_filter (version_by_id db) source_ids in
      if sources = [] \<or> length sources \<noteq> length source_ids then raised ArtifactError
      else case (case par of None \<Rightarrow> Some (hd sources) | Some p \<Rightarrow> version_by_id db p) of
        None \<Rightarrow> Inl (Python_Error ''NoResultFound'')
      | Some anchor \<Rightarrow> (case by_key ds_id (dv_dataset anchor) (dd_datasets db) of
          None \<Rightarrow> Inl (Python_Error ''NoResultFound'')
        | Some d \<Rightarrow>
          let name = snapshot_name model version; link = Some (model, version, TRAINING);
              parent_name = (if par = None then None else Some (dv_version anchor)) in
          if \<not> list_all stored_here sources then
            (case load of None \<Rightarrow> raised ArtifactError
             | Some ld \<Rightarrow> bindR (ld db source_ids) (\<lambda>all. let kept = kept_rows excluded all in
                create_stored_version (ds_name d) name
                  \<lparr>sc_digest = rows_hash E (map sr_observed kept) (map sr_payload kept), sc_count = length kept,
                    sc_start = fst (first_last kept), sc_end = snd (first_last kept)\<rparr>
                  HISTORICAL (Stored_Derived source_ids (sort excluded)) parent_name link db))
          else let rows = kept_rows excluded (in_time_order (filter (\<lambda>r. sr_version r \<in> set source_ids) (dd_records db)));
                   f = frame_of (map sr_payload rows) in
            ingest_version E \<lparr>in_dataset = ds_name d, in_version = name,
                in_frame = with_column ''__observed_at'' (map (JTime \<circ> sr_observed) rows) f, in_kind = HISTORICAL,
                in_stamps = Stamp_Column ''__observed_at'', in_parent = parent_name, in_link = link,
                in_keys = None, in_deleted = [], in_range = None, in_tx = None\<rparr> db))"

end
