(* ===== verification/Cdc.thy ===== *)
theory Cdc
  imports Data_Store
begin

text \<open>
  Change data capture (\<^verbatim>\<open>cdc/events.py\<close>, \<^verbatim>\<open>store.py\<close>, \<^verbatim>\<open>sources.py\<close>, \<^verbatim>\<open>consumer.py\<close>,
  \<^verbatim>\<open>materialize.py\<close>): row changes of a source table are parsed into events, stored once with the
  consumer's offset, and folded into data versions of net changes.

  The row images of the changelog are JSON text of objects in the code and dicts here. Counters
  and log lines are left out. The database rolls a failed transaction back; \<open>fails\<close> says that it
  refuses to store a batch.
\<close>

section \<open>Events\<close>

record row_mapping =
  mp_key :: string
  mp_dataset :: string
  mp_dataset_id :: "string option"
  mp_time :: string
  mp_payload :: string

definition default_mapping :: row_mapping where
  "default_mapping = \<lparr>mp_key = ''id'', mp_dataset = ''dataset_id'', mp_dataset_id = None,
     mp_time = ''observed_at'', mp_payload = ''payload''\<rparr>"

text \<open>The image of a source row in the one shape every source is brought to.\<close>

record image =
  im_id :: json
  im_dataset :: json
  im_observed :: "time option"
  im_payload :: json

record cdc_event =
  ev_id :: string
  ev_source :: string
  ev_table :: string
  ev_op :: cdc_operation
  ev_pk :: string
  ev_old :: "image option"
  ev_new :: "image option"
  ev_ts :: time
  ev_tx :: "string option"
  ev_offset :: string
  ev_schema :: string

definition ev_dataset :: "cdc_event \<Rightarrow> json" where
  "ev_dataset e = (case ev_new e of Some i \<Rightarrow> im_dataset i
     | None \<Rightarrow> (case ev_old e of Some i \<Rightarrow> im_dataset i | None \<Rightarrow> JNull))"

fun op_value :: "cdc_operation \<Rightarrow> string" where
  "op_value CDC_INSERT = ''INSERT''"
| "op_value CDC_UPDATE = ''UPDATE''"
| "op_value CDC_DELETE = ''DELETE''"

definition op_of :: "string \<Rightarrow> fault + cdc_operation" where
  "op_of s = (if s = ''INSERT'' then Inr CDC_INSERT else if s = ''UPDATE'' then Inr CDC_UPDATE
     else if s = ''DELETE'' then Inr CDC_DELETE else Inl (Python_Error ''ValueError''))"

definition make_event_id :: "data_env \<Rightarrow> string \<Rightarrow> string \<Rightarrow> string \<Rightarrow> cdc_operation \<Rightarrow> string \<Rightarrow> string" where
  "make_event_id E source table pk op position = de_hash E (Hashed_Event [source, table, pk, op_value op, position])"

text \<open>Python's truth of a JSON value.\<close>

fun truthy :: "json \<Rightarrow> bool" where
  "truthy JNull = False"
| "truthy (JBool b) = b"
| "truthy (JNum q) = (q \<noteq> 0)"
| "truthy (JStr s) = (s \<noteq> [])"
| "truthy (JList xs) = (xs \<noteq> [])"
| "truthy (JObj d) = (d \<noteq> [])"
| "truthy _ = True"

text \<open>\<^verbatim>\<open>CdcRowMapping.payload\<close>.\<close>

definition payload_of :: "row_mapping \<Rightarrow> dict \<Rightarrow> fault + json" where
  "payload_of mp row =
     (if mp_payload mp \<noteq> [] then
        bindR (case dget row (mp_payload mp) of
            JText j \<Rightarrow> Inr j | JStr _ \<Rightarrow> Inl (Python_Error ''JSONDecodeError'')
          | JTime _ \<Rightarrow> Inl (Python_Error ''JSONDecodeError'') | v \<Rightarrow> Inr v)
          (\<lambda>v. Inr (if truthy v then v else JObj []))
      else Inr (JObj (filter (\<lambda>(k, _). k \<notin> {mp_key mp, mp_dataset mp, mp_time mp}) row)))"

definition observed_of :: "data_env \<Rightarrow> json \<Rightarrow> fault + time option" where
  "observed_of E v = (case v of
     JNull \<Rightarrow> Inr None
   | JBool b \<Rightarrow> Inr (Some ((if b then 1 else 0) / 1000000))
   | JNum q \<Rightarrow> if of_int \<lfloor>q\<rfloor> = q then Inr (Some (q / 1000000)) else bindR (de_stamp E v) (\<lambda>t. Inr (Some t))
   | _ \<Rightarrow> bindR (de_stamp E v) (\<lambda>t. Inr (Some t)))"

definition or_dataset :: "row_mapping \<Rightarrow> json \<Rightarrow> json" where
  "or_dataset mp v = (if v \<noteq> JNull then v else case mp_dataset_id mp of None \<Rightarrow> JNull | Some d \<Rightarrow> JStr d)"

definition normalize_row :: "data_env \<Rightarrow> row_mapping \<Rightarrow> dict option \<Rightarrow> fault + image option" where
  "normalize_row E mp row = (case row of
     None \<Rightarrow> Inr None
   | Some r \<Rightarrow> bindR (observed_of E (dget r (mp_time mp))) (\<lambda>t. bindR (payload_of mp r) (\<lambda>p.
       Inr (Some \<lparr>im_id = dget r (mp_key mp),
         im_dataset = or_dataset mp (if mp_dataset mp = [] then JNull else dget r (mp_dataset mp)),
         im_observed = t, im_payload = p\<rparr>))))"

record changelog_row =
  cl_seq :: nat
  cl_table :: string
  cl_op :: string
  cl_pk :: string
  cl_old :: "dict option"
  cl_new :: "dict option"
  cl_tx :: "string option"
  cl_changed :: json

definition from_changelog_row :: "data_env \<Rightarrow> string \<Rightarrow> row_mapping \<Rightarrow> changelog_row \<Rightarrow> fault + cdc_event" where
  "from_changelog_row E schema mp r =
     bindR (op_of (cl_op r)) (\<lambda>op. bindR (normalize_row E mp (cl_old r)) (\<lambda>old.
     bindR (normalize_row E mp (cl_new r)) (\<lambda>new. bindR (de_stamp E (cl_changed r)) (\<lambda>t.
     Inr \<lparr>ev_id = make_event_id E ''polling'' (cl_table r) (cl_pk r) op (show_nat (cl_seq r)),
       ev_source = ''polling'', ev_table = cl_table r, ev_op = op, ev_pk = cl_pk r, ev_old = old, ev_new = new,
       ev_ts = t, ev_tx = cl_tx r, ev_offset = show_nat (cl_seq r), ev_schema = schema\<rparr>))))"

text \<open>
  A Debezium message. \<open>shown\<close>, a parameter, is \<open>str\<close> of a JSON value; \<open>position\<close> is the Kafka
  position, \<open>tail\<close> the last part of the topic's name. Reads of a member of a value that is not
  an object are not met: the envelope's members are the objects the connector writes.
\<close>

definition debezium_op :: "json \<Rightarrow> cdc_operation option" where
  "debezium_op v = map_of [(JStr ''c'', CDC_INSERT), (JStr ''r'', CDC_INSERT), (JStr ''u'', CDC_UPDATE), (JStr ''d'', CDC_DELETE)] v"

definition obj_of :: "json \<Rightarrow> dict option" where
  "obj_of v = (case v of JObj d \<Rightarrow> Some d | _ \<Rightarrow> None)"

definition has :: "dict \<Rightarrow> string \<Rightarrow> bool" where "has d k \<longleftrightarrow> k \<in> fst ` set d"

definition members :: "json \<Rightarrow> dict" where "members v = (case obj_of v of Some d \<Rightarrow> d | None \<Rightarrow> [])"

definition change_rows :: "dict \<Rightarrow> dict option \<times> dict option \<times> dict" where
  "change_rows envelope = (let old = obj_of (dget envelope ''before''); new = obj_of (dget envelope ''after'') in
     (old, new, if new \<noteq> None \<and> new \<noteq> Some [] then the new else members (dget envelope ''before'')))"

definition from_debezium ::
  "data_env \<Rightarrow> (json \<Rightarrow> string) \<Rightarrow> string \<Rightarrow> string \<Rightarrow> string \<Rightarrow> string option \<Rightarrow> row_mapping \<Rightarrow> json \<Rightarrow> fault + cdc_event option" where
  "from_debezium E shown tail position schema key_field mp message =
     (case message of JNull \<Rightarrow> Inr None | _ \<Rightarrow>
      bindR (case message of JText j \<Rightarrow> Inr j | JStr _ \<Rightarrow> raised CdcProcessingError | v \<Rightarrow> Inr v) (\<lambda>value.
      case (case obj_of value of None \<Rightarrow> None
            | Some d \<Rightarrow> if has d ''payload'' then obj_of (dget d ''payload'') else Some d) of
        None \<Rightarrow> raised CdcProcessingError
      | Some envelope \<Rightarrow>
        if \<not> has envelope ''op'' then
          (if has envelope ''ts_ms'' \<and> \<not> has envelope ''source'' then Inr None else raised CdcProcessingError)
        else case debezium_op (dget envelope ''op'') of
          None \<Rightarrow> Inr None
        | Some op \<Rightarrow>
          let (old, new, row) = change_rows envelope; source = members (dget envelope ''source'');
              key = str_or key_field (mp_key mp) in
          if \<not> has row key then raised CdcProcessingError
          else let pk = shown (dget row key);
                 table = (if truthy (dget source ''table'') then shown (dget source ''table'') else tail);
                 at_position = (if dget source ''lsn'' \<noteq> JNull then shown (dget source ''lsn'') else position);
                 ts = (if truthy (dget source ''ts_ms'') then dget source ''ts_ms'' else dget envelope ''ts_ms'') in
            bindR (normalize_row E mp old) (\<lambda>old. bindR (normalize_row E mp new) (\<lambda>new.
            Inr (Some \<lparr>ev_id = make_event_id E ''debezium'' table pk op at_position, ev_source = ''debezium'',
              ev_table = table, ev_op = op, ev_pk = pk, ev_old = old, ev_new = new,
              ev_ts = (case ts of JNum ms \<Rightarrow> if ms \<noteq> 0 then ms / 1000 else de_now E | _ \<Rightarrow> de_now E),
              ev_tx = (if dget source ''txId'' = JNull then None else Some (shown (dget source ''txId''))),
              ev_offset = position,
              ev_schema = schema @ '';debezium/'' @ (if has source ''version'' then shown (dget source ''version'') else ''?'')\<rparr>)))))"

section \<open>Storing events\<close>

record event_row =
  er_id :: nat
  er_event :: cdc_event
  er_version :: "nat option"

record cdc_db =
  cd_events :: "event_row list"
  cd_offsets :: "(string \<times> string) list"
  cd_data :: data_db

record store_result =
  so_stored :: nat
  so_duplicates :: nat
  so_operations :: "(string \<times> nat) list"
  so_accepted :: "cdc_event list"

definition get_offset :: "cdc_db \<Rightarrow> string \<Rightarrow> string option" where
  "get_offset db consumer = map_of (cd_offsets db) consumer"

definition set_offset :: "string \<Rightarrow> string \<Rightarrow> cdc_db \<Rightarrow> cdc_db" where
  "set_offset consumer position db = db\<lparr>cd_offsets := AList.update consumer position (cd_offsets db)\<rparr>"

definition count_op :: "string \<Rightarrow> (string \<times> nat) list \<Rightarrow> (string \<times> nat) list" where
  "count_op op ops = AList.update op (get_or ops op 0 + 1) ops"

definition store_event :: "cdc_event \<Rightarrow> string list \<times> store_result \<times> cdc_db \<Rightarrow> string list \<times> store_result \<times> cdc_db" where
  "store_event ev = (\<lambda>(known, res, db).
     if ev_id ev \<in> set known then (known, res\<lparr>so_duplicates := so_duplicates res + 1\<rparr>, db)
     else (ev_id ev # known,
       res\<lparr>so_stored := so_stored res + 1, so_operations := count_op (op_value (ev_op ev)) (so_operations res),
         so_accepted := so_accepted res @ [ev]\<rparr>,
       db\<lparr>cd_events := cd_events db @ [\<lparr>er_id = next_id (map er_id (cd_events db)), er_event = ev, er_version = None\<rparr>]\<rparr>))"

definition known_ids :: "cdc_db \<Rightarrow> string list \<Rightarrow> string list" where
  "known_ids db ids = filter (\<lambda>i. i \<in> set ids) (map (ev_id \<circ> er_event) (cd_events db))"

definition store_events :: "cdc_event list \<Rightarrow> string \<Rightarrow> string option \<Rightarrow> cdc_db \<Rightarrow> store_result \<times> cdc_db" where
  "store_events events consumer position db =
     (let (_, res, db) = fold store_event events (known_ids db (map ev_id events),
        \<lparr>so_stored = 0, so_duplicates = 0, so_operations = [], so_accepted = []\<rparr>, db)
      in (res, case position of None \<Rightarrow> db | Some p \<Rightarrow> set_offset consumer p db))"

section \<open>Sources and the consumer\<close>

record cdc_source =
  cs_name :: string
  cs_fetch :: "cdc_db \<Rightarrow> nat \<Rightarrow> fault + cdc_event list \<times> string option"

definition polling_name :: "string \<Rightarrow> string" where "polling_name table = ''polling:'' @ table"

definition poll_rows :: "string \<Rightarrow> nat \<Rightarrow> nat \<Rightarrow> changelog_row list \<Rightarrow> changelog_row list" where
  "poll_rows table start limit changes =
     take limit (sort_key cl_seq (filter (\<lambda>r. cl_table r = table \<and> start < cl_seq r) changes))"

text \<open>\<open>int(get_offset(...) or 0)\<close>.\<close>

definition offset_of :: "cdc_db \<Rightarrow> string \<Rightarrow> nat" where
  "offset_of db consumer = parse_digits (str_or (get_offset db consumer) ''0'')"

definition poll_fetch ::
  "data_env \<Rightarrow> string \<Rightarrow> string \<Rightarrow> row_mapping \<Rightarrow> changelog_row list \<Rightarrow> cdc_db \<Rightarrow> nat \<Rightarrow> fault + cdc_event list \<times> string option" where
  "poll_fetch E table schema mp changes db limit =
     (let rows = poll_rows table (offset_of db (polling_name table)) limit changes
      in bindR (try_each (from_changelog_row E schema mp) rows) (\<lambda>events.
        Inr (events, if rows = [] then None else Some (show_nat (cl_seq (last rows))))))"

definition polling_source :: "data_env \<Rightarrow> string \<Rightarrow> string \<Rightarrow> row_mapping \<Rightarrow> changelog_row list \<Rightarrow> cdc_source" where
  "polling_source E table schema mp changes =
     \<lparr>cs_name = polling_name table, cs_fetch = poll_fetch E table schema mp changes\<rparr>"

record cdc_summary =
  su_fetched :: nat
  su_stored :: nat
  su_duplicates :: nat

definition run_cdc_once :: "bool \<Rightarrow> nat \<Rightarrow> cdc_source \<Rightarrow> cdc_db \<Rightarrow> (fault + cdc_summary) \<times> cdc_db" where
  "run_cdc_once fails batch src db = (case cs_fetch src db batch of
     Inl e \<Rightarrow> (Inl e, db)
   | Inr (events, position) \<Rightarrow>
       if fails then (raised CdcProcessingError, db)
       else let (res, db) = store_events events (cs_name src) position db
         in (Inr \<lparr>su_fetched = length events, su_stored = so_stored res, su_duplicates = so_duplicates res\<rparr>, db))"

record cdc_totals =
  tt_batches :: nat
  tt_stored :: nat
  tt_duplicates :: nat

text \<open>\<^verbatim>\<open>run_cdc\<close> with \<open>max_batches\<close> given; the source at each batch is an argument, since the world goes on.\<close>

fun run_batches :: "nat \<Rightarrow> (nat \<Rightarrow> cdc_source) \<Rightarrow> nat \<Rightarrow> cdc_totals \<Rightarrow> cdc_db \<Rightarrow> (fault + cdc_totals) \<times> cdc_db" where
  "run_batches batch src 0 totals db = (Inr totals, db)"
| "run_batches batch src (Suc n) totals db = (case run_cdc_once False batch (src (tt_batches totals)) db of
     (Inl e, db) \<Rightarrow> (Inl e, db)
   | (Inr s, db) \<Rightarrow> run_batches batch src n \<lparr>tt_batches = tt_batches totals + 1,
       tt_stored = tt_stored totals + su_stored s, tt_duplicates = tt_duplicates totals + su_duplicates s\<rparr> db)"

definition run_cdc :: "nat \<Rightarrow> (nat \<Rightarrow> cdc_source) \<Rightarrow> nat \<Rightarrow> cdc_db \<Rightarrow> (fault + cdc_totals) \<times> cdc_db" where
  "run_cdc batch src max_batches = run_batches batch src max_batches \<lparr>tt_batches = 0, tt_stored = 0, tt_duplicates = 0\<rparr>"

section \<open>Materializing\<close>

definition pending_events :: "cdc_db \<Rightarrow> string \<Rightarrow> event_row list" where
  "pending_events db dataset = sort_key er_id
     (filter (\<lambda>e. ev_dataset (er_event e) = JStr dataset \<and> er_version e = None) (cd_events db))"

definition image_after :: "cdc_event \<Rightarrow> image option" where
  "image_after e = (if ev_op e = CDC_DELETE then None else ev_new e)"

definition net_changes :: "cdc_event list \<Rightarrow> (string \<times> image option) list" where
  "net_changes events = fold (\<lambda>e. AList.update (ev_pk e) (image_after e)) events []"

text \<open>The upserts by observation time and key; \<open>None\<close> stands for a row without a time, which fails.\<close>

definition upsert_list :: "(string \<times> image option) list \<Rightarrow> (string \<times> image) list" where
  "upsert_list net = List.map_filter (\<lambda>(pk, r). map_option (Pair pk) r) net"

definition upserts :: "(string \<times> image option) list \<Rightarrow> (string \<times> image) list" where
  "upserts net = sort_key (\<lambda>(pk, r). (the (im_observed r), pk)) (upsert_list net)"

definition deleted_keys :: "(string \<times> image option) list \<Rightarrow> string list" where
  "deleted_keys net = sort (map fst (filter (\<lambda>(_, r). r = None) net))"

definition pad6 :: "nat \<Rightarrow> string" where
  "pad6 n = replicate (6 - length (show_nat n)) (char_of (48::nat)) @ show_nat n"

definition cdc_name :: "nat \<Rightarrow> nat \<Rightarrow> string" where
  "cdc_name a z = ''cdc-'' @ pad6 a @ ''-'' @ pad6 z"

definition previous_cdc :: "data_db \<Rightarrow> nat \<Rightarrow> version_row option" where
  "previous_cdc db ds = (let vs = sort_key dv_id (filter (\<lambda>v. dv_dataset v = ds \<and> dv_kind v = CDC) (dd_versions db))
     in if vs = [] then None else Some (last vs))"

definition tx_ids :: "nat \<Rightarrow> cdc_event list \<Rightarrow> string list" where
  "tx_ids max_tx events = take max_tx (sorted_list_of_set (set (filter (\<lambda>t. t \<noteq> []) (List.map_filter ev_tx events))))"

definition range_of :: "event_row list \<Rightarrow> cdc_range" where
  "range_of rows = (let a = er_event (hd rows); z = er_event (last rows); ts = set (map (ev_ts \<circ> er_event) rows) in
     \<lparr>cr_source = ev_source a, cr_table = ev_table a, cr_offsets = (ev_offset a, ev_offset z),
      cr_events = (ev_id a, ev_id z), cr_count = length rows, cr_changed = (Min ts, Max ts)\<rparr>)"

text \<open>
  A payload that is not an object and an upserted row without a time are refused here with a
  Python error; what pandas and the database make of them is not modelled.
\<close>

definition images_ok :: "(string \<times> image) list \<Rightarrow> bool" where
  "images_ok ups \<longleftrightarrow> list_all (\<lambda>(_, r). im_observed r \<noteq> None \<and> obj_of (im_payload r) \<noteq> None) ups"

definition upsert_frame :: "(string \<times> image) list \<Rightarrow> frame" where
  "upsert_frame ups = with_column ''__observed_at'' (map (\<lambda>(_, r). JTime (the (im_observed r))) ups)
     (frame_of (map (\<lambda>(_, r). members (im_payload r)) ups))"

definition materialize_cdc :: "data_env \<Rightarrow> nat \<Rightarrow> string \<Rightarrow> cdc_db \<Rightarrow> fault + version_row option \<times> cdc_db" where
  "materialize_cdc E max_tx dataset db =
     (let events = pending_events db dataset in
      if events = [] then Inr (None, db)
      else let net = net_changes (map er_event events); ups = upserts net; deleted = deleted_keys net in
        if \<not> images_ok (upsert_list net) then Inl (Python_Error ''TypeError'')
        else let (d, data) = get_or_create_dataset dataset (cd_data db) in
          bindR (ingest_version E \<lparr>in_dataset = dataset,
              in_version = cdc_name (er_id (hd events)) (er_id (last events)), in_frame = upsert_frame ups, in_kind = CDC,
              in_stamps = Stamp_Column ''__observed_at'', in_parent = map_option dv_version (previous_cdc data (ds_id d)),
              in_link = None, in_keys = Some (map (Some \<circ> fst) ups), in_deleted = deleted,
              in_range = Some (range_of events), in_tx = Some (tx_ids max_tx (map er_event events))\<rparr> data)
            (\<lambda>(v, _, data). Inr (Some v, db\<lparr>cd_data := data, cd_events := update_where (\<lambda>e. er_id e \<in> er_id ` set events)
               (\<lambda>e. e\<lparr>er_version := Some (dv_id v)\<rparr>) (cd_events db)\<rparr>)))"

section \<open>The source table\<close>

text \<open>
  A change of the watched table and the row its trigger (\<^verbatim>\<open>cdc/triggers.py\<close>, PostgreSQL) appends to the changelog; \<open>shown\<close> is
  the cast of the key to text.
\<close>

datatype row_change = Insert_Row dict | Update_Row dict dict | Delete_Row dict

fun change_images :: "row_change \<Rightarrow> dict option \<times> dict option" where
  "change_images (Insert_Row new) = (None, Some new)"
| "change_images (Update_Row old new) = (Some old, Some new)"
| "change_images (Delete_Row old) = (Some old, None)"

fun change_op :: "row_change \<Rightarrow> cdc_operation" where
  "change_op (Insert_Row _) = CDC_INSERT"
| "change_op (Update_Row _ _) = CDC_UPDATE"
| "change_op (Delete_Row _) = CDC_DELETE"

definition trigger_row ::
  "(json \<Rightarrow> string) \<Rightarrow> string \<Rightarrow> string \<Rightarrow> nat \<Rightarrow> string \<Rightarrow> time \<Rightarrow> row_change \<Rightarrow> changelog_row" where
  "trigger_row shown table key seq tx now ch = (let (old, new) = change_images ch in
     \<lparr>cl_seq = seq, cl_table = table, cl_op = op_value (change_op ch),
      cl_pk = shown (dget (if change_op ch = CDC_DELETE then the old else the new) key),
      cl_old = old, cl_new = new, cl_tx = Some tx, cl_changed = JTime now\<rparr>)"

end
