(* ===== verification/Data_Laws.thy ===== *)
theory Data_Laws
  imports Data_Store
begin

text \<open>
  The invariant of the data store and that every operation keeps it: versions, their rows and
  their links are only ever added, names are unique, parents and sources are older.
\<close>

section \<open>Identifiers\<close>

lemma fold_max_above: "m \<le> fold max ids m \<and> (\<forall>i\<in>set ids. i \<le> fold max ids m)" for m :: nat
proof (induction ids arbitrary: m)
  case (Cons a ids)
  have "max a m \<le> fold max ids (max a m)" "\<forall>i\<in>set ids. i \<le> fold max ids (max a m)" using Cons by blast+
  then show ?case by simp
qed simp

lemma next_id_above: "i \<in> set ids \<Longrightarrow> i < next_id ids"
  using fold_max_above[of 0 ids] by (auto simp: next_id_def less_Suc_eq_le)

lemma next_id_pos [simp]: "0 < next_id ids" by (simp add: next_id_def)

lemma next_id_fresh: "next_id ids \<notin> set ids" using next_id_above by blast

lemma new_version_id_above: "v \<in> set (dd_versions db) \<Longrightarrow> dv_id v < new_version_id db"
  unfolding new_version_id_def by (rule next_id_above) simp

lemma new_record_id_above: "r \<in> set (dd_records db) \<Longrightarrow> nat (sr_id r) < new_record_id db"
  unfolding new_record_id_def by (rule next_id_above) auto

section \<open>The invariant\<close>

definition dataset_ids :: "data_db \<Rightarrow> nat set" where "dataset_ids db = ds_id ` set (dd_datasets db)"
definition version_ids :: "data_db \<Rightarrow> nat set" where "version_ids db = dv_id ` set (dd_versions db)"

definition parent_ok :: "data_db \<Rightarrow> nat \<Rightarrow> nat \<Rightarrow> nat option \<Rightarrow> bool" where
  "parent_ok db i ds par \<longleftrightarrow> (case par of None \<Rightarrow> True
     | Some p \<Rightarrow> p < i \<and> (\<exists>u\<in>set (dd_versions db). dv_id u = p \<and> dv_dataset u = ds))"

definition rows_ok :: "data_db \<Rightarrow> version_row \<Rightarrow> bool" where
  "rows_ok db v \<longleftrightarrow> (case dv_storage v of
     Stored_Rows \<Rightarrow> dv_count v = length (version_rows db (dv_id v))
   | Stored_Reference _ \<Rightarrow> version_rows db (dv_id v) = []
   | Stored_Derived sources _ \<Rightarrow> version_rows db (dv_id v) = [] \<and> (\<forall>s\<in>set sources. s < dv_id v \<and> s \<in> version_ids db))"

definition version_ok :: "data_db \<Rightarrow> version_row \<Rightarrow> bool" where
  "version_ok db v \<longleftrightarrow> 0 < dv_id v \<and> dv_dataset v \<in> dataset_ids db
     \<and> parent_ok db (dv_id v) (dv_dataset v) (dv_parent v) \<and> rows_ok db v"

definition version_key :: "version_row \<Rightarrow> nat \<times> string" where
  "version_key v = (dv_dataset v, dv_version v)"

definition data_ok :: "data_db \<Rightarrow> bool" where
  "data_ok db \<longleftrightarrow> distinct (map ds_id (dd_datasets db)) \<and> distinct (map ds_name (dd_datasets db))
     \<and> distinct (map dv_id (dd_versions db)) \<and> distinct (map version_key (dd_versions db))
     \<and> (\<forall>v\<in>set (dd_versions db). version_ok db v)
     \<and> distinct (map sr_id (dd_records db)) \<and> (\<forall>r\<in>set (dd_records db). 0 < sr_id r \<and> sr_version r \<in> version_ids db)
     \<and> distinct (dd_links db) \<and> (\<forall>l\<in>set (dd_links db). ln_data l \<in> version_ids db \<and> ln_model l \<in> set (dd_models db))
     \<and> dd_audited db = map dv_id (dd_versions db) \<and> (\<forall>c\<in>set (dd_current db). cu_data c \<in> version_ids db)"

definition empty_store :: data_db where
  "empty_store = \<lparr>dd_datasets = [], dd_versions = [], dd_records = [], dd_links = [], dd_models = [], dd_current = [], dd_audited = []\<rparr>"

text \<open>What an operation may do to the store: it adds.\<close>

definition grows :: "data_db \<Rightarrow> data_db \<Rightarrow> bool" where
  "grows db db' \<longleftrightarrow> (\<exists>vs. dd_versions db' = dd_versions db @ vs \<and> (\<forall>v\<in>set vs. dv_id v \<notin> version_ids db))
     \<and> (\<exists>rs. dd_records db' = dd_records db @ rs \<and> (\<forall>r\<in>set rs. sr_version r \<notin> version_ids db))
     \<and> set (dd_links db) \<subseteq> set (dd_links db') \<and> set (dd_datasets db) \<subseteq> set (dd_datasets db')"

lemma grows_refl: "grows db db" by (auto simp: grows_def)

lemma version_ids_mono: "grows db db' \<Longrightarrow> version_ids db \<subseteq> version_ids db'"
  by (auto simp: grows_def version_ids_def)

lemma grows_trans:
  assumes a: "grows db db'" and b: "grows db' db''" shows "grows db db''"
proof -
  obtain vs rs where 1: "dd_versions db' = dd_versions db @ vs" "\<forall>v\<in>set vs. dv_id v \<notin> version_ids db"
      "dd_records db' = dd_records db @ rs" "\<forall>r\<in>set rs. sr_version r \<notin> version_ids db"
    using a by (auto simp: grows_def)
  obtain vs' rs' where 2: "dd_versions db'' = dd_versions db' @ vs'" "\<forall>v\<in>set vs'. dv_id v \<notin> version_ids db'"
      "dd_records db'' = dd_records db' @ rs'" "\<forall>r\<in>set rs'. sr_version r \<notin> version_ids db'"
    using b by (auto simp: grows_def)
  have "\<forall>v\<in>set (vs @ vs'). dv_id v \<notin> version_ids db" "\<forall>r\<in>set (rs @ rs'). sr_version r \<notin> version_ids db"
    using 1 2 version_ids_mono[OF a] by auto
  then show ?thesis using 1 2 a b by (auto simp: grows_def)
qed

text \<open>Therefore what a version says stays: its row and the rows of its data.\<close>

lemma grows_keeps:
  assumes "grows db db'" "v \<in> set (dd_versions db)"
  shows "v \<in> set (dd_versions db')" "version_rows db' (dv_id v) = version_rows db (dv_id v)"
proof -
  obtain rs where rs: "dd_records db' = dd_records db @ rs" "\<forall>r\<in>set rs. sr_version r \<notin> version_ids db"
    using assms(1) by (auto simp: grows_def)
  have "filter (\<lambda>r. sr_version r = dv_id v) rs = []"
    using rs(2) assms(2) by (auto simp: filter_empty_conv version_ids_def)
  then show "version_rows db' (dv_id v) = version_rows db (dv_id v)" by (simp add: version_rows_def rs(1))
  show "v \<in> set (dd_versions db')" using assms by (auto simp: grows_def)
qed

lemma version_ok_grows:
  assumes g: "grows db db'" and v: "v \<in> set (dd_versions db)" "version_ok db v" shows "version_ok db' v"
proof -
  have "set (dd_versions db) \<subseteq> set (dd_versions db')" "dataset_ids db \<subseteq> dataset_ids db'" using g by (auto simp: grows_def dataset_ids_def)
  then have "parent_ok db' (dv_id v) (dv_dataset v) (dv_parent v)" "dv_dataset v \<in> dataset_ids db'"
    using v(2) by (auto simp: version_ok_def parent_ok_def split: option.splits)
  moreover have "rows_ok db' v"
    using v(2) grows_keeps(2)[OF g v(1)] version_ids_mono[OF g]
    by (auto simp: version_ok_def rows_ok_def split: storage.splits)
  ultimately show ?thesis using v(2) by (simp add: version_ok_def)
qed

section \<open>Adding one version\<close>

lemma get_or_create_new:
  assumes ok: "data_ok db" and d: "ds_id d \<notin> dataset_ids db" "ds_name d \<notin> ds_name ` set (dd_datasets db)"
  shows "data_ok (db\<lparr>dd_datasets := dd_datasets db @ [d]\<rparr>)" "grows db (db\<lparr>dd_datasets := dd_datasets db @ [d]\<rparr>)"
proof -
  show g: "grows db (db\<lparr>dd_datasets := dd_datasets db @ [d]\<rparr>)" by (auto simp: grows_def dataset_ids_def)
  show "data_ok (db\<lparr>dd_datasets := dd_datasets db @ [d]\<rparr>)"
    using ok d version_ok_grows[OF g] by (simp add: data_ok_def version_ids_def dataset_ids_def)
qed

text \<open>What creating a dataset leaves as it was.\<close>

definition same_tables :: "data_db \<Rightarrow> data_db \<Rightarrow> bool" where
  "same_tables db db' \<longleftrightarrow> dd_versions db' = dd_versions db \<and> dd_records db' = dd_records db"

lemma same_tables_simps:
  assumes "same_tables db db'"
  shows "dd_versions db' = dd_versions db" "dd_records db' = dd_records db" "version_ids db' = version_ids db"
    "version_rows db' i = version_rows db i" "find_version db' ds n = find_version db ds n" "version_by_id db' i = version_by_id db i"
    "new_version_id db' = new_version_id db" "new_record_id db' = new_record_id db"
  using assms by (simp_all add: same_tables_def version_ids_def version_rows_def find_version_def version_by_id_def
      new_version_id_def new_record_id_def)

lemma get_or_create_cases:
  assumes ok: "data_ok db" and run: "get_or_create_dataset name db = (d, db')"
  shows "data_ok db'" "grows db db'" "d \<in> set (dd_datasets db')" "ds_name d = name" "same_tables db db'"
proof -
  have "data_ok db' \<and> grows db db' \<and> d \<in> set (dd_datasets db') \<and> ds_name d = name \<and> same_tables db db'"
  proof (cases "by_key ds_name name (dd_datasets db)")
    case None
    have "ds_id d \<notin> dataset_ids db" "ds_name d \<notin> ds_name ` set (dd_datasets db)" "ds_name d = name"
      "db' = db\<lparr>dd_datasets := dd_datasets db @ [d]\<rparr>"
      using run None next_id_fresh[of "map ds_id (dd_datasets db)"]
      by (auto simp: get_or_create_dataset_def Let_def by_key_None dataset_ids_def)
    then show ?thesis using get_or_create_new[OF ok] by (auto simp: same_tables_def)
  next
    case (Some e)
    then show ?thesis using run ok by (auto simp: get_or_create_dataset_def grows_refl same_tables_def dest: by_key_Some)
  qed
  then show "data_ok db'" "grows db db'" "d \<in> set (dd_datasets db')" "ds_name d = name" "same_tables db db'" by blast+
qed

lemma link_cases:
  assumes run: "link_model_data m v i role db = Inr db'" and ok: "data_ok db" and i: "i \<in> version_ids db"
  shows "data_ok db'" "grows db db'" "same_tables db db'"
proof -
  let ?l = "\<lparr>ln_model = m, ln_model_version = v, ln_data = i, ln_role = role\<rparr>"
  have "db' = db \<or> db' = db\<lparr>dd_links := dd_links db @ [?l]\<rparr> \<and> ?l \<notin> set (dd_links db) \<and> m \<in> set (dd_models db)"
    using run by (auto simp: link_model_data_def raised_def Let_def split: if_splits)
  moreover have g: "grows db (db\<lparr>dd_links := dd_links db @ [?l]\<rparr>)" by (auto simp: grows_def dataset_ids_def)
  moreover have "data_ok (db\<lparr>dd_links := dd_links db @ [?l]\<rparr>)" if "?l \<notin> set (dd_links db)" "m \<in> set (dd_models db)"
    using ok that i version_ok_grows[OF g] by (simp add: data_ok_def version_ids_def)
  ultimately show "data_ok db'" "grows db db'" "same_tables db db'" using ok by (auto simp: grows_refl same_tables_def)
qed

lemma link_given_cases:
  assumes "link_given link i db = Inr db'" "data_ok db" "i \<in> version_ids db"
  shows "data_ok db'" "grows db db'" "same_tables db db'"
  using assms link_cases by (auto simp: link_given_def grows_refl same_tables_def split: option.splits)

lemma link_given_audit:
  "link_given link i (audit_created j db) = bindR (link_given link i db) (\<lambda>db. Inr (audit_created j db))"
  by (auto simp: link_given_def link_model_data_def audit_created_def raised_def Let_def split: option.splits)

text \<open>A new version: its row refers to what is there, its rows are numbered above the others.\<close>

definition fresh_rows :: "data_db \<Rightarrow> nat \<Rightarrow> stored_row list \<Rightarrow> bool" where
  "fresh_rows db i rows \<longleftrightarrow> distinct (map sr_id rows) \<and> (\<forall>r\<in>set rows. sr_version r = i \<and> int (new_record_id db) \<le> sr_id r)"

text \<open>The rows a version says it has.\<close>

definition fits :: "data_db \<Rightarrow> version_row \<Rightarrow> stored_row list \<Rightarrow> bool" where
  "fits db v rows \<longleftrightarrow> (case dv_storage v of Stored_Rows \<Rightarrow> dv_count v = length rows
     | Stored_Reference _ \<Rightarrow> rows = [] | Stored_Derived sources _ \<Rightarrow> rows = [] \<and> set sources \<subseteq> version_ids db)"

definition new_version_ok :: "data_db \<Rightarrow> version_row \<Rightarrow> stored_row list \<Rightarrow> bool" where
  "new_version_ok db v rows \<longleftrightarrow> dv_id v = new_version_id db \<and> dv_dataset v \<in> dataset_ids db
     \<and> find_version db (dv_dataset v) (dv_version v) = None \<and> parent_ok db (dv_id v) (dv_dataset v) (dv_parent v) \<and> fits db v rows"

lemma find_version_None: "find_version db ds n = None \<longleftrightarrow> (ds, n) \<notin> version_key ` set (dd_versions db)"
  by (auto simp: find_version_def find_None_iff version_key_def)

lemma add_version_cases:
  assumes ok: "data_ok db" and v: "new_version_ok db v rows" and rows: "fresh_rows db (dv_id v) rows"
    and run: "add_version v rows link db = Inr (u, new, db')"
  shows "data_ok db'" "grows db db'" "u = v" "new" "dd_versions db' = dd_versions db @ [v]" "dd_records db' = dd_records db @ rows"
proof -
  let ?i = "dv_id v" and ?db = "db\<lparr>dd_versions := dd_versions db @ [v], dd_records := dd_records db @ rows\<rparr>"
  have above: "j < ?i" if "j \<in> version_ids db" for j
    using that v new_version_id_above[of _ db] by (auto simp: new_version_ok_def version_ids_def)
  have fresh: "?i \<notin> version_ids db" using above[of ?i] by blast
  have g: "grows db ?db" using fresh rows by (auto simp: grows_def fresh_rows_def dataset_ids_def)
  have none: "version_rows db ?i = []"
    using ok fresh by (auto simp: version_rows_def filter_empty_conv data_ok_def)
  have "version_rows ?db ?i = rows" using rows none by (simp add: version_rows_def fresh_rows_def cong: filter_cong)
  then have "rows_ok ?db v" using v above
    by (auto simp: rows_ok_def new_version_ok_def fits_def version_ids_def split: storage.splits)
  moreover have "parent_ok ?db ?i (dv_dataset v) (dv_parent v)"
    using v by (auto simp: new_version_ok_def parent_ok_def split: option.splits)
  moreover have "0 < ?i" using v by (simp add: new_version_ok_def new_version_id_def)
  moreover have "dv_dataset v \<in> dataset_ids ?db" using v by (simp add: new_version_ok_def dataset_ids_def)
  ultimately have vok: "version_ok ?db v" by (simp add: version_ok_def)
  have ids: "sr_id r \<noteq> sr_id q" "0 < sr_id q" if "r \<in> set (dd_records db)" "q \<in> set rows" for r q
    using new_record_id_above[OF that(1)] that(2) rows by (auto simp: fresh_rows_def)
  have pos: "0 < sr_id q" if "q \<in> set rows" for q
    using that rows by (auto simp: fresh_rows_def new_record_id_def intro: less_le_trans[of 0 "int (next_id _)"])
  have distinct_ids: "distinct (map sr_id (dd_records db @ rows))"
    using ok rows ids(1) by (auto simp: data_ok_def fresh_rows_def)
  have versions: "\<forall>w\<in>set (dd_versions ?db). version_ok ?db w"
    using ok vok version_ok_grows[OF g] by (auto simp: data_ok_def)
  have keys: "version_key v \<notin> version_key ` set (dd_versions db)"
    using v by (auto simp: new_version_ok_def find_version_None version_key_def)
  have vids: "version_ids ?db = insert ?i (version_ids db)" by (simp add: version_ids_def)
  have audited: "data_ok (audit_created ?i ?db)" using ok versions keys vids fresh distinct_ids pos rows
    by (auto simp: data_ok_def audit_created_def version_ids_def fresh_rows_def version_ok_def parent_ok_def rows_ok_def
        version_rows_def dataset_ids_def cong: option.case_cong storage.case_cong)
  obtain db1 where l: "link_given link ?i ?db = Inr db1" "db' = audit_created ?i db1" "u = v" "new"
    using run by (auto simp: add_version_def bindR_eq_Inr)
  have "link_given link ?i (audit_created ?i ?db) = Inr db'" by (simp add: link_given_audit l)
  note linked = link_given_cases[OF this audited]
  have i: "?i \<in> version_ids (audit_created ?i ?db)" by (simp add: version_ids_def audit_created_def)
  have g': "grows db (audit_created ?i ?db)" using g by (simp add: grows_def audit_created_def dataset_ids_def)
  show "u = v" "new" using l by blast+
  show "data_ok db'" "grows db db'" using linked(1,2)[OF i] grows_trans[OF g'] by blast+
  show "dd_versions db' = dd_versions db @ [v]" "dd_records db' = dd_records db @ rows"
    using linked(3)[OF i] by (simp_all add: same_tables_def audit_created_def)
qed

section \<open>Operations\<close>

lemma existing_cases:
  assumes "existing_version db ds n digest link = Inr (Some (v, db'))" "data_ok db"
  shows "v \<in> set (dd_versions db)" "dv_hash v = digest" "version_key v = (ds, n)" "data_ok db'" "grows db db'" "same_tables db db'"
proof -
  have v: "find_version db ds n = Some v" "dv_hash v = digest" "link_given link (dv_id v) db = Inr db'"
    using assms(1) by (auto simp: existing_version_def raised_def bindR_eq_Inr split: option.splits if_splits)
  then show m: "v \<in> set (dd_versions db)" "dv_hash v = digest" "version_key v = (ds, n)"
    by (auto simp: find_version_def find_Some_iff version_key_def)
  then have "dv_id v \<in> version_ids db" by (simp add: version_ids_def)
  from link_given_cases[OF v(3) assms(2) this] show "data_ok db'" "grows db db'" "same_tables db db'" by blast+
qed

lemma parent_id_ok:
  assumes "parent_id db ds n = Inr p" shows "parent_ok db (new_version_id db) ds p"
  using assms new_version_id_above[of _ db]
  by (auto simp: parent_id_def parent_ok_def raised_def find_version_def find_Some_iff split: if_splits option.splits)

lemma new_rows_ids: "map sr_id (new_rows n i ts ds keys) = map int [n..<n + min (length ts) (min (length ds) (length keys))]"
proof -
  have "map sr_id (new_rows n i ts ds keys) = map (int \<circ> fst) (enumerate n (zip ts (zip ds keys)))"
    by (simp add: new_rows_def split_def comp_def)
  then show ?thesis by (simp only: map_map[symmetric] map_fst_enumerate length_zip)
qed

lemma new_rows_fresh: "fresh_rows db i (new_rows (new_record_id db) i ts ds keys)"
  by (auto simp: fresh_rows_def new_rows_ids distinct_map) (auto simp: new_rows_def in_set_enumerate_eq)

lemma length_new_rows: "length (new_rows n i ts ds keys) = min (length ts) (min (length ds) (length keys))"
  by (simp add: new_rows_def)

lemma try_each_Inr: "try_each f xs = Inr ys \<longleftrightarrow> list_all2 (\<lambda>x y. f x = Inr y) xs ys"
  by (induction xs arbitrary: ys) (auto simp: bindR_eq_Inr list_all2_Cons1)

text \<open>\<open>stamped E f a\<close>: the features of a frame and one instant for each of its rows.\<close>

lemma timestamps_length:
  assumes "timestamps E f s = Inr (g, ts)" shows "length ts = length (fr_rows f) \<and> length (fr_rows g) = length (fr_rows f)"
proof (cases s)
  case (Stamp_Column c)
  then show ?thesis using assms
    by (auto simp: raised_def bindR_eq_Inr try_each_Inr drop_column_def dest: list_all2_lengthD split: if_splits)
next
  case Stamp_Start
  then show ?thesis using assms by (auto simp: Let_def)
qed

lemma ingested_row_simps [simp]:
  "dv_id (ingested_row a d g ts i p) = i" "dv_dataset (ingested_row a d g ts i p) = ds_id d"
  "dv_version (ingested_row a d g ts i p) = in_version a" "dv_kind (ingested_row a d g ts i p) = in_kind a"
  "dv_parent (ingested_row a d g ts i p) = p" "dv_count (ingested_row a d g ts i p) = length ts"
  "dv_hash (ingested_row a d g ts i p) = g" "dv_storage (ingested_row a d g ts i p) = Stored_Rows"
  "dv_deleted (ingested_row a d g ts i p) = sort (in_deleted a)"
  by (simp_all add: ingested_row_def)

text \<open>What is stored under a name: the version that has it, or the one made.\<close>

lemma store_version_cases:
  assumes ok: "data_ok db" and d: "d \<in> set (dd_datasets db)"
    and run: "store_version d n digest par link build db = Inr (v, new, db')"
    and build: "\<And>i p f. parent_ok db i (ds_id d) p \<Longrightarrow> dv_id (fst (build i p f)) = i \<and> dv_dataset (fst (build i p f)) = ds_id d
        \<and> dv_version (fst (build i p f)) = n \<and> dv_parent (fst (build i p f)) = p \<and> dv_hash (fst (build i p f)) = digest \<and> fits db (fst (build i p f)) (snd (build i p f))"
    and fresh: "\<And>i p. fresh_rows db i (snd (build i p (new_record_id db)))"
  shows "data_ok db' \<and> grows db db' \<and> v \<in> set (dd_versions db') \<and> version_key v = (ds_id d, n) \<and> dv_hash v = digest
    \<and> (if new then find_version db (ds_id d) n = None
         \<and> (\<exists>p. parent_id db (ds_id d) par = Inr p \<and> v = fst (build (new_version_id db) p (new_record_id db))
             \<and> dd_versions db' = dd_versions db @ [v] \<and> dd_records db' = dd_records db @ snd (build (new_version_id db) p (new_record_id db)))
       else same_tables db db' \<and> v \<in> set (dd_versions db))"
proof -
  obtain known where known: "existing_version db (ds_id d) n digest link = Inr known"
    and rest: "(case known of Some (v, db) \<Rightarrow> Inr (v, False, db) | None \<Rightarrow> bindR (parent_id db (ds_id d) par) (\<lambda>p.
      let (v, rows) = build (new_version_id db) p (new_record_id db) in add_version v rows link db)) = Inr (v, new, db')"
    using run by (auto simp: store_version_def bindR_eq_Inr)
  show ?thesis
  proof (cases known)
    case (Some p)
    then have p: "known = Some (v, db')" "\<not> new" using rest by (auto split: prod.splits)
    show ?thesis using existing_cases[OF known[unfolded p] ok] p(2) by (auto simp: same_tables_def)
  next
    case None
    obtain p u rows where p: "parent_id db (ds_id d) par = Inr p" "build (new_version_id db) p (new_record_id db) = (u, rows)"
        "add_version u rows link db = Inr (v, new, db')"
      using rest None by (auto simp: bindR_eq_Inr split_eq)
    have none: "find_version db (ds_id d) n = None"
      using known None by (auto simp: existing_version_def raised_def bindR_eq_Inr split: option.splits if_splits)
    note par = parent_id_ok[OF p(1)]
    have u: "dv_id u = new_version_id db" "dv_dataset u = ds_id d" "dv_version u = n" "dv_hash u = digest" "dv_parent u = p"
      using build[OF par, of "new_record_id db"] p(2) by simp_all
    have "new_version_ok db u rows"
      using build[OF par, of "new_record_id db"] p(2) par none d by (auto simp: new_version_ok_def dataset_ids_def)
    from add_version_cases[OF ok this _ p(3)] fresh[of "new_version_id db" p] p(2) u
    have "data_ok db'" "grows db db'" "v = u" "new" "dd_versions db' = dd_versions db @ [u]" "dd_records db' = dd_records db @ rows"
      by auto
    then show ?thesis using u none p(1,2) by (auto simp: version_key_def)
  qed
qed

text \<open>An ingestion answers with the version that has the name, or adds one with the rows it was given.\<close>

definition ingest_done :: "data_env \<Rightarrow> ingest \<Rightarrow> data_db \<Rightarrow> version_row \<Rightarrow> bool \<Rightarrow> data_db \<Rightarrow> bool" where
  "ingest_done E a db v new db' \<longleftrightarrow> (\<exists>d features ts. d \<in> set (dd_datasets db') \<and> ds_name d = in_dataset a
     \<and> version_key v = (ds_id d, in_version a) \<and> timestamps E (in_frame a) (in_stamps a) = Inr (features, ts)
     \<and> dv_hash v = ingest_digest E a features ts \<and> length (json_rows features) = length ts
     \<and> (if new then (\<exists>p. v = ingested_row a d (ingest_digest E a features ts) ts (new_version_id db) p)
          \<and> dd_versions db' = dd_versions db @ [v] \<and> length (ingest_keys a (length ts)) = length ts
          \<and> dd_records db' = dd_records db @ new_rows (new_record_id db) (dv_id v) ts (json_rows features) (ingest_keys a (length ts))
        else same_tables db db' \<and> v \<in> set (dd_versions db)))"

lemma ingest_cases:
  assumes ok: "data_ok db" and run: "ingest_version E a db = Inr (v, new, db')"
  shows "data_ok db'" "grows db db'" "v \<in> set (dd_versions db')" "ingest_done E a db v new db'"
proof -
  obtain d db1 where d: "get_or_create_dataset (in_dataset a) db = (d, db1)" by (cases "get_or_create_dataset (in_dataset a) db")
  note D = get_or_create_cases[OF ok d] and T = same_tables_simps[OF get_or_create_cases(5)[OF ok d]]
  define build where "build features ts = (\<lambda>i par first. (ingested_row a d (ingest_digest E a features ts) ts i par,
      new_rows first i ts (json_rows features) (ingest_keys a (length (json_rows features)))))" for features ts
  obtain features ts where 1: "timestamps E (in_frame a) (in_stamps a) = Inr (features, ts)"
      "store_version d (in_version a) (ingest_digest E a features ts) (in_parent a) (in_link a) (build features ts) db1 = Inr (v, new, db')"
    and keys: "in_keys a = None \<or> length (the (in_keys a)) = length (fr_rows (in_frame a))"
    using run by (auto simp: ingest_version_def d Let_def raised_def bindR_eq_Inr build_def split: if_splits)
  have len: "length ts = length (fr_rows (in_frame a))" "length (json_rows features) = length ts"
    using timestamps_length[OF 1(1)] by (simp_all add: json_rows_def)
  have klen: "length (ingest_keys a (length ts)) = length ts"
    using keys len by (auto simp: ingest_keys_def split: option.split)
  note S = store_version_cases[OF D(1) D(3) 1(2)]
  have made: "data_ok db' \<and> grows db1 db' \<and> v \<in> set (dd_versions db') \<and> version_key v = (ds_id d, in_version a)
    \<and> dv_hash v = ingest_digest E a features ts \<and> (if new then find_version db1 (ds_id d) (in_version a) = None
         \<and> (\<exists>p. parent_id db1 (ds_id d) (in_parent a) = Inr p \<and> v = fst (build features ts (new_version_id db1) p (new_record_id db1))
             \<and> dd_versions db' = dd_versions db1 @ [v]
             \<and> dd_records db' = dd_records db1 @ snd (build features ts (new_version_id db1) p (new_record_id db1)))
       else same_tables db1 db' \<and> v \<in> set (dd_versions db1))"
    by (rule S) (simp_all add: build_def fits_def length_new_rows klen[unfolded len(1)] len new_rows_fresh)
  then show "data_ok db'" "v \<in> set (dd_versions db')" by blast+
  show "grows db db'" using made grows_trans[OF D(2)] by blast
  have "d \<in> set (dd_datasets db')" using made D(3) by (auto simp: grows_def)
  then show "ingest_done E a db v new db'"
    unfolding ingest_done_def using made D(4,5) 1(1) len klen
    by (intro exI[of _ d] exI[of _ features] exI[of _ ts]) (auto simp: T build_def same_tables_def)
qed

lemma create_cases:
  assumes ok: "data_ok db" and run: "create_stored_version ds n s k storage par link db = Inr (v, new, db')"
    and st: "storage \<noteq> Stored_Rows" "\<And>sources ex. storage = Stored_Derived sources ex \<Longrightarrow> set sources \<subseteq> version_ids db"
  shows "data_ok db'" "grows db db'" "v \<in> set (dd_versions db')"
proof -
  obtain d db1 where d: "get_or_create_dataset ds db = (d, db1)" by (cases "get_or_create_dataset ds db")
  note D = get_or_create_cases[OF ok d] and T = same_tables_simps[OF get_or_create_cases(5)[OF ok d]]
  define build where "build = (\<lambda>i p (first :: nat). (\<lparr>dv_id = i, dv_dataset = ds_id d, dv_version = n, dv_kind = k,
           dv_parent = p, dv_start = sc_start s, dv_end = sc_end s, dv_count = sc_count s, dv_hash = sc_digest s,
           dv_storage = storage, dv_deleted = [], dv_range = None, dv_tx = None\<rparr>, [] :: stored_row list))"
  have 1: "store_version d n (sc_digest s) par link build db1 = Inr (v, new, db')"
    using run by (simp add: create_stored_version_def d build_def)
  have "fits db1 (fst (build i p f)) (snd (build i p f))" for i p f
    using st by (auto simp: fits_def build_def T(3) split: storage.splits)
  then have "data_ok db' \<and> grows db1 db' \<and> v \<in> set (dd_versions db')"
    using store_version_cases[OF D(1) D(3) 1] by (simp add: build_def fresh_rows_def)
  then show "data_ok db'" "grows db db'" "v \<in> set (dd_versions db')" using grows_trans[OF D(2)] by blast+
qed

lemma persist_cases:
  assumes ok: "data_ok db" and run: "persist_current_data E uuid m job rows ids db = Inr (c, db')"
  shows "data_ok db'" "grows db db'"
proof -
  consider "db' = db" | v new db1 a row where "ingest_version E a db = Inr (v, new, db1)" "cu_data row = dv_id v"
      "db' = db1\<lparr>dd_current := dd_current db1 @ [row]\<rparr>"
  proof (cases "rows = []")
    case False
    obtain s sources d v new db1 where p: "List.map_filter (version_by_id db) ids = s # sources"
        "ingest_version E (current_ingest E d rows) db = Inr (v, new, db1)"
        "db' = db1\<lparr>dd_current := dd_current db1 @ [window_row uuid m job rows (s # sources) v]\<rparr>"
      using run False by (auto simp: persist_current_data_def Let_def bindR_eq_Inr split_eq split: list.splits option.splits)
    show thesis by (rule that(2)[OF p(2) _ p(3)]) (simp add: window_row_def Let_def)
  qed (use run that(1) in \<open>simp add: persist_current_data_def\<close>)
  then have "data_ok db' \<and> grows db db'"
  proof cases
    case 1
    then show ?thesis using ok grows_refl by simp
  next
    case (2 v new db1 a row)
    note I = ingest_cases[OF ok 2(1)]
    have g: "grows db1 db'" by (auto simp: 2(3) grows_def)
    have same: "version_ids db' = version_ids db1" by (simp add: 2(3) version_ids_def)
    have "cu_data row \<in> version_ids db1" using I(3) 2(2) by (auto simp: version_ids_def)
    then have "data_ok db'" using I(1) version_ok_grows[OF g] unfolding data_ok_def same by (simp add: 2(3))
    then show ?thesis using grows_trans[OF I(2) g] by blast
  qed
  then show "data_ok db'" "grows db db'" by blast+
qed

lemma version_by_id_mem: "version_by_id db i = Some v \<Longrightarrow> v \<in> set (dd_versions db) \<and> dv_id v = i"
  by (auto simp: version_by_id_def dest: by_key_Some)

lemma sources_known: "length (List.map_filter (version_by_id db) ids) = length ids \<Longrightarrow> set ids \<subseteq> version_ids db"
proof (induction ids)
  case (Cons i ids)
  have "length (List.map_filter (version_by_id db) ids) \<le> length ids" by (simp add: map_filter_def le_trans[OF length_filter_le])
  then show ?case using Cons by (cases "version_by_id db i")
    (auto simp: map_filter_simps version_ids_def dest!: version_by_id_mem)
qed simp

lemma snapshot_cases:
  assumes ok: "data_ok db" and run: "snapshot_training_data E ld m v ids par ex db = Inr (u, new, db')"
  shows "data_ok db'" "grows db db'"
proof -
  have ids: "set ids \<subseteq> version_ids db"
    using run by (intro sources_known) (auto simp: snapshot_training_data_def raised_def Let_def split: if_splits)
  consider a where "ingest_version E a db = Inr (u, new, db')"
    | d n s p l where "create_stored_version d n s HISTORICAL (Stored_Derived ids (sort ex)) p l db = Inr (u, new, db')"
    using run by (auto simp: snapshot_training_data_def raised_def Let_def bindR_eq_Inr split: if_splits option.splits)
  then have "data_ok db' \<and> grows db db'"
  proof cases
    case 1
    then show ?thesis using ingest_cases[OF ok 1] by blast
  next
    case 2
    then show ?thesis using create_cases(1,2)[OF ok 2] ids by auto
  qed
  then show "data_ok db'" "grows db db'" by blast+
qed

section \<open>The life of the store\<close>

text \<open>Every operation that commits; each may have its own clock and hash.\<close>

inductive data_step :: "data_db \<Rightarrow> data_db \<Rightarrow> bool" where
  onboarded: "data_step db (db\<lparr>dd_models := m # dd_models db\<rparr>)"
| ingested: "ingest_version E a db = Inr (v, new, db') \<Longrightarrow> data_step db db'"
| registered: "create_stored_version ds n s k (Stored_Reference ref) par link db = Inr (v, new, db') \<Longrightarrow> data_step db db'"
| linked: "i \<in> version_ids db \<Longrightarrow> link_model_data m n i role db = Inr db' \<Longrightarrow> data_step db db'"
| snapshot: "snapshot_training_data E ld m n ids par ex db = Inr (v, new, db') \<Longrightarrow> data_step db db'"
| frozen: "persist_current_data E uuid m job rows ids db = Inr (c, db') \<Longrightarrow> data_step db db'"

lemma data_step_ok:
  assumes "data_step db db'" "data_ok db" shows "data_ok db'" "grows db db'"
proof -
  have "data_ok db' \<and> grows db db'"
    using assms
  proof cases
    case (onboarded m)
    have g: "grows db db'" by (auto simp: onboarded grows_def)
    then show ?thesis using assms(2) version_ok_grows[OF g] by (auto simp: onboarded data_ok_def version_ids_def)
  next
    case ingested
    then show ?thesis using ingest_cases(1,2)[OF assms(2)] by blast
  next
    case registered
    then show ?thesis using create_cases(1,2)[OF assms(2)] by blast
  next
    case linked
    then show ?thesis using link_cases[OF linked(2) assms(2) linked(1)] by blast
  next
    case snapshot
    then show ?thesis using snapshot_cases[OF assms(2)] by blast
  next
    case frozen
    then show ?thesis using persist_cases[OF assms(2)] by blast
  qed
  then show "data_ok db'" "grows db db'" by blast+
qed

lemma empty_ok: "data_ok empty_store" by (simp add: empty_store_def data_ok_def)

interpretation store: safe_system "\<lambda>db. db = empty_store" data_step data_ok
  by unfold_locales (auto simp: empty_ok intro: data_step_ok(1))

lemma store_grows: "data_step\<^sup>*\<^sup>* db db' \<Longrightarrow> data_ok db \<Longrightarrow> data_ok db' \<and> grows db db'"
proof (induction rule: rtranclp_induct)
  case (step y z)
  then show ?case using data_step_ok[OF step(2)] grows_trans by blast
qed (simp add: grows_refl)

end
