(* ===== verification/Cleaning.thy ===== *)
theory Cleaning
  imports Data_Store
begin

text \<open>
  What \<^verbatim>\<open>clean_records\<close> keeps: of every key the newest row unless a newer version deleted it, one row
  of each content, and only rows with the required columns.
\<close>

section \<open>Equal content\<close>

lemma map_of_sort: "map_of (sort_key fst d) k = map_of (d :: (string \<times> 'v) list) k"
proof -
  have one: "map_of d k = map_of (filter (\<lambda>p. fst p = k) d) k" for d :: "(string \<times> 'v) list" and k
    by (induction d) auto
  show ?thesis using one[of "sort_key fst d"] one[of d] by (simp add: sort_key_stable)
qed

lemma canon_null [simp]: "canon v = JNull \<longleftrightarrow> v = JNull" by (cases v) auto

lemma same_members: "canon (JObj d) = canon (JObj e) \<Longrightarrow> canon (dget d c) = canon (dget e c)"
proof -
  assume same: "canon (JObj d) = canon (JObj e)"
  have "map_of (sort_key fst (map (map_prod id canon) d)) c = map_option canon (map_of d c)" for d :: dict
    by (simp add: map_of_sort) (induction d; auto)
  from this[of d] this[of e] same have "map_option canon (map_of d c) = map_option canon (map_of e c)" by simp
  then show ?thesis by (auto simp: dget_def get_or_def split: option.splits)
qed

lemma signature_member: "signature q = signature r \<Longrightarrow> canon (dget (sr_payload q) c) = canon (dget (sr_payload r) c)"
  unfolding signature_def by (blast intro: same_members dest: prod.inject[THEN iffD1])

lemma signature_null: "signature q = signature r \<Longrightarrow> dget (sr_payload q) c = JNull \<longleftrightarrow> dget (sr_payload r) c = JNull"
  using signature_member[of q r c] by (metis canon_null)

section \<open>The newest row of a key\<close>

lemma newest_spec:
  "case newest irs k of
     None \<Rightarrow> \<forall>(j, q)\<in>set irs. sr_key q \<noteq> Some k
   | Some (i, r) \<Rightarrow> (i, r) \<in> set irs \<and> sr_key r = Some k \<and> (\<forall>(j, q)\<in>set irs. sr_key q = Some k \<longrightarrow> rank q \<le> rank r)"
proof (induction irs rule: rev_induct)
  case Nil
  then show ?case by (simp add: newest_def)
next
  case (snoc ir irs)
  obtain i r where ir: "ir = (i, r)" by (cases ir)
  have step: "newest (irs @ [(i, r)]) k = (if sr_key r \<noteq> Some k then newest irs k else case newest irs k of
     None \<Rightarrow> Some (i, r) | Some (j, c) \<Rightarrow> if rank c < rank r then Some (i, r) else Some (j, c))"
    by (simp add: newest_def split: option.splits)
  show ?case
  proof (cases "newest irs k")
    case None
    then show ?thesis using snoc by (auto simp: ir step)
  next
    case (Some jc)
    obtain j c where jc: "jc = (j, c)" by (cases jc)
    have c: "(j, c) \<in> set irs" "sr_key c = Some k" "\<And>l q. (l, q) \<in> set irs \<Longrightarrow> sr_key q = Some k \<Longrightarrow> rank q \<le> rank c"
      using snoc Some by (auto simp: jc)
    show ?thesis
    proof (cases "sr_key r = Some k \<and> rank c < rank r")
      case True
      have "rank q \<le> rank r" if "(l, q) \<in> set irs" "sr_key q = Some k" for l q
        using c(3)[OF that] True by (meson less_imp_le order.trans)
      then show ?thesis using Some True by (auto simp: ir step jc)
    next
      case False
      then show ?thesis using Some c by (auto simp: ir step jc not_less)
    qed
  qed
qed

lemma newest_Some:
  assumes "newest irs k = Some (i, r)"
  shows "(i, r) \<in> set irs" "sr_key r = Some k" "(j, q) \<in> set irs \<Longrightarrow> sr_key q = Some k \<Longrightarrow> rank q \<le> rank r"
  using newest_spec[of irs k] assms by auto

text \<open>Rows of one key whose ranks differ: the one no other ranks above is the newest.\<close>

lemma newest_eqI:
  assumes "(i, r) \<in> set irs" "sr_key r = Some k"
    and top: "\<And>j q. (j, q) \<in> set irs \<Longrightarrow> sr_key q = Some k \<Longrightarrow> (j, q) \<noteq> (i, r) \<Longrightarrow> rank q < rank r"
  shows "newest irs k = Some (i, r)"
proof (cases "newest irs k")
  case None
  then show ?thesis using newest_spec[of irs k] assms by auto
next
  case (Some jc)
  obtain j c where jc: "jc = (j, c)" by (cases jc)
  have c: "(j, c) \<in> set irs" "sr_key c = Some k" "rank r \<le> rank c"
    using newest_Some[of irs k j c] Some assms(1,2) by (auto simp: jc)
  then have "(j, c) = (i, r)" using top[of j c] by (metis leD)
  then show ?thesis using Some jc by simp
qed

lemma deleted_in_le: "deleted_in vs k \<le> n \<longleftrightarrow> (\<forall>v\<in>set vs. k \<in> set (dv_deleted v) \<longrightarrow> dv_id v \<le> n)"
proof -
  have "fold (\<lambda>v n. if k \<in> set (dv_deleted v) then max n (dv_id v) else n) vs m \<le> n
      \<longleftrightarrow> m \<le> n \<and> (\<forall>v\<in>set vs. k \<in> set (dv_deleted v) \<longrightarrow> dv_id v \<le> n)" for m
    by (induction vs arbitrary: m) auto
  then show ?thesis by (simp add: deleted_in_def)
qed

section \<open>What is kept\<close>

text \<open>A row that neither another row of its key nor a deletion supersedes.\<close>

definition unsuperseded :: "(nat \<times> stored_row) list \<Rightarrow> (string \<Rightarrow> nat) \<Rightarrow> nat \<times> stored_row \<Rightarrow> bool" where
  "unsuperseded irs deleted = (\<lambda>(i, r). case sr_key r of None \<Rightarrow> True
     | Some k \<Rightarrow> map_option fst (newest irs k) = Some i \<and> deleted k \<le> sr_version r)"

definition has_columns :: "string list \<Rightarrow> stored_row \<Rightarrow> bool" where
  "has_columns required r \<longleftrightarrow> list_all (\<lambda>c. dget (sr_payload r) c \<noteq> JNull) required"

lemma clean_step_iff:
  "clean_step irs D req seen (i, r) \<in> {Kept, Rejected} \<longleftrightarrow> unsuperseded irs D (i, r) \<and> signature r \<notin> set seen"
  "clean_step irs D req seen (i, r) = Kept \<longleftrightarrow> unsuperseded irs D (i, r) \<and> signature r \<notin> set seen \<and> has_columns req r"
  "clean_step irs D req seen (i, r) = Duplicate \<longleftrightarrow> unsuperseded irs D (i, r) \<and> signature r \<in> set seen"
  by (auto simp: clean_step_def unsuperseded_def has_columns_def list_ex_iff list_all_iff not_less split: option.splits)

lemma clean_each_rows: "map fst (clean_each irs D req seen rows) = map snd rows"
  by (induction irs D req seen rows rule: clean_each.induct) (auto simp: Let_def)

lemma kept_sound:
  "(r, Kept) \<in> set (clean_each irs D req seen rows) \<Longrightarrow>
     \<exists>i. (i, r) \<in> set rows \<and> unsuperseded irs D (i, r) \<and> has_columns req r \<and> signature r \<notin> set seen"
proof (induction irs D req seen rows rule: clean_each.induct)
  case (2 irs D req seen i r' rows)
  then show ?case using clean_step_iff(2)[of irs D req seen i r'] by (auto simp: Let_def split: if_splits)
qed simp

lemma kept_complete:
  "(i, r) \<in> set rows \<Longrightarrow> unsuperseded irs D (i, r) \<Longrightarrow> has_columns req r \<Longrightarrow> signature r \<notin> set seen \<Longrightarrow>
     \<exists>q. (q, Kept) \<in> set (clean_each irs D req seen rows) \<and> signature q = signature r"
proof (induction irs D req seen rows rule: clean_each.induct)
  case (2 irs D req seen j q rows)
  let ?c = "clean_step irs D req seen (j, q)"
  show ?case
  proof (cases "?c \<in> {Kept, Rejected} \<and> signature q = signature r")
    case True
    have "has_columns req q" using True 2(4) signature_null[of q r] by (auto simp: has_columns_def list_all_iff)
    moreover have "unsuperseded irs D (j, q) \<and> signature q \<notin> set seen"
      using True clean_step_iff(1)[of irs D req seen j q] by blast
    ultimately have "?c = Kept" using clean_step_iff(2)[of irs D req seen j q] by blast
    then show ?thesis using True by (auto simp: Let_def)
  next
    case False
    have other: "(i, r) \<in> set rows"
    proof (rule ccontr)
      assume "(i, r) \<notin> set rows"
      then have "(j, q) = (i, r)" using 2(2) by auto
      then show False using False 2(3-5) clean_step_iff(2)[of irs D req seen j q] by auto
    qed
    have "signature r \<notin> set (if ?c \<in> {Kept, Rejected} then signature q # seen else seen)"
      using 2(5) False by auto
    from "2.IH"[OF refl other 2(3,4) this] show ?thesis by (auto simp: Let_def)
  qed
qed simp

lemma kept_distinct: "distinct (map (signature \<circ> fst) (filter (\<lambda>p. snd p = Kept) (clean_each irs D req seen rows)))"
proof (induction irs D req seen rows rule: clean_each.induct)
  case (2 irs D req seen j q rows)
  have "\<forall>a. (a, Kept) \<in> set (clean_each irs D req (signature q # seen) rows) \<longrightarrow> signature a \<noteq> signature q"
    using kept_sound by fastforce
  then show ?case using 2 by (auto simp: Let_def)
qed simp

lemma counted_all:
  "counted Conflict cs + counted Deleted cs + counted Duplicate cs + counted Rejected cs + counted Kept cs = length cs"
proof (induction cs)
  case (Cons p cs)
  then show ?case by (cases "snd p") (auto simp: counted_def)
qed (simp add: counted_def)

section \<open>The property\<close>

definition consulted :: "data_db \<Rightarrow> stored_row list \<Rightarrow> version_row list" where
  "consulted db rows = filter (\<lambda>v. dv_id v \<in> sr_version ` set rows) (dd_versions db)"

text \<open>The row stands among the rows and deletions of the source versions: no row of its key ranks above it and no
  newer source deleted its key.\<close>

definition stands :: "version_row list \<Rightarrow> stored_row list \<Rightarrow> stored_row \<Rightarrow> bool" where
  "stands sources rows r \<longleftrightarrow> (case sr_key r of None \<Rightarrow> True | Some k \<Rightarrow>
     (\<forall>q\<in>set rows. sr_key q = Some k \<longrightarrow> rank q \<le> rank r)
     \<and> (\<forall>v\<in>set sources. k \<in> set (dv_deleted v) \<longrightarrow> dv_id v \<le> sr_version r))"

text \<open>The rows were read from the sources, and every source that deletes keys has one of them: then the code,
  which finds the sources by their rows, consults every deletion.\<close>

definition read_from :: "data_db \<Rightarrow> version_row list \<Rightarrow> stored_row list \<Rightarrow> bool" where
  "read_from db sources rows \<longleftrightarrow> distinct (map dv_id (dd_versions db)) \<and> set sources \<subseteq> set (dd_versions db)
     \<and> sr_version ` set rows \<subseteq> dv_id ` set sources
     \<and> list_all (\<lambda>v. dv_deleted v = [] \<or> dv_id v \<in> sr_version ` set rows) sources"

lemma consulted_stands:
  assumes "read_from db sources rows"
  shows "stands (consulted db rows) rows r \<longleftrightarrow> stands sources rows r"
proof -
  have "(v \<in> set (consulted db rows) \<and> k \<in> set (dv_deleted v)) \<longleftrightarrow> (v \<in> set sources \<and> k \<in> set (dv_deleted v))" for v k
  proof
    assume v: "v \<in> set (consulted db rows) \<and> k \<in> set (dv_deleted v)"
    then have m: "v \<in> set (dd_versions db)" "dv_id v \<in> sr_version ` set rows" by (auto simp: consulted_def)
    then obtain u where u: "u \<in> set sources" "dv_id u = dv_id v" using assms by (force simp: read_from_def)
    then have "u = v" using m assms distinct_map_keyD[of dv_id "dd_versions db" u v] by (auto simp: read_from_def)
    then show "v \<in> set sources \<and> k \<in> set (dv_deleted v)" using u v by simp
  next
    assume v: "v \<in> set sources \<and> k \<in> set (dv_deleted v)"
    then have "dv_id v \<in> sr_version ` set rows" using assms by (auto simp: read_from_def list_all_iff)
    then show "v \<in> set (consulted db rows) \<and> k \<in> set (dv_deleted v)" using v assms by (auto simp: consulted_def read_from_def)
  qed
  then show ?thesis unfolding stands_def by (cases "sr_key r") (simp, simp, blast)
qed

lemma enumerate_mem: "(i, r) \<in> set (enumerate n rows) \<Longrightarrow> r \<in> set rows"
  by (metis in_set_zip enumerate_eq_zip snd_conv nth_mem)

lemma mem_enumerate: "r \<in> set rows \<Longrightarrow> \<exists>i. (i, r) \<in> set (enumerate n rows)"
  by (metis in_set_conv_nth in_set_enumerate_eq fst_conv snd_conv add.commute add_diff_cancel_right' le_add2 nat_add_left_cancel_less)

lemma unsuperseded_stands:
  assumes "(i, r) \<in> set (enumerate 0 rows)" "unsuperseded (enumerate 0 rows) (deleted_in (consulted db rows)) (i, r)"
  shows "stands (consulted db rows) rows r"
proof (cases "sr_key r")
  case (Some k)
  obtain c where c: "newest (enumerate 0 rows) k = Some (i, c)"
    using assms(2) Some by (auto simp: unsuperseded_def)
  have "c = r" using newest_Some(1)[OF c] assms(1) by (auto simp: in_set_enumerate_eq)
  then show ?thesis using newest_Some(3)[OF c] mem_enumerate[of _ rows 0] assms(2) Some
    by (fastforce simp: stands_def unsuperseded_def deleted_in_le)
qed (simp add: stands_def)

lemma stands_unsuperseded:
  assumes r: "r \<in> set rows" and st: "stands (consulted db rows) rows r"
  obtains i q where "(i, q) \<in> set (enumerate 0 rows)" "unsuperseded (enumerate 0 rows) (deleted_in (consulted db rows)) (i, q)"
    "rank q = rank r" "sr_key r = None \<Longrightarrow> q = r"
proof (cases "sr_key r")
  case None
  obtain i where "(i, r) \<in> set (enumerate 0 rows)" using mem_enumerate[OF r] by blast
  then show ?thesis using that[of i r] None by (simp add: unsuperseded_def)
next
  case (Some k)
  obtain l where l: "(l, r) \<in> set (enumerate 0 rows)" using mem_enumerate[OF r] by blast
  obtain i q where n: "newest (enumerate 0 rows) k = Some (i, q)"
    using newest_spec[of "enumerate 0 rows" k] l Some by (cases "newest (enumerate 0 rows) k") auto
  have q: "(i, q) \<in> set (enumerate 0 rows)" "sr_key q = Some k" "rank r \<le> rank q"
    using newest_Some[OF n] l Some by auto
  have "rank q \<le> rank r" using st Some q enumerate_mem[OF q(1)] by (auto simp: stands_def)
  then have same: "rank q = rank r" using q(3) by simp
  then have "sr_version q = sr_version r" by (simp add: rank_def)
  then show ?thesis using that[OF q(1)] q n same st Some by (simp add: unsuperseded_def stands_def deleted_in_le)
qed

lemma kept_set: "set (fst (clean_records db req rows)) =
    {r. (r, Kept) \<in> set (clean_each (enumerate 0 rows) (deleted_in (consulted db rows)) req [] (enumerate 0 rows))}"
  by (force simp: clean_records_def Let_def consulted_def in_time_order_def)

lemma kept_stands: "r \<in> set (fst (clean_records db req rows)) \<Longrightarrow> r \<in> set rows \<and> stands (consulted db rows) rows r \<and> has_columns req r"
  unfolding kept_set mem_Collect_eq
  by (drule kept_sound) (auto intro: unsuperseded_stands dest: enumerate_mem)

lemma distinct_in_time_order: "distinct (map f rows) \<Longrightarrow> distinct (map f (in_time_order rows))"
  by (simp add: distinct_map in_time_order_def)

lemma standing_kept:
  assumes ids: "distinct (map sr_id rows)" and r: "r \<in> set rows" "stands (consulted db rows) rows r" "has_columns req r"
  shows "\<exists>p\<in>set (fst (clean_records db req rows)). signature p = signature r"
proof -
  let ?irs = "enumerate 0 rows" and ?D = "deleted_in (consulted db rows)"
  obtain i p where p: "(i, p) \<in> set ?irs" "unsuperseded ?irs ?D (i, p)" "rank p = rank r"
    using stands_unsuperseded[OF r(1,2)] by metis
  have "p = r" using distinct_map_keyD[OF ids enumerate_mem[OF p(1)] r(1)] p(3) by (simp add: rank_def)
  then show ?thesis using kept_complete[OF p(1,2), of req "[]"] r(3) unfolding kept_set by auto
qed

text \<open>C26. Cleaning keeps what it says. Of rows read from the source versions, where every source that deletes keys also has a
  row among them, every kept row has the required columns and stands: no other row of its key is newer and no newer source
  deleted its key. Kept rows differ in time or content and are in time order; every standing row with the required columns is
  kept, or one with its time and content is; and the counts account for every row. (A source that holds nothing but deletions
  is not consulted: \<open>lone_deletion_is_ignored\<close>.)\<close>

theorem cleaning_keeps_newest:
  assumes ids: "distinct (map sr_id rows)" and sources: "read_from db sources rows"
    and run: "clean_records db required rows = (kept, q)"
  shows "(\<forall>r\<in>set kept. r \<in> set rows \<and> stands sources rows r \<and> has_columns required r)
    \<and> distinct (map signature kept) \<and> sorted (map (\<lambda>r. (sr_observed r, sr_id r)) kept)
    \<and> (\<forall>r\<in>set rows. stands sources rows r \<and> has_columns required r \<longrightarrow> (\<exists>p\<in>set kept. signature p = signature r))
    \<and> qu_conflicts q + qu_deleted q + qu_duplicates q + qu_rejected q + qu_output q = qu_input q
    \<and> qu_input q = length rows \<and> qu_output q = length kept"
proof -
  let ?irs = "enumerate 0 rows" and ?D = "deleted_in (consulted db rows)"
  define cs where "cs = clean_each ?irs ?D required [] ?irs"
  have kept: "kept = in_time_order (map fst (filter (\<lambda>p. snd p = Kept) cs))" "qu_input q = length rows"
    "qu_conflicts q = counted Conflict cs" "qu_deleted q = counted Deleted cs" "qu_duplicates q = counted Duplicate cs"
    "qu_rejected q = counted Rejected cs" "qu_output q = length kept"
    using run by (auto simp: clean_records_def Let_def consulted_def cs_def)
  have "length cs = length rows" using arg_cong[OF clean_each_rows, of length ?irs ?D required "[]" ?irs] by (simp add: cs_def)
  moreover have "length kept = counted Kept cs" by (simp add: kept counted_def in_time_order_def)
  moreover have "sorted (map (\<lambda>r. (sr_observed r, sr_id r)) kept)" by (simp add: kept in_time_order_def)
  moreover have "distinct (map signature kept)"
    unfolding kept by (rule distinct_in_time_order) (use kept_distinct in \<open>simp add: cs_def comp_def\<close>)
  ultimately show ?thesis using kept_stands[of _ db required rows] standing_kept[OF ids, of _ db required]
      counted_all[of cs] kept run unfolding consulted_stands[OF sources] by auto
qed

end
