(* ===== verification/Cdc_Laws.thy ===== *)
theory Cdc_Laws
  imports Cdc Data_Laws Cleaning
begin

text \<open>
  Lemmas on the parts of change data capture: positions and names as decimal strings, storing a
  batch, the net change of a window of events and the rows a version of net changes stores.
\<close>

section \<open>Decimal strings\<close>

definition is_digit :: "char \<Rightarrow> bool" where "is_digit c \<longleftrightarrow> (of_char c :: nat) \<in> {48..57}"

lemma digit_char [simp]: "k < 10 \<Longrightarrow> is_digit (char_of (48 + k :: nat))" by (simp add: is_digit_def)

lemma digits_rev_digits: "list_all is_digit (digits_rev n)"
proof (induction n rule: digits_rev.induct)
  case (1 n)
  then show ?case by (subst digits_rev.simps) simp
qed

lemma parse_show: "parse_digits (show_nat n) = n"
proof (induction n rule: digits_rev.induct)
  case (1 n)
  have d: "of_char (char_of (48 + n mod 10) :: char) - 48 = n mod 10" by simp
  show ?case
  proof (cases "n < 10")
    case True
    then show ?thesis by (simp add: show_nat_def parse_digits_def digits_rev.simps)
  next
    case False
    then have "show_nat n = show_nat (n div 10) @ [char_of (48 + n mod 10)]"
      by (simp add: show_nat_def digits_rev.simps[of n])
    then have "parse_digits (show_nat n) = 10 * parse_digits (show_nat (n div 10)) + n mod 10"
      using d by (simp add: parse_digits_def)
    then show ?thesis using 1 False by simp
  qed
qed

lemma show_nat_inject [simp]: "show_nat a = show_nat b \<longleftrightarrow> a = b"
  using parse_show[of a] parse_show[of b] by metis

lemma show_nat_nonempty [simp]: "show_nat n \<noteq> []"
  by (simp add: show_nat_def) (subst digits_rev.simps, simp)

lemma pad6_digits: "list_all is_digit (pad6 n)"
  using digits_rev_digits[of n] by (auto simp: pad6_def show_nat_def list_all_iff is_digit_def)

lemma parse_pad6: "parse_digits (pad6 n) = n"
proof -
  have "foldl (\<lambda>n c. 10 * n + (of_char c - 48)) 0 (replicate k (char_of (48 :: nat)) @ s) = foldl (\<lambda>n c. 10 * n + (of_char c - 48)) (0 :: nat) s"
    for k s by (induction k) auto
  then show ?thesis using parse_show[of n] by (simp add: parse_digits_def pad6_def)
qed

lemma cdc_name_inject: "cdc_name a z = cdc_name b y \<Longrightarrow> a = b"
proof -
  have dash: "\<not> is_digit (CHR ''-'')" by (simp add: is_digit_def)
  have digits: "takeWhile is_digit (pad6 a @ CHR ''-'' # s) = pad6 a" for a s
    using pad6_digits[of a] dash by (simp add: list_all_iff takeWhile_append2)
  assume "cdc_name a z = cdc_name b y"
  then have "pad6 a @ CHR ''-'' # pad6 z = pad6 b @ CHR ''-'' # pad6 y" by (simp add: cdc_name_def)
  then have "pad6 a = pad6 b" using digits[of a] digits[of b] by metis
  then show "a = b" using parse_pad6[of a] parse_pad6[of b] by metis
qed

lemma cdc_name_prefix: "take 4 (cdc_name a z) = ''cdc-''" by (simp add: cdc_name_def)

section \<open>Storing a batch\<close>

text \<open>The events of a batch that are not known yet, each at its first occurrence.\<close>

fun first_seen :: "string set \<Rightarrow> cdc_event list \<Rightarrow> cdc_event list" where
  "first_seen known [] = []"
| "first_seen known (e # es) = (if ev_id e \<in> known then first_seen known es else e # first_seen (insert (ev_id e) known) es)"

lemma first_seen_append:
  "first_seen known (es @ fs) = first_seen known es @ first_seen (known \<union> ev_id ` set es) fs"
proof (induction es arbitrary: known)
  case (Cons e es)
  have "insert (ev_id e) known \<union> ev_id ` set es = known \<union> insert (ev_id e) (ev_id ` set es)" by auto
  then show ?case using Cons by (auto simp: insert_absorb)
qed simp

lemma first_seen_ids: "known \<union> ev_id ` set (first_seen known es) = known \<union> ev_id ` set es"
proof (induction es arbitrary: known)
  case (Cons e es)
  have "insert (ev_id e) (known \<union> ev_id ` set (first_seen (insert (ev_id e) known) es)) = insert (ev_id e) known \<union> ev_id ` set es"
    using Cons[of "insert (ev_id e) known"] by auto
  then show ?case using Cons[of known] by (cases "ev_id e \<in> known") auto
qed simp

lemma first_seen_new: "distinct (map ev_id es) \<Longrightarrow> ev_id ` set es \<inter> known = {} \<Longrightarrow> first_seen known es = es"
proof (induction es arbitrary: known)
  case (Cons e es)
  then have "first_seen (insert (ev_id e) known) es = es" by (intro Cons.IH) auto
  then show ?case using Cons.prems by auto
qed simp

lemma first_seen_distinct: "distinct (map ev_id (first_seen known es)) \<and> ev_id ` set (first_seen known es) \<inter> known = {}"
  by (induction known es rule: first_seen.induct) auto

definition event_ids :: "cdc_db \<Rightarrow> string set" where
  "event_ids db = (ev_id \<circ> er_event) ` set (cd_events db)"

text \<open>The row of an event that was just stored.\<close>

definition new_event :: "nat \<Rightarrow> cdc_event \<Rightarrow> event_row" where
  "new_event i e = \<lparr>er_id = i, er_event = e, er_version = None\<rparr>"

lemma new_event_simps [simp]: "er_id (new_event i e) = i" "er_event (new_event i e) = e" "er_version (new_event i e) = None"
  by (simp_all add: new_event_def)

definition increasing :: "nat list \<Rightarrow> bool" where "increasing = sorted_wrt (<)"

lemma increasing_next: "increasing ids \<Longrightarrow> increasing (ids @ [next_id ids])"
  by (auto simp: increasing_def sorted_wrt_append intro: next_id_above)

lemma store_event_known:
  "ev_id e \<in> set known \<Longrightarrow> store_event e (known, res, db) = (known, res\<lparr>so_duplicates := so_duplicates res + 1\<rparr>, db)"
  by (simp add: store_event_def)

lemma store_event_new:
  "ev_id e \<notin> set known \<Longrightarrow> store_event e (known, res, db) = (ev_id e # known,
     res\<lparr>so_stored := so_stored res + 1, so_operations := count_op (op_value (ev_op e)) (so_operations res),
         so_accepted := so_accepted res @ [e]\<rparr>,
     db\<lparr>cd_events := cd_events db @ [new_event (next_id (map er_id (cd_events db))) e]\<rparr>)"
  by (simp add: store_event_def new_event_def)

lemma store_each:
  assumes "fold store_event es (known, res, db) = (known', res', db')"
    and "set known \<supseteq> event_ids db \<inter> ev_id ` set es" "set known \<subseteq> event_ids db" "increasing (map er_id (cd_events db))"
  shows "\<exists>rows. cd_events db' = cd_events db @ rows \<and> map er_event rows = first_seen (event_ids db) es \<and> (\<forall>r\<in>set rows. er_version r = None)
    \<and> increasing (map er_id (cd_events db')) \<and> cd_offsets db' = cd_offsets db \<and> cd_data db' = cd_data db
    \<and> so_stored res' = so_stored res + length rows \<and> so_duplicates res' + so_stored res' = so_duplicates res + so_stored res + length es
    \<and> so_accepted res' = so_accepted res @ map er_event rows"
  using assms
proof (induction es arbitrary: known res db)
  case Nil
  then show ?case by auto
next
  case (Cons e es)
  show ?case
  proof (cases "ev_id e \<in> set known")
    case True
    then have dup: "ev_id e \<in> event_ids db" using Cons.prems(3) by blast
    from Cons.IH[of known "res\<lparr>so_duplicates := so_duplicates res + 1\<rparr>" db] Cons.prems True dup
    show ?thesis by (auto simp: store_event_known)
  next
    case False
    let ?row = "new_event (next_id (map er_id (cd_events db))) e" and ?db = "db\<lparr>cd_events := cd_events db @ [new_event (next_id (map er_id (cd_events db))) e]\<rparr>"
    let ?res = "res\<lparr>so_stored := so_stored res + 1, so_operations := count_op (op_value (ev_op e)) (so_operations res),
         so_accepted := so_accepted res @ [e]\<rparr>"
    have new: "ev_id e \<notin> event_ids db" using False Cons.prems(2) by auto
    have ids: "event_ids ?db = insert (ev_id e) (event_ids db)" by (simp add: event_ids_def)
    have run: "fold store_event es (ev_id e # known, ?res, ?db) = (known', res', db')"
      using Cons.prems(1) False by (simp only: fold.simps comp_apply store_event_new[OF False])
    have inc: "increasing (map er_id (cd_events ?db))" using increasing_next[OF Cons.prems(4)] by simp
    have "event_ids ?db \<inter> ev_id ` set es \<subseteq> set (ev_id e # known)" "set (ev_id e # known) \<subseteq> event_ids ?db"
      using Cons.prems(2,3) by (auto simp: ids)
    from Cons.IH[OF run this inc]
    obtain rows where rows: "cd_events db' = cd_events ?db @ rows" "map er_event rows = first_seen (event_ids ?db) es"
        "\<forall>r\<in>set rows. er_version r = None" "increasing (map er_id (cd_events db'))" "cd_offsets db' = cd_offsets ?db" "cd_data db' = cd_data ?db"
        "so_stored res' = so_stored ?res + length rows" "so_duplicates res' + so_stored res' = so_duplicates ?res + so_stored ?res + length es"
        "so_accepted res' = so_accepted ?res @ map er_event rows"
      by blast
    show ?thesis
      by (rule exI[of _ "?row # rows"]) (use rows new in \<open>auto simp: ids\<close>)
  qed
qed

text \<open>A batch adds the events it brings that are new, in order, and moves the offset of its consumer.\<close>

lemma store_events_cases:
  assumes run: "store_events es consumer position db = (res, db')" and inc: "increasing (map er_id (cd_events db))"
  shows "\<exists>rows. cd_events db' = cd_events db @ rows \<and> map er_event rows = first_seen (event_ids db) es \<and> (\<forall>r\<in>set rows. er_version r = None)
    \<and> increasing (map er_id (cd_events db')) \<and> cd_data db' = cd_data db
    \<and> cd_offsets db' = (case position of None \<Rightarrow> cd_offsets db | Some p \<Rightarrow> AList.update consumer p (cd_offsets db))
    \<and> so_stored res = length rows \<and> so_stored res + so_duplicates res = length es \<and> so_accepted res = map er_event rows"
proof -
  obtain known' res1 db1 where 1: "fold store_event es (known_ids db (map ev_id es),
        \<lparr>so_stored = 0, so_duplicates = 0, so_operations = [], so_accepted = []\<rparr>, db) = (known', res1, db1)"
    by (metis prod_cases3)
  have "res = res1" "db' = (case position of None \<Rightarrow> db1 | Some p \<Rightarrow> set_offset consumer p db1)"
    using run 1 by (auto simp: store_events_def Let_def)
  moreover have "event_ids db \<inter> ev_id ` set es \<subseteq> set (known_ids db (map ev_id es))" "set (known_ids db (map ev_id es)) \<subseteq> event_ids db"
    by (auto simp: known_ids_def event_ids_def)
  ultimately show ?thesis using store_each[OF 1 _ _ inc] by (auto simp: set_offset_def split: option.split)
qed

section \<open>The net change of a window\<close>

text \<open>What a sequence of events says last of a key: \<open>None\<close> is nothing, \<open>Some None\<close> that it was deleted.\<close>

definition latest :: "cdc_event list \<Rightarrow> string \<Rightarrow> image option option" where
  "latest es k = (let fs = filter (\<lambda>e. ev_pk e = k) es in if fs = [] then None else Some (image_after (last fs)))"

lemma latest_Nil [simp]: "latest [] k = None" by (simp add: latest_def)

lemma latest_snoc: "latest (es @ [e]) k = (if ev_pk e = k then Some (image_after e) else latest es k)"
  by (auto simp: latest_def Let_def)

lemma net_latest: "map_of (net_changes es) k = latest es k" "distinct (map fst (net_changes es))"
proof -
  have "map_of (net_changes es) = latest es \<and> distinct (map fst (net_changes es))"
  proof (induction es rule: rev_induct)
    case (snoc e es)
    have "net_changes (es @ [e]) = AList.update (ev_pk e) (image_after e) (net_changes es)" by (simp add: net_changes_def)
    then show ?case using snoc by (auto simp: update_conv' distinct_update latest_snoc fun_eq_iff)
  qed (auto simp: net_changes_def)
  then show "map_of (net_changes es) k = latest es k" "distinct (map fst (net_changes es))" by simp_all
qed

lemma net_mem: "(k, x) \<in> set (net_changes es) \<longleftrightarrow> latest es k = Some x"
  using net_latest by (metis map_of_eq_Some_iff)

lemma upserts_mem: "(k, r) \<in> set (upserts net) \<longleftrightarrow> (k, Some r) \<in> set net"
  by (force simp: upserts_def upsert_list_def map_filter_def image_iff)

lemma upsert_list_simps [simp]:
  "upsert_list [] = []" "upsert_list ((k, x) # net) = (case x of None \<Rightarrow> upsert_list net | Some r \<Rightarrow> (k, r) # upsert_list net)"
  by (simp_all add: upsert_list_def map_filter_simps split: option.split)

lemma upserts_keys: "distinct (map fst net) \<Longrightarrow> distinct (map fst (upserts net))"
proof -
  have "(k, r) \<in> set (upsert_list net) \<Longrightarrow> (k, Some r) \<in> set net" for k r net
    by (induction net) (auto split: option.splits)
  then have "distinct (map fst net) \<Longrightarrow> distinct (map fst (upsert_list net))"
    by (induction net) (force split: option.split)+
  then show "distinct (map fst net) \<Longrightarrow> ?thesis" by (auto simp: upserts_def distinct_map)
qed

lemma deleted_keys_mem: "k \<in> set (deleted_keys net) \<longleftrightarrow> (k, None) \<in> set net"
  by (force simp: deleted_keys_def)

section \<open>The rows of a version of net changes\<close>

text \<open>A stored row has the time and the columns of an image; a column of the name the code adds for the time is lost.\<close>

definition same_content :: "time \<Rightarrow> dict \<Rightarrow> image \<Rightarrow> bool" where
  "same_content t d r \<longleftrightarrow> im_observed r = Some t \<and> (\<forall>c. c \<noteq> ''__observed_at'' \<longrightarrow> dget d c = dget (members (im_payload r)) c)"

lemma dget_update: "dget (AList.update k v d) c = (if c = k then v else dget d c)"
  by (auto simp: dget_def get_or_def update_conv')

lemma dget_drop: "c \<noteq> k \<Longrightarrow> dget (filter (\<lambda>(x, _). x \<noteq> k) d) c = dget d c"
  unfolding dget_def get_or_def by (induction d) (auto split: option.splits)

lemma dget_columns: "dget (map (\<lambda>c. (c, dget r c)) cols) c = (if c \<in> set cols then dget r c else JNull)"
  by (simp add: dget_def get_or_def map_of_map_restrict restrict_map_def)

lemma dget_absent: "c \<notin> fst ` set d \<Longrightarrow> dget d c = JNull"
  by (auto simp: dget_def get_or_def split: option.split dest: map_of_SomeD) (metis fst_conv image_eqI map_of_SomeD)

text \<open>Timed rows through \<open>frame["__observed_at"] = ...\<close>, \<open>_timestamps\<close> and \<open>to_json\<close>.\<close>

definition timed_frame :: "time list \<Rightarrow> dict list \<Rightarrow> frame" where
  "timed_frame ts ds = with_column ''__observed_at'' (map JTime ts) (frame_of ds)"

definition stamps_right :: "data_env \<Rightarrow> bool" where "stamps_right E \<longleftrightarrow> (\<forall>t. de_stamp E (JTime t) = Inr t)"

lemma timed_frame_stamps:
  assumes E: "stamps_right E" and len: "length ts = length ds"
  shows "timestamps E (timed_frame ts ds) (Stamp_Column ''__observed_at'') = Inr (drop_column ''__observed_at'' (timed_frame ts ds), ts)"
proof -
  have "list_all2 (\<lambda>r t. de_stamp E (dget r ''__observed_at'') = Inr t) (map2 (AList.update ''__observed_at'') (map JTime ts) ds) ts"
    using E len by (auto simp: list_all2_conv_all_nth dget_update stamps_right_def)
  then show ?thesis by (auto simp: timed_frame_def with_column_def frame_of_def try_each_Inr bindR_eq_Inr)
qed

lemma timed_frame_rows:
  assumes len: "length ts = length ds" and i: "i < length ds" and c: "c \<noteq> ''__observed_at''"
  shows "dget (json_rows (drop_column ''__observed_at'' (timed_frame ts ds)) ! i) c = dget (ds ! i) c"
proof (cases "c \<in> fst ` set (concat ds)")
  case True
  then show ?thesis using assms
    by (auto simp: json_rows_def drop_column_def timed_frame_def with_column_def frame_of_def dget_columns dget_drop dget_update)
next
  case False
  then have "c \<notin> fst ` set (ds ! i)" using nth_mem[OF i] by force
  then show ?thesis using assms False
    by (auto simp: json_rows_def drop_column_def timed_frame_def with_column_def frame_of_def dget_columns dget_absent)
qed

lemma timed_frame_length: "length ts = length ds \<Longrightarrow> length (json_rows (drop_column ''__observed_at'' (timed_frame ts ds))) = length ds"
  by (simp add: json_rows_def drop_column_def timed_frame_def with_column_def frame_of_def)

lemma upsert_frame_timed:
  "images_ok ups \<Longrightarrow> upsert_frame ups = timed_frame (map (the \<circ> im_observed \<circ> snd) ups) (map (members \<circ> im_payload \<circ> snd) ups)"
  by (simp add: upsert_frame_def timed_frame_def comp_def split_def)

section \<open>Materializing\<close>

text \<open>The version holds exactly what the events of its window say last of every key.\<close>

definition window_stored :: "data_db \<Rightarrow> version_row \<Rightarrow> cdc_event list \<Rightarrow> bool" where
  "window_stored data v es \<longleftrightarrow>
     (\<forall>r\<in>set (version_rows data (dv_id v)). \<exists>k img. sr_key r = Some k \<and> latest es k = Some (Some img)
        \<and> same_content (sr_observed r) (sr_payload r) img)
   \<and> (\<forall>k img. latest es k = Some (Some img) \<longrightarrow> (\<exists>r\<in>set (version_rows data (dv_id v)). sr_key r = Some k))
   \<and> distinct (map sr_key (version_rows data (dv_id v)))
   \<and> (\<forall>k. k \<in> set (dv_deleted v) \<longleftrightarrow> latest es k = Some None)"

lemma new_rows_nth:
  assumes "j < length ts" "length ds = length ts" "length keys = length ts"
  shows "new_rows n i ts ds keys ! j = \<lparr>sr_id = int (n + j), sr_version = i, sr_observed = ts ! j, sr_payload = ds ! j, sr_key = keys ! j\<rparr>"
  using assms by (simp add: new_rows_def nth_enumerate_eq)

lemma new_rows_keys:
  "length ds = length ts \<Longrightarrow> length keys = length ts \<Longrightarrow> map sr_key (new_rows n i ts ds keys) = keys"
  by (rule nth_equalityI) (simp_all add: length_new_rows new_rows_nth)

text \<open>What \<open>ingest_version\<close> is asked for.\<close>

definition cdc_ingest :: "nat \<Rightarrow> string \<Rightarrow> event_row list \<Rightarrow> data_db \<Rightarrow> nat \<Rightarrow> ingest" where
  "cdc_ingest max_tx dataset events data ds = (let net = net_changes (map er_event events) in
     \<lparr>in_dataset = dataset, in_version = cdc_name (er_id (hd events)) (er_id (last events)), in_frame = upsert_frame (upserts net),
      in_kind = CDC, in_stamps = Stamp_Column ''__observed_at'', in_parent = map_option dv_version (previous_cdc data ds),
      in_link = None, in_keys = Some (map (Some \<circ> fst) (upserts net)), in_deleted = deleted_keys net,
      in_range = Some (range_of events), in_tx = Some (tx_ids max_tx (map er_event events))\<rparr>)"

definition mark :: "event_row list \<Rightarrow> nat \<Rightarrow> event_row list \<Rightarrow> event_row list" where
  "mark events i = update_where (\<lambda>e. er_id e \<in> er_id ` set events) (\<lambda>e. e\<lparr>er_version := Some i\<rparr>)"

lemma materialize_run:
  assumes "materialize_cdc E max_tx dataset db = Inr (r, db')"
  shows "(pending_events db dataset = [] \<and> r = None \<and> db' = db) \<or>
    (pending_events db dataset \<noteq> [] \<and> images_ok (upsert_list (net_changes (map er_event (pending_events db dataset))))
     \<and> (\<exists>d data v new data'. get_or_create_dataset dataset (cd_data db) = (d, data)
         \<and> ingest_version E (cdc_ingest max_tx dataset (pending_events db dataset) data (ds_id d)) data = Inr (v, new, data')
         \<and> r = Some v \<and> db' = db\<lparr>cd_data := data', cd_events := mark (pending_events db dataset) (dv_id v) (cd_events db)\<rparr>))"
  using assms by (auto simp: materialize_cdc_def cdc_ingest_def mark_def Let_def bindR_eq_Inr split_eq split: if_splits)

lemma images_ok_upserts: "images_ok (upsert_list net) \<Longrightarrow> images_ok (upserts net)"
  by (auto simp: images_ok_def list_all_iff upserts_def)

lemma materialize_stores:
  assumes E: "stamps_right E" and ok: "data_ok data" and imgs: "images_ok (upsert_list (net_changes (map er_event events)))"
    and run: "ingest_version E (cdc_ingest max_tx dataset events data ds) data = Inr (v, True, data')"
  shows "window_stored data' v (map er_event events)"
proof -
  define net where "net = net_changes (map er_event events)"
  define ups where "ups = upserts net"
  define ts where "ts = map (the \<circ> im_observed \<circ> snd) ups"
  define payloads where "payloads = map (members \<circ> im_payload \<circ> snd) ups"
  let ?a = "cdc_ingest max_tx dataset events data ds" and ?features = "drop_column ''__observed_at'' (timed_frame ts payloads)"
  have a: "in_frame ?a = upsert_frame ups" "in_stamps ?a = Stamp_Column ''__observed_at''" "in_keys ?a = Some (map (Some \<circ> fst) ups)"
    "in_deleted ?a = deleted_keys net" by (simp_all add: cdc_ingest_def Let_def net_def ups_def)
  have iok: "images_ok ups" using images_ok_upserts[OF imgs] by (simp add: ups_def net_def)
  have len: "length ts = length payloads" "length ts = length ups" by (simp_all add: ts_def payloads_def)
  have stamped: "timestamps E (in_frame ?a) (in_stamps ?a) = Inr (?features, ts)"
    using timed_frame_stamps[OF E len(1)] upsert_frame_timed[OF iok] by (simp add: a ts_def payloads_def)
  note I = ingest_cases[OF ok run]
  have v: "dv_deleted v = sort (deleted_keys net)" "dv_id v = new_version_id data"
    "dd_records data' = dd_records data @ new_rows (new_record_id data) (dv_id v) ts (json_rows ?features) (map (Some \<circ> fst) ups)"
    using I(4) stamped by (auto simp: ingest_done_def a ingest_keys_def)
  have old: "sr_version r \<noteq> dv_id v" if "r \<in> set (dd_records data)" for r
    using ok that new_version_id_above[of _ data] v(2) by (force simp: data_ok_def version_ids_def)
  have jlen: "length (json_rows ?features) = length ts" using timed_frame_length[OF len(1)] len by simp
  define rows where "rows = new_rows (new_record_id data) (dv_id v) ts (json_rows ?features) (map (Some \<circ> fst) ups)"
  have rows: "version_rows data' (dv_id v) = rows"
    using old by (auto simp: version_rows_def v(3) rows_def filter_empty_conv new_rows_def in_set_enumerate_eq intro!: filter_True)
  have lrows: "length rows = length ups" using jlen len by (simp add: rows_def length_new_rows)
  have row: "sr_key (rows ! j) = Some (fst (ups ! j))" "same_content (sr_observed (rows ! j)) (sr_payload (rows ! j)) (snd (ups ! j))"
    if j: "j < length ups" for j
  proof -
    have "im_observed (snd (ups ! j)) \<noteq> None" using iok nth_mem[OF j] by (cases "ups ! j") (force simp: images_ok_def list_all_iff)
    then show "sr_key (rows ! j) = Some (fst (ups ! j))" "same_content (sr_observed (rows ! j)) (sr_payload (rows ! j)) (snd (ups ! j))"
      using j len jlen timed_frame_rows[OF len(1), of j] by (auto simp: rows_def new_rows_nth same_content_def ts_def payloads_def)
  qed
  have net: "latest (map er_event events) k = Some (Some img) \<longleftrightarrow> (k, img) \<in> set ups" for k img
    by (simp add: ups_def net_def upserts_mem net_mem)
  have "\<exists>k img. sr_key r = Some k \<and> latest (map er_event events) k = Some (Some img) \<and> same_content (sr_observed r) (sr_payload r) img"
    if r: "r \<in> set rows" for r
  proof -
    obtain j where j: "j < length ups" "r = rows ! j" using r by (auto simp: in_set_conv_nth lrows)
    have "latest (map er_event events) (fst (ups ! j)) = Some (Some (snd (ups ! j)))" using net nth_mem[OF j(1)] by simp
    then show ?thesis using row[OF j(1)] j(2) by blast
  qed
  moreover have "\<exists>r\<in>set rows. sr_key r = Some k" if "(k, img) \<in> set ups" for k img
  proof -
    obtain j where "j < length ups" "ups ! j = (k, img)" using \<open>(k, img) \<in> set ups\<close> by (auto simp: in_set_conv_nth)
    then show ?thesis using row(1)[of j] lrows nth_mem[of j rows] by force
  qed
  moreover have "map sr_key rows = map (Some \<circ> fst) ups" using jlen len by (simp add: rows_def new_rows_keys)
  then have "distinct (map sr_key rows)"
    using upserts_keys[OF net_latest(2), of "map er_event events"] by (simp add: ups_def net_def distinct_map comp_inj_on)
  moreover have "k \<in> set (dv_deleted v) \<longleftrightarrow> latest (map er_event events) k = Some None" for k
    by (simp add: v(1) deleted_keys_mem net_def net_mem)
  ultimately show ?thesis unfolding window_stored_def rows using net by blast
qed

end
