(* ===== verification/Data_Props.thy ===== *)
theory Data_Props
  imports Data_Laws Cleaning
begin

text \<open>
  The properties of the data store: versions are immutable and verify, a name means one content,
  lineage is the whole path to the root, and reading returns.
\<close>

section \<open>Names and contents\<close>

text \<open>C24. In every state of the store the tables refer to each other as they should, and from then on no version is
  lost or changed: its row and the rows of its data stay, and its name in its dataset stays its own.\<close>

theorem versions_are_immutable:
  assumes "reach (\<lambda>db. db = empty_store) data_step db" and "data_step\<^sup>*\<^sup>* db db'"
  shows "data_ok db' \<and> (\<forall>v\<in>set (dd_versions db). v \<in> set (dd_versions db')
    \<and> version_rows db' (dv_id v) = version_rows db (dv_id v)
    \<and> (\<forall>u\<in>set (dd_versions db'). version_key u = version_key v \<or> dv_id u = dv_id v \<longrightarrow> u = v))"
proof -
  have ok: "data_ok db'" "grows db db'" using store_grows[OF assms(2) store.reach_I[OF assms(1)]] by blast+
  have "u = v" if "u \<in> set (dd_versions db')" "v \<in> set (dd_versions db')" "version_key u = version_key v \<or> dv_id u = dv_id v" for u v
    using ok(1) that distinct_map_keyD[of version_key "dd_versions db'" u v] distinct_map_keyD[of dv_id "dd_versions db'" u v]
    by (auto simp: data_ok_def)
  then show ?thesis using ok grows_keeps[OF ok(2)] by blast
qed



text \<open>What an environment hashes does not depend on its clock.\<close>

lemma clock_free [simp]:
  "ingest_digest (E\<lparr>de_now := now\<rparr>) b features ts = ingest_digest E b features ts"
  "verify_matches (E\<lparr>de_now := now\<rparr>) db v = verify_matches E db v"
  by (simp_all add: ingest_digest_def content_hash_def rows_hash_def keyed_hash_def verify_matches_def verify_rows_def Let_def)


section \<open>Verification\<close>

lemma sorted_new_rows: "sort_key sr_id (new_rows n i ts ds keys) = new_rows n i ts ds keys"
  by (rule sort_key_id_if_sorted) (simp add: new_rows_ids sorted_map)

lemma new_rows_parts:
  assumes "length ds = length ts" "length keys = length ts"
  shows "map sr_observed (new_rows n i ts ds keys) = ts" "map sr_payload (new_rows n i ts ds keys) = ds"
    "map sr_key (new_rows n i ts ds keys) = keys"
  using assms by (auto simp: new_rows_def nth_enumerate_eq intro!: nth_equalityI)

lemma keyed_hash_sort: "keyed_hash E digest keys (sort ks) = keyed_hash E digest keys ks"
proof -
  have "sort ks = [] \<longleftrightarrow> ks = []" by (metis length_0_conv length_sort)
  then show ?thesis by (simp add: keyed_hash_def sort_key_id_if_sorted)
qed

text \<open>C38. A version that an upload stored row by row verifies, then and at any later time: the hash recomputed from its rows
  is the one recorded, provided the upload came without a list of record keys or with at least one row that has a key. (What
  the condition excludes is a version of deletions only, as \<open>materialize_cdc\<close> makes of a window without upserts: it does not
  verify, \<open>lone_deletion_fails_verification\<close>.)\<close>

theorem stored_versions_verify:
  assumes ok: "data_ok db" and run: "ingest_version E a db = Inr (v, True, db')" and later: "data_step\<^sup>*\<^sup>* db' db''"
    and keys: "case in_keys a of None \<Rightarrow> True | Some ks \<Rightarrow> list_ex (\<lambda>k. k \<noteq> None) ks"
  shows "verify_matches (E\<lparr>de_now := now\<rparr>) db'' v"
proof -
  note I = ingest_cases[OF ok run]
  obtain features ts where v: "dv_hash v = ingest_digest E a features ts" "dv_deleted v = sort (in_deleted a)" "dv_id v = new_version_id db"
      "dd_records db' = dd_records db @ new_rows (new_record_id db) (dv_id v) ts (json_rows features) (ingest_keys a (length ts))"
      "length (ingest_keys a (length ts)) = length ts" "length (json_rows features) = length ts"
    using I(4) by (auto simp: ingest_done_def)
  have G: "grows db' db''" using store_grows[OF later I(1)] by blast
  have "sr_version r \<noteq> dv_id v" if "r \<in> set (dd_records db)" for r
    using ok that new_version_id_above[of _ db] v(3) by (force simp: data_ok_def version_ids_def)
  then have "version_rows db' (dv_id v) = new_rows (new_record_id db) (dv_id v) ts (json_rows features) (ingest_keys a (length ts))"
    by (auto simp: version_rows_def v(4) filter_empty_conv new_rows_def in_set_enumerate_eq intro!: filter_True)
  then have rows: "version_rows db'' (dv_id v) = new_rows (new_record_id db) (dv_id v) ts (json_rows features) (ingest_keys a (length ts))"
    using grows_keeps(2)[OF G I(3)] by simp
  have "(if list_ex (\<lambda>k. k \<noteq> None) (ingest_keys a (length ts)) then Some (ingest_keys a (length ts)) else None) = in_keys a"
    using keys by (auto simp: ingest_keys_def list_ex_iff split: option.splits)
  then have "verify_rows E db'' v = keyed_hash E (rows_hash E ts (json_rows features)) (in_keys a) (dv_deleted v)"
    by (simp only: verify_rows_def Let_def rows sorted_new_rows new_rows_parts[OF v(6) v(5)])
  then show ?thesis unfolding clock_free by (simp add: verify_matches_def v(1,2) ingest_digest_def content_hash_def keyed_hash_sort)
qed

section \<open>Lineage\<close>

lemma known_version: "data_ok db \<Longrightarrow> v \<in> set (dd_versions db) \<Longrightarrow> version_by_id db (dv_id v) = Some v"
  using by_key_unique[of dv_id "dd_versions db" "dv_id v" v] by (simp add: version_by_id_def data_ok_def)

definition is_parent :: "version_row \<Rightarrow> version_row \<Rightarrow> bool" where
  "is_parent v p \<longleftrightarrow> dv_parent v = Some (dv_id p) \<and> dv_id p < dv_id v \<and> dv_dataset p = dv_dataset v"

lemma chain_is_path:
  assumes ok: "data_ok db"
  shows "v \<in> set (dd_versions db) \<Longrightarrow> \<forall>s\<in>set seen. dv_id v < s \<Longrightarrow>
    (\<exists>c. lineage_chain db seen (dv_id v) = v # c \<and> successively is_parent (v # c) \<and> dv_parent (last (v # c)) = None
      \<and> set c \<subseteq> set (dd_versions db))"
proof (induction "dv_id v" arbitrary: v seen rule: less_induct)
  case less
  have unseen: "dv_id v \<notin> set seen" using less(3) by auto
  have vok: "version_ok db v" using ok less(2) by (simp add: data_ok_def)
  show ?case
  proof (cases "dv_parent v")
    case None
    then show ?thesis using unseen known_version[OF ok less(2)] by (subst lineage_chain.simps) simp
  next
    case (Some p)
    then obtain u where u: "u \<in> set (dd_versions db)" "dv_id u = p" "dv_dataset u = dv_dataset v" "p < dv_id v"
      using vok by (auto simp: version_ok_def parent_ok_def)
    have "\<forall>s\<in>set (dv_id v # seen). dv_id u < s" using u less(3) by fastforce
    then obtain c where c: "lineage_chain db (dv_id v # seen) p = u # c" "successively is_parent (u # c)"
        "dv_parent (last (u # c)) = None" "set c \<subseteq> set (dd_versions db)"
      using less(1)[of u "dv_id v # seen"] u by blast
    have "lineage_chain db seen (dv_id v) = v # u # c"
      using unseen Some known_version[OF ok less(2)] c(1) by (subst lineage_chain.simps) simp
    then show ?thesis using c u Some by (auto simp: is_parent_def)
  qed
qed

text \<open>C39. The lineage of a version ends and is the whole path to its root: it starts with the version, every next one is the parent
  of the one before, older and of the same dataset, and the last has no parent; the links listed are those of the path.\<close>

theorem lineage_is_path_to_root:
  assumes ok: "data_ok db" and run: "lineage dataset version db = Inr (chain, links)"
  shows "chain \<noteq> [] \<and> dv_version (hd chain) = version \<and> set chain \<subseteq> set (dd_versions db) \<and> successively is_parent chain
    \<and> dv_parent (last chain) = None \<and> (\<forall>l. l \<in> set links \<longleftrightarrow> l \<in> set (dd_links db) \<and> ln_data l \<in> dv_id ` set chain)"
proof -
  obtain d v where v: "find_version db d version = Some v" "chain = lineage_chain db [] (dv_id v)"
      "links = filter (\<lambda>l. ln_data l \<in> dv_id ` set chain) (dd_links db)"
    using run by (auto simp: lineage_def get_version_row_def raised_def bindR_eq_Inr Let_def split: option.splits)
  have m: "v \<in> set (dd_versions db)" "dv_version v = version" using v(1) by (auto simp: find_version_def find_Some_iff)
  then show ?thesis using chain_is_path[OF ok m(1), of "[]"] v by auto
qed

section \<open>Reading\<close>

lemma read_each_returns: "(\<And>v. v \<in> set vs \<Longrightarrow> f v \<noteq> None) \<Longrightarrow> read_each f vs \<noteq> None"
  by (induction vs) (auto split: option.split sum.split)

lemma read_each_cong: "(\<And>v. v \<in> set vs \<Longrightarrow> f v = g v) \<Longrightarrow> read_each f vs = read_each g vs"
  by (induction vs) (auto split: option.split sum.split)

lemma list_all2_from: "list_all2 P xs ys \<Longrightarrow> y \<in> set ys \<Longrightarrow> \<exists>x\<in>set xs. P x y"
  by (induction rule: list_all2_induct) auto

lemma checked_versions_known:
  assumes "checked_versions n db ids = Inr vs" "v \<in> set vs" shows "v \<in> set (dd_versions db) \<and> dv_id v \<in> set ids"
proof -
  have "list_all2 (\<lambda>i v. (case version_by_id db i of None \<Rightarrow> raised DatasetNotFoundError | Some v \<Rightarrow> Inr v) = Inr v) ids vs"
    using assms(1) by (auto simp: checked_versions_def find_versions_def bindR_eq_Inr try_each_Inr)
  from list_all2_from[OF this assms(2)] show ?thesis
    by (auto simp: raised_def split: option.split_asm dest: version_by_id_mem)
qed

text \<open>With fuel for the depth of the sources, reading does not run out of it and more fuel changes nothing.\<close>

lemma load_settles:
  assumes ok: "data_ok db"
  shows "\<forall>i\<in>set ids. i < n \<Longrightarrow> load_records (Suc n) read m db ids req \<noteq> None
    \<and> load_records (Suc n + k) read m db ids req = load_records (Suc n) read m db ids req"
proof (induction n arbitrary: ids req k)
  case (0 ids req k)
  then have "ids = []" by (cases ids) auto
  then show ?case by (simp add: checked_versions_def find_versions_def check_ceiling_def)
next
  case (Suc n ids req k)
  show ?case
  proof (cases "checked_versions m db ids")
    case (Inr vs)
    have src: "\<forall>i\<in>set sources. i < n" if "v \<in> set vs" "dv_storage v = Stored_Derived sources ex" for v sources ex
    proof -
      have v: "v \<in> set (dd_versions db)" "dv_id v < Suc n" using checked_versions_known[OF Inr that(1)] Suc.prems by auto
      then have "rows_ok db v" using ok by (auto simp: data_ok_def version_ok_def)
      then show ?thesis using that(2) v(2) by (auto simp: rows_ok_def)
    qed
    let ?f = "\<lambda>fuel v. case dv_storage v of
             Stored_Rows \<Rightarrow> Some (Inr (in_time_order (version_rows db (dv_id v))))
           | Stored_Reference _ \<Rightarrow> Some (bindR (read v) (\<lambda>rows. Inr (reference_rows (dv_id v) rows)))
           | Stored_Derived sources excluded \<Rightarrow> map_option (\<lambda>r. bindR r (\<lambda>rows.
               Inr (derived_rows (dv_id v) excluded rows))) (load_records fuel read m db sources False)"
    have "read_each (?f (Suc n)) vs \<noteq> None"
      by (rule read_each_returns) (use src Suc.IH in \<open>auto split: storage.splits\<close>)
    moreover have "read_each (?f (Suc (n + k))) vs = read_each (?f (Suc n)) vs"
      by (rule read_each_cong) (use src Suc.IH in \<open>auto split: storage.splits\<close>)
    ultimately show ?thesis using Inr by simp
  qed simp
qed

text \<open>C40. Reading the rows of any versions returns, however deep versions are derived from others (Python's recursion limit
  apart): what the reading gives does not depend on the fuel once that is above the ids asked for.\<close>

theorem reading_returns:
  assumes ok: "data_ok db" and bound: "\<forall>i\<in>set ids. i < n"
  shows "\<exists>r. \<forall>fuel>n. load_records fuel read max_rows db ids required = Some r"
proof -
  obtain r where r: "load_records (Suc n) read max_rows db ids required = Some r"
    using load_settles[OF ok bound, of read max_rows required 0] by auto
  have "load_records fuel read max_rows db ids required = Some r" if fuel: "n < fuel" for fuel
  proof -
    have "fuel = Suc n + (fuel - Suc n)" using fuel by simp
    then show ?thesis using load_settles[OF ok bound, of read max_rows required "fuel - Suc n"] r by metis
  qed
  then show ?thesis by blast
qed

end
