(* ===== verification/Cdc_System.thy ===== *)
theory Cdc_System
  imports Cdc_Laws Data_Props
begin

text \<open>
  Change data capture as a whole: a watched table whose triggers append to the changelog, the
  polling consumer and the materializer, interleaved in any order with each other, with failing
  batches, with changes of other tables and with every other operation of the data store.

  \<open>config_ok\<close> is what is relied on of pandas (it parses an ISO instant back) and of SHA-256 (no two
  of the lists hashed to event ids collide). A change keeps the key and the dataset of its
  row, and its image has a time and an object as its payload (\<open>change_ok\<close>).

  The log lists the changelog rows in the order in which they become visible, when their
  transactions commit. A row takes its number before that, so a row may appear with any number not
  yet taken. \<open>commit_order\<close> says that the rows of the watched table appeared in the order of their
  numbers; what rests on that has it as a hypothesis.
\<close>

section \<open>States and steps\<close>

record cdc_config =
  cf_env :: data_env
  cf_table :: string
  cf_schema :: string
  cf_mapping :: row_mapping
  cf_shown :: "json \<Rightarrow> string"
  cf_batch :: nat
  cf_max_tx :: nat

definition hash_right :: "data_env \<Rightarrow> bool" where
  "hash_right E \<longleftrightarrow> (\<forall>xs ys. de_hash E (Hashed_Event xs) = de_hash E (Hashed_Event ys) \<longrightarrow> xs = ys)"

definition config_ok :: "cdc_config \<Rightarrow> bool" where
  "config_ok cf \<longleftrightarrow> stamps_right (cf_env cf) \<and> hash_right (cf_env cf) \<and> 0 < cf_batch cf"

text \<open>The rows of the watched table by the text of their key.\<close>

record cdc_sys =
  sy_table :: "string \<Rightarrow> dict option"
  sy_log :: "changelog_row list"
  sy_db :: cdc_db

definition row_key_text :: "cdc_config \<Rightarrow> dict \<Rightarrow> string" where
  "row_key_text cf row = cf_shown cf (dget row (mp_key (cf_mapping cf)))"

definition image_of :: "cdc_config \<Rightarrow> dict \<Rightarrow> image option" where
  "image_of cf row = (case normalize_row (cf_env cf) (cf_mapping cf) (Some row) of Inr i \<Rightarrow> i | Inl _ \<Rightarrow> None)"

definition row_fine :: "cdc_config \<Rightarrow> dict \<Rightarrow> bool" where
  "row_fine cf row \<longleftrightarrow> (case image_of cf row of None \<Rightarrow> False | Some i \<Rightarrow> im_observed i \<noteq> None \<and> obj_of (im_payload i) \<noteq> None)"

fun change_ok :: "cdc_config \<Rightarrow> (string \<Rightarrow> dict option) \<Rightarrow> row_change \<Rightarrow> bool" where
  "change_ok cf tbl (Insert_Row new) \<longleftrightarrow> row_fine cf new \<and> tbl (row_key_text cf new) = None"
| "change_ok cf tbl (Update_Row old new) \<longleftrightarrow> row_fine cf new \<and> tbl (row_key_text cf old) = Some old
     \<and> row_key_text cf new = row_key_text cf old
     \<and> map_option im_dataset (image_of cf new) = map_option im_dataset (image_of cf old)"
| "change_ok cf tbl (Delete_Row old) \<longleftrightarrow> tbl (row_key_text cf old) = Some old"

fun apply_change :: "cdc_config \<Rightarrow> row_change \<Rightarrow> (string \<Rightarrow> dict option) \<Rightarrow> (string \<Rightarrow> dict option)" where
  "apply_change cf (Insert_Row new) tbl = tbl(row_key_text cf new := Some new)"
| "apply_change cf (Update_Row old new) tbl = tbl(row_key_text cf old := Some new)"
| "apply_change cf (Delete_Row old) tbl = tbl(row_key_text cf old := None)"

definition source_of :: "cdc_config \<Rightarrow> changelog_row list \<Rightarrow> cdc_source" where
  "source_of cf changes = polling_source (cf_env cf) (cf_table cf) (cf_schema cf) (cf_mapping cf) changes"

definition new_seq :: "nat \<Rightarrow> changelog_row list \<Rightarrow> bool" where
  "new_seq seq changes \<longleftrightarrow> 0 < seq \<and> seq \<notin> cl_seq ` set changes"

inductive cdc_step :: "cdc_config \<Rightarrow> cdc_sys \<Rightarrow> cdc_sys \<Rightarrow> bool" for cf where
  changed: "change_ok cf (sy_table s) ch \<Longrightarrow> new_seq seq (sy_log s) \<Longrightarrow>
     cdc_step cf s (s\<lparr>sy_table := apply_change cf ch (sy_table s),
       sy_log := sy_log s @ [trigger_row (cf_shown cf) (cf_table cf) (mp_key (cf_mapping cf)) seq tx now ch]\<rparr>)"
| elsewhere: "cl_table r \<noteq> cf_table cf \<Longrightarrow> new_seq (cl_seq r) (sy_log s) \<Longrightarrow> cdc_step cf s (s\<lparr>sy_log := sy_log s @ [r]\<rparr>)"
| polled: "run_cdc_once fails (cf_batch cf) (source_of cf (sy_log s)) (sy_db s) = (r, db) \<Longrightarrow> cdc_step cf s (s\<lparr>sy_db := db\<rparr>)"
| materialized: "materialize_cdc (cf_env cf) (cf_max_tx cf) dataset (sy_db s) = Inr (v, db) \<Longrightarrow> cdc_step cf s (s\<lparr>sy_db := db\<rparr>)"
| stored: "data_step (cd_data (sy_db s)) data \<Longrightarrow>
     \<forall>v\<in>set (dd_versions data). v \<in> set (dd_versions (cd_data (sy_db s))) \<or> dv_kind v \<noteq> CDC \<and> take 4 (dv_version v) \<noteq> ''cdc-'' \<Longrightarrow>
     cdc_step cf s (s\<lparr>sy_db := (sy_db s)\<lparr>cd_data := data\<rparr>\<rparr>)"

definition cdc_start :: cdc_sys where
  "cdc_start = \<lparr>sy_table = (\<lambda>_. None), sy_log = [], sy_db = \<lparr>cd_events = [], cd_offsets = [], cd_data = empty_store\<rparr>\<rparr>"

section \<open>The changelog and the table\<close>

definition watched :: "cdc_config \<Rightarrow> changelog_row list \<Rightarrow> changelog_row list" where
  "watched cf changes = filter (\<lambda>r. cl_table r = cf_table cf) changes"

definition commit_order :: "cdc_config \<Rightarrow> cdc_sys \<Rightarrow> bool" where
  "commit_order cf s \<longleftrightarrow> increasing (map cl_seq (watched cf (sy_log s)))"

definition event_of :: "cdc_config \<Rightarrow> changelog_row \<Rightarrow> cdc_event" where
  "event_of cf r = projr (from_changelog_row (cf_env cf) (cf_schema cf) (cf_mapping cf) r)"

definition parses :: "cdc_config \<Rightarrow> changelog_row \<Rightarrow> bool" where
  "parses cf r \<longleftrightarrow> from_changelog_row (cf_env cf) (cf_schema cf) (cf_mapping cf) r = Inr (event_of cf r)"

definition in_dataset_of :: "string \<Rightarrow> cdc_event \<Rightarrow> bool" where
  "in_dataset_of d e \<longleftrightarrow> ev_dataset e = JStr d"

text \<open>The rows of the table that belong to a dataset, as images.\<close>

definition slice :: "cdc_config \<Rightarrow> (string \<Rightarrow> dict option) \<Rightarrow> string \<Rightarrow> string \<Rightarrow> image option" where
  "slice cf tbl d k = (case tbl k of None \<Rightarrow> None | Some row \<Rightarrow>
     (case image_of cf row of None \<Rightarrow> None | Some i \<Rightarrow> if im_dataset i = JStr d then Some i else None))"

definition replayed :: "cdc_event list \<Rightarrow> string \<Rightarrow> string \<Rightarrow> image option" where
  "replayed es d k = (case latest (filter (in_dataset_of d) es) k of None \<Rightarrow> None | Some x \<Rightarrow> x)"

definition log_inv :: "cdc_config \<Rightarrow> cdc_sys \<Rightarrow> bool" where
  "log_inv cf s \<longleftrightarrow> commit_order cf s \<and> (\<forall>r\<in>set (sy_log s). 0 < cl_seq r)
     \<and> (\<forall>r\<in>set (watched cf (sy_log s)). parses cf r)
     \<and> (\<forall>k row. sy_table s k = Some row \<longrightarrow> row_key_text cf row = k \<and> row_fine cf row)
     \<and> (\<forall>d k. slice cf (sy_table s) d k = replayed (map (event_of cf) (watched cf (sy_log s))) d k)"

lemma fine_image: "row_fine cf row \<Longrightarrow> \<exists>i. image_of cf row = Some i \<and> im_observed i \<noteq> None \<and> obj_of (im_payload i) \<noteq> None
    \<and> normalize_row (cf_env cf) (cf_mapping cf) (Some row) = Inr (Some i)"
  by (auto simp: row_fine_def image_of_def split: option.splits sum.splits)

lemma op_of_value [simp]:
  "op_of ''INSERT'' = Inr CDC_INSERT" "op_of ''UPDATE'' = Inr CDC_UPDATE" "op_of ''DELETE'' = Inr CDC_DELETE"
  by (simp_all add: op_of_def)

text \<open>The event of a change of the table: its key, its dataset and the image it leaves.\<close>

fun change_key :: "cdc_config \<Rightarrow> row_change \<Rightarrow> string" where
  "change_key cf (Insert_Row new) = row_key_text cf new"
| "change_key cf (Update_Row old new) = row_key_text cf new"
| "change_key cf (Delete_Row old) = row_key_text cf old"

fun change_left :: "cdc_config \<Rightarrow> row_change \<Rightarrow> image option" where
  "change_left cf (Insert_Row new) = image_of cf new"
| "change_left cf (Update_Row old new) = image_of cf new"
| "change_left cf (Delete_Row old) = None"

fun change_dataset :: "cdc_config \<Rightarrow> row_change \<Rightarrow> json option" where
  "change_dataset cf (Insert_Row new) = map_option im_dataset (image_of cf new)"
| "change_dataset cf (Update_Row old new) = map_option im_dataset (image_of cf new)"
| "change_dataset cf (Delete_Row old) = map_option im_dataset (image_of cf old)"

lemma trigger_event:
  assumes E: "stamps_right (cf_env cf)" and ok: "change_ok cf tbl ch" and tbl: "\<forall>k row. tbl k = Some row \<longrightarrow> row_key_text cf row = k \<and> row_fine cf row"
    and r_def: "r = trigger_row (cf_shown cf) (cf_table cf) (mp_key (cf_mapping cf)) seq tx now ch"
  shows "parses cf r" "cl_table r = cf_table cf" "cl_seq r = seq" "ev_pk (event_of cf r) = change_key cf ch"
    "image_after (event_of cf r) = change_left cf ch" "change_dataset cf ch = Some (ev_dataset (event_of cf r))"
proof -
  have stamp: "de_stamp (cf_env cf) (JTime now) = Inr now" using E by (simp add: stamps_right_def)
  have none: "normalize_row (cf_env cf) (cf_mapping cf) None = Inr None" by (simp add: normalize_row_def)
  have "parses cf r \<and> cl_table r = cf_table cf \<and> cl_seq r = seq \<and> ev_pk (event_of cf r) = change_key cf ch
    \<and> image_after (event_of cf r) = change_left cf ch \<and> change_dataset cf ch = Some (ev_dataset (event_of cf r))"
  proof (cases ch)
    case (Insert_Row new)
    obtain i where i: "image_of cf new = Some i" "normalize_row (cf_env cf) (cf_mapping cf) (Some new) = Inr (Some i)"
      using fine_image[of cf new] ok Insert_Row by auto
    show ?thesis using i none stamp Insert_Row
      by (simp add: parses_def event_of_def r_def trigger_row_def from_changelog_row_def row_key_text_def image_after_def ev_dataset_def)
  next
    case (Update_Row old new)
    obtain i where i: "image_of cf new = Some i" "normalize_row (cf_env cf) (cf_mapping cf) (Some new) = Inr (Some i)"
      using fine_image[of cf new] ok Update_Row by auto
    obtain j where j: "normalize_row (cf_env cf) (cf_mapping cf) (Some old) = Inr (Some j)"
      using fine_image[of cf old] tbl ok Update_Row by auto
    show ?thesis using i j stamp Update_Row
      by (simp add: parses_def event_of_def r_def trigger_row_def from_changelog_row_def row_key_text_def image_after_def ev_dataset_def)
  next
    case (Delete_Row old)
    obtain j where j: "image_of cf old = Some j" "normalize_row (cf_env cf) (cf_mapping cf) (Some old) = Inr (Some j)"
      using fine_image[of cf old] tbl ok Delete_Row by auto
    show ?thesis using j none stamp Delete_Row
      by (simp add: parses_def event_of_def r_def trigger_row_def from_changelog_row_def row_key_text_def image_after_def ev_dataset_def)
  qed
  then show "parses cf r" "cl_table r = cf_table cf" "cl_seq r = seq" "ev_pk (event_of cf r) = change_key cf ch"
    "image_after (event_of cf r) = change_left cf ch" "change_dataset cf ch = Some (ev_dataset (event_of cf r))" by blast+
qed

lemma replayed_snoc:
  "replayed (es @ [e]) d k = (if ev_dataset e = JStr d \<and> ev_pk e = k then image_after e else replayed es d k)"
  by (auto simp: replayed_def in_dataset_of_def latest_snoc)

text \<open>A change of the table is a change of the one slice its event names.\<close>

definition row_slice :: "cdc_config \<Rightarrow> dict option \<Rightarrow> string \<Rightarrow> image option" where
  "row_slice cf x d = (case x of None \<Rightarrow> None | Some row \<Rightarrow>
     (case image_of cf row of None \<Rightarrow> None | Some i \<Rightarrow> if im_dataset i = JStr d then Some i else None))"

lemma slice_upd: "slice cf (tbl(k0 := x)) d k = (if k = k0 then row_slice cf x d else slice cf tbl d k)"
  by (simp add: slice_def row_slice_def)

lemma slice_row: "slice cf tbl d k = row_slice cf (tbl k) d" by (simp add: slice_def row_slice_def)

lemma row_slice_image: "image_of cf row = Some i \<Longrightarrow> row_slice cf (Some row) d = (if im_dataset i = JStr d then Some i else None)"
  by (simp add: row_slice_def)

lemma row_slice_None [simp]: "row_slice cf None d = None" by (simp add: row_slice_def)

lemma slice_changed:
  assumes ok: "change_ok cf tbl ch" and tbl: "\<forall>k row. tbl k = Some row \<longrightarrow> row_key_text cf row = k \<and> row_fine cf row"
    and ds: "change_dataset cf ch = Some ds"
  shows "slice cf (apply_change cf ch tbl) d k = (if ds = JStr d \<and> change_key cf ch = k then change_left cf ch else slice cf tbl d k)"
proof (cases ch)
  case (Insert_Row new)
  obtain i where i: "image_of cf new = Some i" "im_dataset i = ds" using ds Insert_Row by auto
  show ?thesis using ok i Insert_Row row_slice_image[OF i(1)] by (auto simp: slice_upd slice_row)
next
  case (Update_Row old new)
  obtain i where i: "image_of cf new = Some i" "im_dataset i = ds" using ds Update_Row by auto
  obtain j where j: "image_of cf old = Some j" "im_dataset j = ds" using ok i Update_Row by (cases "image_of cf old") auto
  show ?thesis using ok i j Update_Row row_slice_image[OF i(1)] row_slice_image[OF j(1)] by (auto simp: slice_upd slice_row)
next
  case (Delete_Row old)
  obtain i where i: "image_of cf old = Some i" "im_dataset i = ds" using ds Delete_Row by auto
  show ?thesis using ok i Delete_Row row_slice_image[OF i(1)] by (auto simp: slice_upd slice_row)
qed

lemma log_inv_changed:
  assumes inv: "log_inv cf s" and E: "stamps_right (cf_env cf)" and ok: "change_ok cf (sy_table s) ch" and seq: "new_seq seq (sy_log s)"
    and order: "commit_order cf (s\<lparr>sy_table := apply_change cf ch (sy_table s),
       sy_log := sy_log s @ [trigger_row (cf_shown cf) (cf_table cf) (mp_key (cf_mapping cf)) seq tx now ch]\<rparr>)"
  shows "log_inv cf (s\<lparr>sy_table := apply_change cf ch (sy_table s),
       sy_log := sy_log s @ [trigger_row (cf_shown cf) (cf_table cf) (mp_key (cf_mapping cf)) seq tx now ch]\<rparr>)"
proof -
  let ?r = "trigger_row (cf_shown cf) (cf_table cf) (mp_key (cf_mapping cf)) seq tx now ch"
  have tbl: "\<forall>k row. sy_table s k = Some row \<longrightarrow> row_key_text cf row = k \<and> row_fine cf row" using inv by (simp add: log_inv_def)
  note T = trigger_event[OF E ok tbl refl, of seq tx now]
  obtain x where x: "apply_change cf ch (sy_table s) = (sy_table s)(change_key cf ch := x)"
      "\<And>row. x = Some row \<Longrightarrow> row_key_text cf row = change_key cf ch \<and> row_fine cf row"
    using ok that by (cases ch) fastforce+
  have "row_key_text cf row = k \<and> row_fine cf row" if "apply_change cf ch (sy_table s) k = Some row" for k row
    using that x(2)[of row] tbl by (cases "k = change_key cf ch") (simp_all add: x(1))
  moreover have "slice cf (apply_change cf ch (sy_table s)) d k = replayed (map (event_of cf) (watched cf (sy_log s @ [?r]))) d k" for d k
  proof -
    have w: "watched cf (sy_log s @ [?r]) = watched cf (sy_log s) @ [?r]" using T(2) by (simp add: watched_def)
    have old: "slice cf (sy_table s) d k = replayed (map (event_of cf) (watched cf (sy_log s))) d k" using inv unfolding log_inv_def by blast
    show ?thesis unfolding w map_append list.map replayed_snoc slice_changed[OF ok tbl T(6)] T(4) T(5) old by (rule refl)
  qed
  ultimately show ?thesis using inv seq order T by (auto simp: log_inv_def watched_def new_seq_def)
qed

lemma log_inv_elsewhere:
  assumes "log_inv cf s" "cl_table r \<noteq> cf_table cf" "new_seq (cl_seq r) (sy_log s)"
  shows "log_inv cf (s\<lparr>sy_log := sy_log s @ [r]\<rparr>)"
  using assms by (auto simp: log_inv_def commit_order_def watched_def new_seq_def)

section \<open>The consumer\<close>

definition at_seq :: "changelog_row list \<Rightarrow> nat" where
  "at_seq rows = (if rows = [] then 0 else cl_seq (last rows))"

text \<open>The events stored are those of the part of the changelog up to the offset.\<close>

definition read_upto :: "cdc_config \<Rightarrow> cdc_sys \<Rightarrow> changelog_row list \<Rightarrow> changelog_row list \<Rightarrow> bool" where
  "read_upto cf s A B \<longleftrightarrow> watched cf (sy_log s) = A @ B \<and> map er_event (cd_events (sy_db s)) = map (event_of cf) A
     \<and> offset_of (sy_db s) (polling_name (cf_table cf)) = at_seq A"

lemma increasing_watched: "log_inv cf s \<Longrightarrow> increasing (map cl_seq (watched cf (sy_log s)))"
  by (simp add: log_inv_def commit_order_def)

lemma watched_ok: "log_inv cf s \<Longrightarrow> \<forall>r\<in>set (watched cf (sy_log s)). 0 < cl_seq r \<and> parses cf r"
  by (auto simp: log_inv_def watched_def)

lemma unread_rows:
  assumes "increasing (map cl_seq (A @ B))" "\<forall>r\<in>set (A @ B). 0 < cl_seq r"
  shows "filter (\<lambda>r. at_seq A < cl_seq r) (A @ B) = B" "filter (\<lambda>r. cl_seq r \<le> at_seq A) (A @ B) = A"
proof -
  have A: "cl_seq r \<le> at_seq A" if r: "r \<in> set A" for r
  proof -
    obtain A' z where z: "A = A' @ [z]" using r by (cases A rule: rev_cases) auto
    have "\<forall>x\<in>set A'. cl_seq x < cl_seq z" using assms(1) by (simp add: z increasing_def sorted_wrt_append)
    then show ?thesis using r by (auto simp: z at_seq_def)
  qed
  have B: "at_seq A < cl_seq r" if "r \<in> set B" for r
    using assms that by (cases A rule: rev_cases) (auto simp: at_seq_def increasing_def sorted_wrt_append)
  show "filter (\<lambda>r. at_seq A < cl_seq r) (A @ B) = B" "filter (\<lambda>r. cl_seq r \<le> at_seq A) (A @ B) = A"
    using A B by (auto simp: filter_id_conv filter_empty_conv not_less not_le)
qed

lemma event_of_id:
  assumes "parses cf r"
  shows "\<exists>op. ev_id (event_of cf r) = make_event_id (cf_env cf) ''polling'' (cl_table r) (cl_pk r) op (show_nat (cl_seq r))"
  using assms unfolding parses_def from_changelog_row_def by (auto simp: bindR_eq_Inr) (metis cdc_event.select_convs(1))

lemma event_ids_differ:
  assumes h: "hash_right (cf_env cf)" and r: "parses cf r" "parses cf q" and same: "ev_id (event_of cf r) = ev_id (event_of cf q)"
  shows "cl_seq r = cl_seq q"
proof -
  obtain op op' where "make_event_id (cf_env cf) ''polling'' (cl_table r) (cl_pk r) op (show_nat (cl_seq r))
      = make_event_id (cf_env cf) ''polling'' (cl_table q) (cl_pk q) op' (show_nat (cl_seq q))"
    using event_of_id[OF r(1)] event_of_id[OF r(2)] same by metis
  then show ?thesis using h unfolding make_event_id_def hash_right_def by (metis list.inject show_nat_inject)
qed

lemma poll_fetch_eq:
  assumes inv: "log_inv cf s" and AB: "read_upto cf s A B"
  shows "poll_fetch (cf_env cf) (cf_table cf) (cf_schema cf) (cf_mapping cf) (sy_log s) (sy_db s) n
    = Inr (map (event_of cf) (take n B), if take n B = [] then None else Some (show_nat (cl_seq (last (take n B)))))"
proof -
  have w: "watched cf (sy_log s) = A @ B" using AB by (simp add: read_upto_def)
  have inc: "increasing (map cl_seq (A @ B))" and pos: "\<forall>r\<in>set (A @ B). 0 < cl_seq r" and pars: "\<forall>r\<in>set (A @ B). parses cf r"
    using increasing_watched[OF inv] watched_ok[OF inv] unfolding w by blast+
  have "filter (\<lambda>r. cl_table r = cf_table cf \<and> at_seq A < cl_seq r) (sy_log s) = B"
    using unread_rows(1)[OF inc pos] AB by (simp add: read_upto_def watched_def flip: filter_filter)
  moreover have "sorted (map cl_seq B)"
    using inc by (auto simp: increasing_def sorted_wrt_append intro: sorted_wrt_mono_rel[of _ "(<)"])
  ultimately have "poll_rows (cf_table cf) (at_seq A) n (sy_log s) = take n B" by (simp add: poll_rows_def sort_key_id_if_sorted)
  moreover have "try_each (from_changelog_row (cf_env cf) (cf_schema cf) (cf_mapping cf)) (take n B) = Inr (map (event_of cf) (take n B))"
    using pars by (auto simp: try_each_Inr list_all2_conv_all_nth parses_def dest!: in_set_takeD) 
  ultimately show ?thesis using AB by (simp add: poll_fetch_def Let_def read_upto_def)
qed

lemma read_polled:
  assumes cf: "config_ok cf" and inv: "log_inv cf s" and AB: "read_upto cf s A B" and inc: "increasing (map er_id (cd_events (sy_db s)))"
    and run: "run_cdc_once False n (source_of cf (sy_log s)) (sy_db s) = (r, db)"
  shows "read_upto cf (s\<lparr>sy_db := db\<rparr>) (A @ take n B) (drop n B)" "increasing (map er_id (cd_events db))" "cd_data db = cd_data (sy_db s)"
    "\<exists>rows. cd_events db = cd_events (sy_db s) @ rows \<and> (\<forall>e\<in>set rows. er_version e = None)"
    "\<exists>su. r = Inr su \<and> su_fetched su = length (take n B) \<and> su_stored su = length (take n B) \<and> su_duplicates su = 0"
proof -
  let ?es = "map (event_of cf) (take n B)"
  let ?pos = "if take n B = [] then None else Some (show_nat (cl_seq (last (take n B))))"
  have w: "watched cf (sy_log s) = A @ B" using AB by (simp add: read_upto_def)
  have pars: "\<forall>r\<in>set (A @ B). parses cf r" and seqs: "distinct (map cl_seq (A @ B))"
    using increasing_watched[OF inv] watched_ok[OF inv] unfolding w increasing_def strict_sorted_iff by blast+
  have ids: "distinct (map (ev_id \<circ> event_of cf) (A @ B))"
  proof -
    have "hash_right (cf_env cf)" using cf by (simp add: config_ok_def)
    then have "cl_seq x = cl_seq y" if "x \<in> set (A @ B)" "y \<in> set (A @ B)" "ev_id (event_of cf x) = ev_id (event_of cf y)" for x y
      using event_ids_differ pars that by blast
    then show ?thesis using seqs unfolding distinct_map inj_on_def comp_def by blast
  qed
  have known: "event_ids (sy_db s) = ev_id ` set (map (event_of cf) A)"
  proof -
    have "event_ids (sy_db s) = ev_id ` set (map er_event (cd_events (sy_db s)))" by (simp add: event_ids_def image_image)
    then show ?thesis using AB by (simp only: read_upto_def)
  qed
  have "map (ev_id \<circ> event_of cf) (A @ B) = map ev_id (map (event_of cf) A) @ map ev_id ?es @ map ev_id (map (event_of cf) (drop n B))"
    by (simp flip: map_append)
  then have parts: "distinct (map ev_id (map (event_of cf) A) @ map ev_id ?es @ map ev_id (map (event_of cf) (drop n B)))"
    using ids by (simp only:)
  have fresh: "distinct (map ev_id ?es)" using parts by (simp only: distinct_append)
  have "set (map ev_id (map (event_of cf) A)) \<inter> set (map ev_id ?es) = {}"
    using parts unfolding distinct_append set_append by (metis Int_Un_distrib sup_eq_bot_iff)
  then have "ev_id ` set ?es \<inter> event_ids (sy_db s) = {}" unfolding known set_map by (metis inf_commute)
  then have new: "first_seen (event_ids (sy_db s)) ?es = ?es" by (rule first_seen_new[OF fresh])
  obtain res where res: "store_events ?es (polling_name (cf_table cf)) ?pos (sy_db s) = (res, db)"
      "r = Inr \<lparr>su_fetched = length ?es, su_stored = so_stored res, su_duplicates = so_duplicates res\<rparr>"
    using run poll_fetch_eq[OF inv AB] by (auto simp: run_cdc_once_def source_of_def polling_source_def split: prod.splits)
  obtain rows where rows: "cd_events db = cd_events (sy_db s) @ rows" "map er_event rows = ?es" "\<forall>r\<in>set rows. er_version r = None"
      "increasing (map er_id (cd_events db))" "cd_data db = cd_data (sy_db s)"
      "cd_offsets db = (case ?pos of None \<Rightarrow> cd_offsets (sy_db s) | Some p \<Rightarrow> AList.update (polling_name (cf_table cf)) p (cd_offsets (sy_db s)))"
      "so_stored res = length rows" "so_stored res + so_duplicates res = length ?es"
    using store_events_cases[OF res(1) inc] new by auto
  show "increasing (map er_id (cd_events db))" "cd_data db = cd_data (sy_db s)"
    "\<exists>rows. cd_events db = cd_events (sy_db s) @ rows \<and> (\<forall>e\<in>set rows. er_version e = None)" using rows by blast+
  have "length rows = length ?es" using arg_cong[OF rows(2), of length] by simp
  then show "\<exists>su. r = Inr su \<and> su_fetched su = length (take n B) \<and> su_stored su = length (take n B) \<and> su_duplicates su = 0"
    using res(2) rows(7,8) by simp
  have "offset_of db (polling_name (cf_table cf)) = at_seq (A @ take n B)"
    using AB rows(6) by (auto simp: read_upto_def offset_of_def get_offset_def str_or_def at_seq_def update_conv' parse_show split: if_splits)
  then show "read_upto cf (s\<lparr>sy_db := db\<rparr>) (A @ take n B) (drop n B)"
    using AB rows(1,2) by (simp add: read_upto_def)
qed

end
