(* ===== verification/Cdc_Windows.thy ===== *)
theory Cdc_Windows
  imports Cdc_System
begin

text \<open>
  The invariant that ties events to versions: every event is in the window of one version at
  most, windows of a dataset follow one another, and a version of net changes holds its window.
\<close>

section \<open>Windows\<close>

definition window :: "cdc_db \<Rightarrow> nat \<Rightarrow> event_row list" where
  "window db i = filter (\<lambda>e. er_version e = Some i) (cd_events db)"

definition named :: "data_db \<Rightarrow> version_row \<Rightarrow> string \<Rightarrow> bool" where
  "named data v d \<longleftrightarrow> (\<exists>x\<in>set (dd_datasets data). ds_id x = dv_dataset v \<and> ds_name x = d)"

definition event_in :: "string \<Rightarrow> event_row \<Rightarrow> bool" where "event_in d e \<longleftrightarrow> in_dataset_of d (er_event e)"

definition version_window :: "cdc_db \<Rightarrow> version_row \<Rightarrow> bool" where
  "version_window db v \<longleftrightarrow> dv_storage v = Stored_Rows \<and> window db (dv_id v) \<noteq> []
     \<and> window_stored (cd_data db) v (map er_event (window db (dv_id v)))
     \<and> (\<exists>d. named (cd_data db) v d \<and> (\<forall>e\<in>set (window db (dv_id v)). event_in d e))
     \<and> (\<exists>z. dv_version v = cdc_name (er_id (hd (window db (dv_id v)))) z)"

definition in_order :: "event_row \<Rightarrow> event_row \<Rightarrow> bool" where
  "in_order a b \<longleftrightarrow> (ev_dataset (er_event a) = ev_dataset (er_event b) \<longrightarrow>
     (case er_version b of None \<Rightarrow> True | Some j \<Rightarrow> (\<exists>i\<le>j. er_version a = Some i)))"

definition data_inv :: "cdc_db \<Rightarrow> bool" where
  "data_inv db \<longleftrightarrow> data_ok (cd_data db) \<and> increasing (map er_id (cd_events db))
     \<and> (\<forall>e\<in>set (cd_events db). \<forall>i. er_version e = Some i \<longrightarrow> (\<exists>v\<in>set (dd_versions (cd_data db)). dv_id v = i \<and> dv_kind v = CDC))
     \<and> (\<forall>v\<in>set (dd_versions (cd_data db)). if dv_kind v = CDC then version_window db v else take 4 (dv_version v) \<noteq> ''cdc-'')
     \<and> sorted_wrt in_order (cd_events db)"

lemma window_stored_grows:
  assumes "grows data data'" "v \<in> set (dd_versions data)" shows "window_stored data' v es = window_stored data v es"
  using grows_keeps(2)[OF assms] by (simp add: window_stored_def)

lemma named_grows: "grows data data' \<Longrightarrow> named data v d \<Longrightarrow> named data' v d"
  by (auto simp: named_def grows_def)

lemma in_order_new: "er_version b = None \<Longrightarrow> in_order a b" by (simp add: in_order_def)

lemma all_in_order: "\<forall>b\<in>set rows. er_version b = None \<Longrightarrow> sorted_wrt in_order rows"
  by (induction rows) (auto intro: in_order_new)

lemma data_inv_events:
  assumes inv: "data_inv db" and db: "cd_data db' = cd_data db" "cd_events db' = cd_events db @ rows" "\<forall>e\<in>set rows. er_version e = None"
    "increasing (map er_id (cd_events db'))"
  shows "data_inv db'"
proof -
  have "window db' i = window db i" for i using db(2,3) by (auto simp: window_def filter_empty_conv)
  then have "version_window db' v = version_window db v" for v using db(1) by (simp add: version_window_def)
  moreover have "sorted_wrt in_order (cd_events db')"
    using inv db(2,3) all_in_order[OF db(3)] by (auto simp: data_inv_def sorted_wrt_append intro: in_order_new)
  ultimately show ?thesis using inv db by (auto simp: data_inv_def)
qed

lemma data_inv_store:
  assumes inv: "data_inv db" and step: "data_ok data" "grows (cd_data db) data"
    and other: "\<forall>v\<in>set (dd_versions data). v \<in> set (dd_versions (cd_data db)) \<or> dv_kind v \<noteq> CDC \<and> take 4 (dv_version v) \<noteq> ''cdc-''"
  shows "data_inv (db\<lparr>cd_data := data\<rparr>)"
proof -
  have w: "window (db\<lparr>cd_data := data\<rparr>) i = window db i" for i by (simp add: window_def)
  have kept: "version_window (db\<lparr>cd_data := data\<rparr>) v" if "v \<in> set (dd_versions (cd_data db))" "version_window db v" for v
    using that named_grows[OF step(2)] window_stored_grows[OF step(2)] unfolding version_window_def w by auto
  have "if dv_kind v = CDC then version_window (db\<lparr>cd_data := data\<rparr>) v else take 4 (dv_version v) \<noteq> ''cdc-''"
    if v: "v \<in> set (dd_versions data)" for v
  proof (cases "v \<in> set (dd_versions (cd_data db))")
    case True
    then have "if dv_kind v = CDC then version_window db v else take 4 (dv_version v) \<noteq> ''cdc-''"
      using inv unfolding data_inv_def by blast
    then show ?thesis using kept[OF True] by (simp split: if_splits)
  next
    case False
    then show ?thesis using other v by auto
  qed
  moreover have "\<forall>e\<in>set (cd_events db). \<forall>i. er_version e = Some i \<longrightarrow> (\<exists>v\<in>set (dd_versions data). dv_id v = i \<and> dv_kind v = CDC)"
    using inv grows_keeps(1)[OF step(2)] unfolding data_inv_def by blast
  ultimately show ?thesis using inv step by (simp add: data_inv_def)
qed

section \<open>Materializing\<close>

definition pending :: "string \<Rightarrow> event_row \<Rightarrow> bool" where "pending d e \<longleftrightarrow> event_in d e \<and> er_version e = None"

definition marked :: "string \<Rightarrow> nat \<Rightarrow> event_row \<Rightarrow> event_row" where
  "marked d i e = (if pending d e then e\<lparr>er_version := Some i\<rparr> else e)"

lemma marked_simps [simp]: "er_id (marked d i e) = er_id e" "er_event (marked d i e) = er_event e"
  "er_version (marked d i e) = (if pending d e then Some i else er_version e)"
  by (simp_all add: marked_def)

lemma pending_events_eq: "increasing (map er_id (cd_events db)) \<Longrightarrow> pending_events db d = filter (pending d) (cd_events db)"
proof -
  assume inc: "increasing (map er_id (cd_events db))"
  have "sorted (map er_id (filter (pending d) (cd_events db)))"
    using inc by (auto simp: increasing_def strict_sorted_iff intro: sorted_filter)
  moreover have "(\<lambda>e. ev_dataset (er_event e) = JStr d \<and> er_version e = None) = pending d"
    by (auto simp: pending_def event_in_def in_dataset_of_def)
  ultimately show ?thesis by (simp add: pending_events_def sort_key_id_if_sorted)
qed

lemma mark_eq:
  assumes "distinct (map er_id es)" shows "mark (filter (pending d) es) i es = map (marked d i) es"
proof -
  have "er_id e \<in> er_id ` set (filter (pending d) es) \<longleftrightarrow> pending d e" if "e \<in> set es" for e
    using that distinct_map_keyD[OF assms that] by auto
  then show ?thesis by (auto simp: mark_def update_where_def marked_def)
qed

lemma marked_window:
  "\<forall>e\<in>set es. er_version e \<noteq> Some i \<Longrightarrow> filter (\<lambda>e. er_version e = Some j) (map (marked d i) es)
    = (if j = i then map (marked d i) (filter (pending d) es) else filter (\<lambda>e. er_version e = Some j) es)"
  by (induction es) (auto simp: marked_def pending_def)

lemma in_order_marked:
  assumes "in_order a b" and below: "\<And>j. er_version a = Some j \<Longrightarrow> j \<le> i"
  shows "in_order (marked d i a) (marked d i b)"
  using assms by (auto simp: in_order_def pending_def event_in_def in_dataset_of_def split: option.splits)

lemma cdc_ingest_simps [simp]:
  "in_version (cdc_ingest mx d P data i) = cdc_name (er_id (hd P)) (er_id (last P))"
  "in_dataset (cdc_ingest mx d P data i) = d" "in_kind (cdc_ingest mx d P data i) = CDC"
  by (simp_all add: cdc_ingest_def Let_def)

lemma materialized_inv:
  assumes inv: "data_inv db" and E: "stamps_right E" and run: "materialize_cdc E mx d db = Inr (r, db')"
  shows "data_inv db'"
proof -
  have ok: "data_ok (cd_data db)" and inc: "increasing (map er_id (cd_events db))" using inv by (auto simp: data_inv_def)
  have dist: "distinct (map er_id (cd_events db))" using inc by (simp add: increasing_def strict_sorted_iff)
  define P where "P = filter (pending d) (cd_events db)"
  have P: "pending_events db d = P" using pending_events_eq[OF inc] by (simp add: P_def)
  consider "db' = db" | x data1 v new data' where "P \<noteq> []" "images_ok (upsert_list (net_changes (map er_event P)))"
      "get_or_create_dataset d (cd_data db) = (x, data1)" "ingest_version E (cdc_ingest mx d P data1 (ds_id x)) data1 = Inr (v, new, data')"
      "db' = db\<lparr>cd_data := data', cd_events := mark P (dv_id v) (cd_events db)\<rparr>"
    using materialize_run[OF run] unfolding P by blast
  then show ?thesis
  proof cases
    case 1
    then show ?thesis using inv by simp
  next
    case (2 x data1 v new data')
    note D = get_or_create_cases[OF ok 2(3)] and T = same_tables_simps[OF get_or_create_cases(5)[OF ok 2(3)]]
    note I = ingest_cases[OF D(1) 2(4)]
    have hdP: "hd P \<in> set (cd_events db)" "er_version (hd P) = None" "\<And>e. e \<in> set P \<Longrightarrow> event_in d e"
      using hd_in_set[OF 2(1)] by (auto simp: P_def pending_def)
    have new
    proof (rule ccontr)
      assume "\<not> new"
      then have v: "v \<in> set (dd_versions (cd_data db))" "dv_version v = cdc_name (er_id (hd P)) (er_id (last P))"
        using I(4) T(1) by (auto simp: ingest_done_def version_key_def)
      have "if dv_kind v = CDC then version_window db v else take 4 (dv_version v) \<noteq> ''cdc-''"
        using inv v(1) unfolding data_inv_def by blast
      then have cdc: "version_window db v" using cdc_name_prefix[of "er_id (hd P)"] by (simp add: v(2) split: if_splits)
      let ?W = "window db (dv_id v)"
      obtain z where z: "?W \<noteq> []" "dv_version v = cdc_name (er_id (hd ?W)) z" using cdc by (auto simp: version_window_def)
      have W: "hd ?W \<in> set (cd_events db)" "er_version (hd ?W) \<noteq> None" using hd_in_set[OF z(1)] by (auto simp: window_def)
      have "er_id (hd ?W) = er_id (hd P)" using cdc_name_inject z(2) v(2) by metis
      then have "hd ?W = hd P" using distinct_map_keyD[OF dist W(1) hdP(1)] by simp
      then show False using W(2) hdP(2) by simp
    qed
    then have run1: "ingest_version E (cdc_ingest mx d P data1 (ds_id x)) data1 = Inr (v, True, data')" using 2(4) by simp
    obtain y where y: "y \<in> set (dd_datasets data')" "ds_name y = d" "dv_dataset v = ds_id y" "dv_version v = cdc_name (er_id (hd P)) (er_id (last P))"
        "dv_kind v = CDC" "dv_storage v = Stored_Rows" "dv_id v = new_version_id data1" "dd_versions data' = dd_versions data1 @ [v]"
      using I(4) \<open>new\<close> by (auto simp: ingest_done_def version_key_def)
    have g: "grows (cd_data db) data'" using grows_trans[OF D(2) I(2)] .
    have below: "dv_id u < dv_id v" if "u \<in> set (dd_versions (cd_data db))" for u
      using new_version_id_above[OF that] y(7) T(7) by simp
    have fresh: "er_version e = Some j \<Longrightarrow> j < dv_id v" if "e \<in> set (cd_events db)" for e j
      using inv that below unfolding data_inv_def by blast
    have events: "cd_events db' = map (marked d (dv_id v)) (cd_events db)" "cd_data db' = data'"
      using 2(5) mark_eq[OF dist] by (simp_all add: P_def)
    have unused: "\<forall>e\<in>set (cd_events db). er_version e \<noteq> Some (dv_id v)" using fresh by blast
    have win: "window db' j = (if j = dv_id v then map (marked d (dv_id v)) P else window db j)" for j
      by (simp add: window_def events(1) marked_window[OF unused] P_def)
    have "version_window db' v"
    proof -
      have "map er_event (window db' (dv_id v)) = map er_event P" by (simp add: win comp_def)
      moreover have "window_stored data' v (map er_event P)" by (rule materialize_stores[OF E D(1) 2(2) run1])
      moreover have "er_id (hd (window db' (dv_id v))) = er_id (hd P)" using 2(1) by (simp add: win hd_map)
      moreover have "\<forall>e\<in>set (window db' (dv_id v)). event_in d e" using hdP(3) by (auto simp: win event_in_def)
      moreover have "named data' v d" using y by (auto simp: named_def)
      moreover have "window db' (dv_id v) \<noteq> []" using 2(1) by (simp add: win)
      ultimately show ?thesis using y(4,6) unfolding version_window_def events(2) by metis
    qed
    moreover have "if dv_kind u = CDC then version_window db' u else take 4 (dv_version u) \<noteq> ''cdc-''"
      if u: "u \<in> set (dd_versions (cd_data db))" for u
    proof -
      have "if dv_kind u = CDC then version_window db u else take 4 (dv_version u) \<noteq> ''cdc-''" using inv u unfolding data_inv_def by blast
      moreover have "window db' (dv_id u) = window db (dv_id u)" using below[OF u] by (simp add: win)
      ultimately show ?thesis using named_grows[OF g] window_stored_grows[OF g u] by (auto simp: version_window_def events(2)) blast
    qed
    moreover have "sorted_wrt in_order (cd_events db')"
      unfolding events(1) sorted_wrt_map
      by (rule sorted_wrt_mono_rel[of _ in_order]) (use inv fresh in \<open>auto simp: data_inv_def intro!: in_order_marked less_imp_le\<close>)
    moreover have "\<forall>e\<in>set (cd_events db'). \<forall>j. er_version e = Some j \<longrightarrow> (\<exists>u\<in>set (dd_versions data'). dv_id u = j \<and> dv_kind u = CDC)"
      using inv y(5,8) T(1) by (auto simp: events(1) data_inv_def split: if_splits)
    ultimately show ?thesis using I(1) inc y(8) T(1) y(5)
      by (auto simp: data_inv_def events comp_def)
  qed
qed

end
