(* ===== verification/Cdc_Props.thy ===== *)
theory Cdc_Props
  imports Cdc_Windows
begin

text \<open>
  The properties of change data capture: every change is stored once and in order, redelivered
  batches change nothing, the consumer catches up, and cleaning the versions of net changes gives
  back the watched table.
\<close>

section \<open>The invariant of the whole\<close>

definition cdc_inv :: "cdc_config \<Rightarrow> cdc_sys \<Rightarrow> bool" where
  "cdc_inv cf s \<longleftrightarrow> log_inv cf s \<and> (\<exists>A B. read_upto cf s A B) \<and> data_inv (sy_db s)"

lemma start_inv: "cdc_inv cf cdc_start"
proof -
  have "read_upto cf cdc_start [] []"
    by (simp add: read_upto_def cdc_start_def watched_def offset_of_def get_offset_def str_or_def at_seq_def parse_digits_def)
  moreover have "log_inv cf cdc_start"
    by (simp add: log_inv_def commit_order_def cdc_start_def watched_def increasing_def slice_def replayed_def)
  moreover have "data_inv (sy_db cdc_start)"
    by (simp add: data_inv_def cdc_start_def empty_ok increasing_def) (simp add: empty_store_def)
  ultimately show ?thesis by (auto simp: cdc_inv_def)
qed

lemma materialized_reads:
  assumes "materialize_cdc E mx d db = Inr (r, db')" "increasing (map er_id (cd_events db))"
  shows "map er_event (cd_events db') = map er_event (cd_events db)" "cd_offsets db' = cd_offsets db"
proof -
  have "distinct (map er_id (cd_events db))" using assms(2) by (simp add: increasing_def strict_sorted_iff)
  note mark = mark_eq[OF this, of d]
  have "map er_event (cd_events db') = map er_event (cd_events db) \<and> cd_offsets db' = cd_offsets db"
    using materialize_run[OF assms(1)] unfolding pending_events_eq[OF assms(2)] by (auto simp: mark)
  then show "map er_event (cd_events db') = map er_event (cd_events db)" "cd_offsets db' = cd_offsets db" by blast+
qed

text \<open>The log only grows: what appeared in order before a step did so after it.\<close>

lemma step_order: "cdc_step cf s t \<Longrightarrow> commit_order cf t \<Longrightarrow> commit_order cf s"
  by (cases rule: cdc_step.cases) (auto simp: commit_order_def watched_def increasing_def sorted_wrt_append split: if_splits)

lemma step_inv:
  assumes cf: "config_ok cf" and step: "cdc_step cf s t" and inv: "cdc_inv cf s" and order: "commit_order cf t"
  shows "cdc_inv cf t"
proof -
  obtain A B where AB: "read_upto cf s A B" using inv by (auto simp: cdc_inv_def)
  have log: "log_inv cf s" and data: "data_inv (sy_db s)" using inv by (auto simp: cdc_inv_def)
  have E: "stamps_right (cf_env cf)" using cf by (simp add: config_ok_def)
  from step show ?thesis
  proof cases
    case (changed ch seq tx now)
    let ?r = "trigger_row (cf_shown cf) (cf_table cf) (mp_key (cf_mapping cf)) seq tx now ch"
    have "cl_table ?r = cf_table cf" by (simp add: trigger_row_def split_def Let_def)
    then have "read_upto cf t A (B @ [?r])" using AB by (simp add: read_upto_def changed(1) watched_def)
    then show ?thesis using log_inv_changed[OF log E changed(2,3)] order data by (auto simp: cdc_inv_def changed(1))
  next
    case (elsewhere r)
    have "read_upto cf t A B" using AB elsewhere by (simp add: read_upto_def watched_def)
    then show ?thesis using log_inv_elsewhere[OF log elsewhere(2,3)] data by (auto simp: cdc_inv_def elsewhere(1))
  next
    case (polled fails r db)
    have log': "log_inv cf t" using log by (simp add: polled(1) log_inv_def commit_order_def)
    show ?thesis
    proof (cases fails)
      case True
      have "db = sy_db s" using polled(2) True poll_fetch_eq[OF log AB]
        by (simp add: run_cdc_once_def source_of_def polling_source_def)
      then show ?thesis using inv by (simp add: polled(1))
    next
      case False
      note R = read_polled[OF cf log AB, of "cf_batch cf" r db]
      have inc: "increasing (map er_id (cd_events (sy_db s)))" using data by (simp add: data_inv_def)
      obtain rows where rows: "cd_events db = cd_events (sy_db s) @ rows" "\<forall>e\<in>set rows. er_version e = None"
        using R(4)[OF inc] polled(2) False by auto
      have "data_inv db" by (rule data_inv_events[OF data R(3)[OF inc] rows R(2)[OF inc]]) (use polled(2) False in simp_all)
      then show ?thesis using R(1)[OF inc] polled(2) False log' by (auto simp: cdc_inv_def polled(1))
    qed
  next
    case (materialized dataset v db)
    have "increasing (map er_id (cd_events (sy_db s)))" using data by (simp add: data_inv_def)
    note M = materialized_reads[OF materialized(2) this]
    have "read_upto cf t A B" using AB M by (simp add: read_upto_def materialized(1) offset_of_def get_offset_def)
    then show ?thesis using log materialized_inv[OF data E materialized(2)] by (auto simp: cdc_inv_def materialized(1) log_inv_def commit_order_def)
  next
    case (stored d)
    have ok: "data_ok (cd_data (sy_db s))" using data by (simp add: data_inv_def)
    have "data_inv ((sy_db s)\<lparr>cd_data := d\<rparr>)" by (rule data_inv_store[OF data data_step_ok[OF stored(2) ok] stored(3)])
    moreover have "read_upto cf t A B" using AB by (simp add: read_upto_def stored(1) offset_of_def get_offset_def)
    ultimately show ?thesis using log by (auto simp: cdc_inv_def stored(1) log_inv_def commit_order_def)
  qed
qed

interpretation cdc: safe_system "\<lambda>s. s = cdc_start" "cdc_step cf" "\<lambda>s. config_ok cf \<longrightarrow> commit_order cf s \<longrightarrow> cdc_inv cf s" for cf
  by unfold_locales (auto intro: start_inv step_inv dest: step_order)

text \<open>Whatever the order of the changelog: no event is stored twice.\<close>

definition stored_once :: "cdc_db \<Rightarrow> bool" where
  "stored_once db \<longleftrightarrow> increasing (map er_id (cd_events db)) \<and> distinct (map (ev_id \<circ> er_event) (cd_events db))"

lemma store_once:
  assumes once: "stored_once db" and run: "store_events es consumer position db = (res, db')"
  shows "stored_once db'"
proof -
  have inc: "increasing (map er_id (cd_events db))" using once by (simp add: stored_once_def)
  obtain rows where rows: "cd_events db' = cd_events db @ rows" "map er_event rows = first_seen (event_ids db) es"
      "increasing (map er_id (cd_events db'))"
    using store_events_cases[OF run inc] by blast
  have ids: "map (ev_id \<circ> er_event) rows = map ev_id (first_seen (event_ids db) es)" by (simp flip: rows(2))
  then have "set (map (ev_id \<circ> er_event) rows) \<inter> event_ids db = {}" "distinct (map (ev_id \<circ> er_event) rows)"
    using first_seen_distinct[of "event_ids db" es] by simp_all
  then show ?thesis using once rows(1,3) by (auto simp: stored_once_def event_ids_def)
qed

lemma step_once:
  assumes step: "cdc_step cf s t" and once: "stored_once (sy_db s)" shows "stored_once (sy_db t)"
  using step
proof cases
  case (polled fails r db)
  show ?thesis
  proof (cases "cs_fetch (source_of cf (sy_log s)) (sy_db s) (cf_batch cf)")
    case (Inr p)
    then show ?thesis using polled once store_once[OF once, of "fst p" "cs_name (source_of cf (sy_log s))" "snd p"]
      by (cases p) (auto simp: run_cdc_once_def Let_def split: if_splits prod.splits)
  qed (use polled once in \<open>simp add: run_cdc_once_def\<close>)
next
  case (materialized dataset v db)
  have inc: "increasing (map er_id (cd_events (sy_db s)))" using once by (simp add: stored_once_def)
  have d: "distinct (map er_id (cd_events (sy_db s)))" using inc by (simp add: increasing_def strict_sorted_iff)
  have "map er_id (cd_events db) = map er_id (cd_events (sy_db s))"
    using materialize_run[OF materialized(2)] unfolding pending_events_eq[OF inc] by (auto simp: mark_eq[OF d])
  moreover have "map (ev_id \<circ> er_event) (cd_events db) = map (ev_id \<circ> er_event) (cd_events (sy_db s))"
    using arg_cong[OF materialized_reads(1)[OF materialized(2) inc], of "map ev_id"] by simp
  ultimately show ?thesis using once materialized(1) by (simp add: stored_once_def)
qed (use once in \<open>simp_all add: stored_once_def\<close>)

interpretation once: safe_system "\<lambda>s. s = cdc_start" "cdc_step cf" "\<lambda>s. stored_once (sy_db s)" for cf
proof
  show "\<And>s. s = cdc_start \<Longrightarrow> stored_once (sy_db s)" by (simp add: stored_once_def cdc_start_def increasing_def)
qed (rule step_once)

section \<open>Exactly once\<close>

text \<open>C15. However changes, polls, failing batches, materializations and other operations interleave, no change is ever stored twice.
  When moreover the changelog rows of the table became visible in the order of their numbers, the stored events are those of
  the changes of the watched table up to the offset, each once, in the order of the changelog. (Without that order a change
  can be missed: \<open>late_row_is_lost\<close>.)\<close>

theorem changes_stored_once:
  assumes cf: "config_ok cf" and run: "reach (\<lambda>s. s = cdc_start) (cdc_step cf) s"
  shows "distinct (map (ev_id \<circ> er_event) (cd_events (sy_db s))) \<and> distinct (map er_id (cd_events (sy_db s)))
    \<and> (commit_order cf s \<longrightarrow> map er_event (cd_events (sy_db s)) = map (event_of cf)
      (filter (\<lambda>r. cl_seq r \<le> offset_of (sy_db s) (polling_name (cf_table cf))) (watched cf (sy_log s))))"
proof -
  have "map er_event (cd_events (sy_db s)) = map (event_of cf)
      (filter (\<lambda>r. cl_seq r \<le> offset_of (sy_db s) (polling_name (cf_table cf))) (watched cf (sy_log s)))"
    if order: "commit_order cf s"
  proof -
    have inv: "cdc_inv cf s" using cdc.reach_I[OF run] cf order by simp
    obtain A B where AB: "read_upto cf s A B" using inv by (auto simp: cdc_inv_def)
    have log: "log_inv cf s" using inv by (simp add: cdc_inv_def)
    have w: "watched cf (sy_log s) = A @ B" using AB by (simp add: read_upto_def)
    have "increasing (map cl_seq (A @ B))" "\<forall>r\<in>set (A @ B). 0 < cl_seq r"
      using increasing_watched[OF log] watched_ok[OF log] unfolding w by blast+
    then show ?thesis using AB unread_rows(2)[of A B] by (simp add: read_upto_def w)
  qed
  moreover have "stored_once (sy_db s)" by (rule once.reach_I[OF run])
  ultimately show ?thesis by (auto simp: stored_once_def increasing_def strict_sorted_iff)
qed

text \<open>C27. Redelivery changes nothing: whatever batches a source delivers, with repetitions inside and between them, what is stored is the
  sequence of all events delivered, each at its first occurrence; how they are cut into batches does not matter.\<close>

theorem redelivery_is_harmless:
  assumes inc: "increasing (map er_id (cd_events db))"
    and runs: "after = fold (\<lambda>(es, consumer, position) db. snd (store_events es consumer position db)) batches db"
  shows "map er_event (cd_events after) = map er_event (cd_events db) @ first_seen (event_ids db) (concat (map fst batches))
    \<and> cd_data after = cd_data db"
  using runs inc
proof (induction batches arbitrary: db)
  case (Cons b batches)
  obtain es consumer position where b: "b = (es, consumer, position)" by (cases b)
  obtain res db1 where s: "store_events es consumer position db = (res, db1)" by (cases "store_events es consumer position db")
  obtain rows where rows: "cd_events db1 = cd_events db @ rows" "map er_event rows = first_seen (event_ids db) es"
      "increasing (map er_id (cd_events db1))" "cd_data db1 = cd_data db"
    using store_events_cases[OF s Cons.prems(2)] by auto
  have "event_ids db1 = event_ids db \<union> ev_id ` set (map er_event rows)" by (auto simp: event_ids_def rows(1))
  then have "event_ids db1 = event_ids db \<union> ev_id ` set es" using first_seen_ids[of "event_ids db" es] by (simp add: rows(2))
  then show ?case using Cons.IH[of db1] Cons.prems(1) rows by (simp add: b s first_seen_append)
qed simp

section \<open>Catching up\<close>

lemma run_batches_reads:
  assumes cf: "config_ok cf" and log: "log_inv cf s"
  shows "read_upto cf (s\<lparr>sy_db := db\<rparr>) A B \<Longrightarrow> increasing (map er_id (cd_events db)) \<Longrightarrow> run_batches b (\<lambda>_. source_of cf (sy_log s)) n totals db = (r, db') \<Longrightarrow>
    read_upto cf (s\<lparr>sy_db := db'\<rparr>) (A @ take (n * b) B) (drop (n * b) B)
    \<and> (\<exists>t. r = Inr t \<and> tt_batches t = tt_batches totals + n \<and> tt_stored t = tt_stored totals + length (take (n * b) B)
        \<and> tt_duplicates t = tt_duplicates totals)"
proof (induction n arbitrary: db totals A B)
  case (Suc n)
  let ?s = "s\<lparr>sy_db := db\<rparr>"
  have log': "log_inv cf ?s" using log by (simp add: log_inv_def commit_order_def)
  obtain r1 db1 where 1: "run_cdc_once False b (source_of cf (sy_log ?s)) (sy_db ?s) = (r1, db1)"
    by (cases "run_cdc_once False b (source_of cf (sy_log ?s)) (sy_db ?s)")
  have inc: "increasing (map er_id (cd_events (sy_db ?s)))" using Suc.prems(2) by simp
  note R = read_polled[OF cf log' Suc.prems(1) inc 1]
  obtain su where su: "r1 = Inr su" "su_stored su = length (take b B)" "su_duplicates su = 0" using R(5) by blast
  have "run_batches b (\<lambda>_. source_of cf (sy_log s)) n \<lparr>tt_batches = tt_batches totals + 1, tt_stored = tt_stored totals + length (take b B),
      tt_duplicates = tt_duplicates totals\<rparr> db1 = (r, db')"
    using Suc.prems(3) 1 su by simp
  from Suc.IH[OF _ R(2) this, of "A @ take b B" "drop b B"] R(1) show ?case
    by (auto simp: take_add drop_drop add.commute)
qed auto

text \<open>C28. The consumer catches up: with the changelog rows of the table visible in the order of their numbers and while nothing else
  happens, \<open>n\<close> batches store as many of the unread changes as they have room for, and none twice; enough batches store them
  all. (A row that becomes visible after one with a higher number was read is never stored: \<open>late_row_is_lost\<close>.)\<close>

theorem consumer_catches_up:
  assumes cf: "config_ok cf" and run: "reach (\<lambda>s. s = cdc_start) (cdc_step cf) s"
    and order: "commit_order cf s" and go: "run_cdc (cf_batch cf) (\<lambda>_. source_of cf (sy_log s)) n (sy_db s) = (r, db)"
  defines "unread \<equiv> filter (\<lambda>r. offset_of (sy_db s) (polling_name (cf_table cf)) < cl_seq r) (watched cf (sy_log s))"
  shows "(\<exists>t. r = Inr t \<and> tt_stored t = min (length unread) (n * cf_batch cf) \<and> tt_duplicates t = 0)
    \<and> map er_event (cd_events db) = map er_event (cd_events (sy_db s)) @ map (event_of cf) (take (n * cf_batch cf) unread)
    \<and> (length unread \<le> n * cf_batch cf \<longrightarrow> map er_event (cd_events db) = map (event_of cf) (watched cf (sy_log s)))"
proof -
  have inv: "cdc_inv cf s" using cdc.reach_I[OF run] cf order by simp
  obtain A B where AB: "read_upto cf s A B" using inv by (auto simp: cdc_inv_def)
  have log: "log_inv cf s" and inc: "increasing (map er_id (cd_events (sy_db s)))" using inv by (auto simp: cdc_inv_def data_inv_def)
  have w: "watched cf (sy_log s) = A @ B" "offset_of (sy_db s) (polling_name (cf_table cf)) = at_seq A" using AB by (auto simp: read_upto_def)
  have "unread = B" using unread_rows(1)[of A B] increasing_watched[OF log] watched_ok[OF log] by (simp add: unread_def w)
  moreover have "read_upto cf (s\<lparr>sy_db := sy_db s\<rparr>) A B" using AB by simp
  note R = run_batches_reads[OF cf log this inc go[unfolded run_cdc_def]]
  ultimately show ?thesis using R AB by (auto simp: read_upto_def w(1) min.commute)
qed

end
