(* ===== verification/Cdc_Refine.thy ===== *)
theory Cdc_Refine
  imports Cdc_Props
begin

text \<open>
  Cleaning the versions of net changes of a dataset gives back the rows the watched table has of
  it: the refinement that change data capture is for.
\<close>

section \<open>The windows of a dataset\<close>

definition cdc_versions :: "data_db \<Rightarrow> string \<Rightarrow> version_row set" where
  "cdc_versions data d = {v \<in> set (dd_versions data). dv_kind v = CDC \<and> named data v d}"

definition key_events :: "cdc_db \<Rightarrow> string \<Rightarrow> string \<Rightarrow> event_row list" where
  "key_events db d k = filter (\<lambda>e. event_in d e \<and> ev_pk (er_event e) = k) (cd_events db)"

lemma named_unique: "data_ok data \<Longrightarrow> named data v d \<Longrightarrow> named data v d' \<Longrightarrow> d = d'"
  by (auto simp: named_def data_ok_def dest: distinct_map_keyD)

lemma window_of_dataset:
  assumes inv: "data_inv db" and v: "v \<in> cdc_versions (cd_data db) d"
  shows "version_window db v" "\<And>e. e \<in> set (window db (dv_id v)) \<Longrightarrow> event_in d e"
proof -
  show w: "version_window db v" using inv v unfolding data_inv_def cdc_versions_def by auto
  have "data_ok (cd_data db)" using inv by (simp add: data_inv_def)
  moreover obtain d' where "named (cd_data db) v d'" "\<forall>e\<in>set (window db (dv_id v)). event_in d' e"
    using w by (auto simp: version_window_def)
  ultimately show "event_in d e" if "e \<in> set (window db (dv_id v))" for e
    using v that named_unique[of "cd_data db" v d' d] by (auto simp: cdc_versions_def)
qed

lemma version_of_event:
  assumes inv: "data_inv db" and e: "e \<in> set (cd_events db)" "er_version e = Some i" "event_in d e"
  shows "\<exists>v\<in>cdc_versions (cd_data db) d. dv_id v = i"
proof -
  obtain v where v: "v \<in> set (dd_versions (cd_data db))" "dv_id v = i" "dv_kind v = CDC"
    using inv e(1,2) unfolding data_inv_def by blast
  have "if dv_kind v = CDC then version_window db v else take 4 (dv_version v) \<noteq> ''cdc-''" using inv v(1) unfolding data_inv_def by blast
  then have "version_window db v" using v(3) by simp
  then obtain d' where d': "named (cd_data db) v d'" "\<forall>e\<in>set (window db i). event_in d' e" using v(2) by (auto simp: version_window_def)
  have "event_in d' e" using d'(2) e(1,2) by (auto simp: window_def)
  then have "d' = d" using e(3) by (simp add: event_in_def in_dataset_of_def)
  then show ?thesis using v d'(1) by (auto simp: cdc_versions_def)
qed

text \<open>What a window says last of a key, read off the events of the key.\<close>

lemma latest_window:
  assumes inv: "data_inv db" and v: "v \<in> cdc_versions (cd_data db) d"
  shows "latest (map er_event (window db (dv_id v))) k = (let fs = filter (\<lambda>e. er_version e = Some (dv_id v)) (key_events db d k)
     in if fs = [] then None else Some (image_after (er_event (last fs))))"
proof -
  have "filter (\<lambda>e. ev_pk (er_event e) = k) (window db (dv_id v)) = filter (\<lambda>e. er_version e = Some (dv_id v)) (key_events db d k)"
    using window_of_dataset(2)[OF inv v] by (auto simp: window_def key_events_def intro!: filter_cong)
  then have fs: "filter (\<lambda>e. ev_pk e = k) (map er_event (window db (dv_id v)))
      = map er_event (filter (\<lambda>e. er_version e = Some (dv_id v)) (key_events db d k))"
    by (simp add: filter_map comp_def)
  show ?thesis unfolding latest_def fs by (simp add: Let_def last_map)
qed

lemma replayed_events:
  "replayed (map er_event (cd_events db)) d k = (if key_events db d k = [] then None else image_after (er_event (last (key_events db d k))))"
proof -
  have "filter (\<lambda>e. ev_pk e = k) (filter (in_dataset_of d) (map er_event (cd_events db))) = map er_event (key_events db d k)"
    by (simp add: key_events_def filter_map comp_def event_in_def conj_commute)
  then show ?thesis by (simp add: replayed_def latest_def Let_def last_map)
qed

text \<open>When nothing is pending, the last event of a key is in the newest window that has the key.\<close>

lemma last_window:
  assumes inv: "data_inv db" and none: "pending_events db d = []" and ne: "key_events db d k \<noteq> []"
  obtains m where "m \<in> cdc_versions (cd_data db) d" "latest (map er_event (window db (dv_id m))) k = Some (image_after (er_event (last (key_events db d k))))"
    "\<And>v. v \<in> cdc_versions (cd_data db) d \<Longrightarrow> latest (map er_event (window db (dv_id v))) k \<noteq> None \<Longrightarrow> dv_id v \<le> dv_id m"
proof -
  let ?F = "key_events db d k"
  have inc: "increasing (map er_id (cd_events db))" and ord: "sorted_wrt in_order (cd_events db)" using inv by (auto simp: data_inv_def)
  have F: "e \<in> set (cd_events db)" "event_in d e" if "e \<in> set ?F" for e using that by (auto simp: key_events_def)
  have "er_version (last ?F) \<noteq> None"
    using none F[OF last_in_set[OF ne]] unfolding pending_events_eq[OF inc] by (auto simp: filter_empty_conv pending_def)
  then obtain i where i: "er_version (last ?F) = Some i" by auto
  obtain m where m: "m \<in> cdc_versions (cd_data db) d" "dv_id m = i"
    using version_of_event[OF inv F(1)[OF last_in_set[OF ne]] i F(2)[OF last_in_set[OF ne]]] by blast
  have below: "\<exists>j\<le>i. er_version e = Some j" if e: "e \<in> set ?F" for e
  proof (cases "e = last ?F")
    case False
    obtain G where G: "?F = G @ [last ?F]" using ne by (metis append_butlast_last_id)
    have "sorted_wrt in_order ?F" unfolding key_events_def by (rule sorted_wrt_filter[OF ord])
    then have "in_order e (last ?F)" using e False G by (metis Un_iff empty_iff empty_set set_ConsD set_append sorted_wrt_append list.set_intros(1))
    moreover have "ev_dataset (er_event e) = ev_dataset (er_event (last ?F))"
      using F(2)[OF e] F(2)[OF last_in_set[OF ne]] by (simp add: event_in_def in_dataset_of_def)
    ultimately show ?thesis using i by (simp add: in_order_def)
  qed (use i in auto)
  have "filter (\<lambda>e. er_version e = Some i) ?F \<noteq> []" using i last_in_set[OF ne] by (auto simp: filter_empty_conv)
  moreover have "last (filter (\<lambda>e. er_version e = Some i) ?F) = last ?F"
  proof -
    obtain G where G: "?F = G @ [last ?F]" using ne by (metis append_butlast_last_id)
    show ?thesis by (subst G) (simp add: i)
  qed
  ultimately have "latest (map er_event (window db (dv_id m))) k = Some (image_after (er_event (last ?F)))"
    using latest_window[OF inv m(1), of k] m(2) by (simp add: Let_def)
  moreover have "dv_id v \<le> dv_id m" if v: "v \<in> cdc_versions (cd_data db) d" "latest (map er_event (window db (dv_id v))) k \<noteq> None" for v
  proof -
    have "filter (\<lambda>e. er_version e = Some (dv_id v)) ?F \<noteq> []"
      using v(2) unfolding latest_window[OF inv v(1)] by (auto simp: Let_def)
    then obtain e where "e \<in> set ?F" "er_version e = Some (dv_id v)" by (auto simp: filter_empty_conv)
    then show ?thesis using below[of e] m(2) by auto
  qed
  ultimately show thesis using that[OF m(1)] by blast
qed

section \<open>The rows of a dataset\<close>

text \<open>\<open>dataset_rows\<close>: the rows read are those of the versions of net changes of the dataset.\<close>

definition dataset_rows :: "data_db \<Rightarrow> string \<Rightarrow> stored_row list \<Rightarrow> bool" where
  "dataset_rows data d rows \<longleftrightarrow> set rows = (\<Union>v\<in>cdc_versions data d. set (version_rows data (dv_id v))) \<and> distinct (map sr_id rows)"

lemma row_version: "r \<in> set (version_rows data i) \<Longrightarrow> sr_version r = i" by (auto simp: version_rows_def)

lemma row_says:
  assumes inv: "data_inv db" and rows: "dataset_rows (cd_data db) d rows" and r: "r \<in> set rows"
  obtains v k img where "v \<in> cdc_versions (cd_data db) d" "sr_version r = dv_id v" "r \<in> set (version_rows (cd_data db) (dv_id v))" "sr_key r = Some k"
    "latest (map er_event (window db (dv_id v))) k = Some (Some img)" "same_content (sr_observed r) (sr_payload r) img"
proof -
  obtain v where v: "v \<in> cdc_versions (cd_data db) d" "r \<in> set (version_rows (cd_data db) (dv_id v))"
    using rows r by (auto simp: dataset_rows_def)
  have "window_stored (cd_data db) v (map er_event (window db (dv_id v)))"
    using window_of_dataset(1)[OF inv v(1)] by (simp add: version_window_def)
  then obtain k img where "sr_key r = Some k" "latest (map er_event (window db (dv_id v))) k = Some (Some img)"
      "same_content (sr_observed r) (sr_payload r) img"
    using v(2) unfolding window_stored_def by blast
  then show thesis using that v row_version[OF v(2)] by blast
qed

lemma stored_upsert:
  assumes "window_stored data v es" "latest es k = Some (Some img)"
  obtains r where "r \<in> set (version_rows data (dv_id v))" "sr_key r = Some k" "same_content (sr_observed r) (sr_payload r) img"
proof -
  obtain r where r: "r \<in> set (version_rows data (dv_id v))" "sr_key r = Some k" using assms unfolding window_stored_def by blast
  then obtain k' img' where "sr_key r = Some k'" "latest es k' = Some (Some img')" "same_content (sr_observed r) (sr_payload r) img'"
    using assms(1) unfolding window_stored_def by blast
  then show thesis using that[OF r] r(2) assms(2) by simp
qed

text \<open>Exactly the rows of the replayed events stand.\<close>

lemma standing_rows:
  assumes inv: "data_inv db" and none: "pending_events db d = []" and rows: "dataset_rows (cd_data db) d rows"
    and nonempty: "\<And>v. v \<in> cdc_versions (cd_data db) d \<Longrightarrow> version_rows (cd_data db) (dv_id v) \<noteq> []"
  shows "r \<in> set rows \<Longrightarrow> stands (consulted (cd_data db) rows) rows r \<Longrightarrow> \<exists>k img. sr_key r = Some k
      \<and> replayed (map er_event (cd_events db)) d k = Some img \<and> same_content (sr_observed r) (sr_payload r) img"
    "replayed (map er_event (cd_events db)) d k = Some img \<Longrightarrow> \<exists>r\<in>set rows. stands (consulted (cd_data db) rows) rows r \<and> sr_key r = Some k
      \<and> same_content (sr_observed r) (sr_payload r) img"
proof -
  let ?data = "cd_data db" and ?es = "map er_event (cd_events db)"
  have stored: "window_stored ?data v (map er_event (window db (dv_id v)))" if "v \<in> cdc_versions ?data d" for v
    using window_of_dataset(1)[OF inv that] by (simp add: version_window_def)
  have key_in: "key_events db d k \<noteq> []" if "v \<in> cdc_versions ?data d" "latest (map er_event (window db (dv_id v))) k \<noteq> None" for v k
    using that(2) unfolding latest_window[OF inv that(1)] by (auto simp: Let_def)
  have read: "v \<in> set (consulted ?data rows)" if v: "v \<in> cdc_versions ?data d" for v
  proof -
    have "hd (version_rows ?data (dv_id v)) \<in> set rows" "sr_version (hd (version_rows ?data (dv_id v))) = dv_id v"
      using hd_in_set[OF nonempty[OF v]] rows v row_version by (auto simp: dataset_rows_def)
    then have "dv_id v \<in> sr_version ` set rows" by (metis image_eqI)
    then show ?thesis using v by (simp add: consulted_def cdc_versions_def)
  qed
  show "\<exists>k img. sr_key r = Some k \<and> replayed ?es d k = Some img \<and> same_content (sr_observed r) (sr_payload r) img"
    if r: "r \<in> set rows" and st: "stands (consulted ?data rows) rows r" for r
  proof -
    obtain v k img where v: "v \<in> cdc_versions ?data d" "sr_version r = dv_id v" "sr_key r = Some k"
        "latest (map er_event (window db (dv_id v))) k = Some (Some img)" "same_content (sr_observed r) (sr_payload r) img"
      using row_says[OF inv rows r] by metis
    have ne: "key_events db d k \<noteq> []" using key_in[OF v(1)] v(4) by simp
    obtain m where m: "m \<in> cdc_versions ?data d" "latest (map er_event (window db (dv_id m))) k = Some (image_after (er_event (last (key_events db d k))))"
        "dv_id v \<le> dv_id m"
      using last_window[OF inv none ne] v(1,4) by (metis option.distinct(1))
    have "dv_id m \<le> dv_id v"
    proof (cases "image_after (er_event (last (key_events db d k)))")
      case None
      then have "k \<in> set (dv_deleted m)" using stored[OF m(1)] m(2) by (simp add: window_stored_def)
      then show ?thesis using st v(2,3) read[OF m(1)] by (auto simp: stands_def)
    next
      case (Some img')
      then obtain q where q: "q \<in> set (version_rows ?data (dv_id m))" "sr_key q = Some k"
        using stored_upsert[OF stored[OF m(1)]] m(2) by metis
      have "q \<in> set rows" using q(1) m(1) rows by (auto simp: dataset_rows_def)
      then have "rank q \<le> rank r" using st v(3) q(2) by (simp add: stands_def)
      then show ?thesis using row_version[OF q(1)] v(2) by (auto simp: rank_def)
    qed
    then have "dv_id m = dv_id v" using m(3) by simp
    then have "image_after (er_event (last (key_events db d k))) = Some img" using m(2) v(4) by simp
    then show ?thesis using v(3,5) ne by (auto simp: replayed_events)
  qed
  show "\<exists>r\<in>set rows. stands (consulted ?data rows) rows r \<and> sr_key r = Some k \<and> same_content (sr_observed r) (sr_payload r) img"
    if rep: "replayed ?es d k = Some img" for k img
  proof -
    have ne: "key_events db d k \<noteq> []" and img: "image_after (er_event (last (key_events db d k))) = Some img"
      using rep by (auto simp: replayed_events split: if_splits)
    obtain m where m: "m \<in> cdc_versions ?data d" "latest (map er_event (window db (dv_id m))) k = Some (Some img)"
        "\<And>v. v \<in> cdc_versions ?data d \<Longrightarrow> latest (map er_event (window db (dv_id v))) k \<noteq> None \<Longrightarrow> dv_id v \<le> dv_id m"
      using last_window[OF inv none ne] img by metis
    obtain r where r: "r \<in> set (version_rows ?data (dv_id m))" "sr_key r = Some k" and content: "same_content (sr_observed r) (sr_payload r) img"
      using stored_upsert[OF stored[OF m(1)] m(2)] by metis
    have in_rows: "r \<in> set rows" using r(1) m(1) rows by (auto simp: dataset_rows_def)
    have top: "rank q \<le> rank r" if q: "q \<in> set rows" "sr_key q = Some k" for q
    proof -
      obtain v k' img' where v: "v \<in> cdc_versions ?data d" "sr_version q = dv_id v" "q \<in> set (version_rows ?data (dv_id v))" "sr_key q = Some k'"
          "latest (map er_event (window db (dv_id v))) k' = Some (Some img')"
        using row_says[OF inv rows q(1)] by metis
      have le: "dv_id v \<le> dv_id m" using m(3)[OF v(1)] v(4,5) q(2) by simp
      show ?thesis
      proof (cases "dv_id v = dv_id m")
        case True
        have "distinct (map sr_key (version_rows ?data (dv_id m)))" using stored[OF m(1)] by (simp add: window_stored_def)
        then have "q = r" using distinct_map_keyD[of sr_key _ q r] v(3) True r q(2) by auto
        then show ?thesis by simp
      next
        case False
        then show ?thesis using le v(2) row_version[OF r(1)] by (simp add: rank_def)
      qed
    qed
    moreover have "dv_id v \<le> sr_version r" if "v \<in> set (consulted ?data rows)" "k \<in> set (dv_deleted v)" for v
    proof -
      have "dv_id v \<in> sr_version ` set rows" "v \<in> set (dd_versions ?data)" using that(1) by (auto simp: consulted_def)
      then obtain u where u: "u \<in> cdc_versions ?data d" "dv_id u = dv_id v"
        using rows by (auto simp: dataset_rows_def dest!: row_version)
      then have "u = v" using inv \<open>v \<in> set (dd_versions ?data)\<close> distinct_map_keyD[of dv_id "dd_versions ?data" u v]
        by (auto simp: data_inv_def data_ok_def cdc_versions_def)
      then have "latest (map er_event (window db (dv_id v))) k = Some None" using stored[OF u(1)] that(2) by (simp add: window_stored_def)
      then show ?thesis using m(3)[OF u(1)] \<open>u = v\<close> row_version[OF r(1)] by simp
    qed
    ultimately have "stands (consulted ?data rows) rows r" using r(2) by (simp add: stands_def)
    then show ?thesis using in_rows r(2) content by blast
  qed
qed

section \<open>Current data\<close>

lemma read_stored:
  assumes "\<forall>v\<in>set vs. f v = Some (Inr (rows_of v))" shows "read_each f vs = Some (Inr (concat (map rows_of vs)))"
  using assms by (induction vs) auto

lemma version_rows_distinct:
  assumes recs: "distinct (map sr_id (dd_records data))" and vs: "distinct (map dv_id vs)"
  shows "distinct (map sr_id (concat (map (\<lambda>v. in_time_order (version_rows data (dv_id v))) vs)))"
  using vs
proof (induction vs)
  case (Cons v vs)
  let ?rest = "concat (map (\<lambda>v. in_time_order (version_rows data (dv_id v))) vs)"
  have "distinct (map sr_id (in_time_order (version_rows data (dv_id v))))"
    by (rule distinct_in_time_order) (simp add: version_rows_def distinct_map_filter recs)
  moreover have "sr_id r \<noteq> sr_id q" if "r \<in> set (in_time_order (version_rows data (dv_id v)))" "q \<in> set ?rest" for r q
  proof
    assume "sr_id r = sr_id q"
    moreover have "r \<in> set (dd_records data)" "q \<in> set (dd_records data)" using that by (auto simp: in_time_order_def version_rows_def)
    ultimately have "r = q" using distinct_map_keyD[OF recs] by blast
    then show False using that Cons.prems by (auto simp: in_time_order_def version_rows_def)
  qed
  ultimately show ?case using Cons by auto
qed simp

lemma dataset_versions:
  assumes ok: "data_ok data" and ls: "list_versions d data = Inr vs"
  shows "set (filter (\<lambda>v. dv_kind v = CDC) vs) = cdc_versions data d" "distinct (map dv_id vs)" "set vs \<subseteq> set (dd_versions data)"
proof -
  obtain x where x: "by_key ds_name d (dd_datasets data) = Some x"
      "vs = sort_key dv_id (filter (\<lambda>v. dv_dataset v = ds_id x) (dd_versions data))"
    using ls by (auto simp: list_versions_def get_dataset_def raised_def bindR_eq_Inr split: option.splits)
  have m: "x \<in> set (dd_datasets data)" "ds_name x = d" using by_key_Some[OF x(1)] by auto
  have "named data v d \<longleftrightarrow> dv_dataset v = ds_id x" for v
  proof
    assume "named data v d"
    then obtain y where y: "y \<in> set (dd_datasets data)" "ds_id y = dv_dataset v" "ds_name y = ds_name x" using m(2) by (auto simp: named_def)
    then have "y = x" using ok m(1) by (auto simp: data_ok_def dest: distinct_map_keyD)
    then show "dv_dataset v = ds_id x" using y(2) by simp
  qed (use m in \<open>auto simp: named_def\<close>)
  then show "set (filter (\<lambda>v. dv_kind v = CDC) vs) = cdc_versions data d" by (auto simp: x(2) cdc_versions_def)
  show "distinct (map dv_id vs)" using ok by (simp add: x(2) data_ok_def distinct_map inj_on_def)
  show "set vs \<subseteq> set (dd_versions data)" by (auto simp: x(2))
qed

lemma found_versions: "\<forall>v\<in>set us. version_by_id data (dv_id v) = Some v \<Longrightarrow> find_versions data (map dv_id us) = Inr us"
  by (induction us) (auto simp: find_versions_def)

lemma loaded_dataset_rows:
  assumes inv: "data_inv db" and ls: "list_versions d (cd_data db) = Inr vs"
    and ld: "load_records (Suc fuel) read mx (cd_data db) (map dv_id (filter (\<lambda>v. dv_kind v = CDC) vs)) required = Some (Inr rows)"
  shows "dataset_rows (cd_data db) d rows"
proof -
  let ?data = "cd_data db"
  define cdcs where "cdcs = filter (\<lambda>v. dv_kind v = CDC) vs"
  have ok: "data_ok ?data" using inv by (simp add: data_inv_def)
  note V = dataset_versions[OF ok ls, folded cdcs_def]
  have "find_versions ?data (map dv_id cdcs) = Inr cdcs"
    using known_version[OF ok] V(3) by (intro found_versions) (auto simp: cdcs_def)
  then have checked: "checked_versions mx ?data (map dv_id cdcs) = Inr cdcs"
    using ld by (cases "check_ceiling mx cdcs") (auto simp: checked_versions_def cdcs_def)
  have stored: "dv_storage v = Stored_Rows" if "v \<in> set cdcs" for v
    using that V(1) window_of_dataset(1)[OF inv] by (auto simp: version_window_def)
  define rows_of where "rows_of v = in_time_order (version_rows ?data (dv_id v))" for v :: version_row
  have "read_each (\<lambda>v. case dv_storage v of
             Stored_Rows \<Rightarrow> Some (Inr (in_time_order (version_rows ?data (dv_id v))))
           | Stored_Reference _ \<Rightarrow> Some (bindR (read v) (\<lambda>rows. Inr (reference_rows (dv_id v) rows)))
           | Stored_Derived sources excluded \<Rightarrow> map_option (\<lambda>r. bindR r (\<lambda>rows.
               Inr (derived_rows (dv_id v) excluded rows))) (load_records fuel read mx ?data sources False)) cdcs
      = Some (Inr (concat (map rows_of cdcs)))"
    by (rule read_stored) (simp add: stored rows_of_def)
  then have rows: "rows = in_time_order (concat (map rows_of cdcs))"
    using ld checked by (simp add: cdcs_def[symmetric] raised_def split: if_splits)
  have "distinct (map dv_id cdcs)" using V(2) by (simp add: cdcs_def distinct_map_filter)
  then have "distinct (map sr_id (concat (map rows_of cdcs)))"
    using version_rows_distinct[of ?data cdcs] ok by (simp add: rows_of_def[abs_def] data_ok_def)
  then show ?thesis using V(1) distinct_in_time_order unfolding dataset_rows_def rows
    by (auto simp: in_time_order_def rows_of_def)
qed

text \<open>When everything is read, the table is what the events say.\<close>

lemma all_read_table:
  assumes inv: "cdc_inv cf s" and read_all: "\<forall>r\<in>set (watched cf (sy_log s)). cl_seq r \<le> offset_of (sy_db s) (polling_name (cf_table cf))"
  shows "slice cf (sy_table s) d k = replayed (map er_event (cd_events (sy_db s))) d k"
proof -
  have log: "log_inv cf s" using inv by (simp add: cdc_inv_def)
  obtain A B where AB: "read_upto cf s A B" using inv by (auto simp: cdc_inv_def)
  then have w: "watched cf (sy_log s) = A @ B" by (simp add: read_upto_def)
  have "\<forall>r\<in>set (A @ B). cl_seq r \<le> at_seq A" using read_all AB by (simp add: read_upto_def)
  then have "filter (\<lambda>r. at_seq A < cl_seq r) (A @ B) = []" by (auto simp: filter_empty_conv not_less)
  moreover have "filter (\<lambda>r. at_seq A < cl_seq r) (A @ B) = B"
    by (rule unread_rows(1)) (use increasing_watched[OF log] watched_ok[OF log] in \<open>auto simp: w\<close>)
  ultimately have "B = []" by simp
  then show ?thesis using AB log by (simp add: log_inv_def read_upto_def)
qed

text \<open>A version of changes that counts a row has one.\<close>

lemma counted_version_full:
  assumes data: "data_inv db" and v: "v \<in> cdc_versions (cd_data db) d" and n: "0 < dv_count v"
  shows "version_rows (cd_data db) (dv_id v) \<noteq> []"
proof -
  have "version_ok (cd_data db) v" "dv_storage v = Stored_Rows"
    using data v window_of_dataset(1)[OF data v] by (auto simp: data_inv_def data_ok_def cdc_versions_def version_window_def)
  then show ?thesis using n by (auto simp: version_ok_def rows_ok_def)
qed

text \<open>C14. The data store gives back the watched table. Let every change keep the key and the dataset of its row and leave an image
  with a time and an object as its payload, let the changelog rows of the table become visible in the order of their numbers,
  and let no version of the dataset hold deletions only. Then, whatever was changed, polled, lost and polled again,
  materialized and stored besides, once all changes are read and the dataset has no pending events, reading its versions of
  net changes and cleaning the rows keeps exactly the rows the table has of the dataset: every kept row is the row of its key,
  and every row of the table is kept or has the time and columns of one that is. (The conditions are needed:
  \<open>lone_deletion_is_ignored\<close>, \<open>moved_row_stays_in_old_dataset\<close>, \<open>late_row_is_lost\<close>.)\<close>

theorem cleaned_versions_are_the_table:
  assumes cf: "config_ok cf" and run: "reach (\<lambda>s. s = cdc_start) (cdc_step cf) s"
    and order: "commit_order cf s"
    and read_all: "\<forall>r\<in>set (watched cf (sy_log s)). cl_seq r \<le> offset_of (sy_db s) (polling_name (cf_table cf))"
    and none: "pending_events (sy_db s) d = []"
    and vs: "list_versions d (cd_data (sy_db s)) = Inr vs" and nonempty: "\<forall>v\<in>set vs. dv_kind v = CDC \<longrightarrow> 0 < dv_count v"
    and ld: "load_records (Suc fuel) rd mx (cd_data (sy_db s)) (map dv_id (filter (\<lambda>v. dv_kind v = CDC) vs)) required = Some (Inr rows)"
    and clean: "clean_records (cd_data (sy_db s)) [] rows = (kept, q)"
  shows "(\<forall>r\<in>set kept. \<exists>k img. sr_key r = Some k \<and> slice cf (sy_table s) d k = Some img \<and> same_content (sr_observed r) (sr_payload r) img)
    \<and> (\<forall>k img. slice cf (sy_table s) d k = Some img \<longrightarrow> (\<exists>r\<in>set kept. im_observed img = Some (sr_observed r)
        \<and> (\<forall>c. c \<noteq> ''__observed_at'' \<longrightarrow> canon (dget (sr_payload r) c) = canon (dget (members (im_payload img)) c))))"
proof -
  let ?db = "sy_db s" and ?data = "cd_data (sy_db s)"
  have inv: "cdc_inv cf s" using cdc.reach_I[OF run] cf order by simp
  then have data: "data_inv ?db" and ok: "data_ok ?data" by (auto simp: cdc_inv_def data_inv_def)
  have rows: "dataset_rows ?data d rows" by (rule loaded_dataset_rows[OF data vs ld])
  note table = all_read_table[OF inv read_all]
  have full: "version_rows ?data (dv_id v) \<noteq> []" if v: "v \<in> cdc_versions ?data d" for v
    using counted_version_full[OF data v] nonempty v dataset_versions(1)[OF ok vs] by (auto simp: cdc_versions_def)
  note S = standing_rows[OF data none rows full]
  have kept: "kept = fst (clean_records ?data [] rows)" using clean by simp
  have ids: "distinct (map sr_id rows)" using rows by (simp add: dataset_rows_def)
  have "\<exists>k img. sr_key r = Some k \<and> slice cf (sy_table s) d k = Some img \<and> same_content (sr_observed r) (sr_payload r) img"
    if "r \<in> set kept" for r using kept_stands[of r ?data "[]" rows] that S(1)[of r] by (simp add: table kept)
  moreover have "\<exists>r\<in>set kept. im_observed img = Some (sr_observed r)
        \<and> (\<forall>c. c \<noteq> ''__observed_at'' \<longrightarrow> canon (dget (sr_payload r) c) = canon (dget (members (im_payload img)) c))"
    if sl: "slice cf (sy_table s) d k = Some img" for k img
  proof -
    obtain r where r: "r \<in> set rows" "stands (consulted ?data rows) rows r" "same_content (sr_observed r) (sr_payload r) img"
      using S(2)[of k img] sl by (auto simp: table)
    obtain p where p: "p \<in> set kept" "signature p = signature r"
      using standing_kept[OF ids r(1,2), of "[]"] by (auto simp: has_columns_def kept)
    have "sr_observed p = sr_observed r" using p(2) by (simp add: signature_def)
    then show ?thesis
      by (intro bexI[of _ p] conjI) (use p r(3) signature_member[OF p(2)] in \<open>auto simp: same_content_def\<close>)
  qed
  ultimately show ?thesis by blast
qed

end
