(* ===== verification/Cdc_Demo.thy ===== *)
theory Cdc_Demo
  imports Cdc_Refine
begin

text \<open>
  Runs of the data store and of change data capture, evaluated: the witnesses of their properties.
\<close>

section \<open>Parameters\<close>

text \<open>A hash without collisions between events: it writes the strings down one after the other.\<close>

primrec write_string :: "string \<Rightarrow> string \<Rightarrow> string" where
  "write_string [] rest = CHR ''b'' # rest"
| "write_string (c # s) rest = CHR ''a'' # c # write_string s rest"

primrec write_strings :: "string list \<Rightarrow> string" where
  "write_strings [] = []"
| "write_strings (s # ss) = write_string s (write_strings ss)"

lemma write_string_inject: "write_string s r = write_string s' r' \<longleftrightarrow> s = s' \<and> r = r'"
  by (induction s arbitrary: s'; case_tac s') auto

lemma write_strings_inject: "write_strings xs = write_strings ys \<longleftrightarrow> xs = ys"
proof (induction xs arbitrary: ys)
  case Nil
  have "write_string s r \<noteq> []" for s r by (cases s) auto
  then show ?case by (cases ys) (auto dest: sym)
next
  case (Cons x xs)
  have "write_string s r \<noteq> []" for s r by (cases s) auto
  then show ?case by (cases ys) (auto simp: Cons write_string_inject)
qed

definition demo_env :: data_env where
  "demo_env = \<lparr>de_hash = (\<lambda>h. case h of Hashed_Event xs \<Rightarrow> write_strings xs | Hashed_Rows rs \<Rightarrow> show_nat (length rs)
       | Hashed_Keyed d ks del \<Rightarrow> d @ (case ks of None \<Rightarrow> ''n'' | Some _ \<Rightarrow> ''k'') @ write_strings del),
     de_stamp = (\<lambda>v. case v of JTime t \<Rightarrow> Inr t | _ \<Rightarrow> Inl (Python_Error ''ValueError'')), de_now = 0\<rparr>"

definition demo_capture :: cdc_config where
  "demo_capture = \<lparr>cf_env = demo_env, cf_table = ''kpis'', cf_schema = ''1.0'', cf_mapping = default_mapping,
     cf_shown = (\<lambda>v. case v of JStr s \<Rightarrow> s | _ \<Rightarrow> []), cf_batch = 2, cf_max_tx = 10\<rparr>"

lemma demo_capture_ok: "config_ok demo_capture"
  by (simp add: config_ok_def demo_capture_def demo_env_def stamps_right_def hash_right_def write_strings_inject)

section \<open>Runs\<close>

datatype demo_act = Commit nat row_change | Do row_change | Poll | Materialize string

text \<open>\<open>Do\<close> is a change whose row takes the next number, \<open>Commit\<close> one whose row took its number before.\<close>

definition commit_row :: "nat \<Rightarrow> row_change \<Rightarrow> cdc_sys \<Rightarrow> cdc_sys" where
  "commit_row seq ch s = s\<lparr>sy_table := apply_change demo_capture ch (sy_table s),
     sy_log := sy_log s @ [trigger_row (cf_shown demo_capture) (cf_table demo_capture) (mp_key (cf_mapping demo_capture)) seq ''t'' 7 ch]\<rparr>"

fun perform :: "demo_act \<Rightarrow> cdc_sys \<Rightarrow> cdc_sys" where
  "perform (Commit seq ch) s = commit_row seq ch s"
| "perform (Do ch) s = commit_row (Suc (length (sy_log s))) ch s"
| "perform Poll s = s\<lparr>sy_db := snd (run_cdc_once False (cf_batch demo_capture) (source_of demo_capture (sy_log s)) (sy_db s))\<rparr>"
| "perform (Materialize d) s = s\<lparr>sy_db := snd (projr (materialize_cdc (cf_env demo_capture) (cf_max_tx demo_capture) d (sy_db s)))\<rparr>"

fun performs :: "demo_act list \<Rightarrow> cdc_sys \<Rightarrow> bool" where
  "performs [] s \<longleftrightarrow> True"
| "performs (a # acts) s \<longleftrightarrow> (case a of
       Commit seq ch \<Rightarrow> change_ok demo_capture (sy_table s) ch \<and> new_seq seq (sy_log s)
     | Do ch \<Rightarrow> change_ok demo_capture (sy_table s) ch \<and> new_seq (Suc (length (sy_log s))) (sy_log s)
     | Poll \<Rightarrow> True
     | Materialize d \<Rightarrow> \<not> isl (materialize_cdc (cf_env demo_capture) (cf_max_tx demo_capture) d (sy_db s)))
     \<and> performs acts (perform a s)"

abbreviation capture_reach :: "cdc_sys \<Rightarrow> bool" where
  "capture_reach \<equiv> reach (\<lambda>s. s = cdc_start) (cdc_step demo_capture)"

lemma performs_reach: "performs acts s \<Longrightarrow> capture_reach s \<Longrightarrow> capture_reach (fold perform acts s)"
proof (induction acts arbitrary: s)
  case (Cons a acts)
  have "cdc_step demo_capture s (perform a s)"
  proof (cases a)
    case (Commit seq ch)
    then show ?thesis using Cons.prems(1) cdc_step.changed[of demo_capture s ch seq "''t''" 7] by (simp add: commit_row_def)
  next
    case (Do ch)
    then show ?thesis using Cons.prems(1) cdc_step.changed[of demo_capture s ch "Suc (length (sy_log s))" "''t''" 7]
      by (simp add: commit_row_def)
  next
    case Poll
    show ?thesis unfolding Poll perform.simps by (rule cdc_step.polled[OF prod.collapse[symmetric]])
  next
    case (Materialize d)
    obtain v db where "materialize_cdc (cf_env demo_capture) (cf_max_tx demo_capture) d (sy_db s) = Inr (v, db)"
      using Cons.prems(1) Materialize by (cases "materialize_cdc (cf_env demo_capture) (cf_max_tx demo_capture) d (sy_db s)") auto
    from cdc_step.materialized[OF this] this show ?thesis by (simp add: Materialize)
  qed
  then show ?case using Cons by (auto intro: reach.more)
qed simp

lemma demo_reach: "performs acts cdc_start \<Longrightarrow> capture_reach (fold perform acts cdc_start)"
  by (rule performs_reach) (auto intro: reach.start)

text \<open>Two rows are inserted, read and materialized; then one is updated and the other deleted.\<close>

definition demo_row :: "string \<Rightarrow> time \<Rightarrow> rat \<Rightarrow> dict" where
  "demo_row k t x = [(''id'', JStr k), (''dataset_id'', JStr ''kpi''), (''observed_at'', JTime t), (''payload'', JText (JObj [(''x'', JNum x)]))]"

definition demo_inserts :: "demo_act list" where
  "demo_inserts = [Do (Insert_Row (demo_row ''k1'' 1 3)), Do (Insert_Row (demo_row ''k2'' 2 5))]"

definition demo_acts :: "demo_act list" where
  "demo_acts = demo_inserts @ [Poll, Materialize ''kpi'', Do (Update_Row (demo_row ''k1'' 1 3) (demo_row ''k1'' 3 4)),
     Do (Delete_Row (demo_row ''k2'' 2 5)), Poll, Materialize ''kpi'']"

definition demo_sys :: cdc_sys where "demo_sys = fold perform demo_acts cdc_start"

lemma demo_inserted: "capture_reach (fold perform demo_inserts cdc_start)"
  by (rule demo_reach) code_simp

lemma demo_sys_reached: "capture_reach demo_sys"
  unfolding demo_sys_def by (rule demo_reach) code_simp

lemma demo_sys_eval:
  "offset_of (sy_db demo_sys) (polling_name (cf_table demo_capture)) = 4" "length (cd_events (sy_db demo_sys)) = 4"
  "list_all (\<lambda>r. cl_seq r \<le> 4) (watched demo_capture (sy_log demo_sys))" "pending_events (sy_db demo_sys) ''kpi'' = []"
  by code_simp+

lemma demo_in_order: "commit_order demo_capture demo_sys" "commit_order demo_capture (fold perform demo_inserts cdc_start)"
  unfolding commit_order_def increasing_def by code_simp+

section \<open>Witnesses of change data capture\<close>

abbreviation "demo_store \<equiv> cd_data (sy_db demo_sys)"

definition demo_versions :: "version_row list" where "demo_versions = projr (list_versions ''kpi'' demo_store)"

definition demo_loaded :: "stored_row list" where
  "demo_loaded = projr (the (load_records (Suc 0) (\<lambda>_. Inr []) 100 demo_store (map dv_id (filter (\<lambda>v. dv_kind v = CDC) demo_versions)) True))"

lemma demo_read:
  "list_versions ''kpi'' demo_store = Inr demo_versions" "list_all (\<lambda>v. 0 < dv_count v) demo_versions"
  "load_records (Suc 0) (\<lambda>_. Inr []) 100 demo_store (map dv_id (filter (\<lambda>v. dv_kind v = CDC) demo_versions)) True = Some (Inr demo_loaded)"
  "map (\<lambda>r. (sr_key r, dget (sr_payload r) ''x'')) (fst (clean_records demo_store [] demo_loaded)) = [(Some ''k1'', JNum 4)]"
  by code_simp+

lemma cleaned_versions_are_the_table_witness:
  "map (\<lambda>r. (sr_key r, dget (sr_payload r) ''x'')) (fst (clean_records demo_store [] demo_loaded)) = [(Some ''k1'', JNum 4)]
    \<and> list_all (\<lambda>r. \<exists>k img. sr_key r = Some k \<and> slice demo_capture (sy_table demo_sys) ''kpi'' k = Some img
      \<and> same_content (sr_observed r) (sr_payload r) img) (fst (clean_records demo_store [] demo_loaded))"
proof -
  have "\<forall>r\<in>set (watched demo_capture (sy_log demo_sys)). cl_seq r \<le> offset_of (sy_db demo_sys) (polling_name (cf_table demo_capture))"
    using demo_sys_eval(1,3) by (simp add: list_all_iff)
  moreover have "\<forall>v\<in>set demo_versions. dv_kind v = CDC \<longrightarrow> 0 < dv_count v" using demo_read(2) by (simp add: list_all_iff)
  ultimately show ?thesis
    using cleaned_versions_are_the_table[OF demo_capture_ok demo_sys_reached demo_in_order(1) _ demo_sys_eval(4) demo_read(1) _ demo_read(3) prod.collapse[symmetric]]
      demo_read(4) unfolding list_all_iff by blast
qed

lemma changes_stored_once_witness:
  "length (cd_events (sy_db demo_sys)) = 4 \<and> distinct (map (ev_id \<circ> er_event) (cd_events (sy_db demo_sys)))
    \<and> map er_event (cd_events (sy_db demo_sys)) = map (event_of demo_capture)
      (filter (\<lambda>r. cl_seq r \<le> offset_of (sy_db demo_sys) (polling_name (cf_table demo_capture))) (watched demo_capture (sy_log demo_sys)))"
  using changes_stored_once[OF demo_capture_ok demo_sys_reached] demo_in_order(1) demo_sys_eval(2) by blast

text \<open>The four events delivered again, with a repetition inside the batch.\<close>

definition demo_batches :: "(cdc_event list \<times> string \<times> string option) list" where
  "demo_batches = (let es = map er_event (cd_events (sy_db demo_sys)) in [(es @ es, ''c'', Some ''4''), (es, ''c'', None)])"

lemma demo_events_increase: "increasing (map er_id (cd_events (sy_db demo_sys)))"
  unfolding increasing_def by code_simp

lemma redelivery_is_harmless_witness:
  "\<exists>after. after = fold (\<lambda>(es, consumer, position) db. snd (store_events es consumer position db)) demo_batches (sy_db demo_sys)
    \<and> cd_data after = demo_store
    \<and> map er_event (cd_events after) = map er_event (cd_events (sy_db demo_sys)) @ first_seen (event_ids (sy_db demo_sys)) (concat (map fst demo_batches))"
  using redelivery_is_harmless[OF demo_events_increase refl, of demo_batches] by simp

lemma consumer_catches_up_witness:
  "\<exists>r db. run_cdc 2 (\<lambda>_. source_of demo_capture (sy_log (fold perform demo_inserts cdc_start))) 1 (sy_db (fold perform demo_inserts cdc_start)) = (r, db)
    \<and> map (ev_pk \<circ> er_event) (cd_events db) = [''k1'', ''k2'']
    \<and> map er_event (cd_events db) = map (event_of demo_capture) (watched demo_capture (sy_log (fold perform demo_inserts cdc_start)))"
proof -
  let ?s = "fold perform demo_inserts cdc_start"
  let ?unread = "filter (\<lambda>r. offset_of (sy_db ?s) (polling_name (cf_table demo_capture)) < cl_seq r) (watched demo_capture (sy_log ?s))"
  obtain r db where run: "run_cdc 2 (\<lambda>_. source_of demo_capture (sy_log ?s)) 1 (sy_db ?s) = (r, db)" by (rule prod.exhaust)
  have b: "cf_batch demo_capture = 2" by (simp add: demo_capture_def)
  have "length ?unread \<le> 1 * cf_batch demo_capture" by code_simp
  moreover have "map (ev_pk \<circ> event_of demo_capture) (watched demo_capture (sy_log ?s)) = [''k1'', ''k2'']" by code_simp
  ultimately show ?thesis
    using consumer_catches_up[OF demo_capture_ok demo_inserted demo_in_order(2) run[folded b]] run by (auto simp flip: map_map)
qed

section \<open>Witnesses of the data store\<close>

definition demo_upload :: "string \<Rightarrow> string option \<Rightarrow> rat \<Rightarrow> ingest" where
  "demo_upload name par x = \<lparr>in_dataset = ''kpi'', in_version = name,
     in_frame = frame_of [[(''x'', JNum x), (''t'', JTime 1)], [(''x'', JNum 2), (''t'', JTime 2)]], in_kind = HISTORICAL,
     in_stamps = Stamp_Column ''t'', in_parent = par, in_link = None, in_keys = None, in_deleted = [], in_range = None, in_tx = None\<rparr>"

definition stored_by :: "ingest \<Rightarrow> data_db \<Rightarrow> version_row \<times> bool \<times> data_db" where
  "stored_by a db = projr (ingest_version demo_env a db)"

definition demo_db1 :: data_db where "demo_db1 = snd (snd (stored_by (demo_upload ''v1'' None 1) empty_store))"
definition demo_db2 :: data_db where "demo_db2 = snd (snd (stored_by (demo_upload ''v2'' (Some ''v1'') 7) demo_db1))"
definition demo_v1 :: version_row where "demo_v1 = fst (stored_by (demo_upload ''v1'' None 1) empty_store)"
definition demo_v2 :: version_row where "demo_v2 = fst (stored_by (demo_upload ''v2'' (Some ''v1'') 7) demo_db1)"

lemma demo_uploaded:
  "ingest_version demo_env (demo_upload ''v1'' None 1) empty_store = Inr (demo_v1, True, demo_db1)"
  "ingest_version demo_env (demo_upload ''v2'' (Some ''v1'') 7) demo_db1 = Inr (demo_v2, True, demo_db2)"
  "dd_versions demo_db1 = [demo_v1]" "dd_versions demo_db2 = [demo_v1, demo_v2]"
  by code_simp+

lemma demo_data_steps: "reach (\<lambda>db. db = empty_store) data_step demo_db1" "data_step\<^sup>*\<^sup>* demo_db1 demo_db2"
  "data_step\<^sup>*\<^sup>* empty_store demo_db2"
  using data_step.ingested[OF demo_uploaded(1)] data_step.ingested[OF demo_uploaded(2)]
  by (auto intro: reach.more[OF reach.start] converse_rtranclp_into_rtranclp)

lemma demo_db_ok: "data_ok demo_db1" "data_ok demo_db2"
  using store.reach_I[OF demo_data_steps(1)] store.later_I[OF demo_data_steps(2)] by blast+

lemma versions_are_immutable_witness:
  "dd_versions demo_db2 = [demo_v1, demo_v2] \<and> version_rows demo_db2 (dv_id demo_v1) = version_rows demo_db1 (dv_id demo_v1)"
  using versions_are_immutable[OF demo_data_steps(1,2)] demo_uploaded(3,4) by simp




text \<open>An upload without times, stamped with the clock at 0 and sent again at 9. The hash tells the first row's time.\<close>

definition clocked_env :: "time \<Rightarrow> data_env" where
  "clocked_env now = demo_env\<lparr>de_now := now, de_hash := (\<lambda>h. case h of
     Hashed_Rows (JObj d # _) \<Rightarrow> if dget d ''observed_at'' = JTime 0 then ''early'' else ''late'' | _ \<Rightarrow> ''other'')\<rparr>"

definition unstamped_upload :: ingest where
  "unstamped_upload = \<lparr>in_dataset = ''kpi'', in_version = ''v1'', in_frame = frame_of [[(''x'', JNum 1)]], in_kind = HISTORICAL,
     in_stamps = Stamp_Start None 1, in_parent = None, in_link = None, in_keys = None, in_deleted = [], in_range = None, in_tx = None\<rparr>"

lemma unstamped_upload_conflicts:
  "\<exists>v db. ingest_version (clocked_env 0) unstamped_upload empty_store = Inr (v, True, db)
    \<and> ingest_version (clocked_env 0) unstamped_upload db = Inr (v, False, db)
    \<and> ingest_version (clocked_env 9) unstamped_upload db = raised DataVersionConflictError"
proof -
  define r where "r = ingest_version (clocked_env 0) unstamped_upload empty_store"
  have "case r of Inr (v, new, db) \<Rightarrow> new \<and> ingest_version (clocked_env 0) unstamped_upload db = Inr (v, False, db)
    \<and> ingest_version (clocked_env 9) unstamped_upload db = raised DataVersionConflictError | _ \<Rightarrow> False"
    unfolding r_def by code_simp
  then show ?thesis unfolding r_def by (auto split: sum.splits)
qed

lemma stored_versions_verify_witness: "verify_matches (demo_env\<lparr>de_now := 9\<rparr>) demo_db2 demo_v1"
  by (rule stored_versions_verify[OF empty_ok demo_uploaded(1) demo_data_steps(2)]) (simp add: demo_upload_def)

lemma lineage_is_path_to_root_witness:
  "\<exists>chain links. lineage ''kpi'' ''v2'' demo_db2 = Inr (chain, links) \<and> length chain = 2 \<and> dv_parent (last chain) = None"
proof -
  have "\<not> isl (lineage ''kpi'' ''v2'' demo_db2)" "length (fst (projr (lineage ''kpi'' ''v2'' demo_db2))) = 2" by code_simp+
  then obtain chain links where l: "lineage ''kpi'' ''v2'' demo_db2 = Inr (chain, links)" "length chain = 2"
    by (cases "lineage ''kpi'' ''v2'' demo_db2") auto
  then show ?thesis using lineage_is_path_to_root[OF demo_db_ok(2) l(1)] by blast
qed

lemma reading_returns_witness:
  "\<exists>r. load_records 4 (\<lambda>_. Inr []) 100 demo_db2 [1, 2] True = Some r \<and> load_records 9 (\<lambda>_. Inr []) 100 demo_db2 [1, 2] True = Some r"
proof -
  have "\<exists>r. \<forall>fuel>3. load_records fuel (\<lambda>_. Inr []) 100 demo_db2 [1, 2] True = Some r"
    by (rule reading_returns[OF demo_db_ok(2)]) simp
  then show ?thesis by fastforce
qed

text \<open>Four rows of version 1, two of a key and one that repeats a row without a key, and a row of version 2,
  which deletes the key.\<close>

definition demo_dirty :: "stored_row list" where
  "demo_dirty = map (\<lambda>(i, v, k, x). \<lparr>sr_id = i, sr_version = v, sr_observed = 1, sr_payload = [(''x'', JNum x)], sr_key = k\<rparr>)
     [(1, 1, Some ''k'', 1), (2, 1, Some ''k'', 2), (3, 1, None, 2), (4, 1, None, 3), (5, 2, Some ''j'', 2)]"

definition demo_deleting :: data_db where
  "demo_deleting = empty_store\<lparr>dd_versions := [demo_v1, demo_v2\<lparr>dv_deleted := [''k'']\<rparr>]\<rparr>"

lemma cleaning_keeps_newest_witness:
  "\<exists>kept q. clean_records demo_deleting [''x''] demo_dirty = (kept, q) \<and> map sr_id kept = [3, 4] \<and> distinct (map signature kept)
    \<and> list_all (stands (dd_versions demo_deleting) demo_dirty) kept
    \<and> qu_conflicts q + qu_deleted q + qu_duplicates q + qu_rejected q + qu_output q = qu_input q"
proof -
  obtain kept q where run: "clean_records demo_deleting [''x''] demo_dirty = (kept, q)" by (rule prod.exhaust)
  have "map sr_id (fst (clean_records demo_deleting [''x''] demo_dirty)) = [3, 4]" by code_simp
  moreover have "distinct (map sr_id demo_dirty)" by (simp add: demo_dirty_def)
  moreover have "read_from demo_deleting (dd_versions demo_deleting) demo_dirty" by code_simp
  ultimately show ?thesis using cleaning_keeps_newest[OF _ _ run] run by (metis fst_conv list_all_iff)
qed

end
