(* ===== verification/Cdc_Findings.thy ===== *)
theory Cdc_Findings
  imports Cdc_Demo
begin

text \<open>
  What modelling the data store and change data capture showed: runs in which a deleted, a moved
  or a late row is not treated as the documentation says.
\<close>

section \<open>Deletions\<close>

definition captured_store :: "demo_act list \<Rightarrow> data_db" where
  "captured_store acts = cd_data (sy_db (fold perform acts cdc_start))"

definition captured_rows :: "data_db \<Rightarrow> nat list \<Rightarrow> stored_row list" where
  "captured_rows db ids = projr (the (load_records (Suc 0) (\<lambda>_. Inr []) 100 db ids False))"

definition deleting_acts :: "demo_act list" where
  "deleting_acts = [Do (Insert_Row (demo_row ''k1'' 1 3)), Poll, Materialize ''kpi'', Do (Delete_Row (demo_row ''k1'' 1 3)), Poll,
     Materialize ''kpi'']"

text \<open>
  A version that holds deletions only has no rows, and cleaning looks at the deletions of versions
  with rows only: the deleted row is kept although all versions are read and nothing is pending.
\<close>

lemma lone_deletion_is_ignored:
  "\<exists>s. s = fold perform deleting_acts cdc_start \<and> capture_reach s \<and> sy_table s ''k1'' = None \<and> pending_events (sy_db s) ''kpi'' = []
    \<and> map dv_deleted (dd_versions (cd_data (sy_db s))) = [[], [''k1'']]
    \<and> map sr_key (fst (clean_records (cd_data (sy_db s)) [] (captured_rows (cd_data (sy_db s)) [1, 2]))) = [Some ''k1'']"
proof -
  have "capture_reach (fold perform deleting_acts cdc_start)" by (rule demo_reach) code_simp
  moreover have "sy_table (fold perform deleting_acts cdc_start) ''k1'' = None" by code_simp
  moreover have "pending_events (sy_db (fold perform deleting_acts cdc_start)) ''kpi'' = []" by code_simp
  moreover have "map dv_deleted (dd_versions (captured_store deleting_acts)) = [[], [''k1'']]" by code_simp
  moreover have "map sr_key (fst (clean_records (captured_store deleting_acts) [] (captured_rows (captured_store deleting_acts) [1, 2])))
      = [Some ''k1'']" by code_simp
  ultimately show ?thesis by (simp add: captured_store_def)
qed

text \<open>Such a version is hashed with an empty list of keys and verified without one: it is reported as altered.\<close>

lemma lone_deletion_fails_verification:
  "map (verify_matches demo_env (captured_store deleting_acts)) (dd_versions (captured_store deleting_acts)) = [True, False]"
  by code_simp

section \<open>Moves\<close>

text \<open>
  An update that moves a row to another dataset is an event of the new dataset only: the old one
  keeps the row.
\<close>

definition demo_moved :: dict where
  "demo_moved = [(''id'', JStr ''k1''), (''dataset_id'', JStr ''other''), (''observed_at'', JTime 2), (''payload'', JText (JObj [(''x'', JNum 3)]))]"

definition moving_acts :: "demo_act list" where
  "moving_acts = [Do (Insert_Row (demo_row ''k1'' 1 3)), Poll, Materialize ''kpi'', Do (Update_Row (demo_row ''k1'' 1 3) demo_moved), Poll,
     Materialize ''other'', Materialize ''kpi'']"

lemma moved_row_stays_in_old_dataset:
  "map_option (slice demo_capture (sy_table (fold perform moving_acts cdc_start)) ''kpi'') (Some ''k1'') = Some None
    \<and> pending_events (sy_db (fold perform moving_acts cdc_start)) ''kpi'' = []
    \<and> map dv_id (projr (list_versions ''kpi'' (captured_store moving_acts))) = [1]
    \<and> map sr_key (fst (clean_records (captured_store moving_acts) [] (captured_rows (captured_store moving_acts) [1]))) = [Some ''k1'']"
  by (intro conjI) code_simp+

section \<open>Late rows\<close>

text \<open>
  A changelog row takes its number before its transaction commits. One that commits after a row
  with a higher number was read is not read any more, whatever the limit.
\<close>

lemma late_row_is_skipped:
  "cl_seq r \<le> offset_of db (polling_name table) \<Longrightarrow> r \<notin> set (poll_rows table (offset_of db (polling_name table)) limit changes)"
  by (auto simp: poll_rows_def dest!: in_set_takeD)

definition late_acts :: "demo_act list" where
  "late_acts = [Commit 2 (Insert_Row (demo_row ''k2'' 1 3)), Poll, Commit 1 (Insert_Row (demo_row ''k1'' 1 3)), Poll, Poll]"

lemma late_row_is_lost:
  "\<exists>s. s = fold perform late_acts cdc_start \<and> capture_reach s \<and> sy_table s ''k1'' = Some (demo_row ''k1'' 1 3)
    \<and> list_all (\<lambda>r. cl_seq r \<le> offset_of (sy_db s) (polling_name (cf_table demo_capture))) (watched demo_capture (sy_log s))
    \<and> map (ev_pk \<circ> er_event) (cd_events (sy_db s)) = [''k2'']"
proof -
  have "capture_reach (fold perform late_acts cdc_start)" by (rule demo_reach) code_simp
  moreover have "sy_table (fold perform late_acts cdc_start) ''k1'' = Some (demo_row ''k1'' 1 3)" by code_simp
  moreover have "list_all (\<lambda>r. cl_seq r \<le> offset_of (sy_db (fold perform late_acts cdc_start)) (polling_name (cf_table demo_capture)))
      (watched demo_capture (sy_log (fold perform late_acts cdc_start)))" by code_simp
  moreover have "map (ev_pk \<circ> er_event) (cd_events (sy_db (fold perform late_acts cdc_start))) = [''k2'']" by code_simp
  ultimately show ?thesis by (intro exI[of _ "fold perform late_acts cdc_start"] conjI refl)
qed

section \<open>Snapshots\<close>

text \<open>
  The snapshot of a training run leaves out the cleaned rows that were not trained on. A row that
  cleaning had removed is not among these: it is in the snapshot, though no training saw it.
\<close>

definition snapshot_store :: data_db where
  "snapshot_store = (snd (snd (stored_by (demo_upload ''v1'' None 1\<lparr>in_keys := Some [Some ''k'', Some ''k'']\<rparr>) empty_store)))\<lparr>dd_models := [''m'']\<rparr>"

definition trained_on :: "stored_row list" where
  "trained_on = fst (clean_records snapshot_store [] (captured_rows snapshot_store [1]))"

lemma snapshot_has_untrained_rows:
  "map sr_id trained_on = [2]
    \<and> map_option (map sr_payload \<circ> (\<lambda>(v, _, db). version_rows db (dv_id v)))
        (case snapshot_training_data demo_env None ''m'' ''2'' [1] None [] snapshot_store of Inl _ \<Rightarrow> None | Inr x \<Rightarrow> Some x)
      = Some [[(''x'', JNum 1)], [(''x'', JNum 2)]]"
  by (intro conjI) code_simp+

end
