(* ===== verification/Spec2Isabelle.thy ===== *)
theory Spec2Isabelle
  imports Job_Props Job_Props2 Job_Props3 Job_Findings Rollout_Findings Decision_Engine Outbox_Props Pipeline_Demo Pipeline_Live Validation Cdc_Findings
begin

text \<open>
  A verification library of the O-RAN model adaptation framework
  (\<^verbatim>\<open>src/oran_adapt\<close>): the service that receives a drift event on a deployed model, decides whether
  to reuse, adapt or leave the model, trains and validates a candidate, and moves the alias LIVE
  to it, at once or by a progressive rollout.

  \<^bold>\<open>The parts and how they interact.\<close> An API replica \<^emph>\<open>submits\<close> a job for an event under the lock of
  its model (\<^verbatim>\<open>orchestrator/jobs.py\<close>, \<^verbatim>\<open>locks.py\<close>); a \<^emph>\<open>worker\<close> claims it under a lease and a tenant
  slot and a reaper recovers what a dead worker left (\<^verbatim>\<open>orchestrator/worker.py\<close>). An attempt runs the
  \<^emph>\<open>pipeline\<close> (\<^verbatim>\<open>orchestrator/pipeline.py\<close>): it reports its stages to the job, asks the reuse decision
  (\<^verbatim>\<open>analysis/\<close>), the decision engine (\<^verbatim>\<open>decision/\<close>), the adaptation (\<^verbatim>\<open>adaptation/\<close>) and the validation
  gate (\<^verbatim>\<open>validation/\<close>), and delivers the result: by a \<^emph>\<open>promotion\<close> (\<^verbatim>\<open>registry/promotion.py\<close>) over the
  \<^emph>\<open>registry\<close> and the \<^emph>\<open>deployer\<close>, or by starting a rollout of the \<^emph>\<open>delivery controller\<close>
  (\<^verbatim>\<open>delivery/controller.py\<close>), which promotes later. Every transition writes to an \<^emph>\<open>outbox\<close> that
  dispatchers deliver (\<^verbatim>\<open>notifications/\<close>). The rows all of this works on come from the \<^emph>\<open>data store\<close>
  (\<^verbatim>\<open>datastore/\<close>), which uploads, training snapshots and \<^emph>\<open>change data capture\<close> (\<^verbatim>\<open>cdc/\<close>) write to.

  \<^bold>\<open>Which theory models what.\<close>

  \<^item> Shared: \<open>Prelude\<close> (tables as lists of rows in key order, SQL operations, results that may be
    an error, \<open>safe_system\<close>: the locale of an inductive step relation with an invariant), \<open>Enums\<close>,
    \<open>Errors\<close> (\<^verbatim>\<open>core/enums.py\<close>, \<^verbatim>\<open>core/errors.py\<close>; an exception is a value of \<open>exn\<close>).
  \<^item> Jobs: \<open>Job_State\<close> (\<^verbatim>\<open>core/state_machine.py\<close>), \<open>Drift_Event\<close> (\<^verbatim>\<open>core/schemas.py\<close>), \<open>Job_Store\<close>
    (\<^verbatim>\<open>db/models.py\<close>, \<^verbatim>\<open>session_scope\<close>, locks, outbox and audit rows), \<open>Jobs\<close>, \<open>Worker\<close>. The lemmas are in
    \<open>Job_Moves\<close> (what one transaction does to one job), \<open>Job_Invariant\<close>, \<open>Job_Ops\<close>, \<open>Job_Ops2\<close>,
    \<open>Job_Submit\<close> (every operation keeps the invariant), \<open>Job_System\<close> (the step relation: any number of
    replicas, workers and reapers, one committed transaction per step, any clock) and \<open>Job_Run\<close> (a
    recorded run for the witnesses). \<open>Job_Props\<close>, \<open>Job_Props2\<close>, \<open>Job_Props3\<close> and \<open>Job_Findings\<close> hold the
    properties.
  \<^item> Effects: \<open>Effects\<close> and \<open>Delivery_Db\<close> give code that works on the world and on a database session:
    explicit state passing with errors as values, \<open>None\<close> for a loop that does not return, a weakest
    precondition \<open>wlp\<close> with one equation per combinator and \<open>keepsA\<close>/\<open>keepsR\<close> for what a run leaves
    alone. A list of faults in the state says which file access or database call fails, so every
    property is about every pattern of failures.
  \<^item> LIVE: \<open>Fs_Registry\<close> (\<^verbatim>\<open>ports/registry.py\<close>, \<^verbatim>\<open>adapters/registry/filesystem.py\<close>), \<open>Deployer\<close>
    (\<^verbatim>\<open>registry/deployment.py\<close>, \<^verbatim>\<open>adapters/deployment/alias.py\<close>), \<open>Promotion\<close>. The locale \<open>alias_registry\<close>
    (\<open>Registry_Laws\<close>) is what callers rely on of a registry, \<open>live_delivery\<close> (\<open>Promotion_Laws\<close>)
    what a promotion relies on of a serving system; both are interpreted on the adapters' models.
    The field \<open>w_asked\<close> of the world is not in the code: it lists the alias requests made and whether
    each succeeded, so that a property can say that a run asked to put LIVE back and was refused.
  \<^item> Rollouts: \<open>Health\<close> (\<^verbatim>\<open>core/policies.py\<close>, \<^verbatim>\<open>delivery/health.py\<close>), \<open>Rollout\<close> (the controller and
    \<^verbatim>\<open>adapters/rollout_metrics.py\<close>), \<open>Rollout_Moves\<close> (the abstract machine of a rollout and, in the locale
    \<open>one_move\<close>, what an operation does to one row), \<open>Rollout_System\<close>, \<open>Rollout_Props\<close>, \<open>Rollout_Demo\<close>,
    \<open>Rollout_Findings\<close>.
  \<^item> Members 1 to 4: \<open>Reuse\<close> (drift evidence and the choice of a version to reuse), \<open>Decision_Engine\<close>
    (constraints, rules, the check of an LLM's answer, the agent loop), \<open>Training\<close> (hold-out, leakage
    checks, capability, fallbacks between engines), \<open>Gate\<close>, \<open>Gate_Props\<close>, \<open>Validation\<close>.
  \<^item> The pipeline: \<open>Pipeline\<close> composes all of the above as \<^verbatim>\<open>_run_adaptation_job\<close> does; \<open>Pipeline_Props\<close>
    shows that its stages follow the state machine of jobs, \<open>Pipeline_Live\<close> that its report tells
    the truth about LIVE, \<open>Pipeline_Demo\<close> evaluates runs of it.
  \<^item> Notifications: \<open>Circuits\<close> (the breakers of \<^verbatim>\<open>notifications/dispatcher.py\<close> and \<^verbatim>\<open>llm/guard.py\<close>, both
    instances of the locale \<open>circuit\<close>), \<open>Outbox\<close> (the dispatcher and \<^verbatim>\<open>notifications/service.py\<close>),
    \<open>Outbox_System\<close>, \<open>Outbox_Props\<close>.
  \<^item> Data: \<open>Data_Store\<close> (datasets, versions, rows, reading, cleaning, snapshots), \<open>Cleaning\<close>, \<open>Data_Laws\<close>
    (the invariant \<open>data_ok\<close>, what an operation may add, the step relation), \<open>Data_Props\<close>; \<open>Cdc\<close>
    (events, storing, polling, materializing, the triggers), \<open>Cdc_Laws\<close>, \<open>Cdc_System\<close> (a watched table, its
    changelog, the consumer and the materializer as a step relation), \<open>Cdc_Windows\<close> (which events each
    version holds), \<open>Cdc_Props\<close>, \<open>Cdc_Refine\<close>, \<open>Cdc_Demo\<close> (evaluated runs), \<open>Cdc_Findings\<close>.

  \<^bold>\<open>What the lemmas show.\<close> Of the job queue: the history of a job is a path of the state machine,
  one live job per model (in process mode), an attempt whose lease was lost changes nothing, bounds of
  attempts and tenant slots, recovery of expired leases. Of promotions: all or nothing, only verified artifacts, rollbacks undo the last
  move, everything returns. Of rollouts: refinement of an abstract machine, one active rollout per
  model, bounded exposure, moves only on evidence, no traffic left on a candidate whose row says it
  was turned down. Of the members: an LLM
  never gets a strategy past the constraints, the best version is reused, the gate follows the
  held-out rows and never flips. Of the pipeline: stages and report. Of the outbox: exclusive
  claims, refinement, no message is forgotten. Of the data: versions are immutable and verify, a name
  means one content, cleaning keeps the newest rows, no change is stored twice, and, when the
  changelog commits in the order of its numbers, every change is stored and the cleaned versions are
  the watched table. Properties are marked by a text that opens with their
  claim id; \<^verbatim>\<open>_witness\<close> lemmas apply them to concrete states that are evaluated in the logic.

  \<^bold>\<open>Bounds and fuel.\<close> Loops over lists are structural. Reading a derived version reads its sources: its fuel
  bounds how deep, and \<open>reading_returns\<close> proves that any fuel above the ids asked for gives one result,
  since a source is older than what is derived from it. The polling loop of the
  deployer is a \<open>partial_function\<close> whose result \<open>None\<close> means that it does not return, and
  \<open>moves_return\<close> and \<open>delivery_returns\<close> prove that it does whenever the polling interval is positive. The
  agent loop and the bootstrap loop end by their step counts. Times and measurements are exact
  rationals; floating point and its rounding are not modelled. Python's integers are unbounded, so
  they are \<open>int\<close> and \<open>nat\<close>.

  \<^bold>\<open>Not modelled.\<close> What works on data frames, arrays and model objects through third-party code:
  objects behind a reference, column types, PSI and Kolmogorov-Smirnov statistics, fitting, predicting and
  serializing models, numpy's generator and quantile, Welch's p-value. They are parameters, and a
  property that relies on one names what it relies on. Remote services behind ports (MLflow, Vertex AI,
  SageMaker, Kubernetes, Triton, brokers, OPA, Vault, LLM providers), the HTTP API, the command line,
  configuration sources, observability, migrations and scripts: input and output through frameworks, or tables no modelled component reads.
  The removal of a registry lock file does not fail here, and Python's recursion limit is not reached. Concurrency is modelled
  between committed transactions, not inside one; reason texts, metrics, spans and log
  lines are left out everywhere.
\<close>

end
